(* ===== verification/Prelude.thy ===== *)
theory Prelude
  imports Complex_Main "HOL-Library.AList" "HOL-Library.Char_ord" "HOL-Library.List_Lexorder"
    "HOL-Library.Countable" "HOL-Library.Multiset" "HOL-Library.Sublist"
begin

text \<open>
  Shared vocabulary of the development: the types that stand for Python's own data, the generic
  lemmas on insertion-ordered dictionaries, the exceptions the modelled code raises, and the two
  interfaces (locales) several components implement: a keyed table and a metered resource.
\<close>

section \<open>Types of the Python runtime\<close>

text \<open>
  Python floats are modelled as rationals: the arithmetic of the modelled code (additions,
  products with a rate, comparisons) is exact, rounding is not modelled. Clock readings
  (\<open>time.monotonic\<close>, \<open>time.time\<close>) are arguments of the operations.
\<close>

type_synonym pyfloat = rat

text \<open>
  A Python \<open>dict\<close> keeps insertion order, and a write to an existing key keeps its position:
  an association list, read with \<^const>\<open>map_of\<close>, written with \<^const>\<open>AList.update\<close>, popped with
  \<^const>\<open>AList.delete\<close>.
\<close>

type_synonym ('k, 'v) pydict = "('k \<times> 'v) list"

abbreviation dget :: "('k, 'v) pydict \<Rightarrow> 'k \<Rightarrow> 'v option" where
  "dget \<equiv> map_of"

abbreviation dset :: "'k \<Rightarrow> 'v \<Rightarrow> ('k, 'v) pydict \<Rightarrow> ('k, 'v) pydict" where
  "dset \<equiv> AList.update"

abbreviation dpop :: "'k \<Rightarrow> ('k, 'v) pydict \<Rightarrow> ('k, 'v) pydict" where
  "dpop \<equiv> AList.delete"

abbreviation dkeys :: "('k, 'v) pydict \<Rightarrow> 'k list" where
  "dkeys m \<equiv> map fst m"

abbreviation dvals :: "('k, 'v) pydict \<Rightarrow> 'v list" where
  "dvals m \<equiv> map snd m"

text \<open>The invariant of every dictionary: no key occurs twice.\<close>

abbreviation wf_dict :: "('k, 'v) pydict \<Rightarrow> bool" where
  "wf_dict m \<equiv> distinct (map fst m)"

text \<open>Exceptions, as values: \<open>Inl\<close> an exception, \<open>Inr\<close> a result.\<close>

datatype py_error = KeyError string | ValueError string | IndexError | TypeError | OSError | RuntimeError string | DatabaseError

type_synonym 'a py_result = "py_error + 'a"

text \<open>The values \<open>json.dumps\<close> and \<open>to_dict\<close> produce and \<open>json.loads\<close> returns.\<close>

datatype json =
    JNull
  | JBool bool
  | JInt int
  | JFloat pyfloat
  | JStr string
  | JList "json list"
  | JObj "(string \<times> json) list"

text \<open>JSON values are countable, so an invertible rendering as text exists.\<close>

instance json :: countable
  by countable_datatype

text \<open>
  Sequencing of fallible steps, and the reads the code performs on a decoded JSON object: a
  subscript (\<open>KeyError\<close> when absent) or \<open>get\<close> with a default. A value of another type than the
  code expects is \<open>TypeError\<close>: such objects are outside the model.
\<close>

definition bindE :: "'a py_result \<Rightarrow> ('a \<Rightarrow> 'b py_result) \<Rightarrow> 'b py_result" where
  "bindE r f = (case r of Inl e \<Rightarrow> Inl e | Inr x \<Rightarrow> f x)"

lemma bindE_simps [simp]: "bindE (Inl e) f = Inl e" "bindE (Inr x) f = f x"
  by (simp_all add: bindE_def)

lemma bindE_eq_Inr: "bindE r f = Inr y \<longleftrightarrow> (\<exists>x. r = Inr x \<and> f x = Inr y)"
  by (cases r) auto

fun mapE :: "('a \<Rightarrow> 'b py_result) \<Rightarrow> 'a list \<Rightarrow> 'b list py_result" where
  "mapE f [] = Inr []"
| "mapE f (x # xs) = bindE (f x) (\<lambda>y. bindE (mapE f xs) (\<lambda>ys. Inr (y # ys)))"

lemma mapE_total: "(\<And>x. x \<in> set xs \<Longrightarrow> f x = Inr (g x)) \<Longrightarrow> mapE f xs = Inr (map g xs)"
  by (induction xs) auto

fun as_str :: "json \<Rightarrow> string py_result" where
  "as_str (JStr s) = Inr s"
| "as_str _ = Inl TypeError"

fun as_int :: "json \<Rightarrow> int py_result" where
  "as_int (JInt i) = Inr i"
| "as_int _ = Inl TypeError"

fun as_bool :: "json \<Rightarrow> bool py_result" where
  "as_bool (JBool b) = Inr b"
| "as_bool _ = Inl TypeError"

fun as_num :: "json \<Rightarrow> pyfloat py_result" where
  "as_num (JInt i) = Inr (of_int i)"
| "as_num (JFloat x) = Inr x"
| "as_num (JBool b) = Inr (if b then 1 else 0)"
| "as_num _ = Inl TypeError"

fun as_list :: "json \<Rightarrow> json list py_result" where
  "as_list (JList xs) = Inr xs"
| "as_list _ = Inl TypeError"

fun as_obj :: "json \<Rightarrow> (string \<times> json) list py_result" where
  "as_obj (JObj d) = Inr d"
| "as_obj _ = Inl TypeError"

fun as_opt_str :: "json \<Rightarrow> string option py_result" where
  "as_opt_str JNull = Inr None"
| "as_opt_str (JStr s) = Inr (Some s)"
| "as_opt_str _ = Inl TypeError"

definition opt_json :: "('a \<Rightarrow> json) \<Rightarrow> 'a option \<Rightarrow> json" where
  "opt_json f x = (case x of None \<Rightarrow> JNull | Some y \<Rightarrow> f y)"

definition need :: "(json \<Rightarrow> 'a py_result) \<Rightarrow> string \<Rightarrow> (string \<times> json) list \<Rightarrow> 'a py_result" where
  "need conv k d = (case map_of d k of None \<Rightarrow> Inl (KeyError k) | Some v \<Rightarrow> conv v)"

definition get_or :: "(json \<Rightarrow> 'a py_result) \<Rightarrow> string \<Rightarrow> 'a \<Rightarrow> (string \<times> json) list \<Rightarrow> 'a py_result" where
  "get_or conv k dflt d = (case map_of d k of None \<Rightarrow> Inr dflt | Some v \<Rightarrow> conv v)"

text \<open>\<open>int(x)\<close> of a float: truncation towards zero.\<close>

definition py_int :: "pyfloat \<Rightarrow> int" where
  "py_int x = (if x \<ge> 0 then \<lfloor>x\<rfloor> else \<lceil>x\<rceil>)"

text \<open>Python's \<open>str\<close> of an integer.\<close>

fun show_nat :: "nat \<Rightarrow> string" where
  "show_nat n = (if n < 10 then [char_of (48 + n)] else show_nat (n div 10) @ [char_of (48 + n mod 10)])"

declare show_nat.simps [simp del]

definition show_int :: "int \<Rightarrow> string" where
  "show_int i = (if i < 0 then ''-'' @ show_nat (nat (- i)) else show_nat (nat i))"

text \<open>\<open>d.get(k)\<close> and the truth value Python gives a decoded JSON value.\<close>

definition get_json :: "string \<Rightarrow> (string \<times> json) list \<Rightarrow> json" where
  "get_json k d = (case map_of d k of None \<Rightarrow> JNull | Some v \<Rightarrow> v)"

fun json_truthy :: "json \<Rightarrow> bool" where
  "json_truthy JNull = False"
| "json_truthy (JBool b) = b"
| "json_truthy (JInt i) = (i \<noteq> 0)"
| "json_truthy (JFloat x) = (x \<noteq> 0)"
| "json_truthy (JStr s) = (s \<noteq> '''')"
| "json_truthy (JList xs) = (xs \<noteq> [])"
| "json_truthy (JObj d) = (d \<noteq> [])"

named_theorems dict_simps \<open>rewriting of dictionary reads after dictionary writes\<close>
named_theorems dict_intros \<open>preservation of the dictionary invariant\<close>

section \<open>Lists\<close>

lemma length_filter_mono:
  "(\<And>x. x \<in> set xs \<Longrightarrow> P x \<Longrightarrow> Q x) \<Longrightarrow> length (filter P xs) \<le> length (filter Q xs)"
  by (induction xs) auto

lemma distinct_submset: "mset xs \<subseteq># mset ys \<Longrightarrow> distinct ys \<Longrightarrow> distinct xs"
proof -
  assume "mset xs \<subseteq># mset ys" and d: "distinct ys"
  then obtain zs where "mset ys = mset (xs @ zs)" by (metis ex_mset mset_append mset_subset_eq_exists_conv)
  with d have "distinct (xs @ zs)" using mset_eq_imp_distinct_iff by blast
  then show ?thesis by simp
qed

lemma distinct_sort_key_filter: "distinct (map f xs) \<Longrightarrow> distinct (map f (sort_key g (filter P xs)))"
  by (metis distinct_map_filter mset_eq_imp_distinct_iff mset_map mset_sort)

section \<open>Dictionaries\<close>

lemma dget_dset [dict_simps, simp]: "dget (dset k v m) k' = (if k' = k then Some v else dget m k')"
  by (simp add: update_conv')

lemma dget_dpop [dict_simps, simp]: "dget (dpop k m) k' = (if k' = k then None else dget m k')"
  by (simp add: delete_conv')

lemma wf_dset [dict_intros, intro]: "wf_dict m \<Longrightarrow> wf_dict (dset k v m)"
  by (rule distinct_update)

lemma wf_dpop [dict_intros, intro]: "wf_dict m \<Longrightarrow> wf_dict (dpop k m)"
  by (rule distinct_delete)

lemma wf_filter [dict_intros, intro]: "wf_dict m \<Longrightarrow> wf_dict (filter P m)"
  by (simp add: distinct_map_filter)

lemma dkeys_dset_set [dict_simps, simp]: "set (dkeys (dset k v m)) = insert k (set (dkeys m))"
  by (induction m) auto

lemma length_dset: "length (dset k v m) = (if k \<in> fst ` set m then length m else Suc (length m))"
  by (induction m) auto

lemma length_dpop_le [simp]: "length (dpop k m) \<le> length m"
  by (induction m) auto

lemma length_dpop: "wf_dict m \<Longrightarrow> k \<in> fst ` set m \<Longrightarrow> Suc (length (dpop k m)) = length m"
proof (induction m)
  case Nil
  then show ?case by simp
next
  case (Cons p m)
  show ?case
  proof (cases "fst p = k")
    case True
    with Cons.prems have "k \<notin> fst ` set m" by auto
    then have "dpop k m = m" by (simp add: delete_id)
    with True show ?thesis by (cases p) simp
  next
    case False
    with Cons show ?thesis by (cases p) auto
  qed
qed

lemma set_dset_subset: "set (dset k v m) \<subseteq> insert (k, v) (set m)"
  by (induction m) auto

lemma set_dpop_subset: "set (dpop k m) \<subseteq> set m"
  by (induction m) auto

lemma dget_None_iff: "dget m k = None \<longleftrightarrow> k \<notin> fst ` set m"
  by (rule map_of_eq_None_iff)

lemma dget_filter:
  "wf_dict m \<Longrightarrow> dget (filter P m) k =
     (case dget m k of None \<Rightarrow> None | Some v \<Rightarrow> if P (k, v) then Some v else None)"
proof (induction m)
  case Nil
  then show ?case by simp
next
  case (Cons p m)
  then have IH: "dget (filter P m) k =
      (case dget m k of None \<Rightarrow> None | Some v \<Rightarrow> if P (k, v) then Some v else None)"
    and notin: "fst p \<notin> fst ` set m" by auto
  from notin have "dget m (fst p) = None" by (simp add: dget_None_iff)
  with IH show ?case by (cases p) (auto split: option.splits)
qed

lemma dget_in_dvals: "dget m k = Some v \<Longrightarrow> v \<in> set (dvals m)"
  by (force dest: map_of_SomeD)

text \<open>Reading a dictionary whose values all satisfy \<open>P\<close>.\<close>

lemma dget_all: "\<forall>v \<in> set (dvals m). P v \<Longrightarrow> dget m k = Some v \<Longrightarrow> P v"
  by (blast dest: dget_in_dvals)

lemma dvals_dset_all:
  "\<forall>x \<in> set (dvals m). P x \<Longrightarrow> P v \<Longrightarrow> \<forall>x \<in> set (dvals (dset k v m)). P x"
  using set_dset_subset [of k v m] by fastforce

lemma dvals_dpop_all: "\<forall>x \<in> set (dvals m). P x \<Longrightarrow> \<forall>x \<in> set (dvals (dpop k m)). P x"
  using set_dpop_subset [of k m] by fastforce

text \<open>
  The code's eviction idiom: collect the keys of the entries to drop, then delete them one by
  one. On a dictionary it is a filter.
\<close>

definition dpurge :: "('k \<times> 'v \<Rightarrow> bool) \<Rightarrow> ('k, 'v) pydict \<Rightarrow> ('k, 'v) pydict" where
  "dpurge stale m = foldl (\<lambda>m k. dpop k m) m (map fst (filter stale m))"

lemma foldl_dpop: "foldl (\<lambda>m k. dpop k m) m ks = filter (\<lambda>p. fst p \<notin> set ks) m"
  by (induction ks arbitrary: m) (auto simp: AList.delete_eq case_prod_beta intro!: filter_cong)

lemma dpurge_filter: "wf_dict m \<Longrightarrow> dpurge stale m = filter (\<lambda>p. \<not> stale p) m"
  unfolding dpurge_def foldl_dpop
  by (rule filter_cong) (auto simp: image_iff, metis eq_key_imp_eq_value prod.collapse)

lemma dget_dpurge [dict_simps]:
  "wf_dict m \<Longrightarrow> dget (dpurge stale m) k =
     (case dget m k of None \<Rightarrow> None | Some v \<Rightarrow> if stale (k, v) then None else Some v)"
  by (simp add: dpurge_filter dget_filter split: option.splits)

lemma wf_dpurge [dict_intros, intro]: "wf_dict m \<Longrightarrow> wf_dict (dpurge stale m)"
  by (simp add: dpurge_filter wf_filter)

lemma set_dpurge_subset: "set (dpurge stale m) \<subseteq> set m"
  by (auto simp: dpurge_def foldl_dpop)

lemma length_dpurge_le: "length (dpurge stale m) \<le> length m"
  by (simp add: dpurge_def foldl_dpop)

text \<open>A dictionary that stores every record under the record's own key.\<close>

definition keyed :: "('v \<Rightarrow> 'k) \<Rightarrow> ('k, 'v) pydict \<Rightarrow> bool" where
  "keyed f m \<longleftrightarrow> wf_dict m \<and> (\<forall>(k, v) \<in> set m. f v = k)"

lemma keyed_vals:
  assumes "keyed f m"
  shows "v \<in> set (dvals m) \<longleftrightarrow> dget m (f v) = Some v" and "distinct (map f (dvals m))"
proof -
  show "v \<in> set (dvals m) \<longleftrightarrow> dget m (f v) = Some v"
    using assms by (force simp: keyed_def dest: map_of_SomeD)
  have "map f (dvals m) = dkeys m" using assms by (auto simp: keyed_def)
  then show "distinct (map f (dvals m))" using assms by (simp only: keyed_def)
qed

lemma keyed_dset: "keyed f m \<Longrightarrow> f x = k \<Longrightarrow> keyed f (dset k x m)"
  unfolding keyed_def using set_dset_subset [of k x m] by (auto simp: distinct_update)

lemma keyed_dpop: "keyed f m \<Longrightarrow> keyed f (dpop i m)"
  unfolding keyed_def using set_dpop_subset [of i m] by (auto simp: distinct_delete)

lemma keyed_dpurge: "keyed f m \<Longrightarrow> keyed f (dpurge stale m)"
  unfolding keyed_def using set_dpurge_subset [of stale m] by (auto simp: wf_dpurge)

lemma keyed_wf: "keyed f m \<Longrightarrow> wf_dict m"
  by (simp add: keyed_def)

lemma keyed_Nil [simp]: "keyed f []"
  by (simp add: keyed_def)

lemma keyed_get: "keyed f m \<Longrightarrow> dget m k = Some v \<Longrightarrow> f v = k"
  by (auto simp: keyed_def dest: map_of_SomeD)

section \<open>Interface: a keyed table\<close>

text \<open>
  What the stateful components rely on: a read after a write or a removal. Dictionaries provide
  it; the clients prove their facts from the laws alone.
\<close>

locale keyed_table =
  fixes lookup :: "'t \<Rightarrow> 'k \<Rightarrow> 'v option"
    and save :: "'k \<Rightarrow> 'v \<Rightarrow> 't \<Rightarrow> 't"
    and remove :: "'k \<Rightarrow> 't \<Rightarrow> 't"
    and valid :: "'t \<Rightarrow> bool"
  assumes lookup_save: "lookup (save k v t) k' = (if k' = k then Some v else lookup t k')"
    and lookup_remove: "lookup (remove k t) k' = (if k' = k then None else lookup t k')"
    and valid_save: "valid t \<Longrightarrow> valid (save k v t)"
    and valid_remove: "valid t \<Longrightarrow> valid (remove k t)"
begin

lemma lookup_save_all:
  "lookup (foldl (\<lambda>t (k, v). save k v t) t kvs) k =
     (case map_of (rev kvs) k of Some v \<Rightarrow> Some v | None \<Rightarrow> lookup t k)"
  by (induction kvs arbitrary: t) (auto simp: lookup_save map_add_def split: option.splits)

lemma lookup_remove_all:
  "lookup (foldl (\<lambda>t k. remove k t) t ks) k = (if k \<in> set ks then None else lookup t k)"
  by (induction ks arbitrary: t) (auto simp: lookup_remove)

lemma valid_remove_all: "valid t \<Longrightarrow> valid (foldl (\<lambda>t k. remove k t) t ks)"
  by (induction ks arbitrary: t) (auto intro: valid_remove)

end

interpretation pydict_table: keyed_table map_of AList.update AList.delete "\<lambda>m. distinct (map fst m)"
  by unfold_locales (auto intro: distinct_update distinct_delete)

section \<open>Interface: a metered resource\<close>

text \<open>
  A state machine that grants or refuses requests and refills at a bounded rate. \<open>level s t\<close> is
  what the state still has to give at time \<open>t\<close>; a granted request is paid from the level, and
  between two requests the level grows by at most \<open>rate\<close> per unit of time. The client's theorem is
  the rate bound over any run.
\<close>

fun metered_run :: "('s \<Rightarrow> 'e \<Rightarrow> bool \<times> 's) \<Rightarrow> 's \<Rightarrow> 'e list \<Rightarrow> bool list \<times> 's" where
  "metered_run step s [] = ([], s)"
| "metered_run step s (e # es) =
     (let (ok, s1) = step s e; (oks, s2) = metered_run step s1 es in (ok # oks, s2))"

definition granted :: "('e \<Rightarrow> pyfloat) \<Rightarrow> 'e list \<Rightarrow> bool list \<Rightarrow> pyfloat" where
  "granted cost es oks = (\<Sum>(e, ok) \<leftarrow> zip es oks. if ok then cost e else 0)"

fun timed_from :: "('e \<Rightarrow> pyfloat) \<Rightarrow> pyfloat \<Rightarrow> 'e list \<Rightarrow> bool" where
  "timed_from time_of t [] = True"
| "timed_from time_of t (e # es) = (t \<le> time_of e \<and> timed_from time_of (time_of e) es)"

fun end_time :: "('e \<Rightarrow> pyfloat) \<Rightarrow> pyfloat \<Rightarrow> 'e list \<Rightarrow> pyfloat" where
  "end_time time_of t [] = t"
| "end_time time_of t (e # es) = end_time time_of (time_of e) es"

locale metered_resource =
  fixes step :: "'s \<Rightarrow> 'e \<Rightarrow> bool \<times> 's"
    and good :: "'s \<Rightarrow> pyfloat \<Rightarrow> bool"
    and sane :: "'e \<Rightarrow> bool"
    and time_of :: "'e \<Rightarrow> pyfloat"
    and cost :: "'e \<Rightarrow> pyfloat"
    and level :: "'s \<Rightarrow> pyfloat \<Rightarrow> pyfloat"
    and rate :: pyfloat
  assumes good_step: "good s t \<Longrightarrow> sane e \<Longrightarrow> t \<le> time_of e \<Longrightarrow> good (snd (step s e)) (time_of e)"
    and pays: "good s t \<Longrightarrow> sane e \<Longrightarrow> t \<le> time_of e \<Longrightarrow>
      (if fst (step s e) then cost e else 0) + level (snd (step s e)) (time_of e)
        \<le> level s t + rate * (time_of e - t)"
    and level_nonneg: "good s t \<Longrightarrow> 0 \<le> level s t"
begin

lemma run_pays:
  assumes "good s t" and "\<forall>e \<in> set es. sane e" and "timed_from time_of t es"
  shows "granted cost es (fst (metered_run step s es)) \<le> level s t + rate * (end_time time_of t es - t)"
  using assms
proof (induction es arbitrary: s t)
  case Nil
  then show ?case by (simp add: granted_def level_nonneg)
next
  case (Cons e es)
  obtain ok s1 where st: "step s e = (ok, s1)" by (cases "step s e")
  from Cons.prems have sane: "sane e" and le: "t \<le> time_of e" by auto
  have "good s1 (time_of e)" using good_step [OF Cons.prems(1) sane le] st by simp
  with Cons have IH: "granted cost es (fst (metered_run step s1 es))
      \<le> level s1 (time_of e) + rate * (end_time time_of (time_of e) es - time_of e)" by simp
  have "(if ok then cost e else 0) + level s1 (time_of e) \<le> level s t + rate * (time_of e - t)"
    using pays [OF Cons.prems(1) sane le] st by simp
  with IH have "(if ok then cost e else 0) + granted cost es (fst (metered_run step s1 es))
      \<le> level s t + rate * (time_of e - t) + rate * (end_time time_of (time_of e) es - time_of e)"
    by linarith
  also have "\<dots> = level s t + rate * (end_time time_of t (e # es) - t)"
    by (simp add: algebra_simps)
  finally show ?case
    by (simp add: st granted_def case_prod_beta split: if_splits)
qed

end

end
