(* ===== verification/Token_Bucket.thy ===== *)
theory Token_Bucket
  imports Prelude
begin

text \<open>
  The daemon's token-bucket rate limiter (\<open>src/picosentry/sandbox/ratelimit/limiter.py\<close>): one
  bucket per actor, an optional global bucket that every request pays first, and the eviction of
  idle buckets. The clock is read once per call and passed as \<open>now\<close>. The theorems: a bucket never
  holds more than its burst or less than nothing, and over any run an actor is granted at most
  \<open>burst_size + rate_per_second * elapsed\<close> tokens, evictions included.
\<close>

section \<open>Model\<close>

record rate_limit_config =
  rate_per_second :: pyfloat
  burst_size :: int
  max_actors :: nat
  idle_timeout_seconds :: int
  global_rps :: pyfloat

definition default_rate_limit_config :: rate_limit_config where
  "default_rate_limit_config =
     \<lparr>rate_per_second = 2, burst_size = 10, max_actors = 10000, idle_timeout_seconds = 3600,
      global_rps = 25\<rparr>"

record token_bucket =
  tokens :: pyfloat
  last_refill :: pyfloat
  b_rate :: pyfloat
  b_burst :: int

definition new_bucket :: "pyfloat \<Rightarrow> pyfloat \<Rightarrow> int \<Rightarrow> token_bucket" where
  "new_bucket now rate burst =
     \<lparr>tokens = of_int burst, last_refill = now, b_rate = rate, b_burst = burst\<rparr>"

definition refill :: "pyfloat \<Rightarrow> token_bucket \<Rightarrow> token_bucket" where
  "refill now b =
     (let elapsed = now - last_refill b
      in b\<lparr>tokens := min (of_int (b_burst b)) (tokens b + elapsed * b_rate b), last_refill := now\<rparr>)"

definition consume :: "pyfloat \<Rightarrow> pyfloat \<Rightarrow> token_bucket \<Rightarrow> bool \<times> token_bucket" where
  "consume now n b =
     (let b1 = refill now b
      in if tokens b1 \<ge> n then (True, b1\<lparr>tokens := tokens b1 - n\<rparr>) else (False, b1))"

record limiter =
  cfg :: rate_limit_config
  buckets :: "(string, token_bucket) pydict"
  global_bucket :: "token_bucket option"
  last_cleanup :: pyfloat

definition new_limiter :: "pyfloat \<Rightarrow> rate_limit_config \<Rightarrow> limiter" where
  "new_limiter now c =
     \<lparr>cfg = c, buckets = [],
      global_bucket =
        (if global_rps c > 0
         then Some (new_bucket now (global_rps c) \<lfloor>global_rps c * 10\<rfloor>) else None),
      last_cleanup = now\<rparr>"

definition cleanup_stale :: "pyfloat \<Rightarrow> limiter \<Rightarrow> limiter" where
  "cleanup_stale now l =
     (let cutoff = now - of_int (idle_timeout_seconds (cfg l))
      in l\<lparr>buckets := dpurge (\<lambda>(a, b). last_refill b < cutoff) (buckets l)\<rparr>)"

text \<open>
  The two halves of \<open>allow\<close>: the global bucket, then the actor's bucket with its creation, the
  eviction when the table is full, and the periodic eviction.
\<close>

definition global_consume :: "pyfloat \<Rightarrow> pyfloat \<Rightarrow> limiter \<Rightarrow> bool \<times> limiter" where
  "global_consume now n l =
     (case global_bucket l of
        None \<Rightarrow> (True, l)
      | Some g \<Rightarrow> (let (ok, g1) = consume now n g in (ok, l\<lparr>global_bucket := Some g1\<rparr>)))"

definition ensure_bucket :: "pyfloat \<Rightarrow> string \<Rightarrow> limiter \<Rightarrow> limiter" where
  "ensure_bucket now actor l =
     (if dget (buckets l) actor = None
      then let l1 = (if length (buckets l) \<ge> max_actors (cfg l) then cleanup_stale now l else l)
           in l1\<lparr>buckets :=
                dset actor (new_bucket now (rate_per_second (cfg l)) (burst_size (cfg l))) (buckets l1)\<rparr>
      else l)"

definition actor_consume :: "pyfloat \<Rightarrow> string \<Rightarrow> pyfloat \<Rightarrow> limiter \<Rightarrow> bool \<times> limiter" where
  "actor_consume now actor n l =
     (case dget (buckets l) actor of
        None \<Rightarrow> (False, l)
      | Some b \<Rightarrow> (let (ok, b1) = consume now n b in (ok, l\<lparr>buckets := dset actor b1 (buckets l)\<rparr>)))"

definition allow :: "pyfloat \<Rightarrow> string \<Rightarrow> pyfloat \<Rightarrow> limiter \<Rightarrow> bool \<times> limiter" where
  "allow now actor n l =
     (let (gok, l1) = global_consume now n l
      in if \<not> gok then (False, l1)
         else let l2 = ensure_bucket now actor l1;
                  (allowed, l3) = actor_consume now actor n l2;
                  l4 = (if now - last_cleanup l3 > 60
                        then (cleanup_stale now l3)\<lparr>last_cleanup := now\<rparr> else l3)
              in (allowed, l4))"

definition reset :: "string option \<Rightarrow> limiter \<Rightarrow> limiter" where
  "reset actor l =
     (case actor of
        None \<Rightarrow> l\<lparr>buckets := []\<rparr>
      | Some a \<Rightarrow> if a = [] then l\<lparr>buckets := []\<rparr> else l\<lparr>buckets := dpop a (buckets l)\<rparr>)"

record limiter_status =
  st_actor :: string
  tokens_available :: pyfloat
  st_burst :: int
  st_rate :: pyfloat
  limited :: bool

text \<open>
  \<open>get_status\<close> refills the bucket it reports on. The rounding of the reported number to two
  places (\<open>round2\<close>) is a parameter: it only concerns the displayed value.
\<close>

definition get_status :: "(pyfloat \<Rightarrow> pyfloat) \<Rightarrow> pyfloat \<Rightarrow> string \<Rightarrow> limiter \<Rightarrow> limiter_status \<times> limiter" where
  "get_status round2 now actor l =
     (case dget (buckets l) actor of
        Some b \<Rightarrow>
          (let b1 = refill now b
           in (\<lparr>st_actor = actor, tokens_available = round2 (tokens b1), st_burst = b_burst b1,
                st_rate = b_rate b1, limited = tokens b1 < 1\<rparr>,
               l\<lparr>buckets := dset actor b1 (buckets l)\<rparr>))
      | None \<Rightarrow>
          (\<lparr>st_actor = actor, tokens_available = of_int (burst_size (cfg l)),
            st_burst = burst_size (cfg l), st_rate = rate_per_second (cfg l), limited = False\<rparr>, l))"

section \<open>Buckets\<close>

definition bucket_ok :: "pyfloat \<Rightarrow> token_bucket \<Rightarrow> bool" where
  "bucket_ok t b \<longleftrightarrow> 0 \<le> tokens b \<and> tokens b \<le> of_int (b_burst b) \<and> 0 \<le> b_rate b \<and> last_refill b \<le> t"

text \<open>What a bucket can give at time \<open>t\<close>.\<close>

definition bucket_level :: "pyfloat \<Rightarrow> token_bucket \<Rightarrow> pyfloat" where
  "bucket_level t b = min (of_int (b_burst b)) (tokens b + (t - last_refill b) * b_rate b)"

lemma bucket_ok_new: "0 \<le> burst \<Longrightarrow> 0 \<le> rate \<Longrightarrow> bucket_ok now (new_bucket now rate burst)"
  by (simp add: bucket_ok_def new_bucket_def)

lemma bucket_ok_later: "bucket_ok t b \<Longrightarrow> t \<le> t' \<Longrightarrow> bucket_ok t' b"
  by (auto simp: bucket_ok_def)

lemma bucket_ok_refill: "bucket_ok t b \<Longrightarrow> t \<le> now \<Longrightarrow> bucket_ok now (refill now b)"
  by (auto simp: bucket_ok_def refill_def Let_def min_def)

lemma bucket_ok_consume:
  "bucket_ok t b \<Longrightarrow> t \<le> now \<Longrightarrow> 0 \<le> n \<Longrightarrow> bucket_ok now (snd (consume now n b))"
  using bucket_ok_refill [of t b now] by (auto simp: consume_def Let_def bucket_ok_def)

lemma refill_level: "tokens (refill now b) = bucket_level now b"
  by (simp add: refill_def bucket_level_def Let_def)

lemma consume_fields [simp]:
  "b_burst (snd (consume now n b)) = b_burst b"
  "b_rate (snd (consume now n b)) = b_rate b"
  "last_refill (snd (consume now n b)) = now"
  by (simp_all add: consume_def refill_def Let_def)

lemma bucket_level_now: "bucket_ok t b \<Longrightarrow> last_refill b = now \<Longrightarrow> bucket_level now b = tokens b"
  by (simp add: bucket_level_def bucket_ok_def min_def)

lemma bucket_level_nonneg: "bucket_ok t b \<Longrightarrow> 0 \<le> bucket_level t b"
  by (auto simp: bucket_ok_def bucket_level_def min_def)

lemma bucket_level_grows:
  assumes "bucket_ok t b" and "t \<le> now"
  shows "bucket_level now b \<le> bucket_level t b + b_rate b * (now - t)"
proof -
  have "0 \<le> b_rate b * (now - t)" using assms by (simp add: bucket_ok_def)
  moreover have "(now - last_refill b) * b_rate b = (t - last_refill b) * b_rate b + b_rate b * (now - t)"
    by (simp add: algebra_simps)
  ultimately show ?thesis by (auto simp: bucket_level_def min_def)
qed

text \<open>A granted request is paid in full from the bucket's level; a refused one costs nothing.\<close>

lemma consume_pays:
  assumes "bucket_ok t b" and "t \<le> now" and "0 \<le> n"
  shows "(if fst (consume now n b) then n else 0) + bucket_level now (snd (consume now n b))
           = bucket_level now b"
proof -
  have "bucket_ok now (snd (consume now n b))" using assms by (rule bucket_ok_consume)
  then have "bucket_level now (snd (consume now n b)) = tokens (snd (consume now n b))"
    by (rule bucket_level_now) simp
  then show ?thesis by (auto simp: consume_def Let_def refill_level)
qed

section \<open>The limiter's invariant\<close>

definition config_ok :: "rate_limit_config \<Rightarrow> bool" where
  "config_ok c \<longleftrightarrow> 0 \<le> rate_per_second c \<and> 0 \<le> burst_size c \<and>
     of_int (burst_size c) \<le> of_int (idle_timeout_seconds c) * rate_per_second c"

text \<open>The buckets the limiter itself creates, and its global bucket.\<close>

definition actor_bucket_ok :: "pyfloat \<Rightarrow> limiter \<Rightarrow> token_bucket \<Rightarrow> bool" where
  "actor_bucket_ok t l b \<longleftrightarrow> bucket_ok t b \<and> b_rate b = rate_per_second (cfg l) \<and> b_burst b = burst_size (cfg l)"

definition global_bucket_ok :: "pyfloat \<Rightarrow> limiter \<Rightarrow> bool" where
  "global_bucket_ok t l \<longleftrightarrow>
     (case global_bucket l of
        None \<Rightarrow> global_rps (cfg l) \<le> 0
      | Some g \<Rightarrow> bucket_ok t g \<and> b_rate g = global_rps (cfg l) \<and> b_burst g = \<lfloor>global_rps (cfg l) * 10\<rfloor>)"

definition limiter_ok :: "pyfloat \<Rightarrow> limiter \<Rightarrow> bool" where
  "limiter_ok t l \<longleftrightarrow> wf_dict (buckets l) \<and> list_all (actor_bucket_ok t l) (dvals (buckets l)) \<and>
     global_bucket_ok t l \<and> config_ok (cfg l)"

lemma limiter_ok_new: "config_ok c \<Longrightarrow> limiter_ok now (new_limiter now c)"
  by (auto simp: limiter_ok_def new_limiter_def config_ok_def global_bucket_ok_def new_bucket_def
      bucket_ok_def)

lemma limiter_ok_bucket: "limiter_ok t l \<Longrightarrow> dget (buckets l) a = Some b \<Longrightarrow> actor_bucket_ok t l b"
  by (auto simp: limiter_ok_def list_all_iff dest: dget_in_dvals)

lemma limiter_ok_later: "limiter_ok t l \<Longrightarrow> t \<le> t' \<Longrightarrow> limiter_ok t' l"
  by (auto simp: limiter_ok_def list_all_iff actor_bucket_ok_def global_bucket_ok_def
      intro: bucket_ok_later split: option.splits)

text \<open>Writing one good bucket, removing some, and replacing the global bucket keep the invariant.\<close>

lemma limiter_ok_write:
  "limiter_ok t l \<Longrightarrow> actor_bucket_ok t l b \<Longrightarrow> limiter_ok t (l\<lparr>buckets := dset a b (buckets l)\<rparr>)"
  using dvals_dset_all [of "buckets l" "actor_bucket_ok t l" b a]
  by (auto simp: limiter_ok_def list_all_iff actor_bucket_ok_def global_bucket_ok_def
      split: option.splits)

lemma cleanup_stale_frame [simp]:
  "cfg (cleanup_stale now l) = cfg l"
  "global_bucket (cleanup_stale now l) = global_bucket l"
  "last_cleanup (cleanup_stale now l) = last_cleanup l"
  by (simp_all add: cleanup_stale_def Let_def)

lemma cleanup_stale_dget:
  "wf_dict (buckets l) \<Longrightarrow> dget (buckets (cleanup_stale now l)) a =
    (case dget (buckets l) a of
       None \<Rightarrow> None
     | Some b \<Rightarrow> if last_refill b < now - of_int (idle_timeout_seconds (cfg l)) then None else Some b)"
  by (simp add: cleanup_stale_def Let_def dget_dpurge split: option.splits)

lemma limiter_ok_cleanup: "limiter_ok t l \<Longrightarrow> limiter_ok t (cleanup_stale now l)"
  by (auto simp: limiter_ok_def list_all_iff actor_bucket_ok_def global_bucket_ok_def
      cleanup_stale_def Let_def wf_dpurge dest!: subsetD [OF set_dpurge_subset] split: option.splits)

lemma global_consume_frame [simp]:
  "cfg (snd (global_consume now n l)) = cfg l"
  "buckets (snd (global_consume now n l)) = buckets l"
  "last_cleanup (snd (global_consume now n l)) = last_cleanup l"
  by (simp_all add: global_consume_def case_prod_beta Let_def split: option.splits)

lemma ensure_bucket_frame [simp]:
  "cfg (ensure_bucket now a l) = cfg l"
  "global_bucket (ensure_bucket now a l) = global_bucket l"
  "last_cleanup (ensure_bucket now a l) = last_cleanup l"
  by (simp_all add: ensure_bucket_def Let_def)

lemma actor_consume_frame [simp]:
  "cfg (snd (actor_consume now a n l)) = cfg l"
  "global_bucket (snd (actor_consume now a n l)) = global_bucket l"
  "last_cleanup (snd (actor_consume now a n l)) = last_cleanup l"
  by (simp_all add: actor_consume_def case_prod_beta Let_def split: option.splits)

lemma limiter_ok_global_consume:
  assumes "limiter_ok t l" and "t \<le> now" and "0 \<le> n"
  shows "limiter_ok now (snd (global_consume now n l))"
proof (cases "global_bucket l")
  case None
  with assms show ?thesis by (simp add: global_consume_def limiter_ok_later)
next
  case (Some g)
  with assms have "bucket_ok now (snd (consume now n g))"
    by (intro bucket_ok_consume) (auto simp: limiter_ok_def global_bucket_ok_def)
  moreover have "limiter_ok now l" using assms by (blast intro: limiter_ok_later)
  ultimately show ?thesis using Some
    by (auto simp: global_consume_def case_prod_beta Let_def limiter_ok_def global_bucket_ok_def
        list_all_iff actor_bucket_ok_def)
qed

lemma limiter_ok_ensure_bucket: "limiter_ok now l \<Longrightarrow> limiter_ok now (ensure_bucket now a l)"
proof -
  assume ok: "limiter_ok now l"
  let ?l1 = "if length (buckets l) \<ge> max_actors (cfg l) then cleanup_stale now l else l"
  have ok1: "limiter_ok now ?l1" using ok by (simp add: limiter_ok_cleanup)
  have "actor_bucket_ok now ?l1 (new_bucket now (rate_per_second (cfg l)) (burst_size (cfg l)))"
    using ok by (auto simp: actor_bucket_ok_def limiter_ok_def config_ok_def bucket_ok_def new_bucket_def)
  from limiter_ok_write [OF ok1 this, of a] ok show ?thesis
    by (simp add: ensure_bucket_def Let_def)
qed

lemma limiter_ok_actor_consume:
  assumes "limiter_ok now l" and "0 \<le> n"
  shows "limiter_ok now (snd (actor_consume now a n l))"
proof (cases "dget (buckets l) a")
  case None
  with assms show ?thesis by (simp add: actor_consume_def)
next
  case (Some b)
  from limiter_ok_bucket [OF assms(1) Some] have "actor_bucket_ok now l (snd (consume now n b))"
    using assms(2) by (auto simp: actor_bucket_ok_def intro: bucket_ok_consume)
  from limiter_ok_write [OF assms(1) this, of a] Some show ?thesis
    by (simp add: actor_consume_def case_prod_beta Let_def)
qed

lemmas limiter_ok_steps = limiter_ok_global_consume limiter_ok_ensure_bucket limiter_ok_actor_consume
  limiter_ok_cleanup

lemma limiter_ok_stamp [simp]: "limiter_ok t (l\<lparr>last_cleanup := x\<rparr>) = limiter_ok t l"
  by (simp add: limiter_ok_def list_all_iff actor_bucket_ok_def global_bucket_ok_def
      cong: option.case_cong)

lemma limiter_ok_allow:
  assumes "limiter_ok t l" and "t \<le> now" and "0 \<le> n"
  shows "limiter_ok now (snd (allow now a n l))"
  using assms by (simp add: allow_def case_prod_beta Let_def limiter_ok_steps)

section \<open>The rate bound\<close>

definition actor_level :: "string \<Rightarrow> limiter \<Rightarrow> pyfloat \<Rightarrow> pyfloat" where
  "actor_level a l t =
     (case dget (buckets l) a of None \<Rightarrow> of_int (burst_size (cfg l)) | Some b \<Rightarrow> bucket_level t b)"

lemma actor_level_nonneg: "limiter_ok t l \<Longrightarrow> 0 \<le> actor_level a l t"
  using limiter_ok_bucket [of t l a]
  by (auto simp: actor_level_def limiter_ok_def config_ok_def actor_bucket_ok_def
      intro: bucket_level_nonneg split: option.splits)

lemma actor_level_grows:
  assumes "limiter_ok t l" and "t \<le> now"
  shows "actor_level a l now \<le> actor_level a l t + rate_per_second (cfg l) * (now - t)"
proof (cases "dget (buckets l) a")
  case None
  with assms show ?thesis by (simp add: actor_level_def limiter_ok_def config_ok_def)
next
  case (Some b)
  with limiter_ok_bucket [OF assms(1) Some] assms show ?thesis
    using bucket_level_grows [of t b now] by (simp add: actor_level_def actor_bucket_ok_def)
qed

text \<open>
  The point of \<open>config_ok\<close>: a bucket idle long enough to be evicted is already full, so that
  forgetting it gives the actor nothing.
\<close>

lemma actor_level_cleanup:
  assumes "limiter_ok now l"
  shows "actor_level a (cleanup_stale now l) now = actor_level a l now"
proof (cases "dget (buckets l) a")
  case None
  with assms show ?thesis by (simp add: actor_level_def cleanup_stale_dget limiter_ok_def)
next
  case (Some b)
  have b: "actor_bucket_ok now l b" using assms Some by (rule limiter_ok_bucket)
  show ?thesis
  proof (cases "last_refill b < now - of_int (idle_timeout_seconds (cfg l))")
    case True
    then have idle: "of_int (idle_timeout_seconds (cfg l)) \<le> now - last_refill b" by simp
    have "of_int (burst_size (cfg l)) \<le> of_int (idle_timeout_seconds (cfg l)) * rate_per_second (cfg l)"
      using assms by (simp add: limiter_ok_def config_ok_def)
    also have "\<dots> \<le> (now - last_refill b) * rate_per_second (cfg l)"
      using idle assms by (intro mult_right_mono) (auto simp: limiter_ok_def config_ok_def)
    also have "\<dots> \<le> tokens b + (now - last_refill b) * rate_per_second (cfg l)"
      using b by (simp add: actor_bucket_ok_def bucket_ok_def)
    finally have "bucket_level now b = of_int (burst_size (cfg l))"
      using b by (simp add: bucket_level_def actor_bucket_ok_def min_def)
    with Some True assms show ?thesis by (simp add: actor_level_def cleanup_stale_dget limiter_ok_def)
  next
    case False
    with Some assms show ?thesis by (simp add: actor_level_def cleanup_stale_dget limiter_ok_def)
  qed
qed

lemma actor_level_ensure:
  assumes "limiter_ok now l"
  shows "actor_level a (ensure_bucket now a' l) now = actor_level a l now"
proof -
  have new: "bucket_level now (new_bucket now (rate_per_second (cfg l)) (burst_size (cfg l)))
      = of_int (burst_size (cfg l))"
    by (simp add: bucket_level_def new_bucket_def)
  show ?thesis using new actor_level_cleanup [OF assms, of a]
    by (auto simp: ensure_bucket_def Let_def actor_level_def split: option.splits if_splits)
qed

lemma actor_level_consume:
  assumes "limiter_ok now l" and "0 \<le> n"
  shows "(if fst (actor_consume now a' n l) \<and> a' = a then n else 0)
     + actor_level a (snd (actor_consume now a' n l)) now = actor_level a l now"
proof (cases "dget (buckets l) a'")
  case None
  then show ?thesis by (simp add: actor_consume_def)
next
  case (Some b)
  from limiter_ok_bucket [OF assms(1) Some] have ok: "bucket_ok now b" by (simp add: actor_bucket_ok_def)
  from consume_pays [OF ok order_refl assms(2)] Some show ?thesis
    by (cases "a' = a") (simp_all add: actor_consume_def actor_level_def case_prod_beta Let_def
        split: option.splits)
qed

lemma actor_level_stamp [simp]: "actor_level a (l\<lparr>last_cleanup := x\<rparr>) t = actor_level a l t"
  by (simp add: actor_level_def split: option.splits)

lemma allow_pays:
  assumes "limiter_ok t l" and "t \<le> now" and "0 \<le> n"
  shows "(if fst (allow now a' n l) \<and> a' = a then n else 0) + actor_level a (snd (allow now a' n l)) now
    \<le> actor_level a l t + rate_per_second (cfg l) * (now - t)"
proof -
  let ?l1 = "snd (global_consume now n l)"
  let ?l2 = "ensure_bucket now a' ?l1"
  let ?l3 = "snd (actor_consume now a' n ?l2)"
  have ok1: "limiter_ok now ?l1" and ok2: "limiter_ok now ?l2" and ok3: "limiter_ok now ?l3"
    using assms by (simp_all add: limiter_ok_steps)
  have "actor_level a ?l1 now = actor_level a l now"
    by (simp add: actor_level_def split: option.splits)
  with actor_level_ensure [OF ok1, of a a'] actor_level_consume [OF ok2 assms(3), of a' a]
  have paid: "(if fst (actor_consume now a' n ?l2) \<and> a' = a then n else 0) + actor_level a ?l3 now
      = actor_level a l now" by simp
  have "actor_level a l now \<le> actor_level a l t + rate_per_second (cfg l) * (now - t)"
    using assms(1,2) by (rule actor_level_grows)
  with paid \<open>actor_level a ?l1 now = actor_level a l now\<close> actor_level_cleanup [OF ok3, of a]
  show ?thesis by (auto simp: allow_def case_prod_beta Let_def)
qed

definition global_level :: "limiter \<Rightarrow> pyfloat \<Rightarrow> pyfloat" where
  "global_level l t = (case global_bucket l of None \<Rightarrow> 0 | Some g \<Rightarrow> bucket_level t g)"

lemma global_consume_pays:
  assumes "limiter_ok t l" and "t \<le> now" and "0 \<le> n" and "0 < global_rps (cfg l)"
  shows "(if fst (global_consume now n l) then n else 0) + global_level (snd (global_consume now n l)) now
    \<le> global_level l t + global_rps (cfg l) * (now - t)"
proof -
  from assms(1,4) obtain g where g: "global_bucket l = Some g"
    by (cases "global_bucket l") (auto simp: limiter_ok_def global_bucket_ok_def)
  with assms(1) have "bucket_ok t g" and "b_rate g = global_rps (cfg l)"
    by (auto simp: limiter_ok_def global_bucket_ok_def)
  with consume_pays [of t g now n] bucket_level_grows [of t g now] assms(2,3) g show ?thesis
    by (simp add: global_consume_def global_level_def case_prod_beta Let_def)
qed

lemma allow_global_part:
  "fst (allow now a n l) \<Longrightarrow> fst (global_consume now n l)"
  "global_bucket (snd (allow now a n l)) = global_bucket (snd (global_consume now n l))"
  "cfg (snd (allow now a n l)) = cfg l"
  by (auto simp: allow_def case_prod_beta Let_def split: if_splits)

text \<open>One request of the workload: when it arrives, who asks, and for how many tokens.\<close>

type_synonym request = "pyfloat \<times> string \<times> pyfloat"

definition limiter_step :: "limiter \<Rightarrow> request \<Rightarrow> bool \<times> limiter" where
  "limiter_step l = (\<lambda>(now, actor, n). allow now actor n l)"

definition req_time :: "request \<Rightarrow> pyfloat" where
  "req_time = (\<lambda>(now, actor, n). now)"

definition req_sane :: "request \<Rightarrow> bool" where
  "req_sane = (\<lambda>(now, actor, n). 0 \<le> n)"

definition req_tokens :: "request \<Rightarrow> pyfloat" where
  "req_tokens = (\<lambda>(now, actor, n). n)"

definition req_tokens_of :: "string \<Rightarrow> request \<Rightarrow> pyfloat" where
  "req_tokens_of a = (\<lambda>(now, actor, n). if actor = a then n else 0)"

lemmas req_defs = limiter_step_def req_time_def req_sane_def req_tokens_def req_tokens_of_def

interpretation actor_meter: metered_resource limiter_step "\<lambda>l t. limiter_ok t l \<and> cfg l = c" req_sane
  req_time "req_tokens_of a" "actor_level a" "rate_per_second c" for a c
proof unfold_locales
  fix l t e
  assume l: "limiter_ok t l \<and> cfg l = c"
  show "0 \<le> actor_level a l t" using l by (simp add: actor_level_nonneg)
  assume e: "req_sane e" "t \<le> req_time e"
  show "limiter_ok (req_time e) (snd (limiter_step l e)) \<and> cfg (snd (limiter_step l e)) = c"
    using l e by (cases e) (auto simp: req_defs limiter_ok_allow allow_global_part)
  show "(if fst (limiter_step l e) then req_tokens_of a e else 0)
      + actor_level a (snd (limiter_step l e)) (req_time e)
      \<le> actor_level a l t + rate_per_second c * (req_time e - t)"
    using l e by (cases e) (auto simp: req_defs dest!: allow_pays [where a = a] split: if_splits)
qed

interpretation global_meter: metered_resource limiter_step
  "\<lambda>l t. limiter_ok t l \<and> cfg l = c \<and> 0 < global_rps c" req_sane
  req_time req_tokens global_level "global_rps c" for c
proof unfold_locales
  fix l t e
  assume l: "limiter_ok t l \<and> cfg l = c \<and> 0 < global_rps c"
  show "0 \<le> global_level l t" using l
    by (auto simp: global_level_def limiter_ok_def global_bucket_ok_def bucket_level_nonneg split: option.splits)
  assume e: "req_sane e" "t \<le> req_time e"
  show "limiter_ok (req_time e) (snd (limiter_step l e)) \<and> cfg (snd (limiter_step l e)) = c \<and> 0 < global_rps c"
    using l e by (cases e) (auto simp: req_defs limiter_ok_allow allow_global_part)
  obtain now actor n where en: "e = (now, actor, n)" by (cases e)
  have "(if fst (global_consume now n l) then n else 0) + global_level (snd (global_consume now n l)) now
      \<le> global_level l t + global_rps c * (now - t)"
    using global_consume_pays [of t l now n] l e en by (simp add: req_defs)
  moreover have "global_level (snd (allow now actor n l)) now = global_level (snd (global_consume now n l)) now"
    by (simp add: global_level_def allow_global_part)
  ultimately show "(if fst (limiter_step l e) then req_tokens e else 0)
      + global_level (snd (limiter_step l e)) (req_time e) \<le> global_level l t + global_rps c * (req_time e - t)"
    using e en allow_global_part(1) [of now actor n l] by (auto simp: req_defs split: if_splits)
qed

section \<open>Properties\<close>

text \<open>
  C1. Rate bound per actor. From a fresh limiter whose idle timeout is long enough to refill a
  bucket (as in the shipped configuration), over any workload with non-decreasing clock readings, the tokens granted to
  one actor never exceed the burst size plus the rate times the elapsed time, whatever the other
  actors do and whichever buckets are evicted on the way.
\<close>

theorem actor_rate_bound:
  assumes "config_ok c" and "\<forall>e \<in> set evs. req_sane e" and "timed_from req_time t0 evs"
  shows "granted (req_tokens_of a) evs (fst (metered_run limiter_step (new_limiter t0 c) evs))
    \<le> of_int (burst_size c) + rate_per_second c * (end_time req_time t0 evs - t0)"
  using actor_meter.run_pays [of t0 "new_limiter t0 c" c evs a] assms limiter_ok_new [of c t0]
  by (simp add: actor_level_def new_limiter_def)

theorem actor_rate_bound_witness:
  "granted (req_tokens_of ''ci'') [(0, ''ci'', 6), (1, ''ci'', 6), (2, ''x'', 1), (3, ''ci'', 6)]
     (fst (metered_run limiter_step (new_limiter 0 default_rate_limit_config)
        [(0, ''ci'', 6), (1, ''ci'', 6), (2, ''x'', 1), (3, ''ci'', 6)])) \<le> 10 + 2 * 3"
  using actor_rate_bound [of default_rate_limit_config
      "[(0, ''ci'', 6), (1, ''ci'', 6), (2, ''x'', 1), (3, ''ci'', 6)]" 0 "''ci''"]
  by (simp add: config_ok_def default_rate_limit_config_def req_sane_def req_time_def)

text \<open>
  Global rate bound. With a positive \<open>global_rps\<close>, all actors together are granted at most
  \<open>int(global_rps * 10)\<close> tokens plus \<open>global_rps\<close> per second of elapsed time.
\<close>

theorem global_rate_bound:
  assumes "config_ok c" and "0 < global_rps c"
    and "\<forall>e \<in> set evs. req_sane e" and "timed_from req_time t0 evs"
  shows "granted req_tokens evs (fst (metered_run limiter_step (new_limiter t0 c) evs))
    \<le> of_int \<lfloor>global_rps c * 10\<rfloor> + global_rps c * (end_time req_time t0 evs - t0)"
  using global_meter.run_pays [of t0 "new_limiter t0 c" c evs] assms limiter_ok_new [of c t0]
  by (simp add: global_level_def new_limiter_def new_bucket_def bucket_level_def)

theorem global_rate_bound_witness:
  "granted req_tokens [(0, ''a'', 10), (0, ''b'', 10), (1, ''c'', 300)]
     (fst (metered_run limiter_step (new_limiter 0 default_rate_limit_config)
        [(0, ''a'', 10), (0, ''b'', 10), (1, ''c'', 300)])) \<le> 250 + 25 * 1"
  using global_rate_bound [of default_rate_limit_config "[(0, ''a'', 10), (0, ''b'', 10), (1, ''c'', 300)]" 0]
  by (simp add: config_ok_def default_rate_limit_config_def req_sane_def req_time_def)

end
