(* ===== verification/Sliding_Window.thy ===== *)
theory Sliding_Window
  imports Prelude
begin

text \<open>
  The prompt guard server's per-client limiter (\<open>src/picosentry/watch/ratelimit.py\<close>): a log of
  the recent request times of each client, a cap on the number of clients, and the eviction of
  clients that have been silent for two windows. The theorems: the client table never outgrows its
  cap, and in every window of \<open>window_seconds\<close> a client is granted at most \<open>max_requests\<close>
  requests, whatever evictions happen.
\<close>

section \<open>Model\<close>

type_synonym rate_limit_entry = "pyfloat list"

record rate_limiter =
  max_requests :: nat
  window_seconds :: int
  max_clients :: nat
  clients :: "(string, rate_limit_entry) pydict"
  last_eviction :: pyfloat

definition new_rate_limiter :: "pyfloat \<Rightarrow> nat \<Rightarrow> int \<Rightarrow> nat \<Rightarrow> rate_limiter" where
  "new_rate_limiter now requests window cap =
     \<lparr>max_requests = requests, window_seconds = window, max_clients = cap, clients = [],
      last_eviction = now\<rparr>"

definition evict_stale :: "pyfloat \<Rightarrow> rate_limiter \<Rightarrow> rate_limiter" where
  "evict_stale now r =
     (let cutoff = now - of_int (window_seconds r * 2)
      in r\<lparr>clients := dpurge (\<lambda>(ip, ts). ts = [] \<or> last ts < cutoff) (clients r)\<rparr>)"

text \<open>The gate for a new client at capacity: evict, then refuse if the table is still full.\<close>

definition capacity_gate :: "pyfloat \<Rightarrow> string \<Rightarrow> rate_limiter \<Rightarrow> bool \<times> rate_limiter" where
  "capacity_gate now ip r =
     (if dget (clients r) ip = None \<and> length (clients r) \<ge> max_clients r
      then let r1 = (evict_stale now r)\<lparr>last_eviction := now\<rparr>
           in (length (clients r1) < max_clients r1, r1)
      else (True, r))"

definition is_allowed :: "pyfloat \<Rightarrow> string \<Rightarrow> rate_limiter \<Rightarrow> bool \<times> rate_limiter" where
  "is_allowed now ip r =
     (let (admit, r1) = capacity_gate now ip r
      in if \<not> admit then (False, r1)
         else let cutoff = now - of_int (window_seconds r1);
                  r2 = (if now - last_eviction r1 > of_int (window_seconds r1)
                        then (evict_stale now r1)\<lparr>last_eviction := now\<rparr> else r1);
                  entry = (case dget (clients r2) ip of None \<Rightarrow> [] | Some ts \<Rightarrow> ts);
                  recent = [ts \<leftarrow> entry. ts > cutoff]
              in if length recent \<ge> max_requests r2
                 then (False, r2\<lparr>clients := dset ip recent (clients r2)\<rparr>)
                 else (True, r2\<lparr>clients := dset ip (recent @ [now]) (clients r2)\<rparr>))"

definition reset_client :: "string option \<Rightarrow> rate_limiter \<Rightarrow> rate_limiter" where
  "reset_client ip r =
     (case ip of
        None \<Rightarrow> r\<lparr>clients := []\<rparr>
      | Some a \<Rightarrow> if a = [] then r\<lparr>clients := []\<rparr> else r\<lparr>clients := dpop a (clients r)\<rparr>)"

definition active_clients :: "rate_limiter \<Rightarrow> nat" where
  "active_clients r = length (clients r)"

section \<open>The client table\<close>

definition table_ok :: "rate_limiter \<Rightarrow> bool" where
  "table_ok r \<longleftrightarrow> wf_dict (clients r) \<and> length (clients r) \<le> max_clients r"

lemma evict_stale_frame [simp]:
  "max_requests (evict_stale now r) = max_requests r"
  "window_seconds (evict_stale now r) = window_seconds r"
  "max_clients (evict_stale now r) = max_clients r"
  "last_eviction (evict_stale now r) = last_eviction r"
  by (simp_all add: evict_stale_def Let_def)

lemma evict_stale_table: "table_ok r \<Longrightarrow> table_ok (evict_stale now r)"
  by (auto simp: table_ok_def evict_stale_def Let_def wf_dpurge intro: order_trans [OF length_dpurge_le])

lemma table_ok_stamp [simp]: "table_ok (r\<lparr>last_eviction := x\<rparr>) = table_ok r"
  by (simp add: table_ok_def)

lemma capacity_gate_frame [simp]:
  "max_requests (snd (capacity_gate now ip r)) = max_requests r"
  "window_seconds (snd (capacity_gate now ip r)) = window_seconds r"
  "max_clients (snd (capacity_gate now ip r)) = max_clients r"
  by (simp_all add: capacity_gate_def Let_def)

text \<open>
  A client that passes the gate is known or the table has room for it, and a later eviction (which
  may drop that very client) leaves room.
\<close>

definition room_for :: "string \<Rightarrow> rate_limiter \<Rightarrow> bool" where
  "room_for ip r \<longleftrightarrow> dget (clients r) ip \<noteq> None \<or> length (clients r) < max_clients r"

lemma room_for_stamp [simp]: "room_for ip (r\<lparr>last_eviction := x\<rparr>) = room_for ip r"
  by (simp add: room_for_def)

lemma capacity_gate_room: "fst (capacity_gate now ip r) \<Longrightarrow> room_for ip (snd (capacity_gate now ip r))"
  by (auto simp: capacity_gate_def Let_def room_for_def split: if_splits)

lemma capacity_gate_table: "table_ok r \<Longrightarrow> table_ok (snd (capacity_gate now ip r))"
  by (simp add: capacity_gate_def Let_def evict_stale_table)

lemma evict_stale_room:
  assumes ok: "table_ok r" and room: "room_for ip r"
  shows "room_for ip (evict_stale now r)"
proof (cases "dget (clients r) ip \<noteq> None \<and> dget (clients (evict_stale now r)) ip = None")
  case True
  let ?stale = "\<lambda>(ip, ts). ts = [] \<or> last ts < now - of_int (window_seconds r * 2)"
  obtain ts where ts: "(ip, ts) \<in> set (clients r)" "?stale (ip, ts)"
    using True ok by (auto simp: evict_stale_def Let_def table_ok_def dget_dpurge dest: map_of_SomeD
        split: option.splits if_splits)
  then have "length (filter (\<lambda>p. \<not> ?stale p) (clients r)) < length (clients r)"
    by (intro length_filter_less) auto
  with ok show ?thesis
    by (auto simp: room_for_def evict_stale_def Let_def dpurge_filter table_ok_def)
next
  case False
  with room length_dpurge_le show ?thesis
    by (auto simp: room_for_def evict_stale_def Let_def intro: le_less_trans)
qed

lemma write_entry_table:
  "table_ok r \<Longrightarrow> room_for ip r \<Longrightarrow> table_ok (r\<lparr>clients := dset ip v (clients r)\<rparr>)"
  by (auto simp: table_ok_def room_for_def length_dset dget_None_iff distinct_update)

text \<open>The state in which \<open>is_allowed\<close> looks the client up, and what it then writes.\<close>

definition periodic_evict :: "pyfloat \<Rightarrow> rate_limiter \<Rightarrow> rate_limiter" where
  "periodic_evict now r = (if now - last_eviction r > of_int (window_seconds r)
     then (evict_stale now r)\<lparr>last_eviction := now\<rparr> else r)"

definition recent_of :: "pyfloat \<Rightarrow> string \<Rightarrow> rate_limiter \<Rightarrow> pyfloat list" where
  "recent_of now ip r = filter (\<lambda>ts. ts > now - of_int (window_seconds r))
     (case dget (clients r) ip of None \<Rightarrow> [] | Some ts \<Rightarrow> ts)"

lemma periodic_evict_frame [simp]:
  "max_requests (periodic_evict now r) = max_requests r"
  "window_seconds (periodic_evict now r) = window_seconds r"
  "max_clients (periodic_evict now r) = max_clients r"
  by (simp_all add: periodic_evict_def)

lemma is_allowed_alt:
  "is_allowed now ip r =
     (let r1 = snd (capacity_gate now ip r); r2 = periodic_evict now r1; recent = recent_of now ip r2
      in if \<not> fst (capacity_gate now ip r) then (False, r1)
         else if max_requests r \<le> length recent then (False, r2\<lparr>clients := dset ip recent (clients r2)\<rparr>)
         else (True, r2\<lparr>clients := dset ip (recent @ [now]) (clients r2)\<rparr>))"
  by (simp add: is_allowed_def case_prod_beta Let_def periodic_evict_def recent_of_def)

lemma is_allowed_table:
  assumes "table_ok r"
  shows "table_ok (snd (is_allowed now ip r))"
proof (cases "fst (capacity_gate now ip r)")
  case False
  with assms show ?thesis by (simp add: is_allowed_alt Let_def capacity_gate_table)
next
  case True
  let ?r2 = "periodic_evict now (snd (capacity_gate now ip r))"
  have "table_ok ?r2" and "room_for ip ?r2"
    using assms True by (simp_all add: periodic_evict_def capacity_gate_table capacity_gate_room
        evict_stale_table evict_stale_room)
  then have "table_ok (?r2\<lparr>clients := dset ip v (clients ?r2)\<rparr>)" for v
    by (rule write_entry_table)
  with True show ?thesis by (simp add: is_allowed_alt Let_def)
qed

section \<open>The window bound\<close>

text \<open>
  \<open>grants ip\<close> runs a workload of (time, client) requests and collects the times at which \<open>ip\<close> was
  granted, oldest first.
\<close>

fun grants :: "string \<Rightarrow> rate_limiter \<Rightarrow> (pyfloat \<times> string) list \<Rightarrow> pyfloat list" where
  "grants ip r [] = []"
| "grants ip r ((now, c) # evs) =
     (let (ok, r1) = is_allowed now c r
      in (if ok \<and> c = ip then [now] else []) @ grants ip r1 evs)"

definition entry_of :: "string \<Rightarrow> rate_limiter \<Rightarrow> pyfloat list" where
  "entry_of ip r = (case dget (clients r) ip of None \<Rightarrow> [] | Some ts \<Rightarrow> ts)"

definition in_window :: "pyfloat \<Rightarrow> int \<Rightarrow> pyfloat list \<Rightarrow> pyfloat list" where
  "in_window t w ts = filter (\<lambda>x. x > t - of_int w) ts"

text \<open>
  The log of a client agrees with the client's grants as far as the window reaches back: this is
  what evictions and pruning keep.
\<close>

definition log_agrees :: "string \<Rightarrow> pyfloat \<Rightarrow> pyfloat list \<Rightarrow> rate_limiter \<Rightarrow> bool" where
  "log_agrees ip t hist r \<longleftrightarrow> in_window t (window_seconds r) (entry_of ip r) = in_window t (window_seconds r) hist
     \<and> sorted (entry_of ip r) \<and> sorted hist \<and> (\<forall>x \<in> set hist. x \<le> t) \<and> (\<forall>x \<in> set (entry_of ip r). x \<le> t)"

lemma in_window_later: "t \<le> t' \<Longrightarrow> in_window t w xs = in_window t w ys \<Longrightarrow> in_window t' w xs = in_window t' w ys"
proof -
  assume le: "t \<le> t'" and eq: "in_window t w xs = in_window t w ys"
  have "in_window t' w zs = in_window t' w (in_window t w zs)" for zs
    using le by (auto simp: in_window_def intro!: filter_cong)
  then show ?thesis using eq by metis
qed

lemma log_agrees_later: "log_agrees ip t h r \<Longrightarrow> t \<le> t' \<Longrightarrow> log_agrees ip t' h r"
  by (auto simp: log_agrees_def dest: in_window_later)

lemma in_window_stale: "sorted ts \<Longrightarrow> ts \<noteq> [] \<Longrightarrow> last ts < t - of_int w \<Longrightarrow> in_window t w ts = []"
  by (cases ts rule: rev_cases) (fastforce simp: in_window_def sorted_append filter_empty_conv)+

lemma log_agrees_evict:
  assumes agrees: "log_agrees ip now h r" and wf: "wf_dict (clients r)" and w: "0 \<le> window_seconds r"
  shows "log_agrees ip now h (evict_stale now r)"
proof (cases "entry_of ip (evict_stale now r) = entry_of ip r")
  case True
  with agrees show ?thesis by (simp add: log_agrees_def)
next
  case False
  then obtain ts where ts: "dget (clients r) ip = Some ts" "ts \<noteq> []"
      "last ts < now - of_int (window_seconds r * 2)" "entry_of ip (evict_stale now r) = []"
    using wf by (auto simp: entry_of_def evict_stale_def Let_def dget_dpurge split: option.splits if_splits)
  moreover have "last ts < now - of_int (window_seconds r)"
  proof -
    have "(of_int (window_seconds r) :: rat) \<ge> 0" using w by simp
    with ts(3) show ?thesis by simp
  qed
  ultimately show ?thesis using agrees
    by (auto simp: log_agrees_def entry_of_def in_window_stale) (simp add: in_window_def)
qed

lemma log_agrees_stamp [simp]: "log_agrees ip t h (r\<lparr>last_eviction := x\<rparr>) = log_agrees ip t h r"
  by (simp add: log_agrees_def entry_of_def)

lemma log_agrees_other:
  "c \<noteq> ip \<Longrightarrow> log_agrees ip t h (r\<lparr>clients := dset c v (clients r)\<rparr>) = log_agrees ip t h r"
  by (simp add: log_agrees_def entry_of_def)

lemma log_agrees_prune:
  "log_agrees ip now h r \<Longrightarrow> log_agrees ip now h (r\<lparr>clients := dset ip (recent_of now ip r) (clients r)\<rparr>)"
  by (auto simp: log_agrees_def entry_of_def recent_of_def in_window_def sorted_wrt_filter)

lemma log_agrees_grant:
  "log_agrees ip now h r \<Longrightarrow>
     log_agrees ip now (h @ [now]) (r\<lparr>clients := dset ip (recent_of now ip r @ [now]) (clients r)\<rparr>)"
  by (auto simp: log_agrees_def entry_of_def recent_of_def in_window_def sorted_wrt_filter sorted_append)

lemma recent_of_agrees:
  "log_agrees ip now h r \<Longrightarrow> recent_of now ip r = in_window now (window_seconds r) h"
  by (simp add: log_agrees_def entry_of_def recent_of_def in_window_def)

lemma is_allowed_frame [simp]:
  "max_requests (snd (is_allowed now c r)) = max_requests r"
  "window_seconds (snd (is_allowed now c r)) = window_seconds r"
  "max_clients (snd (is_allowed now c r)) = max_clients r"
  by (simp_all add: is_allowed_alt Let_def)

text \<open>One request: the log keeps agreeing with the grants, and a grant had room in its window.\<close>

lemma log_agrees_found:
  assumes "log_agrees ip t h r" and "table_ok r" and "0 \<le> window_seconds r" and "t \<le> now"
  shows "log_agrees ip now h (snd (capacity_gate now c r))"
    and "log_agrees ip now h (periodic_evict now (snd (capacity_gate now c r)))"
proof -
  have now: "log_agrees ip now h r" using assms(1,4) by (rule log_agrees_later)
  then show gate: "log_agrees ip now h (snd (capacity_gate now c r))"
    using assms by (simp add: capacity_gate_def Let_def log_agrees_evict table_ok_def)
  have "table_ok (snd (capacity_gate now c r))" using assms by (simp add: capacity_gate_table)
  with gate assms show "log_agrees ip now h (periodic_evict now (snd (capacity_gate now c r)))"
    by (simp add: periodic_evict_def log_agrees_evict table_ok_def)
qed

lemma is_allowed_log:
  assumes "log_agrees ip t h r" and "table_ok r" and "0 \<le> window_seconds r" and "t \<le> now"
  shows "log_agrees ip now (if fst (is_allowed now c r) \<and> c = ip then h @ [now] else h) (snd (is_allowed now c r))"
  using log_agrees_found [OF assms, of c]
  by (cases "c = ip")
     (auto simp: is_allowed_alt Let_def log_agrees_other log_agrees_prune log_agrees_grant)

lemma is_allowed_room:
  assumes "log_agrees ip t h r" and "table_ok r" and "0 \<le> window_seconds r" and "t \<le> now"
    and "fst (is_allowed now ip r)"
  shows "length (in_window now (window_seconds r) h) < max_requests r"
  using log_agrees_found(2) [OF assms(1-4), of ip, THEN recent_of_agrees] assms(5)
  by (auto simp: is_allowed_alt Let_def split: if_splits)

definition window_bounded :: "nat \<Rightarrow> int \<Rightarrow> pyfloat list \<Rightarrow> bool" where
  "window_bounded n w h \<longleftrightarrow> (\<forall>x. length (filter (\<lambda>g. x - of_int w < g \<and> g \<le> x) h) \<le> n)"

lemma window_bounded_grant:
  assumes "window_bounded n w h" and "\<forall>x \<in> set h. x \<le> now" and "length (in_window now w h) < n"
  shows "window_bounded n w (h @ [now])"
  unfolding window_bounded_def
proof
  fix x
  show "length (filter (\<lambda>g. x - of_int w < g \<and> g \<le> x) (h @ [now])) \<le> n"
  proof (cases "now \<le> x")
    case True
    have "length (filter (\<lambda>g. x - of_int w < g \<and> g \<le> x) h) \<le> length (in_window now w h)"
      unfolding in_window_def using True by (intro length_filter_mono) auto
    with assms(3) show ?thesis by simp
  next
    case False
    with assms(1) show ?thesis by (auto simp: window_bounded_def)
  qed
qed

lemma grants_bounded:
  assumes "log_agrees ip t h r" and "table_ok r" and "0 \<le> window_seconds r"
    and "window_bounded (max_requests r) (window_seconds r) h" and "timed_from fst t evs"
  shows "window_bounded (max_requests r) (window_seconds r) (h @ grants ip r evs)"
  using assms
proof (induction evs arbitrary: t h r)
  case Nil
  then show ?case by simp
next
  case (Cons e evs)
  obtain now c where e: "e = (now, c)" by (cases e)
  let ?r1 = "snd (is_allowed now c r)" and ?g = "fst (is_allowed now c r) \<and> c = ip"
  have le: "t \<le> now" using Cons.prems(5) e by simp
  have agrees: "log_agrees ip now (if ?g then h @ [now] else h) ?r1"
    using Cons.prems(1,2,3) le by (rule is_allowed_log)
  have upto: "\<forall>x \<in> set h. x \<le> now" using Cons.prems(1) le by (force simp: log_agrees_def)
  have "window_bounded (max_requests r) (window_seconds r) (if ?g then h @ [now] else h)"
    using window_bounded_grant [OF Cons.prems(4) upto] is_allowed_room [OF Cons.prems(1-3) le] Cons.prems(4)
    by auto
  from Cons.IH [OF agrees] this Cons.prems is_allowed_table [OF Cons.prems(2)] e show ?case
    by (auto simp: case_prod_beta Let_def split: if_splits)
qed

section \<open>Properties\<close>

text \<open>
  C2. Window bound. For every client, every workload with non-decreasing clock readings and every
  point in time \<open>x\<close>, at most \<open>max_requests\<close> requests of that client are granted in the
  interval \<open>(x - window_seconds, x]\<close>; evicting a silent client never resets its allowance early.
\<close>

theorem is_allowed_window_bound:
  assumes "0 \<le> w" and "timed_from fst t0 evs"
  shows "length (filter (\<lambda>g. x - of_int w < g \<and> g \<le> x) (grants ip (new_rate_limiter t0 n w cap) evs)) \<le> n"
proof -
  have "window_bounded n w ([] @ grants ip (new_rate_limiter t0 n w cap) evs)"
    using grants_bounded [of ip t0 "[]" "new_rate_limiter t0 n w cap" evs] assms
    by (simp add: log_agrees_def table_ok_def new_rate_limiter_def entry_of_def in_window_def window_bounded_def)
  then show ?thesis by (simp add: window_bounded_def)
qed

theorem is_allowed_window_bound_witness:
  "length (filter (\<lambda>g. 12 - of_int 10 < g \<and> g \<le> 12)
     (grants ''u'' (new_rate_limiter 0 2 10 5) [(0, ''u''), (3, ''u''), (4, ''v''), (5, ''u''), (12, ''u'')])) \<le> 2"
  using is_allowed_window_bound [of 10 0
      "[(0, ''u''), (3, ''u''), (4, ''v''), (5, ''u''), (12, ''u'')]" 12 "''u''" 2 5]
  by simp

text \<open>
  Bounded memory. The table of clients never holds more than \<open>max_clients\<close> entries, whatever
  the requests: a new client at capacity is admitted only if the eviction made room.
\<close>

theorem is_allowed_bounds_clients:
  "active_clients (foldl (\<lambda>r (now, ip). snd (is_allowed now ip r)) (new_rate_limiter t0 n w cap) evs) \<le> cap"
proof -
  have "table_ok (foldl (\<lambda>r (now, ip). snd (is_allowed now ip r)) r evs) \<and>
      max_clients (foldl (\<lambda>r (now, ip). snd (is_allowed now ip r)) r evs) = max_clients r"
    if "table_ok r" for r
    using that by (induction evs arbitrary: r) (auto simp: is_allowed_table)
  from this [of "new_rate_limiter t0 n w cap"] show ?thesis
    by (simp add: new_rate_limiter_def table_ok_def active_clients_def)
qed

end
