(* ===== verification/Py_Strings.thy ===== *)
theory Py_Strings
  imports Prelude
begin

text \<open>
  The string methods of Python the modelled code uses (\<open>startswith\<close>, \<open>split\<close>, \<open>rfind\<close>, \<open>strip\<close>,
  \<open>lower\<close>, \<open>replace\<close> and \<open>urllib.parse.unquote\<close>), on strings of 8-bit characters. Case mapping and
  white space are those of ASCII.
\<close>

section \<open>Definitions\<close>

definition starts_with :: "string \<Rightarrow> string \<Rightarrow> bool" where
  "starts_with p s = (take (length p) s = p)"

text \<open>\<open>s.split(c)\<close>: all pieces, the empty ones too.\<close>

fun split_on :: "char \<Rightarrow> string \<Rightarrow> string list" where
  "split_on c [] = [[]]"
| "split_on c (x # xs) =
     (if x = c then [] # split_on c xs
      else case split_on c xs of [] \<Rightarrow> [[x]] | y # ys \<Rightarrow> (x # y) # ys)"

text \<open>\<open>s.split(c, 1)\<close>: the parts before and after the first occurrence.\<close>

definition split_first :: "char \<Rightarrow> string \<Rightarrow> string \<times> string option" where
  "split_first c s = (let p = takeWhile (\<lambda>x. x \<noteq> c) s in
     if length p = length s then (s, None) else (p, Some (drop (length p + 1) s)))"

text \<open>\<open>s.rfind(c)\<close>: the index of the last occurrence (\<open>None\<close> for -1).\<close>

definition rfind :: "char \<Rightarrow> string \<Rightarrow> nat option" where
  "rfind c s = (let t = takeWhile (\<lambda>x. x \<noteq> c) (rev s) in
     if length t = length s then None else Some (length s - 1 - length t))"

definition is_space :: "char \<Rightarrow> bool" where
  "is_space c = (let n = (of_char c :: nat) in n = 32 \<or> (9 \<le> n \<and> n \<le> 13) \<or> (28 \<le> n \<and> n \<le> 31))"

definition lstrip_by :: "(char \<Rightarrow> bool) \<Rightarrow> string \<Rightarrow> string" where
  "lstrip_by p s = dropWhile p s"

definition rstrip_by :: "(char \<Rightarrow> bool) \<Rightarrow> string \<Rightarrow> string" where
  "rstrip_by p s = rev (dropWhile p (rev s))"

definition strip :: "string \<Rightarrow> string" where
  "strip s = rstrip_by is_space (lstrip_by is_space s)"

definition lower_char :: "char \<Rightarrow> char" where
  "lower_char c = (let n = (of_char c :: nat) in if 65 \<le> n \<and> n \<le> 90 then char_of (n + 32) else c)"

definition upper_char :: "char \<Rightarrow> char" where
  "upper_char c = (let n = (of_char c :: nat) in if 97 \<le> n \<and> n \<le> 122 then char_of (n - 32) else c)"

abbreviation lower :: "string \<Rightarrow> string" where "lower \<equiv> map lower_char"
abbreviation upper :: "string \<Rightarrow> string" where "upper \<equiv> map upper_char"

text \<open>\<open>re.sub(r"[-_.]+", "-", s)\<close>, the normalisation of PEP 503 before lower-casing.\<close>

definition pep503_sep :: "char \<Rightarrow> bool" where
  "pep503_sep c \<longleftrightarrow> c = CHR ''-'' \<or> c = CHR ''_'' \<or> c = CHR ''.''"

function pep503_collapse :: "string \<Rightarrow> string" where
  "pep503_collapse [] = []"
| "pep503_collapse (x # xs) =
     (if pep503_sep x then CHR ''-'' # pep503_collapse (dropWhile pep503_sep xs) else x # pep503_collapse xs)"
  by pat_completeness auto
termination
  by (relation "measure length") (auto simp: le_imp_less_Suc length_dropWhile_le)

text \<open>\<open>s.replace(c, "")\<close> for each of several characters.\<close>

definition remove_chars :: "char list \<Rightarrow> string \<Rightarrow> string" where
  "remove_chars cs s = filter (\<lambda>x. x \<notin> set cs) s"

text \<open>\<open>sep.join(xs)\<close>.\<close>

fun join_with :: "string \<Rightarrow> string list \<Rightarrow> string" where
  "join_with sep [] = ''''"
| "join_with sep [x] = x"
| "join_with sep (x # xs) = x @ sep @ join_with sep xs"

text \<open>A name in single quotes, and the bytes of the dash some messages carry.\<close>

definition quoted :: "string \<Rightarrow> string" where
  "quoted s = CHR 0x27 # s @ [CHR 0x27]"

definition em_dash :: string where
  "em_dash = [CHR 0xE2, CHR 0x80, CHR 0x94]"

definition hex_value :: "char \<Rightarrow> nat option" where
  "hex_value c = (let n = (of_char c :: nat) in
     if 48 \<le> n \<and> n \<le> 57 then Some (n - 48)
     else if 65 \<le> n \<and> n \<le> 70 then Some (n - 55)
     else if 97 \<le> n \<and> n \<le> 102 then Some (n - 87)
     else None)"

text \<open>
  \<open>unquote\<close>: a percent sign followed by two hexadecimal digits becomes the byte, anything else stays.
\<close>

fun unquote :: "string \<Rightarrow> string" where
  "unquote [] = []"
| "unquote (x # xs) =
     (if x = CHR ''%'' then
        (case xs of
           a # b # ys \<Rightarrow>
             (case (hex_value a, hex_value b) of
                (Some h, Some l) \<Rightarrow> char_of (16 * h + l) # unquote ys
              | _ \<Rightarrow> x # unquote xs)
         | _ \<Rightarrow> x # unquote xs)
      else x # unquote xs)"

section \<open>Lemmas\<close>

lemma split_on_nonempty [simp]: "split_on c s \<noteq> []"
  by (induction s) (auto split: list.splits)

lemma split_on_Cons_neq: "x \<noteq> c \<Longrightarrow> split_on c (x # xs) = (x # hd (split_on c xs)) # tl (split_on c xs)"
  by (cases "split_on c xs") auto

lemma split_on_pieces: "p \<in> set (split_on c s) \<Longrightarrow> c \<notin> set p"
proof (induction s arbitrary: p)
  case (Cons x xs)
  then show ?case
    by (cases "x = c"; cases "split_on c xs") auto
qed simp

lemma split_on_none: "c \<notin> set s \<Longrightarrow> split_on c s = [s]"
  by (induction s) auto

text \<open>Splitting at a separator that occurs at a known place.\<close>

lemma split_on_append: "c \<notin> set p \<Longrightarrow> split_on c (p @ c # q) = p # split_on c q"
  by (induction p) auto

lemma split_on_append_any: "split_on c (p @ c # q) = split_on c p @ split_on c q"
proof (induction p)
  case (Cons x p)
  then show ?case by (cases "split_on c p") auto
qed simp

lemma starts_with_Cons [simp]: "starts_with (c # p) (x # s) \<longleftrightarrow> x = c \<and> starts_with p s"
  by (auto simp: starts_with_def)

lemma starts_with_Nil [simp]: "starts_with [] s" "starts_with (c # p) [] \<longleftrightarrow> False"
  by (simp_all add: starts_with_def)

lemma starts_with_append: "starts_with p s \<longleftrightarrow> (\<exists>t. s = p @ t)"
  unfolding starts_with_def by (metis append_eq_conv_conj append_take_drop_id)

lemma unquote_plain: "CHR ''%'' \<notin> set s \<Longrightarrow> unquote s = s"
  by (induction s) auto

lemma takeWhile_neq: "c \<notin> set p \<Longrightarrow> takeWhile (\<lambda>x. x \<noteq> c) (p @ c # q) = p"
  by (induction p) auto

lemma takeWhile_neq_all: "c \<notin> set p \<Longrightarrow> takeWhile (\<lambda>x. x \<noteq> c) p = p"
  by (induction p) auto

lemma rfind_last: "c \<notin> set q \<Longrightarrow> rfind c (p @ c # q) = Some (length p)"
  using takeWhile_neq [of c "rev q" "rev p"] by (simp add: rfind_def Let_def)

lemma rfind_Some: "c \<in> set s \<Longrightarrow> \<exists>i. rfind c s = Some i \<and> i < length s \<and> s ! i = c \<and> c \<notin> set (drop (i + 1) s)"
proof -
  assume "c \<in> set s"
  then obtain p q where s: "s = p @ c # q" "c \<notin> set q" by (meson split_list_last)
  then show ?thesis by (simp add: rfind_last)
qed

lemma split_first_at: "c \<notin> set p \<Longrightarrow> split_first c (p @ c # q) = (p, Some q)"
  by (simp add: split_first_def Let_def takeWhile_neq)

lemma split_first_none: "c \<notin> set s \<Longrightarrow> split_first c s = (s, None)"
  by (simp add: split_first_def Let_def takeWhile_neq_all)

section \<open>Numbers as text\<close>

definition digit :: "char \<Rightarrow> bool" where
  "digit c \<longleftrightarrow> 48 \<le> (of_char c :: nat) \<and> of_char c \<le> (57 :: nat)"

definition digits_value :: "string \<Rightarrow> nat" where
  "digits_value s = foldl (\<lambda>n c. 10 * n + (of_char c - 48)) 0 s"

text \<open>\<open>int(s)\<close> of a text without blanks around it: an optional sign and digits, single underscores between them allowed.\<close>

fun int_literal :: "string \<Rightarrow> bool" where
  "int_literal [] = False"
| "int_literal [c] = digit c"
| "int_literal (c # d # r) = (digit c \<and> (if d = CHR ''_'' then int_literal r else int_literal (d # r)))"

definition int_text :: "string \<Rightarrow> int option" where
  "int_text s =
     (let (neg, t) = (case s of [] \<Rightarrow> (False, s) | c # r \<Rightarrow> if c = CHR ''-'' then (True, r) else if c = CHR ''+'' then (False, r) else (False, s))
      in if int_literal t then Some ((if neg then - 1 else 1) * int (digits_value (filter digit t))) else None)"

lemma digit_char_of: "(n::nat) < 10 \<Longrightarrow> digit (char_of (48 + n))"
  and of_char_digit: "(n::nat) < 10 \<Longrightarrow> of_char (char_of (48 + n) :: char) = 48 + n"
  by (simp_all add: digit_def)

lemma show_nat_digits: "list_all digit (show_nat n)"
proof (induction n rule: show_nat.induct)
  case (1 n)
  then show ?case by (subst show_nat.simps) (simp add: digit_char_of)
qed

lemma show_nat_nonempty [simp]: "show_nat n \<noteq> []"
  by (subst show_nat.simps) simp

lemma digits_value_snoc: "digits_value (s @ [c]) = 10 * digits_value s + (of_char c - 48)"
  by (simp add: digits_value_def)

lemma digits_value_show [simp]: "digits_value (show_nat n) = n"
proof (induction n rule: show_nat.induct)
  case (1 n)
  show ?case
  proof (cases "n < 10")
    case True
    then show ?thesis by (subst show_nat.simps) (simp add: digits_value_def of_char_digit)
  next
    case False
    have "digits_value (show_nat n) = 10 * digits_value (show_nat (n div 10)) + n mod 10"
      using False by (subst show_nat.simps) (simp add: digits_value_snoc of_char_digit)
    with 1 False show ?thesis by simp
  qed
qed

lemma show_nat_inj [simp]: "show_nat m = show_nat n \<longleftrightarrow> m = n"
  using digits_value_show by metis

end
