(* ===== verification/Ddos_Shield.thy ===== *)
theory Ddos_Shield
  imports Sliding_Window Py_Strings
begin

text \<open>
  The dashboard server's flood shield (\<open>src/picosentry/serve/middleware/ddos_shield.py\<close>): one
  global bucket of request times, one bucket per high-risk path prefix, and the health probes that
  bypass both. \<open>next(p for p in HIGH_RISK_PATHS ...)\<close> walks a set, whose order Python leaves
  open; \<open>high_risk_any_order\<close> shows that the choice of an order does not matter. The theorems bound
  what the shield lets through in every ten-second window and say that health probes are never
  refused.
\<close>

section \<open>Model\<close>

definition HIGH_RISK_PATHS :: "string list" where
  "HIGH_RISK_PATHS = [''/api/v1/scans'', ''/api/v1/auth/login'', ''/projects'']"

definition HEALTH_PATHS :: "string list" where
  "HEALTH_PATHS = [''/health'', ''/healthz'', ''/health/live'', ''/health/ready'']"

record ddos_shield =
  shield_enabled :: bool
  path_buckets :: "(string, pyfloat list) pydict"
  global_bucket :: "pyfloat list"
  burst_limit :: nat
  global_limit :: nat
  max_tracked_paths :: nat

definition new_shield :: "bool \<Rightarrow> ddos_shield" where
  "new_shield en = \<lparr>shield_enabled = en, path_buckets = [], global_bucket = [], burst_limit = 50,
     global_limit = 200, max_tracked_paths = 1000\<rparr>"

datatype shield_reply =
    Forwarded
  | Refused (refused_status: nat) (refused_error: string) (refused_detail: string)

definition under_prefix :: "string \<Rightarrow> string \<Rightarrow> bool" where
  "under_prefix path p \<longleftrightarrow> path = p \<or> starts_with (p @ ''/'') path"

definition is_health_path :: "string \<Rightarrow> bool" where
  "is_health_path path \<longleftrightarrow> (\<exists>p \<in> set HEALTH_PATHS. under_prefix path p)"

definition high_risk_path :: "string \<Rightarrow> string option" where
  "high_risk_path path = find (under_prefix path) HIGH_RISK_PATHS"

text \<open>\<open>OrderedDict.move_to_end\<close> and the loop that pops the oldest entries.\<close>

definition move_to_end :: "'k \<Rightarrow> ('k, 'v) pydict \<Rightarrow> ('k, 'v) pydict" where
  "move_to_end k m = (case dget m k of None \<Rightarrow> m | Some v \<Rightarrow> dpop k m @ [(k, v)])"

fun pop_oldest :: "nat \<Rightarrow> ('k, 'v) pydict \<Rightarrow> ('k, 'v) pydict" where
  "pop_oldest cap [] = []"
| "pop_oldest cap (e # m) = (if length (e # m) > cap then pop_oldest cap m else e # m)"

definition in_ten_seconds :: "pyfloat \<Rightarrow> pyfloat list \<Rightarrow> pyfloat list" where
  "in_ten_seconds now ts = [t \<leftarrow> ts. t > now - 10]"

text \<open>The branch for a high-risk path: \<open>None\<close> is the refusal, otherwise the new bucket table.\<close>

definition path_step :: "pyfloat \<Rightarrow> string \<Rightarrow> ddos_shield \<Rightarrow> (string, pyfloat list) pydict option" where
  "path_step now p s =
     (let bucket = in_ten_seconds now (case dget (path_buckets s) p of None \<Rightarrow> [] | Some b \<Rightarrow> b)
      in if length bucket \<ge> burst_limit s then None
         else Some (pop_oldest (max_tracked_paths s)
                (move_to_end p (dset p (bucket @ [now]) (path_buckets s)))))"

definition dispatch :: "pyfloat \<Rightarrow> string \<Rightarrow> ddos_shield \<Rightarrow> shield_reply \<times> ddos_shield" where
  "dispatch now path s =
     (if \<not> shield_enabled s then (Forwarded, s)
      else if is_health_path path then (Forwarded, s)
      else let s1 = s\<lparr>global_bucket := in_ten_seconds now (global_bucket s)\<rparr>
           in if length (global_bucket s1) \<ge> global_limit s1
              then (Refused 429 ''rate_limit_exceeded'' ''Global rate limit exceeded'', s1)
              else case high_risk_path path of
                     None \<Rightarrow> (Forwarded, s1\<lparr>global_bucket := global_bucket s1 @ [now]\<rparr>)
                   | Some p \<Rightarrow>
                       (case path_step now p s1 of
                          None \<Rightarrow> (Refused 429 ''rate_limit_exceeded'' (''Burst limit exceeded for '' @ p), s1)
                        | Some m \<Rightarrow> (Forwarded,
                            s1\<lparr>path_buckets := m, global_bucket := global_bucket s1 @ [now]\<rparr>)))"

section \<open>Paths\<close>

lemma high_risk_disjoint:
  assumes "p \<in> set HIGH_RISK_PATHS" and "q \<in> set HIGH_RISK_PATHS"
    and "under_prefix path p" and "under_prefix path q"
  shows "p = q"
  using assms by (auto simp: HIGH_RISK_PATHS_def under_prefix_def starts_with_append)

lemma high_risk_path_Some:
  "high_risk_path path = Some p \<longleftrightarrow> p \<in> set HIGH_RISK_PATHS \<and> under_prefix path p"
proof
  assume "high_risk_path path = Some p"
  then show "p \<in> set HIGH_RISK_PATHS \<and> under_prefix path p"
    by (auto simp: high_risk_path_def find_Some_iff)
next
  assume *: "p \<in> set HIGH_RISK_PATHS \<and> under_prefix path p"
  then obtain q where "high_risk_path path = Some q"
    by (cases "high_risk_path path") (auto simp: high_risk_path_def find_None_iff)
  moreover from this have "q \<in> set HIGH_RISK_PATHS \<and> under_prefix path q"
    by (auto simp: high_risk_path_def find_Some_iff)
  ultimately show "high_risk_path path = Some p" using * high_risk_disjoint by blast
qed

lemma high_risk_any_order:
  assumes "set ps = set HIGH_RISK_PATHS"
  shows "find (under_prefix path) ps = high_risk_path path"
proof (cases "find (under_prefix path) ps")
  case None
  with assms have "\<nexists>p. high_risk_path path = Some p"
    by (auto simp: high_risk_path_Some find_None_iff)
  with None show ?thesis by (cases "high_risk_path path") auto
next
  case (Some p)
  then have "p \<in> set ps" "under_prefix path p" by (auto simp: find_Some_iff)
  with assms Some show ?thesis by (simp add: high_risk_path_Some eq_commute [of "Some p"])
qed

lemma health_not_risky: "is_health_path path \<Longrightarrow> high_risk_path path = None"
proof (rule ccontr)
  assume "is_health_path path" and "high_risk_path path \<noteq> None"
  then obtain p where "high_risk_path path = Some p" by auto
  with \<open>is_health_path path\<close> show False
    by (auto simp: high_risk_path_Some is_health_path_def HEALTH_PATHS_def HIGH_RISK_PATHS_def
        under_prefix_def starts_with_append)
qed

section \<open>Logs that meter a stream of requests\<close>

text \<open>
  A step that grants a request only while its log has room in the window, and that keeps in the log
  every grant the window still covers, grants at most \<open>cap\<close> requests in any window.
\<close>

fun granted_times :: "(pyfloat \<Rightarrow> 'e \<Rightarrow> 's \<Rightarrow> bool \<times> 's) \<Rightarrow> 's \<Rightarrow> (pyfloat \<times> 'e) list \<Rightarrow> pyfloat list" where
  "granted_times step s [] = []"
| "granted_times step s ((now, e) # evs) =
     (if fst (step now e s) then [now] else []) @ granted_times step (snd (step now e s)) evs"

locale windowed =
  fixes step :: "pyfloat \<Rightarrow> 'e \<Rightarrow> 's \<Rightarrow> bool \<times> 's"
    and log :: "'s \<Rightarrow> pyfloat list"
    and ok :: "'s \<Rightarrow> bool"
    and cap :: nat
    and width :: int
  assumes step_ok: "ok s \<Longrightarrow> ok (snd (step now e s))"
    and step_log: "ok s \<Longrightarrow> in_window now width (log (snd (step now e s)))
          = in_window now width (log s) @ (if fst (step now e s) then [now] else [])"
    and step_room: "ok s \<Longrightarrow> fst (step now e s) \<Longrightarrow> length (in_window now width (log s)) < cap"
    and width_pos: "0 < width"
begin

lemma granted_bounded:
  assumes "ok s" and "in_window t width (log s) = in_window t width h"
    and "\<forall>x \<in> set h. x \<le> t" and "window_bounded cap width h" and "timed_from fst t evs"
  shows "window_bounded cap width (h @ granted_times step s evs)"
  using assms
proof (induction evs arbitrary: s t h)
  case (Cons ev evs)
  obtain now e where ev: "ev = (now, e)" by (cases ev)
  let ?h = "h @ (if fst (step now e s) then [now] else [])"
  have le: "t \<le> now" and rest: "timed_from fst now evs" using Cons.prems(5) ev by auto
  have same: "in_window now width (log s) = in_window now width h"
    using le Cons.prems(2) by (rule in_window_later)
  have upto: "\<forall>x \<in> set h. x \<le> now" using Cons.prems(3) le by auto
  have bound: "window_bounded cap width ?h"
    using window_bounded_grant [OF Cons.prems(4) upto] step_room [OF Cons.prems(1), of now e] same Cons.prems(4)
    by auto
  have log: "in_window now width (log (snd (step now e s))) = in_window now width ?h"
    using step_log [OF Cons.prems(1), of now e] same width_pos by (simp add: in_window_def)
  have "\<forall>x \<in> set ?h. x \<le> now" using upto by auto
  from Cons.IH [OF step_ok [OF Cons.prems(1), of now e] log this bound rest] ev show ?case by simp
qed simp

lemma granted_from_start:
  assumes "ok s" and "log s = []" and "timed_from fst t evs"
  shows "window_bounded cap width (granted_times step s evs)"
  using granted_bounded [of s t "[]" evs] assms by (simp add: window_bounded_def)

end

section \<open>The buckets of the shield\<close>

definition path_log :: "string \<Rightarrow> ddos_shield \<Rightarrow> pyfloat list" where
  "path_log p s = (case dget (path_buckets s) p of None \<Rightarrow> [] | Some b \<Rightarrow> b)"

definition shield_ok :: "ddos_shield \<Rightarrow> bool" where
  "shield_ok s \<longleftrightarrow> shield_enabled s \<and> burst_limit s = 50 \<and> global_limit s = 200 \<and> max_tracked_paths s = 1000
     \<and> wf_dict (path_buckets s) \<and> set (dkeys (path_buckets s)) \<subseteq> set HIGH_RISK_PATHS"

lemma pop_oldest_room: "length m \<le> cap \<Longrightarrow> pop_oldest cap m = m"
  by (cases m) auto

lemma move_to_end_keys:
  assumes "wf_dict m"
  shows "wf_dict (move_to_end k m) \<and> set (dkeys (move_to_end k m)) = set (dkeys m)"
proof (cases "dget m k")
  case None
  then show ?thesis using assms by (simp add: move_to_end_def)
next
  case (Some v)
  have "wf_dict (dpop k m) \<and> set (dkeys (dpop k m)) = set (dkeys m) - {k}"
    using assms unfolding delete_keys by (simp add: distinct_removeAll)
  moreover have "k \<in> set (dkeys m)" using Some by (auto dest: map_of_SomeD intro: rev_image_eqI)
  moreover have "dkeys (move_to_end k m) = dkeys (dpop k m) @ [k]" using Some by (simp add: move_to_end_def)
  ultimately show ?thesis by auto
qed

lemma dget_move_to_end: "dget (move_to_end k m) k' = dget m k'"
  by (cases "dget m k") (auto simp: move_to_end_def map_add_def split: option.splits)

text \<open>At most three prefixes are tracked, so the cap of 1000 never drops a bucket.\<close>

lemma tracked_le:
  assumes "wf_dict m" and "set (dkeys m) \<subseteq> set HIGH_RISK_PATHS"
  shows "length m \<le> 3"
proof -
  have "card (set (dkeys m)) \<le> card (set HIGH_RISK_PATHS)" using assms(2) by (intro card_mono) auto
  moreover have "card (set HIGH_RISK_PATHS) \<le> 3"
    by (rule order_trans [OF card_length]) (simp add: HIGH_RISK_PATHS_def)
  moreover have "length m = card (set (dkeys m))" using distinct_card [OF assms(1)] by simp
  ultimately show ?thesis by linarith
qed

lemma path_step_Some:
  assumes ok: "shield_ok s" and p: "p \<in> set HIGH_RISK_PATHS" and m: "path_step now p s = Some m"
  shows "wf_dict m" "set (dkeys m) \<subseteq> set HIGH_RISK_PATHS"
    "dget m q = (if q = p then Some (in_ten_seconds now (path_log p s) @ [now]) else dget (path_buckets s) q)"
    "length (in_ten_seconds now (path_log p s)) < 50"
proof -
  let ?d = "dset p (in_ten_seconds now (path_log p s) @ [now]) (path_buckets s)"
  have wf: "wf_dict ?d" "set (dkeys ?d) \<subseteq> set HIGH_RISK_PATHS"
    using ok p by (auto simp: shield_ok_def simp del: set_map)
  have "length (move_to_end p ?d) \<le> 3"
    using wf move_to_end_keys [OF wf(1), of p] by (intro tracked_le) auto
  then have m': "m = move_to_end p ?d" "length (in_ten_seconds now (path_log p s)) < 50"
    using m ok by (auto simp: path_step_def path_log_def Let_def shield_ok_def pop_oldest_room split: if_splits)
  show "wf_dict m" "set (dkeys m) \<subseteq> set HIGH_RISK_PATHS"
    using wf move_to_end_keys [OF wf(1), of p] m' by auto
  show "dget m q = (if q = p then Some (in_ten_seconds now (path_log p s) @ [now]) else dget (path_buckets s) q)"
    using m' by (simp add: dget_move_to_end)
  show "length (in_ten_seconds now (path_log p s)) < 50" by (rule m')
qed

text \<open>
  The requests of a class \<open>sel\<close> of paths that reach the application, as a metered step.
\<close>

definition counted :: "(string \<Rightarrow> bool) \<Rightarrow> pyfloat \<Rightarrow> string \<Rightarrow> ddos_shield \<Rightarrow> bool \<times> ddos_shield" where
  "counted sel now path s = (fst (dispatch now path s) = Forwarded \<and> sel path, snd (dispatch now path s))"

lemma in_ten_seconds_window: "in_ten_seconds now ts = in_window now 10 ts"
  by (simp add: in_ten_seconds_def in_window_def)

lemma in_window_simps [simp]:
  "in_window now w (in_window now w ts) = in_window now w ts"
  "in_window now w (xs @ ys) = in_window now w xs @ in_window now w ys"
  "0 < w \<Longrightarrow> in_window now w [now] = [now]"
  by (simp_all add: in_window_def)

text \<open>The three ways through \<open>dispatch\<close> when the shield is on.\<close>

lemma dispatch_cases:
  assumes "shield_ok s"
  obtains (health) "is_health_path path" "dispatch now path s = (Forwarded, s)"
  | (refused) st er d where "\<not> is_health_path path"
      "dispatch now path s = (Refused st er d, s\<lparr>global_bucket := in_ten_seconds now (global_bucket s)\<rparr>)"
  | (plain) "\<not> is_health_path path" "high_risk_path path = None"
      "length (in_ten_seconds now (global_bucket s)) < 200"
      "dispatch now path s = (Forwarded, s\<lparr>global_bucket := in_ten_seconds now (global_bucket s) @ [now]\<rparr>)"
  | (risky) p m where "\<not> is_health_path path" "high_risk_path path = Some p"
      "length (in_ten_seconds now (global_bucket s)) < 200" "path_step now p s = Some m"
      "dispatch now path s =
         (Forwarded, s\<lparr>path_buckets := m, global_bucket := in_ten_seconds now (global_bucket s) @ [now]\<rparr>)"
proof -
  have frame: "path_step now p (s\<lparr>global_bucket := g\<rparr>) = path_step now p s" for p g
    by (simp add: path_step_def Let_def)
  show ?thesis
  proof (cases "is_health_path path \<or> 200 \<le> length (in_ten_seconds now (global_bucket s))")
    case True
    then show ?thesis using health refused assms
      by (cases "is_health_path path") (auto simp: dispatch_def Let_def shield_ok_def)
  next
    case False
    then show ?thesis using refused plain risky assms
      by (cases "high_risk_path path"; cases "path_step now (the (high_risk_path path)) s")
         (auto simp: dispatch_def Let_def shield_ok_def frame)
  qed
qed

lemma dispatch_ok:
  assumes "shield_ok s"
  shows "shield_ok (snd (dispatch now path s))"
  using assms
proof (cases rule: dispatch_cases [where now = now and path = path])
  case (risky p m)
  then have "p \<in> set HIGH_RISK_PATHS" by (simp add: high_risk_path_Some)
  with risky path_step_Some(1,2) [OF assms this risky(4)] assms show ?thesis by (simp add: shield_ok_def)
qed (use assms in \<open>simp_all add: shield_ok_def\<close>)

lemma dispatch_global:
  assumes "shield_ok s"
  shows "in_window now 10 (global_bucket (snd (dispatch now path s))) =
      in_window now 10 (global_bucket s) @ (if fst (dispatch now path s) = Forwarded \<and> \<not> is_health_path path then [now] else [])"
    and "fst (dispatch now path s) = Forwarded \<Longrightarrow> \<not> is_health_path path \<Longrightarrow> length (in_window now 10 (global_bucket s)) < 200"
  using assms
  by (cases rule: dispatch_cases [where now = now and path = path]; simp add: in_ten_seconds_window)+

lemma dispatch_path:
  assumes ok: "shield_ok s"
  shows "in_window now 10 (path_log p (snd (dispatch now path s))) =
      in_window now 10 (path_log p s) @
        (if fst (dispatch now path s) = Forwarded \<and> high_risk_path path = Some p then [now] else [])"
    and "fst (dispatch now path s) = Forwarded \<Longrightarrow> high_risk_path path = Some p \<Longrightarrow>
      length (in_window now 10 (path_log p s)) < 50"
proof -
  have log: "path_log p (s\<lparr>global_bucket := g\<rparr>) = path_log p s" for g by (simp add: path_log_def)
  have "in_window now 10 (path_log p (snd (dispatch now path s))) =
      in_window now 10 (path_log p s) @
        (if fst (dispatch now path s) = Forwarded \<and> high_risk_path path = Some p then [now] else [])
    \<and> (fst (dispatch now path s) = Forwarded \<longrightarrow> high_risk_path path = Some p \<longrightarrow>
      length (in_window now 10 (path_log p s)) < 50)"
    using ok
  proof (cases rule: dispatch_cases [where now = now and path = path])
    case (risky q m)
    then have "q \<in> set HIGH_RISK_PATHS" by (simp add: high_risk_path_Some)
    note step = path_step_Some(3,4) [OF ok this risky(4)]
    have "path_log p (s\<lparr>path_buckets := m, global_bucket := g\<rparr>) =
        (if p = q then in_ten_seconds now (path_log q s) @ [now] else path_log p s)" for g
      using step(1) [of p] by (simp add: path_log_def)
    with risky step(2) show ?thesis by (cases "p = q") (simp_all add: in_ten_seconds_window)
  qed (simp_all add: log health_not_risky)
  then show "in_window now 10 (path_log p (snd (dispatch now path s))) =
      in_window now 10 (path_log p s) @
        (if fst (dispatch now path s) = Forwarded \<and> high_risk_path path = Some p then [now] else [])"
    and "fst (dispatch now path s) = Forwarded \<Longrightarrow> high_risk_path path = Some p \<Longrightarrow>
      length (in_window now 10 (path_log p s)) < 50"
    by simp_all
qed

interpretation global_meter: windowed "counted (\<lambda>path. \<not> is_health_path path)" global_bucket shield_ok 200 10
  by unfold_locales (auto simp: counted_def dispatch_ok dispatch_global(1) intro: dispatch_global(2))

interpretation path_meter: windowed "counted (\<lambda>path. high_risk_path path = Some p)" "path_log p" shield_ok 50 10 for p
  by unfold_locales (auto simp: counted_def dispatch_ok dispatch_path(1) intro: dispatch_path(2))

lemma new_shield_ok: "shield_ok (new_shield True)"
  by (simp add: shield_ok_def new_shield_def)

text \<open>
  C3. The flood shield, switched on, over any sequence of requests with non-decreasing times: in
  every ten-second window at most 200 requests that are not health probes reach the application, and
  at most 50 for each high-risk prefix. A health probe is forwarded whatever the state, and does not
  change it.
\<close>

theorem shield_bounds:
  assumes "timed_from fst t evs"
  shows "window_bounded 200 10 (granted_times (counted (\<lambda>path. \<not> is_health_path path)) (new_shield True) evs)
    \<and> (\<forall>p. window_bounded 50 10 (granted_times (counted (\<lambda>path. high_risk_path path = Some p)) (new_shield True) evs))
    \<and> (\<forall>now path s. is_health_path path \<longrightarrow> dispatch now path s = (Forwarded, s))"
proof (intro conjI allI impI)
  show "window_bounded 200 10 (granted_times (counted (\<lambda>path. \<not> is_health_path path)) (new_shield True) evs)"
    using new_shield_ok assms by (intro global_meter.granted_from_start) (auto simp: new_shield_def)
  show "window_bounded 50 10 (granted_times (counted (\<lambda>path. high_risk_path path = Some p)) (new_shield True) evs)" for p
    using new_shield_ok assms by (intro path_meter.granted_from_start) (auto simp: new_shield_def path_log_def)
qed (simp add: dispatch_def)

text \<open>
  One probe and one login, ten and a half seconds into the run: both are forwarded, and the bounds
  hold for them.
\<close>

theorem shield_bounds_witness:
  "timed_from fst 0 [(10, ''/health/live''), (21/2, ''/api/v1/auth/login'')]
   \<and> granted_times (counted (\<lambda>path. \<not> is_health_path path)) (new_shield True)
       [(10, ''/health/live''), (21/2, ''/api/v1/auth/login'')] = [21/2]
   \<and> window_bounded 200 10 (granted_times (counted (\<lambda>path. \<not> is_health_path path)) (new_shield True)
       [(10, ''/health/live''), (21/2, ''/api/v1/auth/login'')])"
proof -
  have t: "timed_from fst 0 [(10, ''/health/live''), (21/2, ''/api/v1/auth/login'')]" by simp
  moreover have "granted_times (counted (\<lambda>path. \<not> is_health_path path)) (new_shield True)
       [(10, ''/health/live''), (21/2, ''/api/v1/auth/login'')] = [21/2]"
    by code_simp
  ultimately show ?thesis using shield_bounds [OF t] by blast
qed

end
