(* ===== verification/Heapq.thy ===== *)
theory Heapq
  imports Prelude
begin

text \<open>
  Python's \<open>heapq\<close>, the part of the standard library the job queue rests on: the array layout
  (children of \<open>i\<close> at \<open>2i+1\<close> and \<open>2i+2\<close>), the two sifting loops and the operations
  \<open>heappush\<close>, \<open>heappop\<close> and \<open>heapify\<close>, for any \<open>__lt__\<close>. The interface
  \<open>weak_order\<close> states what an \<open>__lt__\<close> must satisfy; under it every operation keeps the
  elements and the heap order, and the popped element is least.
\<close>

section \<open>The operations\<close>

abbreviation parent :: "nat \<Rightarrow> nat" where
  "parent i \<equiv> (i - 1) div 2"

text \<open>\<open>_siftdown\<close>: move \<open>newitem\<close> from \<open>pos\<close> towards \<open>startpos\<close> past larger parents.\<close>

function siftdown :: "('a \<Rightarrow> 'a \<Rightarrow> bool) \<Rightarrow> 'a \<Rightarrow> nat \<Rightarrow> nat \<Rightarrow> 'a list \<Rightarrow> 'a list" where
  "siftdown lt newitem startpos pos heap =
     (if pos > startpos \<and> lt newitem (heap ! parent pos)
      then siftdown lt newitem startpos (parent pos) (heap[pos := heap ! parent pos])
      else heap[pos := newitem])"
  by pat_completeness auto
termination
  by (relation "measure (\<lambda>(lt, x, s, pos, h). pos)") auto

declare siftdown.simps [simp del]

text \<open>
  \<open>_siftup\<close>: bubble the smaller child up until the hole is at a leaf; the loop's result is the
  leaf position and the array.
\<close>

definition smaller_child :: "('a \<Rightarrow> 'a \<Rightarrow> bool) \<Rightarrow> nat \<Rightarrow> 'a list \<Rightarrow> nat" where
  "smaller_child lt pos heap =
     (let c = 2 * pos + 1; r = c + 1
      in if r < length heap \<and> \<not> lt (heap ! c) (heap ! r) then r else c)"

function siftup_loop :: "('a \<Rightarrow> 'a \<Rightarrow> bool) \<Rightarrow> nat \<Rightarrow> 'a list \<Rightarrow> nat \<times> 'a list" where
  "siftup_loop lt pos heap =
     (if 2 * pos + 1 < length heap
      then let c = smaller_child lt pos heap in siftup_loop lt c (heap[pos := heap ! c])
      else (pos, heap))"
  by pat_completeness auto
termination
  by (relation "measure (\<lambda>(lt, pos, h). length h - pos)") (auto simp: smaller_child_def Let_def)

declare siftup_loop.simps [simp del]

definition siftup :: "('a \<Rightarrow> 'a \<Rightarrow> bool) \<Rightarrow> nat \<Rightarrow> 'a list \<Rightarrow> 'a list" where
  "siftup lt pos heap =
     (let newitem = heap ! pos; (leaf, h) = siftup_loop lt pos heap in siftdown lt newitem pos leaf h)"

definition heappush :: "('a \<Rightarrow> 'a \<Rightarrow> bool) \<Rightarrow> 'a list \<Rightarrow> 'a \<Rightarrow> 'a list" where
  "heappush lt heap item = siftdown lt item 0 (length heap) (heap @ [item])"

text \<open>\<open>heappop\<close> raises \<open>IndexError\<close> on an empty heap.\<close>

definition heappop :: "('a \<Rightarrow> 'a \<Rightarrow> bool) \<Rightarrow> 'a list \<Rightarrow> ('a \<times> 'a list) py_result" where
  "heappop lt heap =
     (if heap = [] then Inl IndexError
      else let lastelt = last heap; rest = butlast heap
           in if rest = [] then Inr (lastelt, [])
              else Inr (rest ! 0, siftup lt 0 (rest[0 := lastelt])))"

definition heapify :: "('a \<Rightarrow> 'a \<Rightarrow> bool) \<Rightarrow> 'a list \<Rightarrow> 'a list" where
  "heapify lt x = foldl (\<lambda>h i. siftup lt i h) x (rev [0..<length x div 2])"

section \<open>Elements\<close>

lemma mset_move:
  "i < length h \<Longrightarrow> j < length h \<Longrightarrow> i \<noteq> j \<Longrightarrow> mset (h[i := h ! j, j := x]) = mset (h[i := x])"
  by (auto simp: mset_update nth_list_update)

lemma length_siftdown [simp]: "length (siftdown lt x s pos h) = length h"
  by (induction lt x s pos h rule: siftdown.induct) (subst siftdown.simps, simp)

lemma mset_siftdown: "pos < length h \<Longrightarrow> mset (siftdown lt x s pos h) = mset (h[pos := x])"
proof (induction lt x s pos h rule: siftdown.induct)
  case (1 lt x s pos h)
  show ?case
  proof (cases "pos > s \<and> lt x (h ! parent pos)")
    case True
    then have "parent pos < pos" by (auto intro: div_less_dividend)
    with 1 True show ?thesis by (subst siftdown.simps) (simp add: mset_move)
  next
    case False
    then show ?thesis by (subst siftdown.simps) (simp only: if_False)
  qed
qed

lemma smaller_child_bounds:
  "2 * pos + 1 < length h \<Longrightarrow> pos < smaller_child lt pos h \<and> smaller_child lt pos h < length h
     \<and> parent (smaller_child lt pos h) = pos"
  by (auto simp: smaller_child_def Let_def)

lemma siftup_loop_shape:
  assumes "pos < length h"
  shows "fst (siftup_loop lt pos h) < length h \<and> length (snd (siftup_loop lt pos h)) = length h \<and>
    mset ((snd (siftup_loop lt pos h))[fst (siftup_loop lt pos h) := x]) = mset (h[pos := x])"
  using assms
proof (induction lt pos h rule: siftup_loop.induct)
  case (1 lt pos h)
  show ?case
  proof (cases "2 * pos + 1 < length h")
    case True
    with smaller_child_bounds [OF True, of lt] 1 show ?thesis
      by (subst (1 2 3 4) siftup_loop.simps) (simp add: Let_def mset_move)
  next
    case False
    with "1.prems" show ?thesis by (subst (1 2 3 4) siftup_loop.simps) simp
  qed
qed

lemma length_siftup [simp]: "pos < length h \<Longrightarrow> length (siftup lt pos h) = length h"
  using siftup_loop_shape [of pos h lt undefined] by (simp add: siftup_def case_prod_beta Let_def)

lemma mset_siftup: "pos < length h \<Longrightarrow> mset (siftup lt pos h) = mset h"
  using siftup_loop_shape [of pos h lt "h ! pos"]
  by (simp add: siftup_def case_prod_beta Let_def mset_siftdown)

lemma mset_heappush: "mset (heappush lt h x) = add_mset x (mset h)"
  by (simp add: heappush_def mset_siftdown list_update_append)

lemma mset_heappop: "heappop lt h = Inr (x, h') \<Longrightarrow> mset h = add_mset x (mset h')"
proof -
  assume pop: "heappop lt h = Inr (x, h')"
  then obtain rest l where h: "h = rest @ [l]" by (cases h rule: rev_cases) (auto simp: heappop_def)
  show ?thesis
  proof (cases rest)
    case Nil
    with pop h show ?thesis by (simp add: heappop_def)
  next
    case (Cons r rest')
    with pop h show ?thesis by (auto simp: heappop_def mset_siftup)
  qed
qed

lemma siftup_all_shape:
  "\<forall>i \<in> set is. i < length h \<Longrightarrow>
     length (foldl (\<lambda>h i. siftup lt i h) h is) = length h \<and> mset (foldl (\<lambda>h i. siftup lt i h) h is) = mset h"
  by (induction "is" arbitrary: h) (auto simp: mset_siftup)

lemma mset_heapify: "mset (heapify lt h) = mset h"
  unfolding heapify_def by (rule siftup_all_shape [THEN conjunct2]) auto

section \<open>Heap order\<close>

text \<open>No element from position \<open>s\<close> on is larger than its children.\<close>

definition heap_from :: "('a \<Rightarrow> 'a \<Rightarrow> bool) \<Rightarrow> nat \<Rightarrow> 'a list \<Rightarrow> bool" where
  "heap_from lt s h \<longleftrightarrow> (\<forall>i. 0 < i \<and> i < length h \<and> s \<le> parent i \<longrightarrow> \<not> lt (h ! i) (h ! parent i))"

text \<open>\<open>below s p\<close>: position \<open>p\<close> lies in the subtree rooted at \<open>s\<close>.\<close>

fun below :: "nat \<Rightarrow> nat \<Rightarrow> bool" where
  "below s p = (if p \<le> s then p = s else below s (parent p))"

declare below.simps [simp del]

lemma below_refl [simp]: "below s s"
  by (simp add: below.simps)

lemma below_ge: "below s p \<Longrightarrow> s \<le> p"
  by (induction s p rule: below.induct) (subst (asm) below.simps, auto split: if_splits)

lemma below_parent: "below s p \<Longrightarrow> s < p \<Longrightarrow> below s (parent p)"
  by (subst (asm) below.simps) auto

lemma below_child: "below s p \<Longrightarrow> p < c \<Longrightarrow> parent c = p \<Longrightarrow> below s c"
  using below_ge [of s p] by (subst below.simps) auto

lemma below_zero: "below 0 p"
  by (induction "0::nat" p rule: below.induct) (subst below.simps, auto)

text \<open>
  The two loop invariants. During \<open>_siftdown\<close> the item to place is compared with the children of
  the hole; during the first loop of \<open>_siftup\<close> the hole's parent is.
\<close>

definition down_inv :: "('a \<Rightarrow> 'a \<Rightarrow> bool) \<Rightarrow> 'a \<Rightarrow> nat \<Rightarrow> nat \<Rightarrow> 'a list \<Rightarrow> bool" where
  "down_inv lt x s pos h \<longleftrightarrow> pos < length h \<and> below s pos \<and>
     (\<forall>i. 0 < i \<and> i < length h \<and> s \<le> parent i \<and> i \<noteq> pos \<and> parent i \<noteq> pos \<longrightarrow> \<not> lt (h ! i) (h ! parent i)) \<and>
     (\<forall>c. pos < c \<and> c < length h \<and> parent c = pos \<longrightarrow> \<not> lt (h ! c) x) \<and>
     (s < pos \<longrightarrow> (\<forall>c. pos < c \<and> c < length h \<and> parent c = pos \<longrightarrow> \<not> lt (h ! c) (h ! parent pos)))"

definition up_inv :: "('a \<Rightarrow> 'a \<Rightarrow> bool) \<Rightarrow> nat \<Rightarrow> nat \<Rightarrow> 'a list \<Rightarrow> bool" where
  "up_inv lt s pos h \<longleftrightarrow> pos < length h \<and> below s pos \<and>
     (\<forall>i. 0 < i \<and> i < length h \<and> s \<le> parent i \<and> parent i \<noteq> pos \<longrightarrow> \<not> lt (h ! i) (h ! parent i)) \<and>
     (s < pos \<longrightarrow> (\<forall>c. pos < c \<and> c < length h \<and> parent c = pos \<longrightarrow> \<not> lt (h ! c) (h ! parent pos)))"

text \<open>What \<open>__lt__\<close> has to satisfy for the heap to work: a strict weak order.\<close>

locale weak_order =
  fixes lt :: "'a \<Rightarrow> 'a \<Rightarrow> bool"
  assumes lt_asym: "lt a b \<Longrightarrow> \<not> lt b a"
    and lt_negtrans: "\<not> lt a b \<Longrightarrow> \<not> lt b c \<Longrightarrow> \<not> lt a c"
begin

lemma lt_irrefl [simp]: "\<not> lt a a"
  using lt_asym by blast

lemma down_inv_step:
  assumes inv: "down_inv lt x s pos h" and s: "s < pos" and lt: "lt x (h ! parent pos)"
  shows "down_inv lt x s (parent pos) (h[pos := h ! parent pos])"
proof -
  let ?p = "parent pos"
  have pp: "?p < pos" and len: "pos < length h" and "below s pos"
    using inv s by (auto simp: down_inv_def)
  then have b: "below s ?p" using s by (blast intro: below_parent)
  have edge: "\<not> lt (h ! i) (h ! parent i)"
    if "0 < i" "i < length h" "s \<le> parent i" "i \<noteq> pos" "parent i \<noteq> pos" for i
    using inv that by (auto simp: down_inv_def)
  have sib: "\<not> lt (h ! c) (h ! ?p)" if "?p < c" "c < length h" "parent c = ?p" "c \<noteq> pos" for c
    using edge [of c] that below_ge [OF b] pp by auto
  have gp: "parent ?p \<noteq> pos" using pp by linarith
  have up: "\<not> lt (h ! ?p) (h ! parent ?p)" if "s < ?p"
    using edge [of ?p] below_ge [OF below_parent [OF b that]] that pp len gp by auto
  have grand: "\<not> lt (h ! c) (h ! ?p)" if "pos < c" "c < length h" "parent c = pos" for c
    using inv s that by (auto simp: down_inv_def)
  show ?thesis
    unfolding down_inv_def
  proof (intro conjI allI impI)
    show "?p < length (h[pos := h ! ?p])" using pp len by simp
    show "below s ?p" by (fact b)
  next
    fix i assume "0 < i \<and> i < length (h[pos := h ! ?p]) \<and> s \<le> parent i \<and> i \<noteq> ?p \<and> parent i \<noteq> ?p"
    then show "\<not> lt (h[pos := h ! ?p] ! i) (h[pos := h ! ?p] ! parent i)"
      using edge [of i] grand [of i] len by (cases "parent i = pos"; cases "i = pos") auto
  next
    fix c assume c: "?p < c \<and> c < length (h[pos := h ! ?p]) \<and> parent c = ?p"
    then show "\<not> lt (h[pos := h ! ?p] ! c) x"
      using lt_asym [OF lt] lt_negtrans [OF sib [of c]] len by (cases "c = pos") auto
    assume "s < ?p"
    then show "\<not> lt (h[pos := h ! ?p] ! c) (h[pos := h ! ?p] ! parent ?p)"
      using c up lt_negtrans [OF sib [of c] up] len gp by (cases "c = pos") auto
  qed
qed

lemma siftdown_heap: "down_inv lt x s pos h \<Longrightarrow> heap_from lt s (siftdown lt x s pos h)"
proof (induction pos arbitrary: h rule: less_induct)
  case (less pos)
  show ?case
  proof (cases "pos > s \<and> lt x (h ! parent pos)")
    case True
    then have "parent pos < pos" by auto
    from less.IH [OF this down_inv_step [OF less.prems]] True show ?thesis
      by (subst siftdown.simps) simp
  next
    case False
    have "heap_from lt s (h[pos := x])"
      unfolding heap_from_def
    proof (intro allI impI)
      fix i assume i: "0 < i \<and> i < length (h[pos := x]) \<and> s \<le> parent i"
      then have "parent i < i" by auto
      then show "\<not> lt (h[pos := x] ! i) (h[pos := x] ! parent i)"
        using i less.prems False by (cases "i = pos"; cases "parent i = pos") (auto simp: down_inv_def)
    qed
    with False show ?thesis by (subst siftdown.simps) (simp only: if_False)
  qed
qed

lemma smaller_child_least:
  "2 * pos + 1 < length h \<Longrightarrow> pos < i \<Longrightarrow> i < length h \<Longrightarrow> parent i = pos \<Longrightarrow>
     \<not> lt (h ! i) (h ! smaller_child lt pos h)"
proof -
  assume "2 * pos + 1 < length h" "pos < i" "i < length h" "parent i = pos"
  moreover from this have "i = 2 * pos + 1 \<or> i = 2 * pos + 2" by presburger
  ultimately show ?thesis by (auto simp: smaller_child_def Let_def dest: lt_asym)
qed

lemma up_inv_step:
  assumes inv: "up_inv lt s pos h" and more: "2 * pos + 1 < length h"
  shows "up_inv lt s (smaller_child lt pos h) (h[pos := h ! smaller_child lt pos h])"
proof -
  let ?c = "smaller_child lt pos h"
  from smaller_child_bounds [OF more, of lt]
  have c: "pos < ?c" "?c < length h" "parent ?c = pos" by auto
  have b: "below s ?c" using inv c by (auto simp: up_inv_def intro: below_child)
  have edge: "\<not> lt (h ! i) (h ! parent i)"
    if "0 < i" "i < length h" "s \<le> parent i" "parent i \<noteq> pos" for i
    using inv that by (auto simp: up_inv_def)
  show ?thesis
    unfolding up_inv_def
  proof (intro conjI allI impI)
    show "?c < length (h[pos := h ! ?c])" using c by simp
    show "below s ?c" by (fact b)
  next
    fix i assume i: "0 < i \<and> i < length (h[pos := h ! ?c]) \<and> s \<le> parent i \<and> parent i \<noteq> ?c"
    then have pi: "parent i < i" by auto
    show "\<not> lt (h[pos := h ! ?c] ! i) (h[pos := h ! ?c] ! parent i)"
    proof (cases "parent i = pos")
      case True
      with i pi smaller_child_least [OF more, of i] c show ?thesis by auto
    next
      case False
      with i pi edge [of i] inv c show ?thesis by (cases "i = pos") (auto simp: up_inv_def)
    qed
  next
    fix c' assume "?c < c' \<and> c' < length (h[pos := h ! ?c]) \<and> parent c' = ?c"
    then show "\<not> lt (h[pos := h ! ?c] ! c') (h[pos := h ! ?c] ! parent ?c)"
      using edge [of c'] c below_ge [OF b] inv by (auto simp: up_inv_def)
  qed
qed

lemma siftup_loop_inv:
  "up_inv lt s pos h \<Longrightarrow> up_inv lt s (fst (siftup_loop lt pos h)) (snd (siftup_loop lt pos h))
     \<and> length h \<le> 2 * fst (siftup_loop lt pos h) + 1"
proof (induction "length h - pos" arbitrary: pos h rule: less_induct)
  case less
  show ?case
  proof (cases "2 * pos + 1 < length h")
    case True
    let ?c = "smaller_child lt pos h"
    have "length (h[pos := h ! ?c]) - ?c < length h - pos"
      using smaller_child_bounds [OF True, of lt] by (auto intro: diff_less_mono2)
    from less.hyps [OF this up_inv_step [OF less.prems True]] True show ?thesis
      by (subst (1 2 3) siftup_loop.simps) (simp add: Let_def)
  next
    case False
    with less.prems show ?thesis by (subst (1 2 3) siftup_loop.simps) simp
  qed
qed

lemma siftup_heap:
  assumes "heap_from lt (Suc s) h" and "s < length h"
  shows "heap_from lt s (siftup lt s h)"
proof -
  have "up_inv lt s s h" using assms by (auto simp: up_inv_def heap_from_def)
  note leaf = siftup_loop_inv [OF this]
  have "down_inv lt (h ! s) s (fst (siftup_loop lt s h)) (snd (siftup_loop lt s h))"
    using leaf siftup_loop_shape [OF assms(2), of lt undefined]
    by (auto simp: down_inv_def up_inv_def)
  then show ?thesis
    by (simp add: siftup_def case_prod_beta Let_def siftdown_heap)
qed

lemma heappush_heap: "heap_from lt 0 h \<Longrightarrow> heap_from lt 0 (heappush lt h x)"
proof -
  assume h: "heap_from lt 0 h"
  have "down_inv lt x 0 (length h) (h @ [x])"
    using h by (auto simp: down_inv_def heap_from_def nth_append below_zero dest: less_le_trans)
  then show ?thesis unfolding heappush_def by (rule siftdown_heap)
qed

lemma heapify_heap: "heap_from lt 0 (heapify lt h)"
proof -
  have "heap_from lt 0 (foldl (\<lambda>h i. siftup lt i h) h (rev [0..<n]))"
    if "heap_from lt n h" and "n \<le> length h" for n h
    using that
  proof (induction n arbitrary: h)
    case (Suc n)
    then have "heap_from lt n (siftup lt n h)" by (simp add: siftup_heap)
    with Suc show ?case by simp
  qed simp
  moreover have "heap_from lt (length h div 2) h" by (auto simp: heap_from_def)
  ultimately show ?thesis by (simp add: heapify_def)
qed

lemma heap_root_least: "heap_from lt 0 h \<Longrightarrow> i < length h \<Longrightarrow> \<not> lt (h ! i) (h ! 0)"
proof (induction i rule: less_induct)
  case (less i)
  show ?case
  proof (cases "i = 0")
    case False
    then have "parent i < i" by auto
    with less have "\<not> lt (h ! parent i) (h ! 0)" by auto
    moreover have "\<not> lt (h ! i) (h ! parent i)" using less.prems False by (auto simp: heap_from_def)
    ultimately show ?thesis using lt_negtrans by blast
  qed simp
qed

lemma heappop_heap: "heap_from lt 0 h \<Longrightarrow> heappop lt h = Inr (x, h') \<Longrightarrow> heap_from lt 0 h'"
proof -
  assume h: "heap_from lt 0 h" and pop: "heappop lt h = Inr (x, h')"
  then obtain rest l where r: "h = rest @ [l]" by (cases h rule: rev_cases) (auto simp: heappop_def)
  show ?thesis
  proof (cases rest)
    case Nil
    with pop r show ?thesis by (auto simp: heappop_def heap_from_def)
  next
    case (Cons y ys)
    have "heap_from lt (Suc 0) (rest[0 := l])"
      unfolding heap_from_def
    proof (intro allI impI)
      fix i assume i: "0 < i \<and> i < length (rest[0 := l]) \<and> Suc 0 \<le> parent i"
      then have "\<not> lt (h ! i) (h ! parent i)" using h r by (auto simp: heap_from_def)
      moreover have "parent i < length rest" using i by auto
      ultimately show "\<not> lt (rest[0 := l] ! i) (rest[0 := l] ! parent i)"
        using i r by (auto simp: nth_append)
    qed
    from siftup_heap [OF this] Cons r pop show ?thesis by (auto simp: heappop_def)
  qed
qed

lemma heappop_least: "heap_from lt 0 h \<Longrightarrow> heappop lt h = Inr (x, h') \<Longrightarrow> y \<in># mset h \<Longrightarrow> \<not> lt y x"
proof -
  assume h: "heap_from lt 0 h" and pop: "heappop lt h = Inr (x, h')" and y: "y \<in># mset h"
  then have "h \<noteq> []" by auto
  then have "x = h ! 0" using pop
    by (cases h rule: rev_cases) (auto simp: heappop_def nth_append split: if_splits)
  with y heap_root_least [OF h] show ?thesis by (auto simp: in_set_conv_nth)
qed

lemma heappop_total: "h \<noteq> [] \<Longrightarrow> \<exists>x h'. heappop lt h = Inr (x, h')"
  by (simp add: heappop_def Let_def)

lemmas heap_keeps = heappush_heap heappop_heap heapify_heap

end

end
