(* ===== verification/Job_Queue.thy ===== *)
theory Job_Queue
  imports Heapq
begin

text \<open>
  The daemon's bounded priority queue (\<open>src/picosentry/sandbox/ratelimit/queue.py\<close>). The heap and
  the job table hold references to the same job objects and several operations change a job's
  status through one of them, so the objects live in an explicit store (\<open>objs\<close>, addressed by
  position) that both refer to. The theorems: the queue keeps its capacity and its heap order, a
  dequeued job is a most urgent one, and what an eviction removes.
\<close>

section \<open>Model\<close>

datatype job_priority = CRITICAL | HIGH | NORMAL | LOW

fun priority_value :: "job_priority \<Rightarrow> int" where
  "priority_value CRITICAL = 0"
| "priority_value HIGH = 1"
| "priority_value NORMAL = 2"
| "priority_value LOW = 3"

fun priority_name :: "job_priority \<Rightarrow> string" where
  "priority_name CRITICAL = ''CRITICAL''"
| "priority_name HIGH = ''HIGH''"
| "priority_name NORMAL = ''NORMAL''"
| "priority_name LOW = ''LOW''"

record queued_job =
  job_id :: string
  command :: "string list"
  actor :: string
  priority :: job_priority
  created_at :: pyfloat
  metadata :: "(string \<times> json) list"
  status :: string

definition job_lt :: "queued_job \<Rightarrow> queued_job \<Rightarrow> bool" where
  "job_lt a b =
     (if priority a \<noteq> priority b then priority_value (priority a) < priority_value (priority b)
      else created_at a < created_at b)"

definition job_to_dict :: "queued_job \<Rightarrow> json" where
  "job_to_dict j = JObj
     [(''actor'', JStr (actor j)), (''command'', JList (map JStr (command j))),
      (''created_at'', JFloat (created_at j)), (''job_id'', JStr (job_id j)),
      (''metadata'', JObj (metadata j)), (''priority'', JStr (priority_name (priority j))),
      (''status'', JStr (status j))]"

record queue_stats =
  enqueued :: nat
  dequeued :: nat
  completed_count :: nat
  dropped :: nat
  expired :: nat

record job_queue =
  objs :: "queued_job list"
  heap :: "nat list"
  jobs :: "(string, nat) pydict"
  max_size :: nat
  completed :: "(string, json) pydict"
  stats :: queue_stats

definition new_job_queue :: "nat \<Rightarrow> job_queue" where
  "new_job_queue n =
     \<lparr>objs = [], heap = [], jobs = [], max_size = n, completed = [],
      stats = \<lparr>enqueued = 0, dequeued = 0, completed_count = 0, dropped = 0, expired = 0\<rparr>\<rparr>"

text \<open>\<open>__lt__\<close> through references, and the assignment of a job's status through a reference.\<close>

definition ref_lt :: "queued_job list \<Rightarrow> nat \<Rightarrow> nat \<Rightarrow> bool" where
  "ref_lt os a b = job_lt (os ! a) (os ! b)"

definition set_status :: "string \<Rightarrow> nat \<Rightarrow> job_queue \<Rightarrow> job_queue" where
  "set_status st r q = q\<lparr>objs := (objs q)[r := (objs q ! r)\<lparr>status := st\<rparr>]\<rparr>"

definition count_dropped :: "job_queue \<Rightarrow> job_queue" where
  "count_dropped q = q\<lparr>stats := (stats q)\<lparr>dropped := Suc (dropped (stats q))\<rparr>\<rparr>"

text \<open>
  The scan of \<open>_evict_lowest\<close>: the first position whose job has the largest priority value and,
  among those, the latest creation time; \<open>-1\<close> in the source is \<open>None\<close> here.
\<close>

fun find_worst :: "queued_job list \<Rightarrow> nat list \<Rightarrow> nat \<Rightarrow> nat option \<times> int \<times> pyfloat \<Rightarrow> nat option \<times> int \<times> pyfloat" where
  "find_worst os [] i acc = acc"
| "find_worst os (r # rs) i (worst_idx, worst_priority, worst_time) =
     (let j = os ! r; pv = priority_value (priority j)
      in if pv > worst_priority \<or> pv = worst_priority \<and> created_at j > worst_time
         then find_worst os rs (Suc i) (Some i, pv, created_at j)
         else find_worst os rs (Suc i) (worst_idx, worst_priority, worst_time))"

definition evict_lowest :: "job_queue \<Rightarrow> job_queue" where
  "evict_lowest q =
     (if heap q = [] then q
      else case fst (find_worst (objs q) (heap q) 0 (None, - 1, - 1)) of
        None \<Rightarrow> q
      | Some i \<Rightarrow>
          let evicted = heap q ! i;
              q1 = set_status ''dropped'' evicted (q\<lparr>heap := take i (heap q) @ drop (Suc i) (heap q)\<rparr>);
              q2 = count_dropped q1
          in q2\<lparr>heap := heapify (ref_lt (objs q2)) (heap q2)\<rparr>)"

text \<open>\<open>job_uid\<close> is the prefix of the random UUID the code draws, \<open>now\<close> the clock reading.\<close>

definition push_job :: "string \<Rightarrow> pyfloat \<Rightarrow> string list \<Rightarrow> string \<Rightarrow> job_priority \<Rightarrow> (string \<times> json) list \<Rightarrow>
    job_queue \<Rightarrow> queued_job \<times> job_queue" where
  "push_job job_uid now cmd act prio meta q =
     (let job = \<lparr>job_id = job_uid, command = cmd, actor = act, priority = prio, created_at = now,
                 metadata = meta, status = ''queued''\<rparr>;
          r = length (objs q); os = objs q @ [job]
      in (job, q\<lparr>objs := os, heap := heappush (ref_lt os) (heap q) r, jobs := dset job_uid r (jobs q),
                 stats := (stats q)\<lparr>enqueued := Suc (enqueued (stats q))\<rparr>\<rparr>))"

definition enqueue :: "string \<Rightarrow> pyfloat \<Rightarrow> string list \<Rightarrow> string \<Rightarrow> job_priority \<Rightarrow> (string \<times> json) list \<Rightarrow>
    job_queue \<Rightarrow> queued_job option \<times> job_queue" where
  "enqueue job_uid now cmd act prio meta q =
     (if length (heap q) \<ge> max_size q
      then if priority_value prio \<ge> priority_value LOW then (None, count_dropped q)
           else let q1 = evict_lowest q
                in if length (heap q1) \<ge> max_size q1 then (None, count_dropped q1)
                   else let (job, q2) = push_job job_uid now cmd act prio meta q1 in (Some job, q2)
      else let (job, q2) = push_job job_uid now cmd act prio meta q in (Some job, q2))"

text \<open>
  \<open>dequeue\<close> waits until a job is there or the deadline has passed; the model is the part after the
  wait, on the state found then: \<open>None\<close> when the heap is still empty.
\<close>

definition dequeue :: "job_queue \<Rightarrow> (queued_job option \<times> job_queue) py_result" where
  "dequeue q =
     (if heap q = [] then Inr (None, q)
      else case heappop (ref_lt (objs q)) (heap q) of
        Inl e \<Rightarrow> Inl e
      | Inr (r, h) \<Rightarrow>
          let q1 = set_status ''processing'' r (q\<lparr>heap := h\<rparr>)
          in Inr (Some (objs q1 ! r), q1\<lparr>stats := (stats q1)\<lparr>dequeued := Suc (dequeued (stats q1))\<rparr>\<rparr>))"

definition count_completed :: "job_queue \<Rightarrow> job_queue" where
  "count_completed q = q\<lparr>stats := (stats q)\<lparr>completed_count := Suc (completed_count (stats q))\<rparr>\<rparr>"

text \<open>\<open>if result:\<close> is false for \<open>None\<close> and for the empty dictionary.\<close>

definition complete :: "string \<Rightarrow> (string \<times> json) list option \<Rightarrow> job_queue \<Rightarrow> job_queue" where
  "complete uid result q =
     (case dget (jobs q) uid of
        None \<Rightarrow> q
      | Some r \<Rightarrow>
          let q1 = set_status ''completed'' r q;
              q2 = (case result of
                      None \<Rightarrow> q1
                    | Some d \<Rightarrow> if d = [] then q1 else q1\<lparr>completed := dset uid (JObj d) (completed q1)\<rparr>)
          in count_completed q2)"

definition fail :: "string \<Rightarrow> job_queue \<Rightarrow> job_queue" where
  "fail uid q =
     (case dget (jobs q) uid of
        None \<Rightarrow> q
      | Some r \<Rightarrow> count_completed (set_status ''failed'' r q))"

definition get_job :: "string \<Rightarrow> job_queue \<Rightarrow> queued_job option" where
  "get_job uid q = map_option (\<lambda>r. objs q ! r) (dget (jobs q) uid)"

definition get_result :: "string \<Rightarrow> job_queue \<Rightarrow> json option" where
  "get_result uid q = dget (completed q) uid"

definition queue_size :: "job_queue \<Rightarrow> nat" where
  "queue_size q = length (heap q)"

definition get_stats :: "job_queue \<Rightarrow> json" where
  "get_stats q = JObj
     [(''queue_size'', JInt (int (length (heap q)))), (''max_size'', JInt (int (max_size q))),
      (''by_priority'', JObj (map (\<lambda>p. (priority_name p,
          JInt (int (length (filter (\<lambda>r. priority (objs q ! r) = p \<and> status (objs q ! r) = ''queued'')
            (dvals (jobs q))))))) [CRITICAL, HIGH, NORMAL, LOW])),
      (''total_enqueued'', JInt (int (enqueued (stats q)))), (''total_dequeued'', JInt (int (dequeued (stats q)))),
      (''total_completed'', JInt (int (completed_count (stats q)))), (''total_dropped'', JInt (int (dropped (stats q))))]"

fun mark_expired :: "string list \<Rightarrow> job_queue \<Rightarrow> job_queue py_result" where
  "mark_expired [] q = Inr q"
| "mark_expired (uid # uids) q =
     (case dget (jobs q) uid of
        None \<Rightarrow> Inl (KeyError uid)
      | Some r \<Rightarrow>
          let q1 = set_status ''expired'' r q
          in mark_expired uids (q1\<lparr>stats := (stats q1)\<lparr>expired := Suc (expired (stats q1))\<rparr>\<rparr>))"

definition purge_expired :: "pyfloat \<Rightarrow> pyfloat \<Rightarrow> job_queue \<Rightarrow> (nat \<times> job_queue) py_result" where
  "purge_expired now max_age q =
     (let cutoff = now - max_age;
          expired_ids = [job_id (objs q ! r). r \<leftarrow> heap q,
            created_at (objs q ! r) < cutoff \<and> status (objs q ! r) = ''queued'']
      in case mark_expired expired_ids q of
           Inl e \<Rightarrow> Inl e
         | Inr q1 \<Rightarrow>
             let h = filter (\<lambda>r. job_id (objs q1 ! r) \<notin> set expired_ids) (heap q1)
             in Inr (length expired_ids, q1\<lparr>heap := heapify (ref_lt (objs q1)) h\<rparr>))"

section \<open>The order on jobs\<close>

lemma job_lt_key:
  "job_lt a b \<longleftrightarrow> priority_value (priority a) < priority_value (priority b) \<or>
     priority_value (priority a) = priority_value (priority b) \<and> created_at a < created_at b"
  by (cases "priority a"; cases "priority b") (auto simp: job_lt_def)

interpretation ref_order: weak_order "ref_lt os" for os
  by unfold_locales (auto simp: ref_lt_def job_lt_key)

lemma ref_lt_status [simp]: "ref_lt (os[r := (os ! r)\<lparr>status := st\<rparr>]) = ref_lt os"
  by (cases "r < length os") (auto simp: ref_lt_def fun_eq_iff job_lt_def nth_list_update list_update_beyond)

lemma ref_lt_append:
  "a < length os \<Longrightarrow> b < length os \<Longrightarrow> ref_lt (os @ [j]) a b = ref_lt os a b"
  by (simp add: ref_lt_def nth_append)

section \<open>The queue's invariant\<close>

definition refs_ok :: "job_queue \<Rightarrow> bool" where
  "refs_ok q \<longleftrightarrow> distinct (heap q) \<and> (\<forall>r \<in> set (heap q). r < length (objs q)) \<and>
     (\<forall>r \<in> set (heap q). dget (jobs q) (job_id (objs q ! r)) \<noteq> None) \<and>
     (\<forall>r \<in> set (dvals (jobs q)). r < length (objs q))"

definition queue_ok :: "job_queue \<Rightarrow> bool" where
  "queue_ok q \<longleftrightarrow> refs_ok q \<and> heap_from (ref_lt (objs q)) 0 (heap q) \<and> length (heap q) \<le> max_size q"

lemma queue_ok_new: "queue_ok (new_job_queue n)"
  by (simp add: queue_ok_def refs_ok_def new_job_queue_def heap_from_def)

text \<open>Changing a status or the statistics changes nothing the invariant reads.\<close>

lemma set_status_frame [simp]:
  "heap (set_status st r q) = heap q" "jobs (set_status st r q) = jobs q"
  "max_size (set_status st r q) = max_size q" "stats (set_status st r q) = stats q"
  "completed (set_status st r q) = completed q" "length (objs (set_status st r q)) = length (objs q)"
  "ref_lt (objs (set_status st r q)) = ref_lt (objs q)"
  by (simp_all add: set_status_def)

lemma set_status_job [simp]:
  "job_id (objs (set_status st r q) ! i) = job_id (objs q ! i)"
  "priority (objs (set_status st r q) ! i) = priority (objs q ! i)"
  "created_at (objs (set_status st r q) ! i) = created_at (objs q ! i)"
  by (cases "r < length (objs q)"; cases "i = r"; simp add: set_status_def list_update_beyond)+

lemma set_status_status:
  "r < length (objs q) \<Longrightarrow> status (objs (set_status st r q) ! i) = (if i = r then st else status (objs q ! i))"
  by (simp add: set_status_def nth_list_update)

lemma queue_ok_set_status [simp]: "queue_ok (set_status st r q) = queue_ok q"
  by (simp add: queue_ok_def refs_ok_def)

lemma queue_ok_stats [simp]: "queue_ok (q\<lparr>stats := x\<rparr>) = queue_ok q"
  by (simp add: queue_ok_def refs_ok_def)

lemma queue_ok_completed [simp]: "queue_ok (q\<lparr>completed := x\<rparr>) = queue_ok q"
  by (simp add: queue_ok_def refs_ok_def)

lemma count_dropped_frame [simp]:
  "heap (count_dropped q) = heap q" "objs (count_dropped q) = objs q" "jobs (count_dropped q) = jobs q"
  "max_size (count_dropped q) = max_size q" "queue_ok (count_dropped q) = queue_ok q"
  "dropped (stats (count_dropped q)) = Suc (dropped (stats q))"
  by (simp_all add: count_dropped_def)

lemma queue_ok_count_completed [simp]: "queue_ok (count_completed q) = queue_ok q"
  by (simp add: count_completed_def)

text \<open>Replacing the heap by a heap on some of its own elements.\<close>

lemma queue_ok_shrink:
  assumes ok: "queue_ok q" and sub: "mset h \<subseteq># mset (heap q)" and heap: "heap_from (ref_lt (objs q)) 0 h"
  shows "queue_ok (q\<lparr>heap := h\<rparr>)"
proof -
  have "set h \<subseteq> set (heap q)" using set_mset_mono [OF sub] by simp
  moreover have "distinct h" using ok sub by (auto simp: queue_ok_def refs_ok_def intro: distinct_submset)
  moreover have "length h \<le> length (heap q)" using size_mset_mono [OF sub] by simp
  ultimately show ?thesis using ok heap by (auto simp: queue_ok_def refs_ok_def)
qed

section \<open>Eviction\<close>

lemma find_worst_Cons:
  "find_worst os (r # rs) i (w, priority_value (priority (os ! v)), created_at (os ! v)) =
     (if job_lt (os ! v) (os ! r)
      then find_worst os rs (Suc i) (Some i, priority_value (priority (os ! r)), created_at (os ! r))
      else find_worst os rs (Suc i) (w, priority_value (priority (os ! v)), created_at (os ! v)))"
  by (auto simp: job_lt_key Let_def)

lemma find_worst_inv:
  assumes "hs = done @ rs" and "i = length done" and "w < i"
    and "\<forall>r \<in> set done. \<not> job_lt (os ! (hs ! w)) (os ! r)"
  shows "\<exists>w'. fst (find_worst os rs i (Some w, priority_value (priority (os ! (hs ! w))), created_at (os ! (hs ! w))))
      = Some w' \<and> w' < length hs \<and> (\<forall>r \<in> set hs. \<not> job_lt (os ! (hs ! w')) (os ! r))"
  using assms
proof (induction rs arbitrary: "done" i w)
  case Nil
  then show ?case by auto
next
  case (Cons r rs)
  have at_i: "hs ! i = r" using Cons.prems by simp
  show ?case
  proof (cases "job_lt (os ! (hs ! w)) (os ! r)")
    case True
    have "\<forall>x \<in> set (done @ [r]). \<not> job_lt (os ! (hs ! i)) (os ! x)"
      using Cons.prems(4) True at_i by (fastforce simp: job_lt_key)
    with Cons.IH [of "done @ [r]" "Suc i" i] Cons.prems(1-3) True at_i show ?thesis
      by (simp only: find_worst_Cons if_True) simp
  next
    case False
    with Cons.IH [of "done @ [r]" "Suc i" w] Cons.prems show ?thesis
      by (simp only: find_worst_Cons if_False) simp
  qed
qed

lemma find_worst_worst:
  assumes "hs \<noteq> []"
  shows "\<exists>w. fst (find_worst os hs 0 (None, - 1, - 1)) = Some w \<and> w < length hs \<and>
    (\<forall>r \<in> set hs. \<not> job_lt (os ! (hs ! w)) (os ! r))"
proof -
  from assms obtain r rs where hs: "hs = r # rs" by (cases hs) auto
  have "priority_value (priority (os ! r)) > - 1" by (cases "priority (os ! r)") auto
  then have "find_worst os hs 0 (None, - 1, - 1) =
      find_worst os rs 1 (Some 0, priority_value (priority (os ! (hs ! 0))), created_at (os ! (hs ! 0)))"
    using hs by (simp add: Let_def)
  with find_worst_inv [of hs "[r]" rs 1 0 os] hs show ?thesis by (simp add: job_lt_key)
qed

lemma mset_remove_nth: "i < length xs \<Longrightarrow> mset xs = add_mset (xs ! i) (mset (take i xs @ drop (Suc i) xs))"
  using id_take_nth_drop [of i xs] by (metis mset_append mset.simps(2) union_mset_add_mset_right)

text \<open>
  An eviction removes exactly one job, a least urgent one, marks it as dropped and counts it;
  every other job keeps its status.
\<close>

lemma evict_lowest_spec:
  assumes ok: "queue_ok q" and ne: "heap q \<noteq> []"
  shows "\<exists>v \<in> set (heap q). mset (heap q) = add_mset v (mset (heap (evict_lowest q)))
    \<and> (\<forall>r \<in> set (heap q). \<not> job_lt (objs q ! v) (objs q ! r))
    \<and> objs (evict_lowest q) = (objs q)[v := (objs q ! v)\<lparr>status := ''dropped''\<rparr>]
    \<and> queue_ok (evict_lowest q)"
proof -
  from find_worst_worst [OF ne, of "objs q"] obtain w
    where w: "fst (find_worst (objs q) (heap q) 0 (None, - 1, - 1)) = Some w" "w < length (heap q)"
      "\<forall>r \<in> set (heap q). \<not> job_lt (objs q ! (heap q ! w)) (objs q ! r)" by blast
  let ?v = "heap q ! w" and ?h = "take w (heap q) @ drop (Suc w) (heap q)"
  let ?q1 = "count_dropped (set_status ''dropped'' ?v q)"
  have ev: "evict_lowest q = ?q1\<lparr>heap := heapify (ref_lt (objs q)) ?h\<rparr>"
    using ne w(1) by (simp add: evict_lowest_def Let_def count_dropped_def set_status_def)
  have m: "mset (heap q) = add_mset ?v (mset ?h)" using w(2) by (rule mset_remove_nth)
  have ok1: "queue_ok ?q1" using ok by simp
  have "mset (heapify (ref_lt (objs q)) ?h) \<subseteq># mset (heap ?q1)"
    by (simp only: mset_heapify count_dropped_frame set_status_frame m) simp
  moreover have "heap_from (ref_lt (objs ?q1)) 0 (heapify (ref_lt (objs q)) ?h)"
    using ref_order.heapify_heap by simp
  ultimately have "queue_ok (evict_lowest q)"
    unfolding ev by (intro queue_ok_shrink [OF ok1])
  moreover have "mset (heap q) = add_mset ?v (mset (heap (evict_lowest q)))"
    using m by (simp add: ev mset_heapify)
  moreover have "objs (evict_lowest q) = (objs q)[?v := (objs q ! ?v)\<lparr>status := ''dropped''\<rparr>]"
    by (simp add: ev set_status_def)
  ultimately show ?thesis using w by (auto intro: bexI [of _ ?v])
qed

lemma evict_lowest_frame [simp]:
  "max_size (evict_lowest q) = max_size q" "jobs (evict_lowest q) = jobs q"
  by (simp_all add: evict_lowest_def Let_def split: option.splits)

section \<open>Every operation keeps the invariant\<close>

lemma heap_from_append:
  "\<forall>r \<in> set h. r < length os \<Longrightarrow> heap_from (ref_lt (os @ [j])) s h = heap_from (ref_lt os) s h"
  unfolding heap_from_def by (auto simp: ref_lt_append less_imp_diff_less)

lemma push_job_ok:
  assumes ok: "queue_ok q" and room: "length (heap q) < max_size q"
  shows "queue_ok (snd (push_job uid now cmd act prio meta q))"
proof -
  let ?q' = "snd (push_job uid now cmd act prio meta q)"
  let ?job = "\<lparr>job_id = uid, command = cmd, actor = act, priority = prio, created_at = now,
     metadata = meta, status = ''queued''\<rparr>"
  have fields: "objs ?q' = objs q @ [?job]" "jobs ?q' = dset uid (length (objs q)) (jobs q)"
    "heap ?q' = heappush (ref_lt (objs q @ [?job])) (heap q) (length (objs q))" "max_size ?q' = max_size q"
    by (simp_all add: push_job_def Let_def)
  have m: "mset (heap ?q') = add_mset (length (objs q)) (mset (heap q))"
    by (simp add: fields mset_heappush)
  then have set: "set (heap ?q') = insert (length (objs q)) (set (heap q))"
    by (metis set_mset_add_mset_insert set_mset_mset)
  have new: "length (objs q) \<notin> set (heap q)" using ok by (auto simp: queue_ok_def refs_ok_def)
  have "distinct (heap ?q')"
    using mset_eq_imp_distinct_iff [of "heap ?q'" "length (objs q) # heap q"] m ok new
    by (simp add: queue_ok_def refs_ok_def)
  moreover have "heap_from (ref_lt (objs q @ [?job])) 0 (heap q)"
    using ok by (simp add: queue_ok_def refs_ok_def heap_from_append)
  then have "heap_from (ref_lt (objs ?q')) 0 (heap ?q')"
    unfolding fields by (rule ref_order.heappush_heap)
  moreover have "length (heap ?q') \<le> max_size ?q'"
    using room arg_cong [OF m, of size] by (simp add: fields)
  moreover have "\<forall>r \<in> set (dvals (jobs ?q')). r < length (objs ?q')"
    using ok set_dset_subset [of uid "length (objs q)" "jobs q"]
    by (force simp: fields queue_ok_def refs_ok_def)
  moreover have "\<forall>r \<in> set (heap ?q'). r < length (objs ?q') \<and> dget (jobs ?q') (job_id (objs ?q' ! r)) \<noteq> None"
    using ok unfolding set by (auto simp: fields(1,2) queue_ok_def refs_ok_def nth_append)
  ultimately show ?thesis by (auto simp: queue_ok_def refs_ok_def)
qed

lemma enqueue_ok: "queue_ok q \<Longrightarrow> queue_ok (snd (enqueue uid now cmd act prio meta q))"
proof -
  assume ok: "queue_ok q"
  have "queue_ok (evict_lowest q)"
    using ok evict_lowest_spec [OF ok] by (cases "heap q = []") (auto simp: evict_lowest_def)
  with ok show ?thesis by (auto simp: enqueue_def Let_def case_prod_beta push_job_ok)
qed

lemma dequeue_spec:
  assumes ok: "queue_ok q" and ne: "heap q \<noteq> []"
  obtains r q' where "dequeue q = Inr (Some (objs q' ! r), q')" "queue_ok q'"
    "mset (heap q) = add_mset r (mset (heap q'))" "\<forall>x \<in> set (heap q). \<not> job_lt (objs q ! x) (objs q ! r)"
    "objs q' = (objs q)[r := (objs q ! r)\<lparr>status := ''processing''\<rparr>]" "max_size q' = max_size q"
proof -
  from ok have hp: "heap_from (ref_lt (objs q)) 0 (heap q)" by (simp add: queue_ok_def)
  obtain r h where pop: "heappop (ref_lt (objs q)) (heap q) = Inr (r, h)"
    using ref_order.heappop_total [OF ne] by blast
  let ?q1 = "set_status ''processing'' r (q\<lparr>heap := h\<rparr>)"
  let ?q' = "?q1\<lparr>stats := (stats ?q1)\<lparr>dequeued := Suc (dequeued (stats ?q1))\<rparr>\<rparr>"
  have m: "mset (heap q) = add_mset r (mset h)" using pop by (rule mset_heappop)
  have "queue_ok (q\<lparr>heap := h\<rparr>)"
    using ok m ref_order.heappop_heap [OF hp pop] by (intro queue_ok_shrink) auto
  then have "queue_ok ?q'" by simp
  moreover have "\<forall>x \<in> set (heap q). \<not> job_lt (objs q ! x) (objs q ! r)"
    using ref_order.heappop_least [OF hp pop] by (simp add: ref_lt_def)
  moreover have "dequeue q = Inr (Some (objs ?q' ! r), ?q')"
    using ne pop by (simp add: dequeue_def Let_def)
  ultimately show thesis using m by (intro that [of ?q' r]) (simp_all add: set_status_def)
qed

lemma mark_expired_total:
  assumes "\<forall>u \<in> set uids. dget (jobs q) u \<noteq> None"
  shows "\<exists>q'. mark_expired uids q = Inr q' \<and> queue_ok q' = queue_ok q \<and> heap q' = heap q \<and> jobs q' = jobs q \<and>
    max_size q' = max_size q \<and> (\<forall>i. job_id (objs q' ! i) = job_id (objs q ! i)) \<and>
    expired (stats q') = expired (stats q) + length uids"
  using assms
proof (induction uids arbitrary: q)
  case Nil
  then show ?case by simp
next
  case (Cons u uids)
  then obtain r where r: "dget (jobs q) u = Some r" by auto
  let ?q1 = "set_status ''expired'' r q"
  have "\<forall>u \<in> set uids. dget (jobs (?q1\<lparr>stats := x\<rparr>)) u \<noteq> None" for x using Cons.prems by simp
  from Cons.IH [OF this [of "(stats ?q1)\<lparr>expired := Suc (expired (stats ?q1))\<rparr>"]] r show ?case by auto
qed

lemma purge_expired_spec:
  assumes "queue_ok q"
  obtains k q' where "purge_expired now age q = Inr (k, q')" "queue_ok q'" "max_size q' = max_size q"
    "mset (heap q') = filter_mset (\<lambda>r. job_id (objs q ! r) \<notin>
        (\<lambda>r. job_id (objs q ! r)) ` {r \<in> set (heap q). created_at (objs q ! r) < now - age \<and> status (objs q ! r) = ''queued''})
      (mset (heap q))"
    "expired (stats q') = expired (stats q) + k"
proof -
  let ?old = "\<lambda>r. created_at (objs q ! r) < now - age \<and> status (objs q ! r) = ''queued''"
  let ?ids = "[job_id (objs q ! r). r \<leftarrow> heap q, ?old r]"
  have ids: "set ?ids = (\<lambda>r. job_id (objs q ! r)) ` {r \<in> set (heap q). ?old r}" by auto
  have "\<forall>u \<in> set ?ids. dget (jobs q) u \<noteq> None"
    using assms unfolding ids queue_ok_def refs_ok_def by blast
  from mark_expired_total [OF this] obtain q1 where q1: "mark_expired ?ids q = Inr q1"
    "queue_ok q1" "heap q1 = heap q" "max_size q1 = max_size q" "\<forall>i. job_id (objs q1 ! i) = job_id (objs q ! i)"
    "expired (stats q1) = expired (stats q) + length ?ids" using assms by auto
  let ?h = "filter (\<lambda>r. job_id (objs q ! r) \<notin> set ?ids) (heap q)"
  let ?q' = "q1\<lparr>heap := heapify (ref_lt (objs q1)) ?h\<rparr>"
  have "queue_ok ?q'"
    using q1(2) ref_order.heapify_heap
    by (intro queue_ok_shrink) (simp_all add: mset_heapify q1(3))
  moreover have "purge_expired now age q = Inr (length ?ids, ?q')"
    by (simp add: purge_expired_def Let_def q1 del: set_concat)
  moreover have "mset (heap ?q') = filter_mset (\<lambda>r. job_id (objs q ! r) \<notin>
      (\<lambda>r. job_id (objs q ! r)) ` {r \<in> set (heap q). ?old r}) (mset (heap q))"
    unfolding ids [symmetric] by (simp add: mset_heapify del: set_concat)
  ultimately show thesis using q1 by (intro that [of "length ?ids" ?q']) simp_all
qed

lemma complete_ok: "queue_ok (complete uid res q) = queue_ok q"
  by (simp add: complete_def Let_def split: option.splits)

lemma fail_ok: "queue_ok (fail uid q) = queue_ok q"
  by (simp add: fail_def split: option.splits)

lemma dequeue_ok: "queue_ok q \<Longrightarrow> dequeue q = Inr (j, q') \<Longrightarrow> queue_ok q' \<and> max_size q' = max_size q"
proof -
  assume ok: "queue_ok q" and eq: "dequeue q = Inr (j, q')"
  show ?thesis
  proof (cases "heap q = []")
    case True
    with ok eq show ?thesis by (auto simp: dequeue_def)
  next
    case False
    with ok obtain r q2 where "dequeue q = Inr (Some (objs q2 ! r), q2)" "queue_ok q2" "max_size q2 = max_size q"
      by (rule dequeue_spec)
    with eq show ?thesis by simp
  qed
qed

lemma purge_expired_ok:
  "queue_ok q \<Longrightarrow> purge_expired now age q = Inr (k, q') \<Longrightarrow> queue_ok q' \<and> max_size q' = max_size q"
proof -
  assume ok: "queue_ok q" and eq: "purge_expired now age q = Inr (k, q')"
  from ok obtain k2 q2 where "purge_expired now age q = Inr (k2, q2)" "queue_ok q2" "max_size q2 = max_size q"
    by (rule purge_expired_spec)
  with eq show ?thesis by simp
qed

section \<open>Reachable states\<close>

inductive queue_reach :: "nat \<Rightarrow> job_queue \<Rightarrow> bool" for n where
  start: "queue_reach n (new_job_queue n)"
| enq: "queue_reach n q \<Longrightarrow> queue_reach n (snd (enqueue uid now cmd act prio meta q))"
| deq: "queue_reach n q \<Longrightarrow> dequeue q = Inr (j, q') \<Longrightarrow> queue_reach n q'"
| comp: "queue_reach n q \<Longrightarrow> queue_reach n (complete uid res q)"
| failed: "queue_reach n q \<Longrightarrow> queue_reach n (fail uid q)"
| purge: "queue_reach n q \<Longrightarrow> purge_expired now age q = Inr (k, q') \<Longrightarrow> queue_reach n q'"

lemma max_size_ops [simp]:
  "max_size (snd (enqueue uid now cmd act prio meta q)) = max_size q"
  "max_size (complete uid res q) = max_size q"
  "max_size (fail uid q) = max_size q"
  by (simp_all add: enqueue_def push_job_def complete_def fail_def count_completed_def Let_def case_prod_beta
      split: option.splits)

lemma queue_reach_ok: "queue_reach n q \<Longrightarrow> queue_ok q \<and> max_size q = n"
proof (induction rule: queue_reach.induct)
  case start
  show ?case by (simp add: queue_ok_new) (simp add: new_job_queue_def)
next
  case (enq q uid now cmd act prio meta)
  then show ?case by (simp add: enqueue_ok)
next
  case (deq q j q')
  then show ?case by (auto dest: dequeue_ok)
next
  case (comp q uid res)
  then show ?case by (simp add: complete_ok)
next
  case (failed q uid)
  then show ?case by (simp add: fail_ok)
next
  case (purge q now age k q')
  then show ?case by (auto dest: purge_expired_ok)
qed

section \<open>Properties\<close>

text \<open>
  C4. In every reachable state the queue holds at most \<open>max_size\<close> jobs, its array is a heap for
  \<open>__lt__\<close>, no job is in it twice, and every job in it is registered in the job table.
\<close>

theorem queue_reachable_ok:
  assumes "queue_reach n q"
  shows "queue_size q \<le> n \<and> queue_ok q"
  using queue_reach_ok [OF assms] by (auto simp: queue_size_def queue_ok_def)

lemmas queue_eval = enqueue_def push_job_def new_job_queue_def heappush_def siftdown.simps Let_def
  ref_lt_def job_lt_def evict_lowest_def count_dropped_def set_status_def heapify_def dequeue_def
  heappop_def siftup_def siftup_loop.simps smaller_child_def purge_expired_def

theorem queue_reachable_ok_witness:
  "queue_size (snd (enqueue ''b'' 2 [''ls''] ''ci'' HIGH [] (snd (enqueue ''a'' 1 [''id''] ''ci'' LOW [] (new_job_queue 2))))) \<le> 2"
  by (rule queue_reachable_ok [THEN conjunct1]) (intro queue_reach.enq queue_reach.start)

text \<open>
  C5. A dequeue from a reachable non-empty queue returns: the job it hands out was queued, no other
  queued job precedes it (smaller priority value or, at equal priority, earlier creation), it is
  marked \<open>processing\<close> and leaves the queue; all other queued jobs stay.
\<close>

theorem dequeue_most_urgent:
  assumes "queue_reach n q" and "heap q \<noteq> []"
  shows "\<exists>r q'. dequeue q = Inr (Some ((objs q ! r)\<lparr>status := ''processing''\<rparr>), q')
    \<and> mset (heap q) = add_mset r (mset (heap q')) \<and> (\<forall>x \<in> set (heap q). \<not> job_lt (objs q ! x) (objs q ! r))"
proof -
  from queue_reach_ok [OF assms(1)] have ok: "queue_ok q" by simp
  from ok assms(2) obtain r q' where *: "dequeue q = Inr (Some (objs q' ! r), q')"
    "mset (heap q) = add_mset r (mset (heap q'))" "\<forall>x \<in> set (heap q). \<not> job_lt (objs q ! x) (objs q ! r)"
    "objs q' = (objs q)[r := (objs q ! r)\<lparr>status := ''processing''\<rparr>]"
    by (rule dequeue_spec)
  have "r \<in> set (heap q)" using *(2) by (metis set_mset_mset union_single_eq_member)
  with ok have "r < length (objs q)" by (auto simp: queue_ok_def refs_ok_def)
  with * show ?thesis by (intro exI [of _ r] exI [of _ q']) simp
qed

theorem dequeue_most_urgent_witness:
  "\<exists>r q'. dequeue (snd (enqueue ''b'' 2 [] ''ci'' HIGH [] (snd (enqueue ''a'' 1 [] ''ci'' LOW [] (new_job_queue 2)))))
     = Inr (Some ((objs (snd (enqueue ''b'' 2 [] ''ci'' HIGH [] (snd (enqueue ''a'' 1 [] ''ci'' LOW [] (new_job_queue 2))))) ! r)
        \<lparr>status := ''processing''\<rparr>), q')"
proof -
  let ?q = "snd (enqueue ''b'' 2 [] ''ci'' HIGH [] (snd (enqueue ''a'' 1 [] ''ci'' LOW [] (new_job_queue 2))))"
  have "queue_reach 2 ?q" by (intro queue_reach.enq queue_reach.start)
  moreover have "heap ?q \<noteq> []" by (simp add: queue_eval)
  ultimately show ?thesis using dequeue_most_urgent [of 2 ?q] by blast
qed

text \<open>
  What a full queue does with a job above LOW priority: it always accepts it and drops a queued
  job \<open>v\<close> that no queued job is less urgent than. The new job's own priority plays no part in the
  choice, so a queued job is dropped even when every queued job is more urgent than the new one
  (the witness drops a CRITICAL job for a NORMAL one).
\<close>

lemma enqueue_full_evicts:
  assumes "queue_reach n q" and "length (heap q) = n" and "0 < n" and "prio \<noteq> LOW"
  shows "\<exists>v q' job. enqueue uid now cmd act prio meta q = (Some job, q') \<and> priority job = prio
    \<and> v \<in> set (heap q) \<and> (\<forall>x \<in> set (heap q). \<not> job_lt (objs q ! v) (objs q ! x))
    \<and> status (objs q' ! v) = ''dropped'' \<and> queue_size q' = n"
proof -
  from queue_reach_ok [OF assms(1)] have ok: "queue_ok q" and size: "max_size q = n" by auto
  have ne: "heap q \<noteq> []" using assms by auto
  let ?q1 = "evict_lowest q"
  from evict_lowest_spec [OF ok ne] obtain v where v: "v \<in> set (heap q)"
    "mset (heap q) = add_mset v (mset (heap ?q1))" "\<forall>x \<in> set (heap q). \<not> job_lt (objs q ! v) (objs q ! x)"
    "objs ?q1 = (objs q)[v := (objs q ! v)\<lparr>status := ''dropped''\<rparr>]" by blast
  have len: "Suc (length (heap ?q1)) = n" using arg_cong [OF v(2), of size] assms by simp
  have "v < length (objs q)" using ok v(1) by (auto simp: queue_ok_def refs_ok_def)
  then have "status (objs (snd (push_job uid now cmd act prio meta ?q1)) ! v) = ''dropped''"
    using v(4) by (simp add: push_job_def Let_def nth_append)
  moreover have "queue_size (snd (push_job uid now cmd act prio meta ?q1)) = n"
    using len by (simp add: push_job_def Let_def queue_size_def heappush_def)
  moreover have "enqueue uid now cmd act prio meta q =
      (Some (fst (push_job uid now cmd act prio meta ?q1)), snd (push_job uid now cmd act prio meta ?q1))"
    using assms size len by (cases prio) (auto simp: enqueue_def Let_def case_prod_beta)
  moreover have "priority (fst (push_job uid now cmd act prio meta ?q1)) = prio"
    by (simp add: push_job_def Let_def)
  ultimately show ?thesis using v by blast
qed

lemma enqueue_full_evicts_witness:
  "\<exists>v q' job. enqueue ''b'' 2 [] ''ci'' NORMAL [] (snd (enqueue ''a'' 1 [] ''ops'' CRITICAL [] (new_job_queue 1))) = (Some job, q')
    \<and> v \<in> set (heap (snd (enqueue ''a'' 1 [] ''ops'' CRITICAL [] (new_job_queue 1))))
    \<and> priority (objs q' ! v) = CRITICAL \<and> status (objs q' ! v) = ''dropped'' \<and> queue_size q' = 1"
proof -
  let ?q = "snd (enqueue ''a'' 1 [] ''ops'' CRITICAL [] (new_job_queue 1))"
  have reach: "queue_reach 1 ?q" by (intro queue_reach.enq queue_reach.start)
  have full: "length (heap ?q) = 1" by (simp add: queue_eval)
  from enqueue_full_evicts [OF reach full, of NORMAL "''b''" 2 "[]" "''ci''" "[]"] obtain v q' job
    where *: "enqueue ''b'' 2 [] ''ci'' NORMAL [] ?q = (Some job, q')" "v \<in> set (heap ?q)"
      "status (objs q' ! v) = ''dropped''" "queue_size q' = 1" by auto
  from *(2) have "v = 0" by (simp add: queue_eval)
  moreover from *(1) have "priority (objs q' ! 0) = CRITICAL" by (auto simp: queue_eval)
  ultimately show ?thesis using * by blast
qed

text \<open>
  Purging never fails on a reachable queue (no \<open>KeyError\<close>), keeps the heap, and leaves in it
  exactly the queued jobs whose id is not the id of an expired one.
\<close>

lemma purge_expired_total:
  assumes "queue_reach n q"
  shows "\<exists>k q'. purge_expired now age q = Inr (k, q') \<and> queue_ok q'
    \<and> (\<forall>r. r \<in> set (heap q') \<longrightarrow> r \<in> set (heap q) \<and>
         \<not> (created_at (objs q ! r) < now - age \<and> status (objs q ! r) = ''queued''))
    \<and> expired (stats q') = expired (stats q) + k"
proof -
  from queue_reach_ok [OF assms] have "queue_ok q" by simp
  then obtain k q' where *: "purge_expired now age q = Inr (k, q')" "queue_ok q'"
    "mset (heap q') = filter_mset (\<lambda>r. job_id (objs q ! r) \<notin>
        (\<lambda>r. job_id (objs q ! r)) ` {r \<in> set (heap q). created_at (objs q ! r) < now - age \<and> status (objs q ! r) = ''queued''})
      (mset (heap q))" "expired (stats q') = expired (stats q) + k"
    by (rule purge_expired_spec)
  have "r \<in> set (heap q) \<and> \<not> (created_at (objs q ! r) < now - age \<and> status (objs q ! r) = ''queued'')"
    if "r \<in> set (heap q')" for r
  proof -
    from that have "r \<in># mset (heap q')" by simp
    then show ?thesis unfolding *(3) by auto
  qed
  with * show ?thesis by blast
qed

lemma purge_expired_total_witness:
  "\<exists>k q'. purge_expired 5000 3600 (snd (enqueue ''a'' 1 [] ''ci'' LOW [] (new_job_queue 2))) = Inr (k, q') \<and> queue_ok q'"
proof -
  have "queue_reach 2 (snd (enqueue ''a'' 1 [] ''ci'' LOW [] (new_job_queue 2)))"
    by (intro queue_reach.enq queue_reach.start)
  from purge_expired_total [OF this, of 5000 3600] show ?thesis by blast
qed

end
