(* ===== verification/Cluster_Models.thy ===== *)
theory Cluster_Models
  imports Prelude
begin

text \<open>
  The records the sandbox cluster exchanges (\<open>src/picosentry/sandbox/cluster/models.py\<close>), their
  JSON form, and the storage interface behind the cluster state
  (\<open>cluster/backends/base.py\<close>) with its in-memory implementation
  (\<open>cluster/backends/memory.py\<close>).
\<close>

section \<open>Nodes and scans\<close>

definition DEFAULT_CLUSTER_PORT :: int where "DEFAULT_CLUSTER_PORT = 8444"
definition DEFAULT_HEARTBEAT_INTERVAL :: int where "DEFAULT_HEARTBEAT_INTERVAL = 10"
definition DEFAULT_HEARTBEAT_TIMEOUT :: int where "DEFAULT_HEARTBEAT_TIMEOUT = 30"
definition DEFAULT_MAX_MISSED_HEARTBEATS :: int where "DEFAULT_MAX_MISSED_HEARTBEATS = 3"

datatype node_status = ONLINE | OFFLINE | DRAINING

fun node_status_value :: "node_status \<Rightarrow> string" where
  "node_status_value ONLINE = ''online''"
| "node_status_value OFFLINE = ''offline''"
| "node_status_value DRAINING = ''draining''"

definition node_status_of :: "string \<Rightarrow> node_status py_result" where
  "node_status_of s =
     (if s = ''online'' then Inr ONLINE
      else if s = ''offline'' then Inr OFFLINE
      else if s = ''draining'' then Inr DRAINING
      else Inl (ValueError s))"

record cluster_node =
  node_id :: string
  address :: string
  port :: int
  n_status :: node_status
  last_heartbeat :: string
  load :: int
  n_version :: int
  n_token :: string

definition node_to_dict :: "cluster_node \<Rightarrow> json" where
  "node_to_dict n = JObj
     [(''node_id'', JStr (node_id n)), (''address'', JStr (address n)), (''port'', JInt (port n)),
      (''status'', JStr (node_status_value (n_status n))), (''last_heartbeat'', JStr (last_heartbeat n)),
      (''load'', JInt (load n)), (''version'', JInt (n_version n)), (''cluster_token'', JStr (n_token n))]"

definition node_from_dict :: "(string \<times> json) list \<Rightarrow> cluster_node py_result" where
  "node_from_dict d =
     bindE (need as_str ''node_id'' d) (\<lambda>nid.
     bindE (need as_str ''address'' d) (\<lambda>addr.
     bindE (get_or as_int ''port'' DEFAULT_CLUSTER_PORT d) (\<lambda>p.
     bindE (bindE (get_or as_str ''status'' ''online'' d) node_status_of) (\<lambda>st.
     bindE (get_or as_str ''last_heartbeat'' '''' d) (\<lambda>hb.
     bindE (get_or as_int ''load'' 0 d) (\<lambda>ld.
     bindE (get_or as_int ''version'' 0 d) (\<lambda>ver.
     bindE (get_or as_str ''cluster_token'' '''' d) (\<lambda>tok.
       Inr \<lparr>node_id = nid, address = addr, port = p, n_status = st, last_heartbeat = hb, load = ld,
            n_version = ver, n_token = tok\<rparr>))))))))"

record scan_request =
  scan_id :: string
  s_command :: "string list"
  s_priority :: int
  assigned_node :: "string option"
  s_created_at :: string
  s_status :: string
  s_version :: int

definition scan_to_dict :: "scan_request \<Rightarrow> json" where
  "scan_to_dict s = JObj
     [(''scan_id'', JStr (scan_id s)), (''command'', JList (map JStr (s_command s))),
      (''priority'', JInt (s_priority s)), (''assigned_node'', opt_json JStr (assigned_node s)),
      (''created_at'', JStr (s_created_at s)), (''status'', JStr (s_status s)), (''version'', JInt (s_version s))]"

definition scan_from_dict :: "(string \<times> json) list \<Rightarrow> scan_request py_result" where
  "scan_from_dict d =
     bindE (need as_str ''scan_id'' d) (\<lambda>sid.
     bindE (bindE (need as_list ''command'' d) (mapE as_str)) (\<lambda>cmd.
     bindE (get_or as_int ''priority'' 0 d) (\<lambda>pr.
     bindE (get_or as_opt_str ''assigned_node'' None d) (\<lambda>an.
     bindE (get_or as_str ''created_at'' '''' d) (\<lambda>ca.
     bindE (get_or as_str ''status'' ''pending'' d) (\<lambda>st.
     bindE (get_or as_int ''version'' 0 d) (\<lambda>ver.
       Inr \<lparr>scan_id = sid, s_command = cmd, s_priority = pr, assigned_node = an, s_created_at = ca,
            s_status = st, s_version = ver\<rparr>)))))))"

section \<open>The storage interface\<close>

text \<open>
  \<open>StateBackend\<close>: two keyed tables and the leader. The laws are what \<open>ClusterState\<close> relies on;
  each write touches its own part only.
\<close>

locale state_backend =
  fixes load_node :: "'b \<Rightarrow> string \<Rightarrow> cluster_node option"
    and save_node :: "cluster_node \<Rightarrow> 'b \<Rightarrow> 'b"
    and delete_node :: "string \<Rightarrow> 'b \<Rightarrow> 'b"
    and load_all_nodes :: "'b \<Rightarrow> cluster_node list"
    and load_scan :: "'b \<Rightarrow> string \<Rightarrow> scan_request option"
    and save_scan :: "scan_request \<Rightarrow> 'b \<Rightarrow> 'b"
    and load_all_scans :: "'b \<Rightarrow> scan_request list"
    and wf_backend :: "'b \<Rightarrow> bool"
  assumes load_save_node: "load_node (save_node n b) i = (if i = node_id n then Some n else load_node b i)"
    and load_delete_node: "load_node (delete_node k b) i = (if i = k then None else load_node b i)"
    and load_save_scan: "load_scan (save_scan s b) i = (if i = scan_id s then Some s else load_scan b i)"
    and node_save_scan: "load_node (save_scan s b) i = load_node b i"
    and scan_save_node: "load_scan (save_node n b) i = load_scan b i"
    and all_nodes: "wf_backend b \<Longrightarrow> n \<in> set (load_all_nodes b) \<longleftrightarrow> load_node b (node_id n) = Some n"
    and all_scans: "wf_backend b \<Longrightarrow> s \<in> set (load_all_scans b) \<longleftrightarrow> load_scan b (scan_id s) = Some s"
    and distinct_nodes: "wf_backend b \<Longrightarrow> distinct (map node_id (load_all_nodes b))"
    and distinct_scans: "wf_backend b \<Longrightarrow> distinct (map scan_id (load_all_scans b))"
    and stored_id: "wf_backend b \<Longrightarrow> load_node b i = Some n \<Longrightarrow> node_id n = i"
    and stored_scan_id: "wf_backend b \<Longrightarrow> load_scan b i = Some s \<Longrightarrow> scan_id s = i"
    and wf_save_node: "wf_backend b \<Longrightarrow> wf_backend (save_node n b)"
    and wf_save_scan: "wf_backend b \<Longrightarrow> wf_backend (save_scan s b)"
    and wf_delete_node: "wf_backend b \<Longrightarrow> wf_backend (delete_node k b)"
begin

lemma all_nodes_filter:
  "wf_backend b \<Longrightarrow> n \<in> set (filter P (load_all_nodes b)) \<longleftrightarrow> load_node b (node_id n) = Some n \<and> P n"
  by (auto simp: all_nodes)

text \<open>Two backends that store the same nodes list them in the same order once sorted by id.\<close>

lemma sorted_nodes_ext:
  assumes "wf_backend b" and "wf_backend c" and "\<And>i. load_node b i = load_node c i"
  shows "sort_key node_id (filter P (load_all_nodes b)) = sort_key node_id (filter P (load_all_nodes c))"
proof -
  have inj: "inj_on node_id (set (filter P (load_all_nodes x)))" if "wf_backend x" for x
    using distinct_nodes [OF that] by (auto simp: distinct_map inj_on_def)
  have "set (filter P (load_all_nodes b)) = set (filter P (load_all_nodes c))"
    using assms by (auto simp: all_nodes)
  moreover have "distinct (filter P (load_all_nodes x))" if "wf_backend x" for x
    using distinct_nodes [OF that] by (auto simp: distinct_map)
  ultimately have m: "mset (filter P (load_all_nodes b)) = mset (filter P (load_all_nodes c))"
    using assms by (metis set_eq_iff_mset_eq_distinct)
  show ?thesis
    by (rule sort_key_inj_key_eq) (use m inj [OF assms(1)] in simp_all)
qed

end

section \<open>The in-memory backend\<close>

record memory_backend =
  mb_nodes :: "(string, cluster_node) pydict"
  mb_scans :: "(string, scan_request) pydict"
  mb_leader :: "string option"

definition new_memory_backend :: memory_backend where
  "new_memory_backend = \<lparr>mb_nodes = [], mb_scans = [], mb_leader = None\<rparr>"

definition save_node :: "cluster_node \<Rightarrow> memory_backend \<Rightarrow> memory_backend" where
  "save_node n b = b\<lparr>mb_nodes := dset (node_id n) n (mb_nodes b)\<rparr>"

definition load_node :: "memory_backend \<Rightarrow> string \<Rightarrow> cluster_node option" where
  "load_node b i = dget (mb_nodes b) i"

definition load_all_nodes :: "memory_backend \<Rightarrow> cluster_node list" where
  "load_all_nodes b = dvals (mb_nodes b)"

definition delete_node :: "string \<Rightarrow> memory_backend \<Rightarrow> memory_backend" where
  "delete_node i b = b\<lparr>mb_nodes := dpop i (mb_nodes b)\<rparr>"

definition save_scan :: "scan_request \<Rightarrow> memory_backend \<Rightarrow> memory_backend" where
  "save_scan s b = b\<lparr>mb_scans := dset (scan_id s) s (mb_scans b)\<rparr>"

definition load_scan :: "memory_backend \<Rightarrow> string \<Rightarrow> scan_request option" where
  "load_scan b i = dget (mb_scans b) i"

definition load_all_scans :: "memory_backend \<Rightarrow> scan_request list" where
  "load_all_scans b = dvals (mb_scans b)"

definition delete_scan :: "string \<Rightarrow> memory_backend \<Rightarrow> memory_backend" where
  "delete_scan i b = b\<lparr>mb_scans := dpop i (mb_scans b)\<rparr>"

definition get_leader_id :: "memory_backend \<Rightarrow> string option" where
  "get_leader_id b = mb_leader b"

definition set_leader_id :: "string \<Rightarrow> memory_backend \<Rightarrow> memory_backend" where
  "set_leader_id i b = b\<lparr>mb_leader := Some i\<rparr>"

text \<open>Every record is stored under its own id.\<close>

definition wf_memory :: "memory_backend \<Rightarrow> bool" where
  "wf_memory b \<longleftrightarrow> keyed node_id (mb_nodes b) \<and> keyed scan_id (mb_scans b)"

lemmas backend_defs = save_node_def load_node_def load_all_nodes_def delete_node_def save_scan_def
  load_scan_def load_all_scans_def delete_scan_def get_leader_id_def set_leader_id_def

interpretation memory: state_backend load_node save_node delete_node load_all_nodes load_scan save_scan
  load_all_scans wf_memory
proof unfold_locales
  fix b n s i k
  show "load_node (save_node n b) i = (if i = node_id n then Some n else load_node b i)"
    "load_node (delete_node k b) i = (if i = k then None else load_node b i)"
    "load_scan (save_scan s b) i = (if i = scan_id s then Some s else load_scan b i)"
    "load_node (save_scan s b) i = load_node b i" "load_scan (save_node n b) i = load_scan b i"
    by (simp_all add: backend_defs)
  assume wf: "wf_memory b"
  then have kn: "keyed node_id (mb_nodes b)" and ks: "keyed scan_id (mb_scans b)"
    by (simp_all add: wf_memory_def)
  show "n \<in> set (load_all_nodes b) \<longleftrightarrow> load_node b (node_id n) = Some n"
    "distinct (map node_id (load_all_nodes b))"
    unfolding backend_defs by (rule keyed_vals [OF kn])+
  show "s \<in> set (load_all_scans b) \<longleftrightarrow> load_scan b (scan_id s) = Some s"
    "distinct (map scan_id (load_all_scans b))"
    unfolding backend_defs by (rule keyed_vals [OF ks])+
  show "wf_memory (save_node n b)" "wf_memory (save_scan s b)" "wf_memory (delete_node k b)"
    using kn ks by (simp_all add: wf_memory_def backend_defs keyed_dset keyed_dpop)
next
  fix b i n s
  assume "wf_memory b"
  then show "load_node b i = Some n \<Longrightarrow> node_id n = i" "load_scan b i = Some s \<Longrightarrow> scan_id s = i"
    by (auto simp: wf_memory_def backend_defs dest: keyed_get)
qed

lemmas memory_laws [simp] = memory.load_save_node memory.load_delete_node memory.load_save_scan
  memory.node_save_scan memory.scan_save_node
lemmas memory_wf [simp] = memory.wf_save_node memory.wf_save_scan memory.wf_delete_node

lemma wf_new_memory [simp]: "wf_memory new_memory_backend"
  by (simp add: wf_memory_def new_memory_backend_def keyed_def)

lemma set_leader_laws [simp]:
  "load_node (set_leader_id i b) k = load_node b k" "load_scan (set_leader_id i b) k = load_scan b k"
  "wf_memory (set_leader_id i b) = wf_memory b" "get_leader_id (set_leader_id i b) = Some i"
  "load_all_nodes (set_leader_id i b) = load_all_nodes b" "load_all_scans (set_leader_id i b) = load_all_scans b"
  by (simp_all add: backend_defs wf_memory_def)

section \<open>Round trips\<close>

lemma node_status_roundtrip [simp]: "node_status_of (node_status_value s) = Inr s"
  by (cases s) (simp_all add: node_status_of_def)

lemma mapE_as_str [simp]: "mapE as_str (map JStr xs) = Inr xs"
  by (induction xs) simp_all

lemma as_opt_str_json [simp]: "as_opt_str (opt_json JStr x) = Inr x"
  by (cases x) (simp_all add: opt_json_def)

lemma node_dict_roundtrip: "bindE (as_obj (node_to_dict n)) node_from_dict = Inr n"
  by (simp add: node_to_dict_def node_from_dict_def need_def get_or_def)

lemma scan_dict_roundtrip: "bindE (as_obj (scan_to_dict s)) scan_from_dict = Inr s"
  by (simp add: scan_to_dict_def scan_from_dict_def need_def get_or_def)

end
