(* ===== verification/Token_Store.thy ===== *)
theory Token_Store
  imports Prelude
begin

text \<open>
  The cluster's token store (\<open>src/picosentry/sandbox/cluster/token_store.py\<close>): a primary token
  that signs outbound gossip, the accepted tokens that authenticate inbound requests, rotation, the
  HMAC announcements by which peers follow a rotation, and retirement. HMAC-SHA256, SHA-256 and the
  decimal rendering of a float are parameters (\<open>crypto\<close>); what a theorem needs of them is one of its
  hypotheses.
\<close>

section \<open>Model\<close>

record crypto =
  hmac_hex :: "string \<Rightarrow> string \<Rightarrow> string"
  sha256_hex :: "string \<Rightarrow> string"
  float_repr :: "pyfloat \<Rightarrow> string"

definition ROTATION_CONTEXT :: string where
  "ROTATION_CONTEXT = ''picodome-cluster-rotation:v1:''"

text \<open>\<open>env\<close> is the environment variable, \<open>parse\<close> the conversion \<open>float(...)\<close> (\<open>None\<close>: \<open>ValueError\<close>).\<close>

definition token_grace_seconds :: "(string \<Rightarrow> pyfloat option) \<Rightarrow> string option \<Rightarrow> pyfloat" where
  "token_grace_seconds parse env =
     (let raw = (case env of None \<Rightarrow> ''3600'' | Some v \<Rightarrow> v);
          grace = (case parse raw of None \<Rightarrow> 3600 | Some g \<Rightarrow> g)
      in if grace < 0 then 3600 else grace)"

definition rotation_ctx :: "crypto \<Rightarrow> pyfloat \<Rightarrow> string" where
  "rotation_ctx cr announced_at = ROTATION_CONTEXT @ float_repr cr announced_at"

definition derive_rotation_token :: "crypto \<Rightarrow> string \<Rightarrow> pyfloat \<Rightarrow> string" where
  "derive_rotation_token cr anchor announced_at = hmac_hex cr anchor (rotation_ctx cr announced_at)"

definition token_digest :: "crypto \<Rightarrow> string \<Rightarrow> string" where
  "token_digest cr token = take 16 (sha256_hex cr token)"

record token_info =
  token :: string
  t_version :: int
  issued_at :: pyfloat
  is_primary :: bool

record token_store =
  primary_info :: "token_info option"
  accepted :: "(string, token_info) pydict"
  ts_counter :: int
  announcement :: "(string \<times> json) list option"

definition ts_next_version :: "token_store \<Rightarrow> int \<times> token_store" where
  "ts_next_version s = (ts_counter s + 1, s\<lparr>ts_counter := ts_counter s + 1\<rparr>)"

definition primary_token :: "token_store \<Rightarrow> string" where
  "primary_token s = (case primary_info s of None \<Rightarrow> '''' | Some i \<Rightarrow> token i)"

definition accepted_tokens :: "token_store \<Rightarrow> string set" where
  "accepted_tokens s = set (dkeys (accepted s))"

definition accepted_token_infos :: "token_store \<Rightarrow> token_info list" where
  "accepted_token_infos s = dvals (accepted s)"

definition current_announcement :: "token_store \<Rightarrow> (string \<times> json) list option" where
  "current_announcement s =
     (case announcement s of None \<Rightarrow> None | Some a \<Rightarrow> if a = [] then None else Some a)"

definition is_accepted :: "string \<Rightarrow> token_store \<Rightarrow> bool" where
  "is_accepted t s = (if t = '''' \<or> accepted s = [] then False else list_ex (\<lambda>c. t = c) (dkeys (accepted s)))"

definition set_primary_locked :: "pyfloat \<Rightarrow> string \<Rightarrow> token_store \<Rightarrow> token_info \<times> token_store" where
  "set_primary_locked now t s =
     (let (v, s1) = ts_next_version s;
          info = \<lparr>token = t, t_version = v, issued_at = now, is_primary = True\<rparr>;
          acc = (case primary_info s1 of
                   None \<Rightarrow> accepted s1
                 | Some old \<Rightarrow> dset (token old)
                     \<lparr>token = token old, t_version = t_version old, issued_at = now, is_primary = False\<rparr> (accepted s1))
      in (info, s1\<lparr>primary_info := Some info, accepted := dset t info acc\<rparr>))"

definition set_primary :: "pyfloat \<Rightarrow> string \<Rightarrow> token_store \<Rightarrow> token_info \<times> token_store" where
  "set_primary now t s = set_primary_locked now t s"

definition empty_token_store :: token_store where
  "empty_token_store = \<lparr>primary_info = None, accepted = [], ts_counter = 0, announcement = None\<rparr>"

definition new_token_store :: "pyfloat \<Rightarrow> string \<Rightarrow> token_store" where
  "new_token_store now initial =
     (if initial = '''' then empty_token_store else snd (set_primary now initial empty_token_store))"

definition adopt_token_locked :: "string \<Rightarrow> int \<Rightarrow> pyfloat \<Rightarrow> token_store \<Rightarrow> bool \<times> token_store" where
  "adopt_token_locked t v issued s =
     (if dget (accepted s) t \<noteq> None then (False, s)
      else (True, s\<lparr>accepted := dset t \<lparr>token = t, t_version = v, issued_at = issued, is_primary = False\<rparr> (accepted s)\<rparr>))"

definition adopt_token :: "string \<Rightarrow> int \<Rightarrow> pyfloat \<Rightarrow> token_store \<Rightarrow> bool \<times> token_store" where
  "adopt_token t v issued s = adopt_token_locked t v issued s"

definition retire_older_than :: "pyfloat \<Rightarrow> token_store \<Rightarrow> token_store" where
  "retire_older_than cutoff s =
     (let primary = primary_token s
      in s\<lparr>accepted := dpurge (\<lambda>(t, i). t \<noteq> primary \<and> issued_at i < cutoff) (accepted s)\<rparr>)"

text \<open>\<open>fresh\<close> is the random token \<open>secrets.token_urlsafe\<close> returns, \<open>grace\<close> the configured window.\<close>

definition ts_rotate :: "crypto \<Rightarrow> pyfloat \<Rightarrow> pyfloat \<Rightarrow> string \<Rightarrow> string option \<Rightarrow> string \<Rightarrow> token_store \<Rightarrow>
    token_info \<times> token_store" where
  "ts_rotate cr grace now fresh new_token announced_by s =
     (case new_token of
        Some t \<Rightarrow> set_primary_locked now t (s\<lparr>announcement := None\<rparr>)
      | None \<Rightarrow>
          let old = primary_token s
          in if old = '''' then set_primary_locked now fresh s
             else let t = derive_rotation_token cr old now
                  in set_primary_locked now t (s\<lparr>announcement := Some
                       [(''announced_by'', JStr announced_by), (''hmac'', JStr (hmac_hex cr old t)),
                        (''announced_at'', JFloat now), (''grace_expires'', JFloat (now + grace))]\<rparr>))"

text \<open>
  The search for the anchor: the first accepted token for which the announced keyed digest
  verifies. \<open>hmac.compare_digest\<close> raises \<open>TypeError\<close> on a string with a non-ASCII character.
\<close>

definition ascii :: "string \<Rightarrow> bool" where
  "ascii s = list_all (\<lambda>c. of_char c < (128 :: nat)) s"

fun find_anchor :: "crypto \<Rightarrow> string \<Rightarrow> string \<Rightarrow> string list \<Rightarrow> (string \<times> string) option py_result" where
  "find_anchor cr ctx announced [] = Inr None"
| "find_anchor cr ctx announced (t # ts) =
     (let candidate = hmac_hex cr t ctx; expected = hmac_hex cr t candidate
      in if \<not> ascii announced then Inl TypeError
         else if expected = announced then Inr (Some (t, candidate))
         else find_anchor cr ctx announced ts)"

definition num_of :: "json option \<Rightarrow> pyfloat option" where
  "num_of v = (case v of Some (JInt i) \<Rightarrow> Some (of_int i) | Some (JFloat x) \<Rightarrow> Some x
     | Some (JBool b) \<Rightarrow> Some (if b then 1 else 0) | _ \<Rightarrow> None)"

definition str_of :: "json option \<Rightarrow> string option" where
  "str_of v = (case v of Some (JStr s) \<Rightarrow> Some s | _ \<Rightarrow> None)"

definition follow_anchor :: "pyfloat \<Rightarrow> pyfloat \<Rightarrow> (string \<times> json) list \<Rightarrow> string \<Rightarrow> string \<Rightarrow> token_store \<Rightarrow>
    bool \<times> token_store" where
  "follow_anchor now announced_at ann anchor candidate s =
     (if candidate = primary_token s \<or> dget (accepted s) candidate \<noteq> None then (False, s)
      else let s1 = (if anchor = primary_token s then snd (set_primary_locked now candidate s)
                     else snd (adopt_token_locked candidate 0 (min announced_at now) s))
           in (True, s1\<lparr>announcement := Some ann\<rparr>))"

definition apply_announcement :: "crypto \<Rightarrow> pyfloat \<Rightarrow> (string \<times> json) list \<Rightarrow> token_store \<Rightarrow>
    (bool \<times> token_store) py_result" where
  "apply_announcement cr now ann s =
     (case (num_of (dget ann ''announced_at''), str_of (dget ann ''hmac'')) of
        (Some announced_at, Some announced_hmac) \<Rightarrow>
          bindE (find_anchor cr (rotation_ctx cr announced_at) announced_hmac (dkeys (accepted s))) (\<lambda>found.
            case found of
              None \<Rightarrow> Inr (False, s)
            | Some (anchor, candidate) \<Rightarrow> Inr (follow_anchor now announced_at ann anchor candidate s))
      | _ \<Rightarrow> Inr (False, s))"

definition info_to_snapshot :: "token_info \<Rightarrow> json" where
  "info_to_snapshot i = JObj
     [(''token'', JStr (token i)), (''version'', JInt (t_version i)), (''issued_at'', JFloat (issued_at i))]"

definition to_snapshot :: "token_store \<Rightarrow> (string \<times> json) list" where
  "to_snapshot s =
     [(''primary'', opt_json info_to_snapshot (primary_info s)),
      (''accepted'', JList (map info_to_snapshot (dvals (accepted s))))]"

definition info_to_gossip :: "crypto \<Rightarrow> token_info \<Rightarrow> json" where
  "info_to_gossip cr i = JObj
     [(''digest'', JStr (token_digest cr (token i))), (''version'', JInt (t_version i)),
      (''issued_at'', JFloat (issued_at i))]"

definition to_gossip_snapshot :: "crypto \<Rightarrow> token_store \<Rightarrow> (string \<times> json) list" where
  "to_gossip_snapshot cr s =
     [(''primary'', opt_json (info_to_gossip cr) (primary_info s)),
      (''accepted'', JList (map (info_to_gossip cr) (dvals (accepted s)))),
      (''announcement'', opt_json JObj (current_announcement s))]"

definition accepted_digests :: "crypto \<Rightarrow> token_store \<Rightarrow> string set" where
  "accepted_digests cr s = token_digest cr ` set (dkeys (accepted s))"

definition info_from_snapshot :: "bool \<Rightarrow> (string \<times> json) list \<Rightarrow> token_info py_result" where
  "info_from_snapshot prim d =
     bindE (need as_str ''token'' d) (\<lambda>t.
     bindE (need as_int ''version'' d) (\<lambda>v.
     bindE (need as_num ''issued_at'' d) (\<lambda>iss.
       Inr \<lparr>token = t, t_version = v, issued_at = iss, is_primary = prim\<rparr>)))"

fun add_accepted :: "json list \<Rightarrow> token_store \<Rightarrow> token_store py_result" where
  "add_accepted [] s = Inr s"
| "add_accepted (j # js) s =
     bindE (bindE (as_obj j) (info_from_snapshot False)) (\<lambda>i.
       add_accepted js (s\<lparr>accepted := dset (token i) i (accepted s), ts_counter := max (ts_counter s) (t_version i)\<rparr>))"

text \<open>\<open>if primary:\<close> is false for \<open>None\<close> and for an empty object.\<close>

definition from_snapshot :: "(string \<times> json) list \<Rightarrow> token_store py_result" where
  "from_snapshot snap =
     bindE (case dget snap ''primary'' of
              None \<Rightarrow> Inr empty_token_store
            | Some JNull \<Rightarrow> Inr empty_token_store
            | Some (JObj []) \<Rightarrow> Inr empty_token_store
            | Some p \<Rightarrow> bindE (bindE (as_obj p) (info_from_snapshot True)) (\<lambda>i.
                Inr (empty_token_store\<lparr>primary_info := Some i, accepted := dset (token i) i [],
                     ts_counter := max 0 (t_version i)\<rparr>)))
       (\<lambda>s. bindE (get_or as_list ''accepted'' [] snap) (\<lambda>js. add_accepted js s))"

section \<open>The store's invariant\<close>

text \<open>
  Tokens are stored under their own value, and the primary token is one of the accepted tokens,
  with the primary's own record.
\<close>

definition store_ok :: "token_store \<Rightarrow> bool" where
  "store_ok s \<longleftrightarrow> keyed token (accepted s) \<and>
     (case primary_info s of None \<Rightarrow> True | Some p \<Rightarrow> dget (accepted s) (token p) = Some p)"

lemma store_ok_empty [simp]: "store_ok empty_token_store"
  by (simp add: store_ok_def empty_token_store_def)

lemma is_accepted_iff: "is_accepted t s \<longleftrightarrow> t \<noteq> '''' \<and> dget (accepted s) t \<noteq> None"
  by (auto simp: is_accepted_def list_ex_iff dget_None_iff)

lemma set_primary_dget:
  "dget (accepted (snd (set_primary_locked now t s))) u =
     (if u = t then Some (fst (set_primary_locked now t s))
      else case primary_info s of
        Some p \<Rightarrow> if u = token p then Some (p\<lparr>issued_at := now, is_primary := False\<rparr>) else dget (accepted s) u
      | None \<Rightarrow> dget (accepted s) u)"
  by (auto simp: set_primary_locked_def ts_next_version_def Let_def split: option.splits)

lemma set_primary_fields [simp]:
  "primary_info (snd (set_primary_locked now t s)) = Some (fst (set_primary_locked now t s))"
  "token (fst (set_primary_locked now t s)) = t"
  "issued_at (fst (set_primary_locked now t s)) = now"
  "primary_token (snd (set_primary_locked now t s)) = t"
  "ts_counter (snd (set_primary_locked now t s)) = ts_counter s + 1"
  "t_version (fst (set_primary_locked now t s)) = ts_counter s + 1"
  "announcement (snd (set_primary_locked now t s)) = announcement s"
  by (simp_all add: set_primary_locked_def ts_next_version_def Let_def primary_token_def)

lemma set_primary_ok: "store_ok s \<Longrightarrow> store_ok (snd (set_primary_locked now t s))"
proof -
  assume ok: "store_ok s"
  then have "keyed token (accepted (snd (set_primary_locked now t s)))"
    by (simp add: store_ok_def set_primary_locked_def ts_next_version_def Let_def keyed_dset
        split: option.splits)
  then show ?thesis by (simp add: store_ok_def set_primary_dget)
qed

lemma store_ok_announcement [simp]: "store_ok (s\<lparr>announcement := a\<rparr>) = store_ok s"
  by (simp add: store_ok_def cong: option.case_cong)

lemma adopt_ok: "store_ok s \<Longrightarrow> store_ok (snd (adopt_token_locked t v iss s))"
  by (auto simp: store_ok_def adopt_token_locked_def keyed_dset split: option.splits)

lemma retire_dget:
  "store_ok s \<Longrightarrow> dget (accepted (retire_older_than cutoff s)) t =
     (case dget (accepted s) t of
        None \<Rightarrow> None
      | Some i \<Rightarrow> if t \<noteq> primary_token s \<and> issued_at i < cutoff then None else Some i)"
  by (auto simp: store_ok_def retire_older_than_def Let_def dget_dpurge [OF keyed_wf] split: option.splits)

lemma retire_ok: "store_ok s \<Longrightarrow> store_ok (retire_older_than cutoff s)"
proof -
  assume ok: "store_ok s"
  have "keyed token (accepted (retire_older_than cutoff s))"
    using ok by (simp add: store_ok_def retire_older_than_def Let_def keyed_dpurge)
  moreover have "primary_info (retire_older_than cutoff s) = primary_info s"
    by (simp add: retire_older_than_def Let_def)
  ultimately show ?thesis using ok
    by (cases "primary_info s") (simp_all add: store_ok_def retire_dget [OF ok] primary_token_def)
qed

lemma rotate_ok: "store_ok s \<Longrightarrow> store_ok (snd (ts_rotate cr g now fresh nt by s))"
  by (auto simp: ts_rotate_def Let_def set_primary_ok split: option.splits)

lemma follow_anchor_ok: "store_ok s \<Longrightarrow> store_ok (snd (follow_anchor now t0 ann a c s))"
  by (simp add: follow_anchor_def Let_def set_primary_ok adopt_ok)

text \<open>What a successful application of an announcement did.\<close>

lemma apply_announcement_cases:
  assumes "apply_announcement cr now ann s = Inr (b, s')"
  obtains "\<not> b" "s' = s"
  | t0 h anchor candidate where "num_of (dget ann ''announced_at'') = Some t0" "str_of (dget ann ''hmac'') = Some h"
      "find_anchor cr (rotation_ctx cr t0) h (dkeys (accepted s)) = Inr (Some (anchor, candidate))"
      "(b, s') = follow_anchor now t0 ann anchor candidate s"
  using assms by (fastforce simp: apply_announcement_def bindE_eq_Inr split: option.splits prod.splits)

lemma apply_announcement_ok:
  "store_ok s \<Longrightarrow> apply_announcement cr now ann s = Inr (b, s') \<Longrightarrow> store_ok s'"
  by (erule apply_announcement_cases) (auto simp: follow_anchor_ok dest: arg_cong [where f = snd])

lemma new_token_store_ok [simp]: "store_ok (new_token_store now t)"
  by (simp add: new_token_store_def set_primary_def set_primary_ok)

section \<open>Rotation and announcements\<close>

lemma set_primary_keeps:
  "dget (accepted s) u \<noteq> None \<Longrightarrow> dget (accepted (snd (set_primary_locked now t s))) u \<noteq> None"
  by (auto simp: set_primary_dget split: option.splits)

lemma set_primary_demotes:
  "primary_info s = Some p \<Longrightarrow> token p \<noteq> t \<Longrightarrow>
     dget (accepted (snd (set_primary_locked now t s))) (token p) = Some (p\<lparr>issued_at := now, is_primary := False\<rparr>)"
  by (simp add: set_primary_dget)

text \<open>The keyed digest an announcement carries for the anchor \<open>k\<close>.\<close>

definition keyed_digest :: "crypto \<Rightarrow> pyfloat \<Rightarrow> string \<Rightarrow> string" where
  "keyed_digest cr t0 k = hmac_hex cr k (derive_rotation_token cr k t0)"

text \<open>
  What the theorems assume of HMAC, on the tokens a store accepts: hexadecimal (ASCII) output, and
  no two tokens with the same keyed digest.
\<close>

definition hmac_ok :: "crypto \<Rightarrow> pyfloat \<Rightarrow> token_store \<Rightarrow> bool" where
  "hmac_ok cr t0 s \<longleftrightarrow> list_all (\<lambda>k. ascii (keyed_digest cr t0 k)) (dkeys (accepted s)) \<and>
     distinct (map (keyed_digest cr t0) (dkeys (accepted s)))"

lemma find_anchor_unique:
  assumes "ascii h" and "old \<in> set ts"
    and "\<And>t. t \<in> set ts \<Longrightarrow> hmac_hex cr t (hmac_hex cr t ctx) = h \<longleftrightarrow> t = old"
  shows "find_anchor cr ctx h ts = Inr (Some (old, hmac_hex cr old ctx))"
  using assms by (induction ts) (auto simp: Let_def)

lemma find_anchor_sound:
  "find_anchor cr ctx h ts = Inr (Some (a, c)) \<Longrightarrow> a \<in> set ts \<and> c = hmac_hex cr a ctx \<and> hmac_hex cr a c = h"
  by (induction ts) (auto simp: Let_def split: if_splits)

lemma find_anchor_of_key:
  assumes ok: "hmac_ok cr t0 s" and old: "dget (accepted s) old \<noteq> None"
  shows "find_anchor cr (rotation_ctx cr t0) (keyed_digest cr t0 old) (dkeys (accepted s))
    = Inr (Some (old, derive_rotation_token cr old t0))"
proof -
  have mem: "old \<in> set (dkeys (accepted s))" using old by (auto simp: dget_None_iff)
  moreover have "ascii (keyed_digest cr t0 old)" using ok mem by (auto simp: hmac_ok_def list_all_iff)
  moreover have "inj_on (keyed_digest cr t0) (set (dkeys (accepted s)))"
    using ok distinct_map [of "keyed_digest cr t0" "dkeys (accepted s)"] unfolding hmac_ok_def by blast
  ultimately show ?thesis
    unfolding derive_rotation_token_def
    by (intro find_anchor_unique)
       (auto simp: keyed_digest_def derive_rotation_token_def inj_on_def simp del: set_map)
qed

lemma rotate_derived:
  assumes "primary_token s = old" and "old \<noteq> ''''"
  shows "ts_rotate cr g now fresh None by s =
    set_primary_locked now (derive_rotation_token cr old now) (s\<lparr>announcement := Some
      [(''announced_by'', JStr by), (''hmac'', JStr (keyed_digest cr now old)),
       (''announced_at'', JFloat now), (''grace_expires'', JFloat (now + g))]\<rparr>)"
  using assms by (simp add: ts_rotate_def keyed_digest_def Let_def)

lemma primary_accepted: "store_ok s \<Longrightarrow> primary_token s \<noteq> '''' \<Longrightarrow>
    \<exists>p. primary_info s = Some p \<and> token p = primary_token s \<and> dget (accepted s) (primary_token s) = Some p"
  by (auto simp: store_ok_def primary_token_def split: option.splits)

lemma primary_token_announcement [simp]: "primary_token (s\<lparr>announcement := a\<rparr>) = primary_token s"
  by (simp add: primary_token_def split: option.splits)

lemma accepted_announcement: "dget (accepted (snd (set_primary_locked now t (s\<lparr>announcement := a\<rparr>)))) u
    = dget (accepted (snd (set_primary_locked now t s))) u"
  by (simp add: set_primary_locked_def ts_next_version_def Let_def split: option.splits)

text \<open>Applying an announcement that verifies for an accepted anchor.\<close>

lemma apply_announcement_of_key:
  assumes "hmac_ok cr t0 s" and "dget (accepted s) old \<noteq> None"
    and "num_of (dget ann ''announced_at'') = Some t0" and "str_of (dget ann ''hmac'') = Some (keyed_digest cr t0 old)"
  shows "apply_announcement cr now ann s = Inr (follow_anchor now t0 ann old (derive_rotation_token cr old t0) s)"
  using assms by (simp add: apply_announcement_def find_anchor_of_key)

lemma follow_anchor_accepts:
  "store_ok s \<Longrightarrow> c \<noteq> '''' \<Longrightarrow> dget (accepted (snd (follow_anchor now t0 ann anchor c s))) c \<noteq> None"
  using primary_accepted [of s] by (auto simp: follow_anchor_def adopt_token_locked_def set_primary_dget Let_def)

section \<open>Properties\<close>

text \<open>
  C6. Rotation keeps the cluster connected. When a node with a primary token rotates without an
  explicit token, the derived token becomes primary and is accepted, the version grows, every
  token accepted before stays accepted, and the demoted primary survives a retirement with any
  cutoff up to the time of the rotation.
\<close>

theorem rotate_keeps_trust:
  assumes "store_ok s" and "primary_token s \<noteq> ''''" and "cutoff \<le> now"
    and "derive_rotation_token cr (primary_token s) now \<noteq> primary_token s"
  shows "let s' = snd (ts_rotate cr g now fresh None by s); new = derive_rotation_token cr (primary_token s) now
    in primary_token s' = new \<and> dget (accepted s') new \<noteq> None \<and> ts_counter s' = ts_counter s + 1
      \<and> (\<forall>t. dget (accepted s) t \<noteq> None \<longrightarrow> dget (accepted s') t \<noteq> None)
      \<and> dget (accepted (retire_older_than cutoff s')) (primary_token s) \<noteq> None"
proof -
  let ?new = "derive_rotation_token cr (primary_token s) now"
  let ?s' = "snd (ts_rotate cr g now fresh None by s)"
  obtain p where p: "primary_info s = Some p" "token p = primary_token s"
    using primary_accepted [OF assms(1,2)] by blast
  have rot: "\<And>u. dget (accepted ?s') u = dget (accepted (snd (set_primary_locked now ?new s))) u"
    "primary_token ?s' = ?new" "ts_counter ?s' = ts_counter s + 1"
    using rotate_derived [OF refl assms(2)] by (simp_all add: accepted_announcement)
  have ok: "store_ok ?s'" using assms(1) by (rule rotate_ok)
  have "dget (accepted ?s') (primary_token s) = Some (p\<lparr>issued_at := now, is_primary := False\<rparr>)"
    using set_primary_demotes [OF p(1), of ?new now] p(2) assms(4) rot(1) by metis
  then have "dget (accepted (retire_older_than cutoff ?s')) (primary_token s) \<noteq> None"
    using retire_dget [OF ok, of cutoff "primary_token s"] assms(3) by simp
  moreover have "dget (accepted ?s') t \<noteq> None" if "dget (accepted s) t \<noteq> None" for t
    using set_primary_keeps [OF that] rot(1) by simp
  moreover have "dget (accepted ?s') ?new \<noteq> None" by (simp add: rot(1) set_primary_dget)
  ultimately show ?thesis using rot(2,3) by (simp add: Let_def)
qed

text \<open>A stand-in for HMAC, SHA-256 and float rendering, for the witnesses.\<close>

definition toy_crypto :: crypto where
  "toy_crypto = \<lparr>hmac_hex = (\<lambda>k m. k @ ''.'' @ m), sha256_hex = (\<lambda>s. s), float_repr = (\<lambda>_. ''t'')\<rparr>"

lemmas token_eval = new_token_store_def set_primary_def set_primary_locked_def ts_next_version_def
  empty_token_store_def toy_crypto_def derive_rotation_token_def rotation_ctx_def ROTATION_CONTEXT_def
  keyed_digest_def adopt_token_locked_def adopt_token_def

theorem rotate_keeps_trust_witness:
  "let s = new_token_store 5 ''k1''; s' = snd (ts_rotate toy_crypto 3600 10 ''x'' None ''n1'' s)
   in dget (accepted (retire_older_than 7 s')) ''k1'' \<noteq> None"
proof -
  have "primary_token (new_token_store 5 ''k1'') = ''k1''" by (simp add: token_eval primary_token_def Let_def)
  then show ?thesis
    using rotate_keeps_trust [of "new_token_store 5 ''k1''" 7 10 toy_crypto 3600 "''x''" "''n1''"]
    by (simp add: Let_def toy_crypto_def derive_rotation_token_def)
qed

text \<open>
  Peers follow an announced rotation. If node A rotates at time \<open>ta\<close> and node B accepts A's
  old primary, then applying A's announcement on B (any time later) never fails and leaves A's new
  primary accepted by B; if the old primary was B's primary too and the new token is unknown to B,
  the new token becomes B's primary.
\<close>

theorem announcement_followed:
  assumes A: "store_ok a" "primary_token a = old" "old \<noteq> ''''"
    and B: "store_ok b" "dget (accepted b) old \<noteq> None"
    and H: "hmac_ok cr ta b" "derive_rotation_token cr old ta \<noteq> ''''"
  shows "\<exists>ann ok b'. announcement (snd (ts_rotate cr g ta fresh None who a)) = Some ann
    \<and> apply_announcement cr tb ann b = Inr (ok, b')
    \<and> dget (accepted b') (primary_token (snd (ts_rotate cr g ta fresh None who a))) \<noteq> None
    \<and> (primary_token b = old \<and> dget (accepted b) (derive_rotation_token cr old ta) = None
        \<longrightarrow> primary_token b' = primary_token (snd (ts_rotate cr g ta fresh None who a)))"
proof -
  let ?new = "derive_rotation_token cr old ta"
  let ?ann = "[(''announced_by'', JStr who), (''hmac'', JStr (keyed_digest cr ta old)),
       (''announced_at'', JFloat ta), (''grace_expires'', JFloat (ta + g))]"
  have rot: "announcement (snd (ts_rotate cr g ta fresh None who a)) = Some ?ann"
    "primary_token (snd (ts_rotate cr g ta fresh None who a)) = ?new"
    using rotate_derived [OF A(2,3)] by simp_all
  have app: "apply_announcement cr tb ?ann b = Inr (follow_anchor tb ta ?ann old ?new b)"
    by (rule apply_announcement_of_key [OF H(1) B(2)]) (simp_all add: num_of_def str_of_def)
  have new: "dget (accepted (snd (follow_anchor tb ta ?ann old ?new b))) ?new \<noteq> None"
    using B(1) H(2) by (rule follow_anchor_accepts)
  have follow: "primary_token (snd (follow_anchor tb ta ?ann old ?new b)) = ?new"
    if "primary_token b = old" "dget (accepted b) ?new = None"
    using that by (cases "?new = old") (simp_all add: follow_anchor_def Let_def)
  obtain ok b' where fa: "follow_anchor tb ta ?ann old ?new b = (ok, b')"
    by (cases "follow_anchor tb ta ?ann old ?new b")
  show ?thesis
    using rot app new follow by (intro exI [of _ ?ann] exI [of _ ok] exI [of _ b']) (simp add: fa)
qed

theorem announcement_followed_witness:
  "\<exists>ann ok b'. announcement (snd (ts_rotate toy_crypto 3600 10 ''x'' None ''n1'' (new_token_store 5 ''k1''))) = Some ann
    \<and> apply_announcement toy_crypto 12 ann (new_token_store 6 ''k1'') = Inr (ok, b')
    \<and> primary_token b' = primary_token (snd (ts_rotate toy_crypto 3600 10 ''x'' None ''n1'' (new_token_store 5 ''k1'')))"
proof -
  have p: "primary_token (new_token_store t ''k1'') = ''k1''" for t
    by (simp add: token_eval primary_token_def Let_def)
  have acc: "dkeys (accepted (new_token_store 6 ''k1'')) = [''k1'']" by (simp add: token_eval Let_def)
  then have dg: "dget (accepted (new_token_store 6 ''k1'')) t \<noteq> None \<longleftrightarrow> t = ''k1''" for t
    unfolding dget_None_iff by (simp flip: list.set_map)
  have h: "hmac_ok toy_crypto 10 (new_token_store 6 ''k1'')"
    unfolding hmac_ok_def acc by (simp add: token_eval ascii_def)
  have new: "derive_rotation_token toy_crypto ''k1'' 10 = ''k1.'' @ ROTATION_CONTEXT @ ''t''"
    by (simp add: toy_crypto_def derive_rotation_token_def rotation_ctx_def)
  with dg have fresh: "dget (accepted (new_token_store 6 ''k1'')) (derive_rotation_token toy_crypto ''k1'' 10) = None"
    by (metis append_Cons append_Nil list.distinct(1) list.inject not_Cons_self2)
  obtain ann ok b' where r: "announcement (snd (ts_rotate toy_crypto 3600 10 ''x'' None ''n1'' (new_token_store 5 ''k1''))) = Some ann"
      "apply_announcement toy_crypto 12 ann (new_token_store 6 ''k1'') = Inr (ok, b')"
      "primary_token (new_token_store 6 ''k1'') = ''k1'' \<and>
         dget (accepted (new_token_store 6 ''k1'')) (derive_rotation_token toy_crypto ''k1'' 10) = None \<longrightarrow>
       primary_token b' = primary_token (snd (ts_rotate toy_crypto 3600 10 ''x'' None ''n1'' (new_token_store 5 ''k1'')))"
    using announcement_followed [where a = "new_token_store 5 ''k1''" and b = "new_token_store 6 ''k1''" and
        old = "''k1''" and cr = toy_crypto and ta = 10 and g = 3600 and fresh = "''x''" and who = "''n1''" and tb = 12]
      new_token_store_ok p dg [of "''k1''"] h new by auto
  then show ?thesis using fresh p by blast
qed

text \<open>
  An announcement is applied only on the authority of an accepted token. If applying one
  changes the store, there is an accepted anchor whose keyed digest it carries; the only new
  accepted token is the one derived from that anchor, no accepted token is lost, the primary
  changes only if the anchor was the primary, and otherwise the new token's clock is stamped no
  later than the present.
\<close>

lemma announcement_sound:
  assumes "store_ok s" and "apply_announcement cr now ann s = Inr (True, s')"
  shows "\<exists>anchor t0. num_of (dget ann ''announced_at'') = Some t0 \<and> dget (accepted s) anchor \<noteq> None
    \<and> str_of (dget ann ''hmac'') = Some (keyed_digest cr t0 anchor)
    \<and> (\<forall>t. dget (accepted s') t \<noteq> None \<longleftrightarrow> dget (accepted s) t \<noteq> None \<or> t = derive_rotation_token cr anchor t0)
    \<and> (anchor \<noteq> primary_token s \<longrightarrow> primary_token s' = primary_token s
        \<and> (\<exists>i. dget (accepted s') (derive_rotation_token cr anchor t0) = Some i \<and> issued_at i \<le> now))"
  using assms(2)
proof (cases rule: apply_announcement_cases)
  case 1
  then show ?thesis by simp
next
  case (2 t0 h anchor c)
  from find_anchor_sound [OF 2(3)] have a: "dget (accepted s) anchor \<noteq> None"
    and c: "c = derive_rotation_token cr anchor t0" and h: "h = keyed_digest cr t0 anchor"
    by (auto simp: derive_rotation_token_def keyed_digest_def dget_None_iff)
  from 2(4) have new: "c \<noteq> primary_token s" "dget (accepted s) c = None"
    and s': "s' = (if anchor = primary_token s then snd (set_primary_locked now c s)
      else snd (adopt_token_locked c 0 (min t0 now) s))\<lparr>announcement := Some ann\<rparr>"
    by (auto simp: follow_anchor_def Let_def split: if_splits)
  have "dget (accepted s') t \<noteq> None \<longleftrightarrow> dget (accepted s) t \<noteq> None \<or> t = c" for t
    using new s' assms(1) primary_accepted [of s]
    by (auto simp: set_primary_dget adopt_token_locked_def store_ok_def primary_token_def split: option.splits if_splits)
  moreover have "primary_token s' = primary_token s \<and> (\<exists>i. dget (accepted s') c = Some i \<and> issued_at i \<le> now)"
    if "anchor \<noteq> primary_token s"
    using that new s' by (auto simp: adopt_token_locked_def primary_token_def)
  ultimately show ?thesis using 2(1,2) a c h by blast
qed


text \<open>A store with a primary and one demoted token, for the witnesses below.\<close>

definition two_tokens :: token_store where
  "two_tokens = snd (set_primary 6 ''k2'' (new_token_store 5 ''k1''))"

lemma two_tokens_facts:
  "store_ok two_tokens" "primary_token two_tokens = ''k2''" "dkeys (accepted two_tokens) = [''k1'', ''k2'']"
  by (simp_all add: two_tokens_def set_primary_def set_primary_ok, simp add: token_eval Let_def)

lemma two_tokens_dget: "dget (accepted two_tokens) t = None \<longleftrightarrow> t \<notin> {''k1'', ''k2''}"
  unfolding dget_None_iff using two_tokens_facts(3) by (simp flip: list.set_map)

lemma two_tokens_hmac: "hmac_ok toy_crypto t0 two_tokens"
  unfolding hmac_ok_def two_tokens_facts(3) by (simp add: token_eval ascii_def)

lemma announcement_sound_witness:
  "\<exists>anchor t0. t0 = 10 \<and> dget (accepted two_tokens) anchor \<noteq> None
    \<and> keyed_digest toy_crypto 10 ''k1'' = keyed_digest toy_crypto t0 anchor"
proof -
  let ?ann = "[(''announced_at'', JFloat 10), (''hmac'', JStr (keyed_digest toy_crypto 10 ''k1''))]"
  have "apply_announcement toy_crypto 12 ?ann two_tokens =
      Inr (follow_anchor 12 10 ?ann ''k1'' (derive_rotation_token toy_crypto ''k1'' 10) two_tokens)"
    by (rule apply_announcement_of_key [OF two_tokens_hmac]) (simp_all add: two_tokens_dget num_of_def str_of_def)
  moreover have "fst (follow_anchor 12 10 ?ann ''k1'' (derive_rotation_token toy_crypto ''k1'' 10) two_tokens)"
    by (simp add: follow_anchor_def Let_def two_tokens_facts two_tokens_dget token_eval)
  ultimately obtain s' where "apply_announcement toy_crypto 12 ?ann two_tokens = Inr (True, s')"
    by (cases "follow_anchor 12 10 ?ann ''k1'' (derive_rotation_token toy_crypto ''k1'' 10) two_tokens") auto
  from announcement_sound [OF two_tokens_facts(1) this] show ?thesis
    by (auto simp: num_of_def str_of_def)
qed

text \<open>
  The clamp of \<open>issued_at\<close> does not stop a holder of a demoted token from refreshing its own
  trust. Whoever knows an accepted token that is not the primary announces at the present time;
  the store then accepts a token only that holder can derive, and this token survives every
  retirement whose cutoff is not in the future, so the step can be repeated for ever.
\<close>

lemma demoted_holder_refreshes:
  assumes "store_ok s" and "hmac_ok cr now s" and "dget (accepted s) k \<noteq> None" and "k \<noteq> primary_token s"
    and "dget (accepted s) (derive_rotation_token cr k now) = None" and "cutoff \<le> now"
    and "derive_rotation_token cr k now \<noteq> ''''"
  shows "\<exists>s'. apply_announcement cr now
      [(''announced_at'', JFloat now), (''hmac'', JStr (keyed_digest cr now k))] s = Inr (True, s')
    \<and> is_accepted (derive_rotation_token cr k now) (retire_older_than cutoff s')
    \<and> primary_token s' = primary_token s"
proof -
  let ?c = "derive_rotation_token cr k now"
  let ?ann = "[(''announced_at'', JFloat now), (''hmac'', JStr (keyed_digest cr now k))]"
  let ?s' = "(snd (adopt_token_locked ?c 0 now s))\<lparr>announcement := Some ?ann\<rparr>"
  have "apply_announcement cr now ?ann s = Inr (follow_anchor now now ?ann k ?c s)"
    by (rule apply_announcement_of_key [OF assms(2,3)]) (simp_all add: num_of_def str_of_def)
  moreover have "?c \<noteq> primary_token s"
    using assms(1,5,7) primary_accepted [of s] by auto
  then have "follow_anchor now now ?ann k ?c s = (True, ?s')"
    using assms(4,5) by (simp add: follow_anchor_def)
  moreover have "store_ok ?s'" using adopt_ok [OF assms(1)] by simp
  then have "is_accepted ?c (retire_older_than cutoff ?s')"
    using assms(5-7) by (simp add: is_accepted_iff retire_dget adopt_token_locked_def)
  moreover have "primary_token ?s' = primary_token s"
    by (simp add: adopt_token_locked_def primary_token_def)
  ultimately show ?thesis by simp
qed

lemma demoted_holder_refreshes_witness:
  "\<exists>s'. apply_announcement toy_crypto 9000
      [(''announced_at'', JFloat 9000), (''hmac'', JStr (keyed_digest toy_crypto 9000 ''k1''))] two_tokens = Inr (True, s')
    \<and> is_accepted (derive_rotation_token toy_crypto ''k1'' 9000) (retire_older_than 9000 s')
    \<and> primary_token s' = primary_token two_tokens"
  by (rule demoted_holder_refreshes [OF two_tokens_facts(1) two_tokens_hmac])
     (simp_all add: two_tokens_dget two_tokens_facts, simp_all add: token_eval)


lemma add_accepted_snapshot:
  "add_accepted (map info_to_snapshot is) s = Inr (s\<lparr>accepted := foldl (\<lambda>m (k, v). dset k v m) (accepted s)
      (map (\<lambda>i. (token i, i\<lparr>is_primary := False\<rparr>)) is), ts_counter := foldl max (ts_counter s) (map t_version is)\<rparr>)"
proof (induction "is" arbitrary: s)
  case (Cons i "is")
  have "bindE (as_obj (info_to_snapshot i)) (info_from_snapshot False) = Inr (i\<lparr>is_primary := False\<rparr>)"
    by (simp add: info_to_snapshot_def info_from_snapshot_def need_def)
  with Cons show ?case by simp
qed simp

lemma from_to_snapshot:
  "\<exists>s'. from_snapshot (to_snapshot s) = Inr s' \<and>
     primary_info s' = map_option (\<lambda>i. i\<lparr>is_primary := True\<rparr>) (primary_info s) \<and>
     (\<exists>m0. accepted s' = foldl (\<lambda>m (k, v). dset k v m) m0
        (map (\<lambda>i. (token i, i\<lparr>is_primary := False\<rparr>)) (dvals (accepted s))) \<and>
      dkeys m0 = (case primary_info s of None \<Rightarrow> [] | Some p \<Rightarrow> [token p]))"
proof (cases "primary_info s")
  case None
  then show ?thesis
    by (simp add: from_snapshot_def to_snapshot_def opt_json_def get_or_def add_accepted_snapshot empty_token_store_def del: map_map)
next
  case (Some p)
  have p: "bindE (as_obj (info_to_snapshot p)) (info_from_snapshot True) = Inr (p\<lparr>is_primary := True\<rparr>)"
    by (simp add: info_to_snapshot_def info_from_snapshot_def need_def)
  have "\<exists>s'. from_snapshot (to_snapshot s) = Inr s' \<and> primary_info s' = Some (p\<lparr>is_primary := True\<rparr>) \<and>
      accepted s' = foldl (\<lambda>m (k, v). dset k v m) [(token p, p\<lparr>is_primary := True\<rparr>)]
        (map (\<lambda>i. (token i, i\<lparr>is_primary := False\<rparr>)) (dvals (accepted s)))"
    using p Some
    by (simp add: from_snapshot_def to_snapshot_def opt_json_def get_or_def info_to_snapshot_def [of p] del: map_map)
       (simp add: add_accepted_snapshot empty_token_store_def del: map_map)
  then show ?thesis using Some by fastforce
qed

lemma keyed_map_of_rev:
  assumes "keyed f m"
  shows "map_of (rev (map (\<lambda>v. (f v, g v)) (dvals m))) k = map_option g (dget m k)"
proof -
  have "map (\<lambda>v. (f v, g v)) (dvals m) = map (\<lambda>(k, v). (k, g v)) m"
    using assms by (auto simp: keyed_def)
  moreover have "map_of (rev (map (\<lambda>(k, v). (k, g v)) m)) = map_of (map (\<lambda>(k, v). (k, g v)) m)"
  proof (rule map_of_inject_set [THEN iffD2])
    have "map fst (map (\<lambda>(k, v). (k, g v)) m) = dkeys m" by auto
    then have d: "distinct (map fst (map (\<lambda>(k, v). (k, g v)) m))" using assms by (simp only: keyed_def)
    then show "distinct (map fst (map (\<lambda>(k, v). (k, g v)) m))" .
    from d show "distinct (map fst (rev (map (\<lambda>(k, v). (k, g v)) m)))" by (simp only: rev_map [symmetric] distinct_rev)
  qed simp
  ultimately show ?thesis by (simp only: map_of_map o_apply)
qed

text \<open>
  Persisting and restoring the store loses no trust: \<open>from_snapshot\<close> accepts every
  \<open>to_snapshot\<close>, the primary token, its version and issue time come back, and a token is accepted
  afterwards exactly when it was before, with the same version and issue time (the record in the
  accepted table is marked as not primary).
\<close>

lemma snapshot_roundtrip:
  assumes "store_ok s"
  shows "\<exists>s'. from_snapshot (to_snapshot s) = Inr s'
    \<and> primary_info s' = map_option (\<lambda>i. i\<lparr>is_primary := True\<rparr>) (primary_info s)
    \<and> (\<forall>t. dget (accepted s') t = map_option (\<lambda>i. i\<lparr>is_primary := False\<rparr>) (dget (accepted s) t))"
proof -
  obtain s' m0 where s': "from_snapshot (to_snapshot s) = Inr s'"
      "primary_info s' = map_option (\<lambda>i. i\<lparr>is_primary := True\<rparr>) (primary_info s)"
      "accepted s' = foldl (\<lambda>m (k, v). dset k v m) m0
        (map (\<lambda>i. (token i, i\<lparr>is_primary := False\<rparr>)) (dvals (accepted s)))"
      "dkeys m0 = (case primary_info s of None \<Rightarrow> [] | Some p \<Rightarrow> [token p])"
    using from_to_snapshot [of s] by blast
  have k: "keyed token (accepted s)" using assms by (simp add: store_ok_def)
  have "dget (accepted s') t = map_option (\<lambda>i. i\<lparr>is_primary := False\<rparr>) (dget (accepted s) t)" for t
  proof (cases "dget (accepted s) t")
    case None
    then have "t \<notin> set (dkeys m0)" using assms s'(4) by (auto simp: store_ok_def split: option.splits)
    then have "dget m0 t = None" unfolding dget_None_iff by simp
    with None show ?thesis unfolding s'(3) pydict_table.lookup_save_all keyed_map_of_rev [OF k] by simp
  next
    case (Some i)
    then show ?thesis unfolding s'(3) pydict_table.lookup_save_all keyed_map_of_rev [OF k] by simp
  qed
  then show ?thesis using s'(1,2) by blast
qed

lemma snapshot_roundtrip_witness:
  "\<exists>s'. from_snapshot (to_snapshot two_tokens) = Inr s'
    \<and> primary_info s' = map_option (\<lambda>i. i\<lparr>is_primary := True\<rparr>) (primary_info two_tokens)
    \<and> (\<forall>t. dget (accepted s') t = map_option (\<lambda>i. i\<lparr>is_primary := False\<rparr>) (dget (accepted two_tokens) t))"
  by (rule snapshot_roundtrip) (rule two_tokens_facts)

end
