(* ===== verification/Cluster_State.thy ===== *)
theory Cluster_State
  imports Cluster_Models Token_Store "HOL-Library.Product_Lexorder"
begin

text \<open>
  The replicated cluster state (\<open>src/picosentry/sandbox/cluster/state.py\<close>) over the in-memory
  backend: node and scan tables with version numbers, scheduling of scans on the least loaded node,
  leader election, the gossip snapshot and the merge of a peer's snapshot. Every method runs under
  the state's lock; a loaded record is always saved back after it is changed, so records are values.
\<close>

section \<open>Model\<close>

record cluster_state =
  cs_backend :: memory_backend
  cs_version :: int
  cs_tokens :: token_store

definition new_cluster_state :: "pyfloat \<Rightarrow> string \<Rightarrow> cluster_state" where
  "new_cluster_state now cluster_token =
     \<lparr>cs_backend = new_memory_backend, cs_version = 0, cs_tokens = new_token_store now cluster_token\<rparr>"

definition cluster_token :: "cluster_state \<Rightarrow> string" where
  "cluster_token s = primary_token (cs_tokens s)"

definition set_cluster_token :: "pyfloat \<Rightarrow> string \<Rightarrow> cluster_state \<Rightarrow> cluster_state" where
  "set_cluster_token now t s = s\<lparr>cs_tokens := snd (set_primary now t (cs_tokens s))\<rparr>"

definition next_version :: "cluster_state \<Rightarrow> int \<times> cluster_state" where
  "next_version s = (cs_version s + 1, s\<lparr>cs_version := cs_version s + 1\<rparr>)"

definition put_node :: "cluster_node \<Rightarrow> cluster_state \<Rightarrow> cluster_state" where
  "put_node n s = s\<lparr>cs_backend := save_node n (cs_backend s)\<rparr>"

definition put_scan :: "scan_request \<Rightarrow> cluster_state \<Rightarrow> cluster_state" where
  "put_scan r s = s\<lparr>cs_backend := save_scan r (cs_backend s)\<rparr>"

definition add_node :: "cluster_node \<Rightarrow> cluster_state \<Rightarrow> cluster_state" where
  "add_node n s =
     (if n_version n = 0 then let (v, s1) = next_version s in put_node (n\<lparr>n_version := v\<rparr>) s1
      else put_node n s)"

definition remove_node :: "string \<Rightarrow> cluster_state \<Rightarrow> cluster_state" where
  "remove_node i s = s\<lparr>cs_backend := delete_node i (cs_backend s)\<rparr>"

definition get_node :: "string \<Rightarrow> cluster_state \<Rightarrow> cluster_node option" where
  "get_node i s = load_node (cs_backend s) i"

definition get_scan :: "string \<Rightarrow> cluster_state \<Rightarrow> scan_request option" where
  "get_scan i s = load_scan (cs_backend s) i"

definition list_nodes :: "node_status option \<Rightarrow> cluster_state \<Rightarrow> cluster_node list" where
  "list_nodes st s =
     (let nodes = load_all_nodes (cs_backend s);
          nodes = (case st of None \<Rightarrow> nodes | Some x \<Rightarrow> filter (\<lambda>n. n_status n = x) nodes)
      in sort_key node_id nodes)"

definition update_node :: "cluster_node \<Rightarrow> cluster_state \<Rightarrow> cluster_state" where
  "update_node n s = (let (v, s1) = next_version s in put_node (n\<lparr>n_version := v\<rparr>) s1)"

definition add_scan :: "scan_request \<Rightarrow> cluster_state \<Rightarrow> cluster_state" where
  "add_scan r s =
     (if s_version r = 0 then let (v, s1) = next_version s in put_scan (r\<lparr>s_version := v\<rparr>) s1
      else put_scan r s)"

definition assign_scan :: "string \<Rightarrow> cluster_state \<Rightarrow> cluster_node option \<times> cluster_state" where
  "assign_scan sid s =
     (case get_scan sid s of
        None \<Rightarrow> (None, s)
      | Some scan \<Rightarrow>
          (case assigned_node scan of
             Some nid \<Rightarrow> (get_node nid s, s)
           | None \<Rightarrow>
               (case sort_key (\<lambda>n. (load n, node_id n))
                       (filter (\<lambda>n. n_status n = ONLINE) (load_all_nodes (cs_backend s))) of
                  [] \<Rightarrow> (None, s)
                | target # _ \<Rightarrow>
                    let (v1, s1) = next_version s;
                        (v2, s2) = next_version s1;
                        scan' = scan\<lparr>assigned_node := Some (node_id target), s_status := ''running'', s_version := v1\<rparr>;
                        target' = target\<lparr>load := load target + 1, n_version := v2\<rparr>
                    in (Some target', put_node target' (put_scan scan' s2)))))"

text \<open>The release of one unit of load, shared by \<open>complete_scan\<close> and \<open>fail_scan\<close>.\<close>

definition release_load :: "string \<Rightarrow> cluster_state \<Rightarrow> cluster_state" where
  "release_load nid s =
     (case get_node nid s of
        None \<Rightarrow> s
      | Some node \<Rightarrow>
          if load node > 0 then
            let (v, s1) = next_version s in put_node (node\<lparr>load := load node - 1, n_version := v\<rparr>) s1
          else s)"

definition complete_scan :: "string \<Rightarrow> string \<Rightarrow> cluster_state \<Rightarrow> cluster_state" where
  "complete_scan sid nid s =
     (case get_scan sid s of
        None \<Rightarrow> s
      | Some scan \<Rightarrow>
          let (v, s1) = next_version s
          in release_load nid (put_scan (scan\<lparr>s_status := ''completed'', s_version := v\<rparr>) s1))"

definition fail_scan :: "string \<Rightarrow> cluster_state \<Rightarrow> cluster_state" where
  "fail_scan sid s =
     (case get_scan sid s of
        None \<Rightarrow> s
      | Some scan \<Rightarrow>
          let (v, s1) = next_version s;
              s2 = put_scan (scan\<lparr>s_status := ''pending'', assigned_node := None, s_version := v\<rparr>) s1
          in (case assigned_node scan of
                None \<Rightarrow> s2
              | Some old \<Rightarrow> if old = '''' then s2 else release_load old s2))"

definition get_pending_scans :: "cluster_state \<Rightarrow> scan_request list" where
  "get_pending_scans s = filter (\<lambda>r. s_status r = ''pending'') (load_all_scans (cs_backend s))"

definition get_scans_for_node :: "string \<Rightarrow> cluster_state \<Rightarrow> scan_request list" where
  "get_scans_for_node nid s = filter (\<lambda>r. assigned_node r = Some nid) (load_all_scans (cs_backend s))"

definition elect_leader :: "cluster_state \<Rightarrow> string option \<times> cluster_state" where
  "elect_leader s =
     (case list_nodes (Some ONLINE) s of
        [] \<Rightarrow> (None, s)
      | leader # _ \<Rightarrow> (Some (node_id leader), s\<lparr>cs_backend := set_leader_id (node_id leader) (cs_backend s)\<rparr>))"

definition state_leader :: "cluster_state \<Rightarrow> string option" where
  "state_leader s = get_leader_id (cs_backend s)"

text \<open>\<open>stamp\<close> is the rendered wall clock.\<close>

definition get_state_snapshot :: "crypto \<Rightarrow> string \<Rightarrow> cluster_state \<Rightarrow> (string \<times> json) list" where
  "get_state_snapshot cr stamp s =
     [(''nodes'', JList (map node_to_dict (load_all_nodes (cs_backend s)))),
      (''scans'', JList (map scan_to_dict (load_all_scans (cs_backend s)))),
      (''leader_id'', opt_json JStr (state_leader s)),
      (''timestamp'', JStr stamp),
      (''token_store'', JObj (to_gossip_snapshot cr (cs_tokens s)))]"

definition node_is_newer :: "cluster_node \<Rightarrow> cluster_node \<Rightarrow> bool" where
  "node_is_newer remote local =
     (if n_version remote > n_version local then True
      else if n_version remote = n_version local then last_heartbeat remote \<ge> last_heartbeat local
      else if n_version remote = 0 then last_heartbeat remote \<ge> last_heartbeat local
      else False)"

definition status_order :: "string \<Rightarrow> nat" where
  "status_order st = (if st = ''completed'' then 3 else if st = ''running'' then 2
     else if st = ''pending'' then 1 else 0)"

definition scan_is_newer :: "scan_request \<Rightarrow> scan_request \<Rightarrow> bool" where
  "scan_is_newer remote local =
     (if s_version remote > s_version local then True
      else if s_version remote = s_version local then status_order (s_status remote) \<ge> status_order (s_status local)
      else if s_version remote = 0 then status_order (s_status remote) \<ge> status_order (s_status local)
      else False)"

definition merge_node :: "cluster_node \<Rightarrow> memory_backend \<Rightarrow> memory_backend" where
  "merge_node r b =
     (case load_node b (node_id r) of
        None \<Rightarrow> save_node r b
      | Some l \<Rightarrow> if node_is_newer r l then save_node r b else b)"

definition merge_scan :: "scan_request \<Rightarrow> memory_backend \<Rightarrow> memory_backend" where
  "merge_scan r b =
     (case load_scan b (scan_id r) of
        None \<Rightarrow> save_scan r b
      | Some l \<Rightarrow> if scan_is_newer r l then save_scan r b else b)"

text \<open>
  The loops over the snapshot's records. A malformed record raises, and the records before it stay
  merged: the outcome carries the backend reached.
\<close>

fun merge_nodes :: "json list \<Rightarrow> memory_backend \<Rightarrow> unit py_result \<times> memory_backend" where
  "merge_nodes [] b = (Inr (), b)"
| "merge_nodes (j # js) b =
     (case bindE (as_obj j) node_from_dict of
        Inl e \<Rightarrow> (Inl e, b)
      | Inr r \<Rightarrow> merge_nodes js (merge_node r b))"

fun merge_scans :: "json list \<Rightarrow> memory_backend \<Rightarrow> unit py_result \<times> memory_backend" where
  "merge_scans [] b = (Inr (), b)"
| "merge_scans (j # js) b =
     (case bindE (as_obj j) scan_from_dict of
        Inl e \<Rightarrow> (Inl e, b)
      | Inr r \<Rightarrow> merge_scans js (merge_scan r b))"

text \<open>
  An entry's digest as an element of a Python set: \<open>None\<close> when absent, \<open>TypeError\<close> when
  unhashable; only a string can equal one of our digests.
\<close>

definition entry_digest :: "json \<Rightarrow> string option py_result" where
  "entry_digest j =
     bindE (as_obj j) (\<lambda>d.
       case dget d ''digest'' of
         Some (JStr h) \<Rightarrow> Inr (Some h)
       | Some (JList _) \<Rightarrow> Inl TypeError
       | Some (JObj _) \<Rightarrow> Inl TypeError
       | _ \<Rightarrow> Inr None)"

definition follow_announcement :: "crypto \<Rightarrow> pyfloat \<Rightarrow> json option \<Rightarrow> token_store \<Rightarrow> token_store py_result" where
  "follow_announcement cr now ann ts =
     (case ann of
        Some (JObj a) \<Rightarrow> bindE (apply_announcement cr now a ts) (\<lambda>(_, ts'). Inr ts')
      | _ \<Rightarrow> Inr ts)"

definition mismatch :: py_error where
  "mismatch = ValueError ''cluster token mismatch''"

definition shares_digest :: "crypto \<Rightarrow> string option list \<Rightarrow> token_store \<Rightarrow> bool" where
  "shares_digest cr ds ts = list_ex (\<lambda>t. Some (token_digest cr t) \<in> set ds) (dkeys (accepted ts))"

definition trust_gossip :: "crypto \<Rightarrow> pyfloat \<Rightarrow> (string \<times> json) list \<Rightarrow> json list \<Rightarrow> token_store \<Rightarrow>
    unit py_result \<times> token_store" where
  "trust_gossip cr now tss remote_accepted ts =
     (case follow_announcement cr now (dget tss ''announcement'') ts of
        Inl e \<Rightarrow> (Inl e, ts)
      | Inr ts1 \<Rightarrow>
          (bindE (mapE entry_digest remote_accepted) (\<lambda>ds.
             if primary_token ts1 \<noteq> '''' \<and> \<not> shares_digest cr ds ts1 then Inl mismatch else Inr ()), ts1))"

definition adopt_remote :: "token_info list \<Rightarrow> token_store \<Rightarrow> token_store" where
  "adopt_remote infos ts = foldl (\<lambda>ts i. if is_accepted (token i) ts then ts
     else snd (adopt_token (token i) (t_version i) (issued_at i) ts)) ts infos"

definition trust_legacy :: "(string \<times> json) list \<Rightarrow> token_store \<Rightarrow> unit py_result \<times> token_store" where
  "trust_legacy tss ts =
     (case from_snapshot tss of
        Inl e \<Rightarrow> (Inl e, ts)
      | Inr remote \<Rightarrow>
          if primary_token ts \<noteq> ''''
            \<and> \<not> list_ex (\<lambda>t. dget (accepted ts) t \<noteq> None) (dkeys (accepted remote))
            \<and> dget (accepted ts) (primary_token remote) = None
            \<and> dget (accepted remote) (primary_token ts) = None
          then (Inl mismatch, ts)
          else (Inr (), adopt_remote (accepted_token_infos remote) ts))"

text \<open>The trust decision of \<open>merge_state\<close>: which branch, and the tokens adopted on the way.\<close>

definition has_digest :: "json \<Rightarrow> bool py_result" where
  "has_digest j = bindE (as_obj j) (\<lambda>d. Inr (dget d ''digest'' \<noteq> None))"

definition trust_absent :: "(string \<times> json) list \<Rightarrow> token_store \<Rightarrow> unit py_result" where
  "trust_absent snap ts =
     (if primary_token ts \<noteq> '''' \<and> dget snap ''cluster_token'' \<noteq> Some (JStr (primary_token ts)) then Inl mismatch
      else Inr ())"

definition trust_present :: "crypto \<Rightarrow> pyfloat \<Rightarrow> (string \<times> json) list \<Rightarrow> token_store \<Rightarrow>
    unit py_result \<times> token_store" where
  "trust_present cr now tss ts =
     (case get_or as_list ''accepted'' [] tss of
        Inl err \<Rightarrow> (Inl err, ts)
      | Inr [] \<Rightarrow> trust_legacy tss ts
      | Inr (j # js) \<Rightarrow>
          (case has_digest j of
             Inl err \<Rightarrow> (Inl err, ts)
           | Inr digest \<Rightarrow> if digest then trust_gossip cr now tss (j # js) ts else trust_legacy tss ts))"

definition check_trust :: "crypto \<Rightarrow> pyfloat \<Rightarrow> (string \<times> json) list \<Rightarrow> token_store \<Rightarrow>
    unit py_result \<times> token_store" where
  "check_trust cr now snap ts =
     (if json_truthy (get_json ''token_store'' snap) then
        (case as_obj (get_json ''token_store'' snap) of
           Inl err \<Rightarrow> (Inl err, ts)
         | Inr tss \<Rightarrow> trust_present cr now tss ts)
      else (trust_absent snap ts, ts))"

definition merge_records :: "(string \<times> json) list \<Rightarrow> memory_backend \<Rightarrow> unit py_result \<times> memory_backend" where
  "merge_records snap b =
     (case get_or as_list ''nodes'' [] snap of
        Inl e \<Rightarrow> (Inl e, b)
      | Inr ns \<Rightarrow>
          (case merge_nodes ns b of
             (Inl e, b1) \<Rightarrow> (Inl e, b1)
           | (Inr _, b1) \<Rightarrow>
               (case get_or as_list ''scans'' [] snap of
                  Inl e \<Rightarrow> (Inl e, b1)
                | Inr ss \<Rightarrow> merge_scans ss b1)))"

definition merge_state :: "crypto \<Rightarrow> pyfloat \<Rightarrow> (string \<times> json) list \<Rightarrow> cluster_state \<Rightarrow>
    unit py_result \<times> cluster_state" where
  "merge_state cr now snap s =
     (case check_trust cr now snap (cs_tokens s) of
        (Inl e, ts) \<Rightarrow> (Inl e, s\<lparr>cs_tokens := ts\<rparr>)
      | (Inr _, ts) \<Rightarrow>
          (case merge_records snap (cs_backend s) of
             (Inl e, b) \<Rightarrow> (Inl e, s\<lparr>cs_tokens := ts, cs_backend := b\<rparr>)
           | (Inr _, b) \<Rightarrow> (Inr (), snd (elect_leader (s\<lparr>cs_tokens := ts, cs_backend := b\<rparr>)))))"

section \<open>Reads after writes\<close>

definition state_wf :: "cluster_state \<Rightarrow> bool" where
  "state_wf s \<longleftrightarrow> wf_memory (cs_backend s)"

lemma next_version_simps [simp]:
  "fst (next_version s) = cs_version s + 1" "cs_backend (snd (next_version s)) = cs_backend s"
  "cs_tokens (snd (next_version s)) = cs_tokens s" "cs_version (snd (next_version s)) = cs_version s + 1"
  "get_node i (snd (next_version s)) = get_node i s" "get_scan i (snd (next_version s)) = get_scan i s"
  by (simp_all add: next_version_def get_node_def get_scan_def)

lemma put_simps [simp]:
  "get_node i (put_node n s) = (if i = node_id n then Some n else get_node i s)"
  "get_scan i (put_node n s) = get_scan i s"
  "get_scan i (put_scan r s) = (if i = scan_id r then Some r else get_scan i s)"
  "get_node i (put_scan r s) = get_node i s"
  "cs_version (put_node n s) = cs_version s" "cs_version (put_scan r s) = cs_version s"
  "cs_tokens (put_node n s) = cs_tokens s" "cs_tokens (put_scan r s) = cs_tokens s"
  by (simp_all add: get_node_def get_scan_def put_node_def put_scan_def)

lemma state_wf_put [simp]:
  "state_wf s \<Longrightarrow> state_wf (put_node n s)" "state_wf s \<Longrightarrow> state_wf (put_scan r s)"
  "state_wf (snd (next_version s)) = state_wf s" "state_wf (s\<lparr>cs_tokens := ts\<rparr>) = state_wf s"
  by (simp_all add: state_wf_def put_node_def put_scan_def)

lemma state_wf_new [simp]: "state_wf (new_cluster_state now t)"
  by (simp add: state_wf_def new_cluster_state_def)

lemma get_node_id: "state_wf s \<Longrightarrow> get_node i s = Some n \<Longrightarrow> node_id n = i"
  unfolding state_wf_def get_node_def by (rule memory.stored_id)

lemma get_scan_id: "state_wf s \<Longrightarrow> get_scan i s = Some r \<Longrightarrow> scan_id r = i"
  unfolding state_wf_def get_scan_def by (rule memory.stored_scan_id)

lemma all_nodes_get: "state_wf s \<Longrightarrow> n \<in> set (load_all_nodes (cs_backend s)) \<longleftrightarrow> get_node (node_id n) s = Some n"
  by (simp add: state_wf_def get_node_def memory.all_nodes)

lemma all_scans_get: "state_wf s \<Longrightarrow> r \<in> set (load_all_scans (cs_backend s)) \<longleftrightarrow> get_scan (scan_id r) s = Some r"
  by (simp add: state_wf_def get_scan_def memory.all_scans)

text \<open>The head of a stably sorted list is one of the least elements.\<close>

lemma sort_key_head:
  assumes "sort_key f xs = y # ys"
  shows "y \<in> set xs" "x \<in> set xs \<Longrightarrow> f y \<le> f x"
proof -
  have m: "set (sort_key f xs) = set xs" "sorted (map f (sort_key f xs))" by simp_all
  then show "y \<in> set xs" unfolding assms by auto
  show "x \<in> set xs \<Longrightarrow> f y \<le> f x" using m unfolding assms by auto
qed

lemma sort_key_Nil [simp]: "sort_key f xs = [] \<longleftrightarrow> xs = []"
  by (metis length_0_conv length_sort)

section \<open>Every operation keeps the tables well formed\<close>

lemma state_wf_remove: "state_wf s \<Longrightarrow> state_wf (remove_node i s)"
  by (simp add: state_wf_def remove_node_def)

lemma state_wf_update [simp]: "state_wf s \<Longrightarrow> state_wf (update_node n s)"
  by (simp add: update_node_def split_beta)

lemma state_wf_add: "state_wf s \<Longrightarrow> state_wf (add_node n s)" "state_wf s \<Longrightarrow> state_wf (add_scan r s)"
  by (simp_all add: add_node_def add_scan_def split_beta)

lemma state_wf_assign: "state_wf s \<Longrightarrow> state_wf (snd (assign_scan i s))"
  by (simp add: assign_scan_def split_beta Let_def split: option.splits list.splits)

lemma state_wf_release [simp]: "state_wf s \<Longrightarrow> state_wf (release_load i s)"
  by (simp add: release_load_def split_beta Let_def split: option.splits)

lemma state_wf_finish: "state_wf s \<Longrightarrow> state_wf (complete_scan i k s)" "state_wf s \<Longrightarrow> state_wf (fail_scan i s)"
  by (auto simp: complete_scan_def fail_scan_def split_beta Let_def split: option.splits)

lemma elect_leader_tables [simp]:
  "get_node i (snd (elect_leader s)) = get_node i s" "get_scan i (snd (elect_leader s)) = get_scan i s"
  "state_wf (snd (elect_leader s)) = state_wf s" "cs_tokens (snd (elect_leader s)) = cs_tokens s"
  "load_all_nodes (cs_backend (snd (elect_leader s))) = load_all_nodes (cs_backend s)"
  "load_all_scans (cs_backend (snd (elect_leader s))) = load_all_scans (cs_backend s)"
  by (simp_all add: elect_leader_def get_node_def get_scan_def state_wf_def split: list.splits)

lemma wf_merge_nodes: "wf_memory b \<Longrightarrow> wf_memory (snd (merge_nodes js b))"
  by (induction js b rule: merge_nodes.induct) (auto simp: merge_node_def split: sum.splits option.splits)

lemma wf_merge_scans: "wf_memory b \<Longrightarrow> wf_memory (snd (merge_scans js b))"
  by (induction js b rule: merge_scans.induct) (auto simp: merge_scan_def split: sum.splits option.splits)

lemma wf_merge_records: "wf_memory b \<Longrightarrow> wf_memory (snd (merge_records snap b))"
  using wf_merge_nodes wf_merge_scans
  by (auto simp: merge_records_def split: sum.splits prod.splits) (metis snd_conv)+

lemma state_wf_merge: "state_wf s \<Longrightarrow> state_wf (snd (merge_state cr now snap s))"
  using wf_merge_records [of "cs_backend s" snap]
  by (auto simp: merge_state_def split: prod.splits sum.splits) (simp_all add: state_wf_def)

section \<open>Leader election and scheduling\<close>

definition online :: "cluster_state \<Rightarrow> string \<Rightarrow> bool" where
  "online s i \<longleftrightarrow> (\<exists>n. get_node i s = Some n \<and> n_status n = ONLINE)"

lemma list_online: "state_wf s \<Longrightarrow> n \<in> set (list_nodes (Some ONLINE) s) \<longleftrightarrow> get_node (node_id n) s = Some n \<and> n_status n = ONLINE"
  by (auto simp: list_nodes_def all_nodes_get)

lemma elect_leader_None: "state_wf s \<Longrightarrow> fst (elect_leader s) = None \<longleftrightarrow> (\<forall>i. \<not> online s i)"
proof -
  assume wf: "state_wf s"
  have "fst (elect_leader s) = None \<longleftrightarrow> list_nodes (Some ONLINE) s = []"
    by (auto simp: elect_leader_def split: list.splits)
  also have "\<dots> \<longleftrightarrow> (\<forall>n. n \<notin> set (list_nodes (Some ONLINE) s))" by (metis list.set_intros(1) neq_Nil_conv set_empty empty_iff)
  also have "\<dots> \<longleftrightarrow> (\<forall>i. \<not> online s i)"
    using wf by (auto simp: list_online online_def) (metis get_node_id)
  finally show ?thesis .
qed

lemma elect_leader_Some:
  assumes "state_wf s" and "fst (elect_leader s) = Some l"
  shows "online s l" "online s i \<Longrightarrow> l \<le> i" "state_leader (snd (elect_leader s)) = Some l"
proof -
  obtain n ns where n: "list_nodes (Some ONLINE) s = n # ns" "node_id n = l"
    using assms(2) by (auto simp: elect_leader_def split: list.splits)
  then have n': "n \<in> set (list_nodes (Some ONLINE) s)" by simp
  then show "online s l" using assms(1) n(2) by (auto simp: list_online online_def)
  show "state_leader (snd (elect_leader s)) = Some l"
    using n by (simp add: elect_leader_def state_leader_def)
  assume "online s i"
  then obtain m where "get_node i s = Some m" "n_status m = ONLINE" "node_id m = i"
    using get_node_id [OF assms(1)] by (auto simp: online_def)
  then have "m \<in> set (filter (\<lambda>n. n_status n = ONLINE) (load_all_nodes (cs_backend s)))"
    using assms(1) by (simp add: all_nodes_get)
  then have "node_id n \<le> node_id m"
    using sort_key_head(2) [of node_id _ n ns m] n(1) unfolding list_nodes_def Let_def option.case by blast
  then show "l \<le> i" using n(2) \<open>node_id m = i\<close> by simp
qed


lemma elect_leader_ext:
  assumes "state_wf s" and "state_wf s'" and "\<forall>i. get_node i s = get_node i s'"
  shows "fst (elect_leader s) = fst (elect_leader s')"
proof -
  have "list_nodes (Some ONLINE) s = list_nodes (Some ONLINE) s'"
    unfolding list_nodes_def Let_def option.case
    by (rule memory.sorted_nodes_ext) (use assms in \<open>simp_all add: state_wf_def get_node_def\<close>)
  then show ?thesis by (simp add: elect_leader_def split: list.splits)
qed

text \<open>
  Election is deterministic: the elected leader is the least id among the online nodes, it is
  stored, and there is none exactly when no node is online. Two states that store the same nodes
  therefore elect the same leader, whatever the order in which the nodes were stored.
\<close>

lemma elect_leader_least:
  assumes "state_wf s" and "state_wf s'" and "\<forall>i. get_node i s = get_node i s'"
  shows "(case fst (elect_leader s) of
      None \<Rightarrow> \<forall>i. \<not> online s i
    | Some l \<Rightarrow> online s l \<and> (\<forall>i. online s i \<longrightarrow> l \<le> i) \<and> state_leader (snd (elect_leader s)) = Some l)
    \<and> fst (elect_leader s) = fst (elect_leader s')"
proof -
  have "fst (elect_leader s) = fst (elect_leader s')" using assms by (rule elect_leader_ext)
  then show ?thesis
    using elect_leader_None [OF assms(1)] elect_leader_Some [OF assms(1)] by (auto split: option.splits)
qed

definition demo_node :: "string \<Rightarrow> int \<Rightarrow> cluster_node" where
  "demo_node i l = \<lparr>node_id = i, address = ''h'', port = 1, n_status = ONLINE, last_heartbeat = ''t'',
     load = l, n_version = 0, n_token = ''''\<rparr>"

definition demo_state :: cluster_state where
  "demo_state = add_node (demo_node ''n1'' 4) (add_node (demo_node ''n2'' 2) (new_cluster_state 0 ''k''))"

definition demo_state' :: cluster_state where
  "demo_state' = (let s = new_cluster_state 0 ''k'' in
     put_node ((demo_node ''n2'' 2)\<lparr>n_version := 1\<rparr>) (put_node ((demo_node ''n1'' 4)\<lparr>n_version := 2\<rparr>) s))"

lemma demo_wf [simp]: "state_wf demo_state" "state_wf demo_state'"
  by (simp_all add: demo_state_def demo_state'_def state_wf_add Let_def)

lemma demo_get: "get_node i demo_state =
    (if i = ''n1'' then Some ((demo_node ''n1'' 4)\<lparr>n_version := 2\<rparr>)
     else if i = ''n2'' then Some ((demo_node ''n2'' 2)\<lparr>n_version := 1\<rparr>) else None)"
  by (simp add: demo_state_def add_node_def split_beta demo_node_def)
     (simp add: new_cluster_state_def next_version_def get_node_def new_memory_backend_def load_node_def)

lemma elect_leader_least_witness: "fst (elect_leader demo_state) = fst (elect_leader demo_state')"
proof -
  have "get_node i demo_state' = get_node i demo_state" for i
    by (auto simp: demo_get demo_state'_def Let_def demo_node_def)
       (simp add: new_cluster_state_def get_node_def new_memory_backend_def load_node_def)
  then show ?thesis using elect_leader_least [of demo_state demo_state'] by simp
qed

text \<open>
  Scheduling. For an unassigned scan with some node online, \<open>assign_scan\<close> picks an online node
  that no online node undercuts in load (ties by id), marks the scan as running on it, raises its
  load by one, gives both records fresh versions, and leaves every other record as it was. An
  assigned scan stays where it is.
\<close>

lemma assign_scan_least_loaded:
  assumes "state_wf s" and "get_scan i s = Some r" and "assigned_node r = None" and "online s k"
  shows "\<exists>t. get_node (node_id t) s = Some t \<and> n_status t = ONLINE
    \<and> (\<forall>j m. get_node j s = Some m \<and> n_status m = ONLINE \<longrightarrow> (load t, node_id t) \<le> (load m, j))
    \<and> (let s' = snd (assign_scan i s) in
         fst (assign_scan i s) = get_node (node_id t) s'
       \<and> get_node (node_id t) s' = Some (t\<lparr>load := load t + 1, n_version := cs_version s + 2\<rparr>)
       \<and> get_scan i s' = Some (r\<lparr>assigned_node := Some (node_id t), s_status := ''running'', s_version := cs_version s + 1\<rparr>)
       \<and> (\<forall>j. j \<noteq> node_id t \<longrightarrow> get_node j s' = get_node j s)
       \<and> (\<forall>j. j \<noteq> i \<longrightarrow> get_scan j s' = get_scan j s)
       \<and> assign_scan i s' = (get_node (node_id t) s', s'))"
proof -
  let ?on = "filter (\<lambda>n. n_status n = ONLINE) (load_all_nodes (cs_backend s))"
  let ?key = "\<lambda>n. (load n, node_id n)"
  have mem: "m \<in> set ?on" if "get_node j s = Some m" "n_status m = ONLINE" for j m
    using that all_nodes_get [OF assms(1)] get_node_id [OF assms(1) that(1)] by auto
  obtain n where "get_node k s = Some n" "n_status n = ONLINE" using assms(4) by (auto simp: online_def)
  from mem [OF this] have "?on \<noteq> []" by force
  then obtain t ts where t: "sort_key ?key ?on = t # ts"
    by (metis sort_key_Nil neq_Nil_conv)
  have tin: "get_node (node_id t) s = Some t" "n_status t = ONLINE"
    using sort_key_head(1) [OF t] all_nodes_get [OF assms(1)] by auto
  have least: "(load t, node_id t) \<le> (load m, j)" if "get_node j s = Some m \<and> n_status m = ONLINE" for j m
    using sort_key_head(2) [OF t mem, of j m] that get_node_id [OF assms(1), of j m] by auto
  have id: "scan_id r = i" using assms(1,2) by (rule get_scan_id)
  show ?thesis
    using tin least assms(2,3) id t
    by (intro exI [of _ t]) (auto simp: assign_scan_def Let_def split_beta)
qed

definition demo_scan :: scan_request where
  "demo_scan = \<lparr>scan_id = ''s1'', s_command = [''ls''], s_priority = 0, assigned_node = None,
     s_created_at = '''', s_status = ''pending'', s_version = 0\<rparr>"

lemma demo_scanned:
  "state_wf (add_scan demo_scan demo_state)" "get_node i (add_scan demo_scan demo_state) = get_node i demo_state"
  "get_scan ''s1'' (add_scan demo_scan demo_state) = Some (demo_scan\<lparr>s_version := cs_version demo_state + 1\<rparr>)"
  by (simp_all add: state_wf_add) (simp_all add: add_scan_def split_beta demo_scan_def)

lemma demo_scan_unassigned: "assigned_node (demo_scan\<lparr>s_version := v\<rparr>) = None"
  by (simp add: demo_scan_def)

lemma assign_scan_least_loaded_witness:
  "fst (assign_scan ''s1'' (add_scan demo_scan demo_state)) =
     get_node ''n2'' (snd (assign_scan ''s1'' (add_scan demo_scan demo_state)))"
proof -
  have "online (add_scan demo_scan demo_state) ''n1''"
    by (simp add: online_def demo_scanned demo_get demo_node_def)
  then obtain t where t: "get_node (node_id t) demo_state = Some t"
      "\<forall>j m. get_node j demo_state = Some m \<and> n_status m = ONLINE \<longrightarrow> (load t, node_id t) \<le> (load m, j)"
      "fst (assign_scan ''s1'' (add_scan demo_scan demo_state)) =
         get_node (node_id t) (snd (assign_scan ''s1'' (add_scan demo_scan demo_state)))"
    using assign_scan_least_loaded [OF demo_scanned(1,3) demo_scan_unassigned, of "''n1''"]
    unfolding demo_scanned(2) Let_def by (elim meta_impE exE conjE) assumption+
  have "(load t, node_id t) \<le> (2, ''n2'')"
    using t(2) [rule_format, of "''n2''" "(demo_node ''n2'' 2)\<lparr>n_version := 1\<rparr>"] by (simp add: demo_get demo_node_def)
  then have "node_id t = ''n2''"
    using t(1) by (auto simp: demo_get demo_node_def split: if_splits dest!: arg_cong [where f = load])
  then show ?thesis using t(3) by simp
qed


section \<open>Interface: merging ranked records\<close>

text \<open>
  What the node table and the scan table share: records with an id and a rank (version, then a
  tie-breaker), a merge that keeps the record of higher rank. From these laws alone, merging a
  peer's complete table is the pointwise join, and one exchange in each direction makes two tables
  equal.
\<close>

locale ranked_table =
  fixes key :: "'r \<Rightarrow> string" and rank :: "'r \<Rightarrow> 'o :: linorder" and versioned :: "'r \<Rightarrow> bool"
    and get :: "'b \<Rightarrow> string \<Rightarrow> 'r option" and merge1 :: "'r \<Rightarrow> 'b \<Rightarrow> 'b"
  assumes get_merge1: "versioned r \<Longrightarrow> get (merge1 r b) i =
      (if i \<noteq> key r then get b i else case get b i of None \<Rightarrow> Some r | Some l \<Rightarrow> if rank l \<le> rank r then Some r else Some l)"
begin

definition join :: "'r option \<Rightarrow> 'r option \<Rightarrow> 'r option" where
  "join local remote = (case remote of None \<Rightarrow> local
     | Some r \<Rightarrow> (case local of None \<Rightarrow> Some r | Some l \<Rightarrow> if rank l \<le> rank r then Some r else Some l))"

lemma get_merge_all:
  assumes "\<forall>r \<in> set rs. versioned r" and "distinct (map key rs)"
  shows "get (foldl (\<lambda>b r. merge1 r b) b rs) i = join (get b i) (map_of (map (\<lambda>r. (key r, r)) rs) i)"
  using assms
proof (induction rs arbitrary: b)
  case Nil
  then show ?case by (simp add: join_def)
next
  case (Cons r rs)
  then have IH: "get (foldl (\<lambda>b r. merge1 r b) (merge1 r b) rs) i =
      join (get (merge1 r b) i) (map_of (map (\<lambda>r. (key r, r)) rs) i)" by simp
  show ?case
  proof (cases "i = key r")
    case True
    with Cons.prems have "map_of (map (\<lambda>r. (key r, r)) rs) i = None"
      by (auto simp: map_of_eq_None_iff)
    with True IH Cons.prems show ?thesis by (simp add: get_merge1 join_def split: option.splits)
  next
    case False
    with IH Cons.prems show ?thesis by (simp add: get_merge1)
  qed
qed

lemma complete_map_of:
  assumes "distinct (map key rs)" and "\<And>r. r \<in> set rs \<longleftrightarrow> get b (key r) = Some r"
    and "\<And>i r. get b i = Some r \<Longrightarrow> key r = i"
  shows "map_of (map (\<lambda>r. (key r, r)) rs) i = get b i"
proof (cases "get b i")
  case None
  have "i \<noteq> key r" if "r \<in> set rs" for r
  proof
    assume "i = key r"
    with that assms(2) [of r] None show False by simp
  qed
  then have "i \<notin> fst ` set (map (\<lambda>r. (key r, r)) rs)" unfolding set_map image_image fst_conv by blast
  then show ?thesis using None map_of_eq_None_iff [of "map (\<lambda>r. (key r, r)) rs" i] by metis
next
  case (Some r)
  have k: "key r = i" using Some by (rule assms(3))
  with Some assms(2) [of r] have "r \<in> set rs" by simp
  with k have "(i, r) \<in> set (map (\<lambda>r. (key r, r)) rs)" by auto
  moreover have "distinct (map fst (map (\<lambda>r. (key r, r)) rs))" using assms(1) by (simp add: comp_def)
  ultimately show ?thesis using Some by (simp add: map_of_is_SomeI)
qed

lemma join_exchange:
  assumes "\<And>x y. a = Some x \<Longrightarrow> b = Some y \<Longrightarrow> rank x = rank y \<Longrightarrow> x = y"
  shows "join b (join a b) = join a b"
  using assms by (auto simp: join_def split: option.splits)

lemma join_upper: "join a b = Some z \<Longrightarrow> (\<forall>x. a = Some x \<longrightarrow> rank x \<le> rank z) \<and> (\<forall>y. b = Some y \<longrightarrow> rank y \<le> rank z)"
  by (auto simp: join_def split: option.splits if_splits)

lemma join_versioned: "(\<And>x. a = Some x \<Longrightarrow> P x) \<Longrightarrow> (\<And>x. b = Some x \<Longrightarrow> P x) \<Longrightarrow> join a b = Some z \<Longrightarrow> P z"
  by (auto simp: join_def split: option.splits if_splits)

end

definition node_rank :: "cluster_node \<Rightarrow> int \<times> string" where
  "node_rank n = (n_version n, last_heartbeat n)"

definition scan_rank :: "scan_request \<Rightarrow> int \<times> nat" where
  "scan_rank r = (s_version r, status_order (s_status r))"

lemma node_is_newer_rank: "n_version r \<noteq> 0 \<Longrightarrow> node_is_newer r l \<longleftrightarrow> node_rank l \<le> node_rank r"
  by (auto simp: node_is_newer_def node_rank_def)

lemma scan_is_newer_rank: "s_version r \<noteq> 0 \<Longrightarrow> scan_is_newer r l \<longleftrightarrow> scan_rank l \<le> scan_rank r"
  by (auto simp: scan_is_newer_def scan_rank_def)

interpretation nodes: ranked_table node_id node_rank "\<lambda>n. n_version n \<noteq> 0" load_node merge_node
  by unfold_locales (auto simp: merge_node_def node_is_newer_rank split: option.splits)

interpretation scans: ranked_table scan_id scan_rank "\<lambda>r. s_version r \<noteq> 0" load_scan merge_scan
  by unfold_locales (auto simp: merge_scan_def scan_is_newer_rank split: option.splits)

lemma merge_nodes_snapshot:
  "merge_nodes (map node_to_dict ns) b = (Inr (), foldl (\<lambda>b r. merge_node r b) b ns)"
  by (induction ns arbitrary: b) (simp_all add: node_dict_roundtrip)

lemma merge_scans_snapshot:
  "merge_scans (map scan_to_dict rs) b = (Inr (), foldl (\<lambda>b r. merge_scan r b) b rs)"
  by (induction rs arbitrary: b) (simp_all add: scan_dict_roundtrip)

lemma fold_merge_other [simp]:
  "load_scan (foldl (\<lambda>b r. merge_node r b) b ns) i = load_scan b i"
  "load_node (foldl (\<lambda>b r. merge_scan r b) b rs) i = load_node b i"
proof -
  show "load_scan (foldl (\<lambda>b r. merge_node r b) b ns) i = load_scan b i"
    by (induction ns arbitrary: b) (simp_all add: merge_node_def split: option.splits)
  show "load_node (foldl (\<lambda>b r. merge_scan r b) b rs) i = load_node b i"
    by (induction rs arbitrary: b) (simp_all add: merge_scan_def split: option.splits)
qed

lemma merge_records_snapshot:
  "merge_records (get_state_snapshot cr st p) b =
     (Inr (), foldl (\<lambda>b r. merge_scan r b) (foldl (\<lambda>b r. merge_node r b) b (load_all_nodes (cs_backend p)))
        (load_all_scans (cs_backend p)))"
  by (simp add: merge_records_def get_state_snapshot_def get_or_def merge_nodes_snapshot merge_scans_snapshot)

text \<open>No record of the state is unversioned, as a peer that predates versions would send.\<close>

definition all_versioned :: "cluster_state \<Rightarrow> bool" where
  "all_versioned s \<longleftrightarrow> (\<forall>i n. get_node i s = Some n \<longrightarrow> n_version n \<noteq> 0) \<and>
     (\<forall>i r. get_scan i s = Some r \<longrightarrow> s_version r \<noteq> 0)"

lemma node_table: "state_wf p \<Longrightarrow> map_of (map (\<lambda>r. (node_id r, r)) (load_all_nodes (cs_backend p))) i = get_node i p"
  unfolding get_node_def
  by (rule nodes.complete_map_of)
     (auto simp: state_wf_def memory.distinct_nodes memory.all_nodes intro: memory.stored_id)

lemma scan_table: "state_wf p \<Longrightarrow> map_of (map (\<lambda>r. (scan_id r, r)) (load_all_scans (cs_backend p))) i = get_scan i p"
  unfolding get_scan_def
  by (rule scans.complete_map_of)
     (auto simp: state_wf_def memory.distinct_scans memory.all_scans intro: memory.stored_scan_id)

text \<open>Merging a peer's snapshot is the join of the two states' tables.\<close>

lemma merge_state_join:
  assumes "state_wf p" and "all_versioned p" and "merge_state cr now (get_state_snapshot cr st p) s = (Inr (), s')"
  shows "get_node i s' = nodes.join (get_node i s) (get_node i p)"
    and "get_scan i s' = scans.join (get_scan i s) (get_scan i p)"
proof -
  let ?b1 = "foldl (\<lambda>b r. merge_node r b) (cs_backend s) (load_all_nodes (cs_backend p))"
  let ?b2 = "foldl (\<lambda>b r. merge_scan r b) ?b1 (load_all_scans (cs_backend p))"
  have v: "\<forall>n \<in> set (load_all_nodes (cs_backend p)). n_version n \<noteq> 0"
    "\<forall>r \<in> set (load_all_scans (cs_backend p)). s_version r \<noteq> 0"
    using assms(2) unfolding all_versioned_def Ball_def all_nodes_get [OF assms(1)] all_scans_get [OF assms(1)] by blast+
  have d: "distinct (map node_id (load_all_nodes (cs_backend p)))" "distinct (map scan_id (load_all_scans (cs_backend p)))"
    using assms(1) by (simp_all add: state_wf_def memory.distinct_nodes memory.distinct_scans)
  have "load_node ?b2 i = nodes.join (get_node i s) (get_node i p)"
    unfolding fold_merge_other nodes.get_merge_all [OF v(1) d(1)] node_table [OF assms(1)] get_node_def [symmetric] ..
  moreover have "load_scan ?b2 i = scans.join (get_scan i s) (get_scan i p)"
    unfolding scans.get_merge_all [OF v(2) d(2)] fold_merge_other scan_table [OF assms(1)] get_scan_def [symmetric] ..
  moreover obtain ts where s': "s' = snd (elect_leader (s\<lparr>cs_tokens := ts, cs_backend := ?b2\<rparr>))"
    using assms(3) unfolding merge_state_def merge_records_snapshot
    by (cases "check_trust cr now (get_state_snapshot cr st p) (cs_tokens s)") (fastforce split: sum.splits)
  moreover have "get_node i s' = load_node ?b2 i" "get_scan i s' = load_scan ?b2 i"
    unfolding s' elect_leader_tables by (simp_all add: get_node_def get_scan_def)
  ultimately show "get_node i s' = nodes.join (get_node i s) (get_node i p)"
    "get_scan i s' = scans.join (get_scan i s) (get_scan i p)"
    by (simp_all only:)
qed


text \<open>After an accepted merge the stored leader is the one an election returns.\<close>

lemma elect_leader_again: "fst (elect_leader (snd (elect_leader s))) = fst (elect_leader s)"
  by (simp add: elect_leader_def list_nodes_def Let_def split: list.splits)

lemma merge_state_leader:
  assumes "state_wf s" and "merge_state cr now snap s = (Inr (), s')" and "online s' i"
  shows "state_leader s' = fst (elect_leader s')"
proof -
  obtain s1 where s': "s' = snd (elect_leader s1)"
    using assms(2) by (fastforce simp: merge_state_def split: prod.splits sum.splits)
  have "state_wf s'" using state_wf_merge [OF assms(1)] assms(2) by (metis snd_conv)
  then have "fst (elect_leader s1) \<noteq> None"
    using elect_leader_None [of s1] assms(3) by (auto simp: s' online_def)
  then show ?thesis
    unfolding s' elect_leader_again by (auto simp: elect_leader_def state_leader_def split: list.splits)
qed

text \<open>
  C7. One gossip exchange makes two nodes agree. Let \<open>a\<close> merge \<open>b\<close>'s snapshot, then \<open>b\<close> merge
  \<open>a\<close>'s new snapshot, both accepted. If all records are versioned and no two different records for
  the same id have the same rank, both store the same node and scan for every id, each at least as
  new as what either stored before, and with any node online they have the same leader.
\<close>

theorem gossip_exchange_converges:
  assumes wf: "state_wf a" "state_wf b" and ver: "all_versioned a" "all_versioned b"
    and nconf: "\<And>i x y. get_node i a = Some x \<Longrightarrow> get_node i b = Some y \<Longrightarrow> node_rank x = node_rank y \<Longrightarrow> x = y"
    and sconf: "\<And>i x y. get_scan i a = Some x \<Longrightarrow> get_scan i b = Some y \<Longrightarrow> scan_rank x = scan_rank y \<Longrightarrow> x = y"
    and m1: "merge_state cr t1 (get_state_snapshot cr st1 b) a = (Inr (), a')"
    and m2: "merge_state cr t2 (get_state_snapshot cr st2 a') b = (Inr (), b')"
  shows "(\<forall>i. get_node i b' = get_node i a' \<and> get_scan i b' = get_scan i a')
    \<and> (\<forall>i z. get_node i a' = Some z \<longrightarrow>
        (\<forall>x. get_node i a = Some x \<or> get_node i b = Some x \<longrightarrow> node_rank x \<le> node_rank z))
    \<and> ((\<exists>i. online a' i) \<longrightarrow> state_leader a' = state_leader b' \<and> state_leader a' \<noteq> None)"
proof -
  note A = merge_state_join [OF wf(2) ver(2) m1]
  have wfa: "state_wf a'" and wfb: "state_wf b'"
    using state_wf_merge [OF wf(1)] state_wf_merge [OF wf(2)] m1 m2 by (metis snd_conv)+
  have "n_version z \<noteq> 0" if "get_node i a' = Some z" for i z
    by (rule nodes.join_versioned [OF _ _ that [unfolded A]]) (use ver in \<open>simp_all add: all_versioned_def\<close>)
  moreover have "s_version z \<noteq> 0" if "get_scan i a' = Some z" for i z
    by (rule scans.join_versioned [OF _ _ that [unfolded A]]) (use ver in \<open>simp_all add: all_versioned_def\<close>)
  ultimately have vera: "all_versioned a'" by (simp add: all_versioned_def)
  note B = merge_state_join [OF wfa vera m2]
  have eq: "get_node i b' = get_node i a'" "get_scan i b' = get_scan i a'" for i
    unfolding B A by (rule nodes.join_exchange, erule (2) nconf) (rule scans.join_exchange, erule (2) sconf)
  have up: "node_rank x \<le> node_rank z" if "get_node i a' = Some z" "get_node i a = Some x \<or> get_node i b = Some x" for i x z
    using nodes.join_upper [OF that(1) [unfolded A]] that(2) by blast
  have lead: "state_leader a' = state_leader b' \<and> state_leader a' \<noteq> None" if on: "online a' i" for i
  proof -
    have "state_leader a' = fst (elect_leader a')" by (rule merge_state_leader [OF wf(1) m1 on])
    moreover have "online b' i" using on by (simp add: online_def eq)
    then have "state_leader b' = fst (elect_leader b')" by (rule merge_state_leader [OF wf(2) m2])
    moreover have "fst (elect_leader a') = fst (elect_leader b')"
      by (rule elect_leader_ext [OF wfa wfb]) (simp add: eq)
    moreover have "fst (elect_leader a') \<noteq> None" using elect_leader_None [OF wfa] on by auto
    ultimately show ?thesis by simp
  qed
  show ?thesis by (intro conjI allI impI eq) (use up lead in blast)+
qed


text \<open>A peer's gossip snapshot takes the digest branch, and its entries are the accepted digests.\<close>

lemma entry_digests: "mapE entry_digest (map (info_to_gossip cr) is) = Inr (map (\<lambda>i. Some (token_digest cr (token i))) is)"
  by (induction "is") (simp_all add: entry_digest_def info_to_gossip_def)

lemma check_trust_snapshot:
  assumes "accepted (cs_tokens p) \<noteq> []"
  shows "check_trust cr now (get_state_snapshot cr st p) ts =
    trust_gossip cr now (to_gossip_snapshot cr (cs_tokens p)) (map (info_to_gossip cr) (dvals (accepted (cs_tokens p)))) ts"
proof -
  obtain x xs where x: "accepted (cs_tokens p) = x # xs" using assms by (cases "accepted (cs_tokens p)") auto
  have "get_json ''token_store'' (get_state_snapshot cr st p) = JObj (to_gossip_snapshot cr (cs_tokens p))"
    by (simp add: get_json_def get_state_snapshot_def)
  moreover have "to_gossip_snapshot cr (cs_tokens p) \<noteq> []" by (simp add: to_gossip_snapshot_def)
  moreover have "get_or as_list ''accepted'' [] (to_gossip_snapshot cr (cs_tokens p)) =
      Inr (map (info_to_gossip cr) (dvals (accepted (cs_tokens p))))"
    by (simp add: to_gossip_snapshot_def get_or_def)
  ultimately show ?thesis
    by (simp add: check_trust_def trust_present_def x has_digest_def info_to_gossip_def [of cr "snd x"])
qed

lemma some_image_inter: "(\<exists>t \<in> T. Some (f t) \<in> (\<lambda>u. Some (f u)) ` U) \<longleftrightarrow> f ` T \<inter> f ` U \<noteq> {}"
  by (auto simp: image_iff)

lemma check_trust_plain:
  assumes "accepted (cs_tokens p) \<noteq> []" and "store_ok (cs_tokens p)" and "current_announcement (cs_tokens p) = None"
  shows "check_trust cr now (get_state_snapshot cr st p) ts =
    (if primary_token ts \<noteq> '''' \<and> token_digest cr ` set (dkeys (accepted ts)) \<inter>
        token_digest cr ` set (dkeys (accepted (cs_tokens p))) = {} then Inl mismatch else Inr (), ts)"
proof -
  have "dget (to_gossip_snapshot cr (cs_tokens p)) ''announcement'' = Some JNull"
    using assms(3) by (simp add: to_gossip_snapshot_def opt_json_def)
  then have f: "follow_announcement cr now (dget (to_gossip_snapshot cr (cs_tokens p)) ''announcement'') ts = Inr ts"
    by (simp add: follow_announcement_def)
  have tk: "token ` set (dvals (accepted (cs_tokens p))) = set (dkeys (accepted (cs_tokens p)))"
    using assms(2) by (force simp: store_ok_def keyed_def)
  have "shares_digest cr (map (\<lambda>i. Some (token_digest cr (token i))) (dvals (accepted (cs_tokens p)))) ts \<longleftrightarrow>
      token_digest cr ` set (dkeys (accepted ts)) \<inter> token_digest cr ` set (dkeys (accepted (cs_tokens p))) \<noteq> {}"
    unfolding shares_digest_def list_ex_iff list.set_map tk [unfolded list.set_map, symmetric] image_image [of "\<lambda>i. Some (token_digest cr i)" token, symmetric]
    by (rule some_image_inter)
  then show ?thesis
    unfolding check_trust_snapshot [OF assms(1)] trust_gossip_def f entry_digests by simp
qed

text \<open>
  Trust gate. A node with a primary token merges the snapshot of a peer (one without a pending
  announcement) exactly when some token it accepts has the same digest as some token the peer
  accepts; otherwise the merge raises "cluster token mismatch" and neither the tables, the leader
  nor the tokens change.
\<close>

lemma merge_requires_shared_token:
  assumes "cluster_token s \<noteq> ''''" and "accepted (cs_tokens p) \<noteq> []" and "store_ok (cs_tokens p)"
    and "current_announcement (cs_tokens p) = None"
  shows "(fst (merge_state cr now (get_state_snapshot cr st p) s) = Inr () \<longleftrightarrow>
       accepted_digests cr (cs_tokens s) \<inter> accepted_digests cr (cs_tokens p) \<noteq> {})
    \<and> (accepted_digests cr (cs_tokens s) \<inter> accepted_digests cr (cs_tokens p) = {} \<longrightarrow>
       merge_state cr now (get_state_snapshot cr st p) s = (Inl mismatch, s))"
  using assms
  by (simp add: merge_state_def check_trust_plain merge_records_snapshot accepted_digests_def cluster_token_def)


lemma merge_accepts:
  assumes "t \<in> set (dkeys (accepted (cs_tokens s)))" "t \<in> set (dkeys (accepted (cs_tokens p)))"
    and "store_ok (cs_tokens p)" and "current_announcement (cs_tokens p) = None"
  shows "\<exists>s'. merge_state cr now (get_state_snapshot cr st p) s = (Inr (), s') \<and> cs_tokens s' = cs_tokens s"
proof -
  have "accepted (cs_tokens p) \<noteq> []" using assms(2) by auto
  moreover have "token_digest cr ` set (dkeys (accepted (cs_tokens s))) \<inter>
      token_digest cr ` set (dkeys (accepted (cs_tokens p))) \<noteq> {}"
    using assms(1,2) by blast
  ultimately show ?thesis
    using assms(3,4) by (simp add: merge_state_def check_trust_plain merge_records_snapshot)
qed

definition demo_peer :: cluster_state where
  "demo_peer = add_node (demo_node ''n3'' 0) (new_cluster_state 0 ''k'')"

lemma demo_peer_get: "state_wf demo_peer" "get_node i demo_peer = (if i = ''n3'' then Some ((demo_node ''n3'' 0)\<lparr>n_version := 1\<rparr>) else None)"
  "get_scan i demo_peer = None" "get_scan i demo_state = None"
  by (simp_all add: demo_peer_def demo_state_def state_wf_add)
     (simp_all add: add_node_def split_beta demo_node_def,
      simp_all add: new_cluster_state_def next_version_def get_node_def get_scan_def new_memory_backend_def load_node_def load_scan_def)

lemma demo_tokens: "cs_tokens demo_state = new_token_store 0 ''k''" "cs_tokens demo_peer = new_token_store 0 ''k''"
  by (simp_all add: demo_peer_def demo_state_def add_node_def split_beta demo_node_def new_cluster_state_def)

lemma new_token_store_facts: "dkeys (accepted (new_token_store t k)) = (if k = '''' then [] else [k])"
  "current_announcement (new_token_store t k) = None" "primary_token (new_token_store t k) = k"
  by (simp_all add: token_eval current_announcement_def primary_token_def Let_def)

lemma merge_requires_shared_token_witness:
  "fst (merge_state toy_crypto 1 (get_state_snapshot toy_crypto ''t'' demo_peer) demo_state) = Inr ()"
proof -
  have "accepted (new_token_store 0 ''k'') \<noteq> []" using new_token_store_facts(1) [of 0 "''k''"] by auto
  moreover have "accepted_digests toy_crypto (new_token_store 0 ''k'') \<noteq> {}"
    using new_token_store_facts(1) [of 0 "''k''"] by (auto simp: accepted_digests_def)
  ultimately show ?thesis
    using merge_requires_shared_token [of demo_state demo_peer toy_crypto 1 "''t''"]
    by (simp add: demo_tokens cluster_token_def new_token_store_facts)
qed

lemma forall_fst: "\<forall>i. P i \<and> Q i \<Longrightarrow> \<forall>i. P i" by simp

lemma demo_disjoint:
  "get_node i demo_state = Some x \<Longrightarrow> get_node i demo_peer = Some y \<Longrightarrow> P"
  "get_scan i demo_state = Some u \<Longrightarrow> get_scan i demo_peer = Some v \<Longrightarrow> P"
  by (auto simp: demo_get demo_peer_get split: if_splits)

theorem gossip_exchange_converges_witness:
  "\<exists>a' b'. merge_state toy_crypto 1 (get_state_snapshot toy_crypto ''t'' demo_peer) demo_state = (Inr (), a')
    \<and> merge_state toy_crypto 2 (get_state_snapshot toy_crypto ''t'' a') demo_peer = (Inr (), b')
    \<and> (\<forall>i. get_node i b' = get_node i a')"
proof -
  have k: "''k'' \<in> set (dkeys (accepted (new_token_store 0 ''k'')))" by (simp add: new_token_store_facts del: set_map)
  obtain a' where a: "merge_state toy_crypto 1 (get_state_snapshot toy_crypto ''t'' demo_peer) demo_state = (Inr (), a')"
      "cs_tokens a' = new_token_store 0 ''k''"
    using merge_accepts [of "''k''" demo_state demo_peer toy_crypto 1 "''t''"] k by (auto simp: demo_tokens new_token_store_facts simp del: set_map)
  obtain b' where b: "merge_state toy_crypto 2 (get_state_snapshot toy_crypto ''t'' a') demo_peer = (Inr (), b')"
    using merge_accepts [of "''k''" demo_peer a' toy_crypto 2 "''t''"] k by (auto simp: demo_tokens a(2) new_token_store_facts simp del: set_map)
  have "all_versioned demo_state" "all_versioned demo_peer"
    by (auto simp: all_versioned_def demo_get demo_peer_get)
  then have "\<forall>i. get_node i b' = get_node i a'"
    by (intro gossip_exchange_converges [OF demo_wf(1) demo_peer_get(1) _ _ _ _ a(1) b, THEN conjunct1, THEN forall_fst])
       (assumption | erule (1) demo_disjoint)+
  then show ?thesis using a(1) b by blast
qed

lemma shares_digest_mem:
  assumes "store_ok ts" and "t \<in> set (dkeys (accepted ts))" and "dget (accepted ts') t \<noteq> None"
  shows "shares_digest cr (map (\<lambda>i. Some (token_digest cr (token i))) (dvals (accepted ts))) ts'"
proof -
  obtain i where "(t, i) \<in> set (accepted ts)" using assms(2) by auto
  moreover from this have "token i = t" using assms(1) by (auto simp: store_ok_def keyed_def)
  moreover have "t \<in> set (dkeys (accepted ts'))" using assms(3) by (auto simp: dget_None_iff)
  ultimately show ?thesis unfolding shares_digest_def list_ex_iff by force
qed

text \<open>
  C8. A rotated token survives a partition. Node \<open>a\<close> rotates its primary and later retires its old
  tokens with any cutoff; node \<open>b\<close>, which missed the rotation but accepts the old primary, still
  merges \<open>a\<close>'s snapshot and accepts \<open>a\<close>'s new primary afterwards.
\<close>

theorem rotation_reaches_peer:
  assumes A: "store_ok (cs_tokens a)" "cluster_token a = old" "old \<noteq> ''''"
    and B: "store_ok (cs_tokens b)" "is_accepted old (cs_tokens b)"
    and H: "hmac_ok cr ta (cs_tokens b)" "derive_rotation_token cr old ta \<noteq> ''''"
    and a': "a' = a\<lparr>cs_tokens := retire_older_than cutoff (snd (ts_rotate cr g ta fresh None who (cs_tokens a)))\<rparr>"
  shows "\<exists>b'. merge_state cr tb (get_state_snapshot cr st a') b = (Inr (), b') \<and> is_accepted (cluster_token a') (cs_tokens b')"
proof -
  let ?new = "derive_rotation_token cr old ta"
  let ?rot = "snd (ts_rotate cr g ta fresh None who (cs_tokens a))"
  let ?ann = "[(''announced_by'', JStr who), (''hmac'', JStr (keyed_digest cr ta old)),
       (''announced_at'', JFloat ta), (''grace_expires'', JFloat (ta + g))]"
  have rot: "announcement ?rot = Some ?ann" "primary_token ?rot = ?new" "dget (accepted ?rot) ?new \<noteq> None"
    using rotate_derived [OF A(2) [unfolded cluster_token_def] A(3)]
    by (simp_all add: accepted_announcement set_primary_dget)
  have ok: "store_ok ?rot" using A(1) by (rule rotate_ok)
  have new: "cluster_token a' = ?new" "?new \<in> set (dkeys (accepted (cs_tokens a')))"
    using rot(2,3) retire_dget [OF ok, of cutoff ?new] dget_None_iff [of "accepted (cs_tokens a')" ?new]
    by (auto simp: a' cluster_token_def retire_older_than_def Let_def primary_token_def split: option.splits)
  obtain ok' b1 where b1: "follow_anchor tb ta ?ann old ?new (cs_tokens b) = (ok', b1)" by force
  have "apply_announcement cr tb ?ann (cs_tokens b) = Inr (ok', b1)"
    using B(2) apply_announcement_of_key [OF H(1), of old ?ann tb] b1 by (simp add: is_accepted_iff num_of_def str_of_def)
  moreover have "dget (to_gossip_snapshot cr (cs_tokens a')) ''announcement'' = Some (JObj ?ann)"
    using rot(1) by (simp add: a' to_gossip_snapshot_def current_announcement_def retire_older_than_def Let_def opt_json_def)
  ultimately have f: "follow_announcement cr tb (dget (to_gossip_snapshot cr (cs_tokens a')) ''announcement'') (cs_tokens b) = Inr b1"
    by (simp add: follow_announcement_def)
  have acc: "dget (accepted b1) ?new \<noteq> None"
    using follow_anchor_accepts [OF B(1) H(2), of tb ta ?ann old] b1 by simp
  have "shares_digest cr (map (\<lambda>i. Some (token_digest cr (token i))) (dvals (accepted (cs_tokens a')))) b1"
    using acc new(2) retire_ok [OF ok, of cutoff] shares_digest_mem by (auto simp: a')
  moreover have ne: "accepted (cs_tokens a') \<noteq> []" using new(2) by auto
  ultimately have "check_trust cr tb (get_state_snapshot cr st a') (cs_tokens b) = (Inr (), b1)"
    unfolding check_trust_snapshot [OF ne] trust_gossip_def f entry_digests by simp
  then show ?thesis
    using acc H(2) by (simp add: merge_state_def merge_records_snapshot new(1) is_accepted_iff)
qed


theorem rotation_reaches_peer_witness:
  "\<exists>b'. merge_state toy_crypto 20 (get_state_snapshot toy_crypto ''t''
      (demo_state\<lparr>cs_tokens := retire_older_than 100 (snd (ts_rotate toy_crypto 3600 10 ''x'' None ''n1'' (cs_tokens demo_state)))\<rparr>))
      demo_peer = (Inr (), b')"
proof -
  have "hmac_ok toy_crypto 10 (cs_tokens demo_peer)"
    by (simp add: hmac_ok_def demo_tokens new_token_store_facts) (simp add: token_eval ascii_def)
  moreover have "is_accepted ''k'' (cs_tokens demo_peer)"
    using new_token_store_facts(1) [of 0 "''k''"] by (auto simp: is_accepted_def demo_tokens)
  ultimately show ?thesis
    using rotation_reaches_peer [where a = demo_state and b = demo_peer and cr = toy_crypto and old = "''k''" and ta = 10
        and cutoff = 100 and g = 3600 and fresh = "''x''" and who = "''n1''" and tb = 20 and st = "''t''"]
    by (auto simp: demo_tokens cluster_token_def new_token_store_facts derive_rotation_token_def toy_crypto_def)
qed

lemma update_node_get: "get_node i (update_node n s) = (if i = node_id n then Some (n\<lparr>n_version := cs_version s + 1\<rparr>) else get_node i s)"
  "get_scan i (update_node n s) = get_scan i s"
  by (simp_all add: update_node_def split_beta)

text \<open>
  The version counter does not follow merges. When a peer \<open>p\<close> stores a record of node \<open>i\<close> newer
  than \<open>i\<close>'s own counter (for instance after \<open>i\<close> restarted with counter 0), an update \<open>i\<close> makes to
  its own record, a heartbeat, is ignored by \<open>p\<close> on merge, and \<open>p\<close>'s stale record replaces the update on
  \<open>i\<close> when \<open>i\<close> merges \<open>p\<close>'s snapshot.
\<close>

lemma update_behind_peer_is_lost:
  assumes "state_wf s" "state_wf p" "all_versioned s" "all_versioned p" and "0 \<le> cs_version s"
    and "get_node i s = Some n" "get_node i p = Some r" "cs_version s + 1 < n_version r"
    and "s' = update_node (n\<lparr>last_heartbeat := hb\<rparr>) s"
    and "merge_state cr t1 (get_state_snapshot cr st1 s') p = (Inr (), p')"
    and "merge_state cr t2 (get_state_snapshot cr st2 p) s' = (Inr (), s'')"
  shows "get_node i s' = Some (n\<lparr>last_heartbeat := hb, n_version := cs_version s + 1\<rparr>)
    \<and> get_node i p' = Some r \<and> get_node i s'' = Some r"
proof -
  let ?n = "n\<lparr>last_heartbeat := hb, n_version := cs_version s + 1\<rparr>"
  have id: "node_id n = i" using assms(1,6) by (rule get_node_id)
  have own: "get_node i s' = Some ?n" using id by (simp add: assms(9) update_node_get)
  have "state_wf s'" "all_versioned s'"
    using assms(1,3,5) by (auto simp: assms(9) all_versioned_def update_node_get)
  then have "get_node i p' = nodes.join (Some r) (Some ?n)"
    using merge_state_join(1) [OF _ _ assms(10), of i] own assms(7) by simp
  moreover have "get_node i s'' = nodes.join (Some ?n) (Some r)"
    using merge_state_join(1) [OF assms(2,4,11), of i] own assms(7) by simp
  moreover have "\<not> node_rank r \<le> node_rank ?n" "node_rank ?n \<le> node_rank r"
    using assms(8) by (auto simp: node_rank_def)
  ultimately show ?thesis using own by (simp add: nodes.join_def)
qed

lemma update_behind_peer_is_lost_witness:
  "\<exists>p'. merge_state toy_crypto 1 (get_state_snapshot toy_crypto ''t''
       (update_node ((demo_node ''n3'' 0)\<lparr>n_version := 1, last_heartbeat := ''u''\<rparr>) demo_peer))
       (put_node ((demo_node ''n3'' 0)\<lparr>n_version := 50\<rparr>) demo_state) = (Inr (), p')
    \<and> get_node ''n3'' p' = Some ((demo_node ''n3'' 0)\<lparr>n_version := 50\<rparr>)"
proof -
  let ?p = "put_node ((demo_node ''n3'' 0)\<lparr>n_version := 50\<rparr>) demo_state"
  let ?s' = "update_node ((demo_node ''n3'' 0)\<lparr>n_version := 1, last_heartbeat := ''u''\<rparr>) demo_peer"
  have k: "''k'' \<in> set (dkeys (accepted (new_token_store 0 ''k'')))" by (simp add: new_token_store_facts del: set_map)
  have tok: "cs_tokens ?s' = new_token_store 0 ''k''" "cs_tokens ?p = new_token_store 0 ''k''"
    by (simp_all add: update_node_def split_beta demo_tokens)
  obtain p' where p': "merge_state toy_crypto 1 (get_state_snapshot toy_crypto ''t'' ?s') ?p = (Inr (), p')"
    using merge_accepts [of "''k''" ?p ?s' toy_crypto 1 "''t''"] k by (auto simp: tok demo_tokens new_token_store_facts simp del: set_map)
  obtain s'' where s'': "merge_state toy_crypto 2 (get_state_snapshot toy_crypto ''t'' ?p) ?s' = (Inr (), s'')"
    using merge_accepts [of "''k''" ?s' ?p toy_crypto 2 "''t''"] k by (auto simp: tok demo_tokens new_token_store_facts simp del: set_map)
  have c: "cs_version demo_peer = 1"
    by (simp add: demo_peer_def add_node_def split_beta demo_node_def) (simp add: new_cluster_state_def)
  have "all_versioned demo_peer" "all_versioned ?p" "get_node ''n3'' ?p = Some ((demo_node ''n3'' 0)\<lparr>n_version := 50\<rparr>)"
    by (auto simp: all_versioned_def demo_get demo_peer_get) (simp_all add: demo_node_def)
  then have "get_node ''n3'' p' = Some ((demo_node ''n3'' 0)\<lparr>n_version := 50\<rparr>)"
    using update_behind_peer_is_lost [where s = demo_peer and p = ?p and i = "''n3''" and hb = "''u''",
        OF demo_peer_get(1) _ _ _ _ _ _ _ refl p' s'']
    by (simp add: demo_peer_get c)
  then show ?thesis using p' by blast
qed

end
