(* ===== verification/Cluster_Manager.thy ===== *)
theory Cluster_Manager
  imports Cluster_State Py_Strings
begin

text \<open>
  The cluster orchestrator (\<open>src/picosentry/sandbox/cluster/orchestrator.py\<close>): start and stop of a
  node, distribution of scans, heartbeats, health checks and failover, token rotation and
  retirement, and the gossip round. Each background thread is modelled by one pass of its loop. The
  HTTP fetch and the ISO timestamp parser are parameters; audit records are not modelled.
\<close>

section \<open>Model\<close>

record cluster_manager =
  m_address :: string
  m_port :: int
  m_node_id :: string
  m_state :: cluster_state
  m_heartbeat_interval :: int
  m_heartbeat_timeout :: int
  m_max_missed :: int
  m_tls_cert :: string
  m_tls_key :: string
  m_tls_ca :: string
  m_running :: bool

text \<open>\<open>gen\<close> is the id \<open>ClusterNode.generate_id\<close> returns, used when no id (or an empty one) is given.\<close>

definition new_cluster_manager :: "pyfloat \<Rightarrow> string \<Rightarrow> string \<Rightarrow> int \<Rightarrow> string \<Rightarrow> string \<Rightarrow> cluster_manager" where
  "new_cluster_manager now gen addr prt nid tok =
     \<lparr>m_address = addr, m_port = prt, m_node_id = (if nid = '''' then gen else nid),
      m_state = new_cluster_state now tok, m_heartbeat_interval = DEFAULT_HEARTBEAT_INTERVAL,
      m_heartbeat_timeout = DEFAULT_HEARTBEAT_TIMEOUT, m_max_missed = DEFAULT_MAX_MISSED_HEARTBEATS,
      m_tls_cert = '''', m_tls_key = '''', m_tls_ca = '''', m_running = False\<rparr>"

definition start :: "string \<Rightarrow> cluster_manager \<Rightarrow> cluster_manager" where
  "start stamp m =
     (if m_running m then m
      else
        let self = \<lparr>node_id = m_node_id m, address = m_address m, port = m_port m, n_status = ONLINE,
                    last_heartbeat = stamp, load = 0, n_version = 0, n_token = ''''\<rparr>;
            s = add_node self (m_state m);
            s = (if length (list_nodes (Some ONLINE) s) = 1 then snd (elect_leader s) else s)
        in m\<lparr>m_running := True, m_state := s\<rparr>)"

definition stop :: "cluster_manager \<Rightarrow> cluster_manager" where
  "stop m =
     (if \<not> m_running m then m
      else
        let s = m_state m;
            s = (case get_node (m_node_id m) s of
                   None \<Rightarrow> s
                 | Some n \<Rightarrow> update_node (n\<lparr>n_status := OFFLINE\<rparr>) (update_node (n\<lparr>n_status := DRAINING\<rparr>) s));
            s = remove_node (m_node_id m) s;
            s = (if state_leader s = Some (m_node_id m) \<or> state_leader s = None then snd (elect_leader s) else s)
        in m\<lparr>m_running := False, m_state := s\<rparr>)"

definition manager_assign_scan :: "scan_request \<Rightarrow> cluster_manager \<Rightarrow> cluster_node option \<times> cluster_manager" where
  "manager_assign_scan r m =
     (let s = add_scan r (m_state m); (n, s) = assign_scan (scan_id r) s in (n, m\<lparr>m_state := s\<rparr>))"

definition sync_state :: "crypto \<Rightarrow> string \<Rightarrow> cluster_manager \<Rightarrow> (string \<times> json) list" where
  "sync_state cr stamp m = get_state_snapshot cr stamp (m_state m)"

definition merge_peer_state :: "crypto \<Rightarrow> pyfloat \<Rightarrow> (string \<times> json) list \<Rightarrow> cluster_manager \<Rightarrow>
    unit py_result \<times> cluster_manager" where
  "merge_peer_state cr now snap m =
     (let (r, s) = merge_state cr now snap (m_state m) in (r, m\<lparr>m_state := s\<rparr>))"

definition manager_tokens :: "cluster_manager \<Rightarrow> token_store" where
  "manager_tokens m = cs_tokens (m_state m)"

definition set_tokens :: "token_store \<Rightarrow> cluster_manager \<Rightarrow> cluster_manager" where
  "set_tokens ts m = m\<lparr>m_state := (m_state m)\<lparr>cs_tokens := ts\<rparr>\<rparr>"

definition rotate_token :: "crypto \<Rightarrow> pyfloat \<Rightarrow> pyfloat \<Rightarrow> string \<Rightarrow> string option \<Rightarrow> cluster_manager \<Rightarrow>
    (string \<times> json) list \<times> cluster_manager" where
  "rotate_token cr grace now fresh new_token m =
     (let (info, ts) = ts_rotate cr grace now fresh new_token (m_node_id m) (manager_tokens m)
      in ([(''node_id'', JStr (m_node_id m)), (''token_version'', JInt (t_version info)),
           (''issued_at'', JFloat (issued_at info)), (''accepted_count'', JInt (int (length (accepted ts)))),
           (''announced'', JBool (current_announcement ts \<noteq> None))], set_tokens ts m))"

definition retire_stale_tokens :: "pyfloat \<Rightarrow> pyfloat \<Rightarrow> cluster_manager \<Rightarrow> nat \<times> cluster_manager" where
  "retire_stale_tokens now max_age m =
     (let cutoff = now - max_age;
          before = length (accepted (manager_tokens m));
          ts = retire_older_than cutoff (manager_tokens m)
      in (before - length (accepted ts), set_tokens ts m))"

definition handle_heartbeat :: "string \<Rightarrow> string \<Rightarrow> string \<Rightarrow> int \<Rightarrow> cluster_manager \<Rightarrow> cluster_node option \<times> cluster_manager" where
  "handle_heartbeat stamp nid status ld m =
     (case get_node nid (m_state m) of
        None \<Rightarrow> (None, m)
      | Some n \<Rightarrow>
          (case node_status_of status of
             Inl _ \<Rightarrow> (None, m)
           | Inr st \<Rightarrow>
               let s = update_node (n\<lparr>n_status := st, last_heartbeat := stamp, load := ld\<rparr>) (m_state m)
               in (get_node nid s, m\<lparr>m_state := s\<rparr>)))"

definition redistribute :: "string \<Rightarrow> cluster_state \<Rightarrow> cluster_state" where
  "redistribute sid s = snd (assign_scan sid (fail_scan sid s))"

definition handle_node_failure :: "string \<Rightarrow> cluster_manager \<Rightarrow> string list \<times> cluster_manager" where
  "handle_node_failure nid m =
     (case get_node nid (m_state m) of
        None \<Rightarrow> ([], m)
      | Some n \<Rightarrow>
          let s = update_node (n\<lparr>n_status := OFFLINE\<rparr>) (m_state m);
              failed = map scan_id (get_scans_for_node nid s)
          in (failed, m\<lparr>m_state := foldl (\<lambda>s i. redistribute i s) s failed\<rparr>))"

definition manager_status :: "cluster_manager \<Rightarrow> (string \<times> json) list" where
  "manager_status m =
     (let nodes = list_nodes None (m_state m);
          scans = load_all_scans (cs_backend (m_state m));
          n = (\<lambda>st. JInt (int (length (filter (\<lambda>x. n_status x = st) nodes))));
          c = (\<lambda>st. JInt (int (length (filter (\<lambda>r. s_status r = st) scans))))
      in [(''self_id'', JStr (m_node_id m)), (''leader_id'', opt_json JStr (state_leader (m_state m))),
          (''nodes_total'', JInt (int (length nodes))), (''nodes_online'', n ONLINE), (''nodes_offline'', n OFFLINE),
          (''nodes_draining'', n DRAINING), (''scans_total'', JInt (int (length scans))), (''scans_pending'', c ''pending''),
          (''scans_running'', c ''running''), (''scans_completed'', c ''completed''),
          (''nodes'', JList (map node_to_dict nodes))])"

text \<open>One pass of the heartbeat thread.\<close>

definition heartbeat_pass :: "string \<Rightarrow> cluster_manager \<Rightarrow> cluster_manager" where
  "heartbeat_pass stamp m =
     (case get_node (m_node_id m) (m_state m) of
        None \<Rightarrow> m
      | Some n \<Rightarrow> m\<lparr>m_state := update_node (n\<lparr>last_heartbeat := stamp\<rparr>) (m_state m)\<rparr>)"

text \<open>
  One pass of the health check. \<open>parse_ts\<close> stands for \<open>_parse_iso_timestamp\<close> (\<open>None\<close>: not parseable),
  \<open>stamp\<close> for the rendered present time.
\<close>

definition heartbeat_expired :: "(string \<Rightarrow> pyfloat option) \<Rightarrow> string \<Rightarrow> cluster_manager \<Rightarrow> cluster_node \<Rightarrow> bool" where
  "heartbeat_expired parse_ts stamp m n =
     (if node_id n = m_node_id m then False
      else if last_heartbeat n = '''' then False
      else (case parse_ts (last_heartbeat n) of
              None \<Rightarrow> False
            | Some hb \<Rightarrow> (case parse_ts stamp of None \<Rightarrow> 0 | Some t \<Rightarrow> t) - hb >
                of_int (m_heartbeat_timeout m * m_max_missed m)))"

definition check_node_health :: "(string \<Rightarrow> pyfloat option) \<Rightarrow> string \<Rightarrow> cluster_manager \<Rightarrow> cluster_manager" where
  "check_node_health parse_ts stamp m =
     foldl (\<lambda>m n. if heartbeat_expired parse_ts stamp m n then snd (handle_node_failure (node_id n) m) else m)
       m (list_nodes (Some ONLINE) (m_state m))"

definition retire_tokens_if_configured :: "pyfloat \<Rightarrow> pyfloat \<Rightarrow> cluster_manager \<Rightarrow> cluster_manager" where
  "retire_tokens_if_configured grace now m = snd (retire_stale_tokens now (max grace 0) m)"

definition peer_url :: "cluster_manager \<Rightarrow> cluster_node \<Rightarrow> string" where
  "peer_url m peer =
     (let scheme = (if m_tls_ca m \<noteq> '''' \<or> m_tls_cert m \<noteq> '''' then ''https'' else ''http'');
          tail = '':'' @ show_int (port peer) @ ''/api/v1/cluster/snapshot''
      in if starts_with ''http://'' (address peer) \<or> starts_with ''https://'' (address peer)
         then address peer @ tail
         else scheme @ ''://'' @ address peer @ tail)"

definition peer_headers :: "cluster_manager \<Rightarrow> (string \<times> string) list" where
  "peer_headers m = (''Accept'', ''application/json'') #
     (if primary_token (manager_tokens m) \<noteq> '''' then [(''X-Cluster-Token'', primary_token (manager_tokens m))] else [])"

definition MAX_SNAPSHOT_BYTES :: nat where "MAX_SNAPSHOT_BYTES = 10 * 1024 * 1024"

text \<open>
  \<open>fetch\<close> stands for \<open>urlopen\<close>: an exception, or the length of the body read and its decoding by
  \<open>json.loads\<close>.
\<close>

type_synonym fetcher = "string \<Rightarrow> (string \<times> string) list \<Rightarrow> (nat \<times> json py_result) py_result"

definition fetch_and_merge_peer :: "crypto \<Rightarrow> pyfloat \<Rightarrow> fetcher \<Rightarrow> cluster_node \<Rightarrow> cluster_manager \<Rightarrow>
    unit py_result \<times> cluster_manager" where
  "fetch_and_merge_peer cr now fetch peer m =
     (case fetch (peer_url m peer) (peer_headers m) of
        Inl e \<Rightarrow> (Inl e, m)
      | Inr (len, body) \<Rightarrow>
          if len > MAX_SNAPSHOT_BYTES then (Inr (), m)
          else (case body of
                  Inl e \<Rightarrow> (Inl e, m)
                | Inr (JObj snap) \<Rightarrow> merge_peer_state cr now snap m
                | Inr _ \<Rightarrow> (Inr (), m)))"

text \<open>The exceptions the round survives: \<open>OSError\<close>, \<open>RuntimeError\<close> and \<open>ValueError\<close>.\<close>

fun caught :: "py_error \<Rightarrow> bool" where
  "caught (ValueError _) = True"
| "caught OSError = True"
| "caught _ = False"

fun gossip_peers :: "crypto \<Rightarrow> pyfloat \<Rightarrow> fetcher \<Rightarrow> cluster_node list \<Rightarrow> cluster_manager \<Rightarrow>
    unit py_result \<times> cluster_manager" where
  "gossip_peers cr now fetch [] m = (Inr (), m)"
| "gossip_peers cr now fetch (p # ps) m =
     (case fetch_and_merge_peer cr now fetch p m of
        (Inl e, m') \<Rightarrow> if caught e then gossip_peers cr now fetch ps m' else (Inl e, m')
      | (Inr _, m') \<Rightarrow> gossip_peers cr now fetch ps m')"

definition gossip_targets :: "bool \<Rightarrow> cluster_manager \<Rightarrow> cluster_node list" where
  "gossip_targets include_offline m = filter (\<lambda>n. node_id n \<noteq> m_node_id m \<and>
     (n_status n = ONLINE \<or> (include_offline \<and> n_status n = OFFLINE))) (list_nodes None (m_state m))"

definition gossip_round :: "crypto \<Rightarrow> pyfloat \<Rightarrow> fetcher \<Rightarrow> bool \<Rightarrow> cluster_manager \<Rightarrow> unit py_result \<times> cluster_manager" where
  "gossip_round cr now fetch include_offline m = gossip_peers cr now fetch (gossip_targets include_offline m) m"

text \<open>One pass of the gossip thread; an exception that escapes the round ends the thread.\<close>

definition gossip_pass :: "crypto \<Rightarrow> pyfloat \<Rightarrow> pyfloat \<Rightarrow> fetcher \<Rightarrow> nat \<Rightarrow> cluster_manager \<Rightarrow>
    unit py_result \<times> cluster_manager" where
  "gossip_pass cr grace now fetch cycle m =
     (case gossip_round cr now fetch (cycle mod 10 = 0) m of
        (Inl e, m') \<Rightarrow> (Inl e, m')
      | (Inr _, m') \<Rightarrow> (Inr (), retire_tokens_if_configured grace now m'))"

section \<open>What the scheduler leaves alone\<close>

text \<open>Status and heartbeat of every node: what failover reads and scheduling never changes.\<close>

definition node_view :: "cluster_state \<Rightarrow> string \<Rightarrow> (node_status \<times> string) option" where
  "node_view s i = map_option (\<lambda>n. (n_status n, last_heartbeat n)) (get_node i s)"

lemma online_view: "online s i \<longleftrightarrow> (\<exists>hb. node_view s i = Some (ONLINE, hb))"
  by (auto simp: online_def node_view_def)

lemma release_view [simp]: "state_wf s \<Longrightarrow> node_view (release_load k s) i = node_view s i"
  "get_scan i (release_load k s) = get_scan i s"
  by (auto simp: release_load_def node_view_def split_beta Let_def split: option.splits dest: get_node_id)

lemma fail_scan_view: "state_wf s \<Longrightarrow> node_view (fail_scan j s) i = node_view s i"
  by (simp add: fail_scan_def split_beta Let_def split: option.splits) (auto simp: node_view_def)

lemma fail_scan_get:
  assumes "state_wf s"
  shows "get_scan i (fail_scan j s) = (if i = j
     then map_option (\<lambda>r. r\<lparr>s_status := ''pending'', assigned_node := None, s_version := cs_version s + 1\<rparr>) (get_scan j s)
     else get_scan i s)"
  using get_scan_id [OF assms, of j] by (auto simp: fail_scan_def split_beta Let_def split: option.splits)

lemma assign_scan_view: "state_wf s \<Longrightarrow> node_view (snd (assign_scan j s)) i = node_view s i"
proof -
  assume wf: "state_wf s"
  have mem: "get_node (node_id t) s = Some t"
    if "sort_key f (filter P (load_all_nodes (cs_backend s))) = t # ts"
    for f :: "cluster_node \<Rightarrow> int \<times> string" and P t ts
    using sort_key_head(1) [OF that] all_nodes_get [OF wf] by auto
  show ?thesis
    by (simp add: assign_scan_def split_beta Let_def split: option.splits list.splits)
       (auto simp: node_view_def dest!: mem)
qed

lemma assign_scan_other: "state_wf s \<Longrightarrow> i \<noteq> j \<Longrightarrow> get_scan i (snd (assign_scan j s)) = get_scan i s"
  by (auto simp: assign_scan_def split_beta Let_def split: option.splits list.splits dest: get_scan_id)

lemma assign_scan_pending:
  assumes "state_wf s" and "get_scan j s = Some r" and "assigned_node r = None" and "s_status r = ''pending''"
  shows "\<exists>r'. get_scan j (snd (assign_scan j s)) = Some r' \<and>
    (case assigned_node r' of Some k \<Rightarrow> online s k \<and> s_status r' = ''running''
     | None \<Rightarrow> (\<forall>k. \<not> online s k) \<and> s_status r' = ''pending'')"
proof (cases "sort_key (\<lambda>n. (load n, node_id n)) (filter (\<lambda>n. n_status n = ONLINE) (load_all_nodes (cs_backend s)))")
  case Nil
  have "\<not> online s k" for k
  proof
    assume "online s k"
    then obtain n where "get_node k s = Some n" "n_status n = ONLINE" by (auto simp: online_def)
    then have "n \<in> set (filter (\<lambda>n. n_status n = ONLINE) (load_all_nodes (cs_backend s)))"
      using assms(1) get_node_id [OF assms(1), of k n] by (simp add: all_nodes_get)
    with Nil show False by simp
  qed
  with Nil assms show ?thesis by (simp add: assign_scan_def)
next
  case (Cons t ts)
  have "online s (node_id t)"
    using sort_key_head(1) [OF Cons] all_nodes_get [OF assms(1)] by (auto simp: online_def)
  with Cons assms get_scan_id [OF assms(1,2)] show ?thesis
    by (simp add: assign_scan_def split_beta Let_def)
qed

section \<open>Failover\<close>

lemma redistribute_wf: "state_wf s \<Longrightarrow> state_wf (redistribute j s)"
  by (simp add: redistribute_def state_wf_assign state_wf_finish)

lemma redistribute_view: "state_wf s \<Longrightarrow> node_view (redistribute j s) i = node_view s i"
  by (simp add: redistribute_def assign_scan_view fail_scan_view state_wf_finish)

lemma redistribute_other: "state_wf s \<Longrightarrow> i \<noteq> j \<Longrightarrow> get_scan i (redistribute j s) = get_scan i s"
  by (simp add: redistribute_def assign_scan_other fail_scan_get state_wf_finish)

text \<open>A scan's placement after redistribution: on an online node, or pending if there is none.\<close>

definition placed :: "cluster_state \<Rightarrow> scan_request \<Rightarrow> bool" where
  "placed s r = (case assigned_node r of Some k \<Rightarrow> online s k \<and> s_status r = ''running''
     | None \<Rightarrow> (\<forall>k. \<not> online s k) \<and> s_status r = ''pending'')"

lemma placed_view: "(\<And>i. node_view s i = node_view s' i) \<Longrightarrow> placed s r = placed s' r"
  by (simp add: placed_def online_view split: option.splits)

lemma redistribute_self:
  assumes "state_wf s" and "get_scan j s = Some r"
  shows "\<exists>r'. get_scan j (redistribute j s) = Some r' \<and> placed s r'"
proof -
  have eq: "online (fail_scan j s) = online s" by (rule ext) (simp add: online_view fail_scan_view [OF assms(1)])
  show ?thesis
    using assign_scan_pending [OF state_wf_finish(2) [OF assms(1), of j], of j, unfolded eq] assms
    unfolding redistribute_def placed_def by (simp add: fail_scan_get)
qed

lemma redistribute_all:
  assumes "state_wf s" and "distinct js" and "\<forall>j \<in> set js. get_scan j s \<noteq> None"
    and "s' = foldl (\<lambda>s j. redistribute j s) s js"
  shows "state_wf s' \<and> (\<forall>i. node_view s' i = node_view s i) \<and> (\<forall>i. i \<notin> set js \<longrightarrow> get_scan i s' = get_scan i s)
    \<and> (\<forall>i \<in> set js. \<exists>r'. get_scan i s' = Some r' \<and> placed s r')"
  using assms
proof (induction js arbitrary: s)
  case (Cons j js)
  let ?s1 = "redistribute j s"
  have wf1: "state_wf ?s1" and view: "node_view ?s1 i = node_view s i" for i
    using Cons.prems(1) by (simp_all add: redistribute_wf redistribute_view)
  have other: "get_scan i ?s1 = get_scan i s" if "i \<noteq> j" for i
    using Cons.prems(1) that by (rule redistribute_other)
  have "\<forall>k \<in> set js. get_scan k ?s1 \<noteq> None"
  proof
    fix k assume k: "k \<in> set js"
    then have "k \<noteq> j" using Cons.prems(2) by auto
    with k Cons.prems(3) show "get_scan k ?s1 \<noteq> None" by (simp add: other)
  qed
  from Cons.IH [OF wf1 _ this] Cons.prems(2,4)
  have IH: "state_wf s'" "\<And>i. node_view s' i = node_view ?s1 i" "\<And>i. i \<notin> set js \<Longrightarrow> get_scan i s' = get_scan i ?s1"
    "\<And>i. i \<in> set js \<Longrightarrow> \<exists>r'. get_scan i s' = Some r' \<and> placed ?s1 r'"
    by simp_all
  have eq: "placed ?s1 = placed s" by (rule ext, rule placed_view, rule view)
  obtain r where "get_scan j s = Some r" using Cons.prems(3) by auto
  from redistribute_self [OF Cons.prems(1) this] IH(3) [of j] Cons.prems(2)
  have "\<exists>r'. get_scan j s' = Some r' \<and> placed s r'" by simp
  with IH eq view other show ?case by auto
qed simp

lemma node_failure_effect:
  assumes "state_wf (m_state m)" and "get_node k (m_state m) = Some n"
    and "s' = m_state (snd (handle_node_failure k m))" and "js = fst (handle_node_failure k m)"
  shows "state_wf s' \<and> (\<forall>i. node_view s' i = (if i = k then Some (OFFLINE, last_heartbeat n) else node_view (m_state m) i))
    \<and> (\<forall>i. i \<in> set js \<longleftrightarrow> (\<exists>r. get_scan i (m_state m) = Some r \<and> assigned_node r = Some k))
    \<and> (\<forall>i. i \<notin> set js \<longrightarrow> get_scan i s' = get_scan i (m_state m))
    \<and> (\<forall>i \<in> set js. \<exists>r'. get_scan i s' = Some r' \<and> placed s' r')"
proof -
  let ?s = "update_node (n\<lparr>n_status := OFFLINE\<rparr>) (m_state m)"
  have id: "node_id n = k" using assms(1,2) by (rule get_node_id)
  have wf: "state_wf ?s" using assms(1) by simp
  have s': "s' = foldl (\<lambda>s i. redistribute i s) ?s js" "js = map scan_id (get_scans_for_node k ?s)"
    using assms(2-4) by (simp_all add: handle_node_failure_def Let_def)
  have view: "node_view ?s i = (if i = k then Some (OFFLINE, last_heartbeat n) else node_view (m_state m) i)" for i
    using id by (simp add: node_view_def update_node_get)
  have js: "i \<in> set js \<longleftrightarrow> (\<exists>r. get_scan i (m_state m) = Some r \<and> assigned_node r = Some k)" for i
    using all_scans_get [OF wf] get_scan_id [OF assms(1), of i]
    by (auto simp: s'(2) get_scans_for_node_def image_iff update_node_get)
  have "distinct js"
    using wf by (auto simp: s'(2) get_scans_for_node_def state_wf_def distinct_map_filter memory.distinct_scans)
  moreover have "\<forall>j \<in> set js. get_scan j ?s \<noteq> None"
  proof
    fix j assume "j \<in> set js"
    then show "get_scan j ?s \<noteq> None" using js [of j] by (auto simp: update_node_get)
  qed
  ultimately have R: "state_wf s'" "\<And>i. node_view s' i = node_view ?s i" "\<And>i. i \<notin> set js \<Longrightarrow> get_scan i s' = get_scan i ?s"
    "\<And>i. i \<in> set js \<Longrightarrow> \<exists>r'. get_scan i s' = Some r' \<and> placed ?s r'"
    using redistribute_all [OF wf _ _ s'(1)] by blast+
  have pl: "placed ?s = placed s'" by (rule ext, rule placed_view) (simp add: R(2))
  show ?thesis
    using R js view by (simp add: pl update_node_get)
qed

text \<open>
  Failover loses no scan. After \<open>handle_node_failure\<close> of a known node the node is offline, no
  scan is assigned to it any more, and every scan that was (a completed one too) is reported as
  redistributed and is running on an online node or, if no node is online, pending. Scans on other
  nodes, and the status and heartbeat of every other node, are unchanged.
\<close>

lemma node_failure_redistributes:
  assumes "state_wf (m_state m)" and "get_node k (m_state m) = Some n"
    and "s' = m_state (snd (handle_node_failure k m))"
  shows "\<not> online s' k
    \<and> (\<forall>i r. get_scan i (m_state m) = Some r \<and> assigned_node r = Some k \<longrightarrow>
          i \<in> set (fst (handle_node_failure k m)) \<and> (\<exists>r'. get_scan i s' = Some r' \<and> placed s' r'))
    \<and> (\<forall>i r. get_scan i s' = Some r \<longrightarrow> assigned_node r \<noteq> Some k)
    \<and> (\<forall>i. (\<forall>r. get_scan i (m_state m) = Some r \<longrightarrow> assigned_node r \<noteq> Some k) \<longrightarrow> get_scan i s' = get_scan i (m_state m))
    \<and> (\<forall>i. i \<noteq> k \<longrightarrow> node_view s' i = node_view (m_state m) i)"
proof -
  obtain js where jd: "js = fst (handle_node_failure k m)" by blast
  from node_failure_effect [OF assms jd]
  have view: "\<And>i. node_view s' i = (if i = k then Some (OFFLINE, last_heartbeat n) else node_view (m_state m) i)"
    and js: "\<And>i. i \<in> set js \<longleftrightarrow> (\<exists>r. get_scan i (m_state m) = Some r \<and> assigned_node r = Some k)"
    and keep: "\<And>i. i \<notin> set js \<Longrightarrow> get_scan i s' = get_scan i (m_state m)"
    and placed: "\<And>i. i \<in> set js \<Longrightarrow> \<exists>r'. get_scan i s' = Some r' \<and> placed s' r'"
    by blast+
  have off: "\<not> online s' k" by (simp add: online_view view)
  have gone: "assigned_node r \<noteq> Some k" if r: "get_scan i s' = Some r" for i r
  proof (cases "i \<in> set js")
    case True
    then obtain r' where "get_scan i s' = Some r'" "placed s' r'" using placed by blast
    with r off show ?thesis by (auto simp: placed_def)
  next
    case False
    then have "get_scan i (m_state m) = Some r" using keep [OF False] r by simp
    then show ?thesis using False js by blast
  qed
  have "i \<in> set js \<and> (\<exists>r'. get_scan i s' = Some r' \<and> placed s' r')"
    if "get_scan i (m_state m) = Some r \<and> assigned_node r = Some k" for i r
    using js placed that by blast
  moreover have "get_scan i s' = get_scan i (m_state m)"
    if "\<forall>r. get_scan i (m_state m) = Some r \<longrightarrow> assigned_node r \<noteq> Some k" for i
    using js keep that by blast
  moreover have "node_view s' i = node_view (m_state m) i" if "i \<noteq> k" for i using view that by simp
  ultimately show ?thesis
    unfolding jd [symmetric] using off gone by blast
qed

definition demo_manager :: cluster_manager where
  "demo_manager = (new_cluster_manager 0 ''g'' ''h'' 1 ''n1'' ''k'')\<lparr>m_state := demo_state\<rparr>"

lemma node_failure_redistributes_witness:
  "\<not> online (m_state (snd (handle_node_failure ''n2'' demo_manager))) ''n2''"
  using node_failure_redistributes [of demo_manager "''n2''" "(demo_node ''n2'' 2)\<lparr>n_version := 1\<rparr>"]
  by (simp add: demo_manager_def demo_get)

lemma failure_view:
  assumes "state_wf (m_state m)"
  shows "state_wf (m_state (snd (handle_node_failure k m)))"
    and "node_view (m_state (snd (handle_node_failure k m))) i =
      (if i = k then map_option (\<lambda>(st, hb). (OFFLINE, hb)) (node_view (m_state m) i) else node_view (m_state m) i)"
proof -
  have "state_wf (m_state (snd (handle_node_failure k m))) \<and> node_view (m_state (snd (handle_node_failure k m))) i =
      (if i = k then map_option (\<lambda>(st, hb). (OFFLINE, hb)) (node_view (m_state m) i) else node_view (m_state m) i)"
  proof (cases "get_node k (m_state m)")
    case None
    then show ?thesis using assms by (simp add: handle_node_failure_def node_view_def)
  next
    case (Some n)
    then show ?thesis using node_failure_effect [OF assms Some refl refl] by (simp add: node_view_def)
  qed
  then show "state_wf (m_state (snd (handle_node_failure k m)))"
    and "node_view (m_state (snd (handle_node_failure k m))) i =
      (if i = k then map_option (\<lambda>(st, hb). (OFFLINE, hb)) (node_view (m_state m) i) else node_view (m_state m) i)"
    by simp_all
qed

lemma failure_fields: "heartbeat_expired parse_ts stamp (snd (handle_node_failure k m)) = heartbeat_expired parse_ts stamp m"
  by (rule ext) (simp add: heartbeat_expired_def handle_node_failure_def Let_def split: option.splits)

lemma health_fold:
  assumes "state_wf (m_state m)" and "distinct (map node_id ns)"
  shows "node_view (m_state (foldl (\<lambda>m n. if heartbeat_expired parse_ts stamp m n
      then snd (handle_node_failure (node_id n) m) else m) m ns)) i =
    (if \<exists>n \<in> set ns. node_id n = i \<and> heartbeat_expired parse_ts stamp m n
     then map_option (\<lambda>(st, hb). (OFFLINE, hb)) (node_view (m_state m) i) else node_view (m_state m) i)"
  using assms
proof (induction ns arbitrary: m)
  case (Cons n ns)
  define m1 where "m1 = (if heartbeat_expired parse_ts stamp m n then snd (handle_node_failure (node_id n) m) else m)"
  have same: "heartbeat_expired parse_ts stamp m1 = heartbeat_expired parse_ts stamp m"
    by (simp add: m1_def failure_fields)
  have wf1: "state_wf (m_state m1)" using Cons.prems(1) by (simp add: m1_def failure_view(1))
  have v1: "node_view (m_state m1) i = (if i = node_id n \<and> heartbeat_expired parse_ts stamp m n
      then map_option (\<lambda>(st, hb). (OFFLINE, hb)) (node_view (m_state m) i) else node_view (m_state m) i)"
    using failure_view(2) [OF Cons.prems(1), of "node_id n" i] by (auto simp: m1_def)
  have "node_id n \<notin> node_id ` set ns" using Cons.prems(2) by simp
  with Cons.IH [OF wf1] Cons.prems(2) show ?case
    unfolding foldl_Cons m1_def [symmetric] same v1 by (cases "node_view (m_state m) i") auto
qed simp

text \<open>
  The health check is exact: it marks offline precisely the other nodes that are online and
  whose last heartbeat parses and is older than \<open>heartbeat_timeout * max_missed_heartbeats\<close>; the
  status and the heartbeat of every other node, the node itself included, are unchanged.
\<close>

lemma health_check_exact:
  assumes "state_wf (m_state m)"
  shows "node_view (m_state (check_node_health parse_ts stamp m)) i =
    map_option (\<lambda>n. (if n_status n = ONLINE \<and> heartbeat_expired parse_ts stamp m n then OFFLINE else n_status n, last_heartbeat n))
      (get_node i (m_state m))"
proof -
  have "(\<exists>n \<in> set (list_nodes (Some ONLINE) (m_state m)). node_id n = i \<and> heartbeat_expired parse_ts stamp m n) \<longleftrightarrow>
      (\<exists>n. get_node i (m_state m) = Some n \<and> n_status n = ONLINE \<and> heartbeat_expired parse_ts stamp m n)"
    using list_online [OF assms] get_node_id [OF assms, of i] by blast
  moreover have "distinct (map node_id (list_nodes (Some ONLINE) (m_state m)))"
    using assms by (simp add: list_nodes_def state_wf_def distinct_sort_key_filter memory.distinct_nodes)
  ultimately show ?thesis
    using health_fold [OF assms, of "list_nodes (Some ONLINE) (m_state m)" parse_ts stamp i]
    by (cases "get_node i (m_state m)") (auto simp: check_node_health_def node_view_def)
qed

lemma health_check_exact_witness:
  "node_view (m_state (check_node_health (\<lambda>s. if s = ''t'' then Some 0 else Some 1000) ''u'' demo_manager)) ''n2'' = Some (OFFLINE, ''t'')
   \<and> node_view (m_state (check_node_health (\<lambda>s. if s = ''t'' then Some 0 else Some 1000) ''u'' demo_manager)) ''n1'' = Some (ONLINE, ''t'')"
proof -
  have wf: "state_wf (m_state demo_manager)" by (simp add: demo_manager_def)
  show ?thesis
    unfolding health_check_exact [OF wf]
    by (simp add: demo_manager_def demo_get demo_node_def heartbeat_expired_def new_cluster_manager_def
        DEFAULT_HEARTBEAT_TIMEOUT_def DEFAULT_MAX_MISSED_HEARTBEATS_def)
qed


lemma manager_tokens_set [simp]: "manager_tokens (set_tokens ts m) = ts"
  by (simp add: manager_tokens_def set_tokens_def)

text \<open>
  Token retirement is exact. \<open>retire_stale_tokens\<close> drops precisely the accepted tokens that
  are not the primary and were stamped before the cutoff, keeps every other record unchanged, and
  returns the number dropped; the configured grace of zero drops every token stamped before now.
\<close>

theorem retire_exact:
  assumes "store_ok (manager_tokens m)" and "0 \<le> grace"
  shows "\<exists>k m'. retire_stale_tokens now grace m = (k, m') \<and> retire_tokens_if_configured grace now m = m'
    \<and> (\<forall>t. dget (accepted (manager_tokens m')) t = (case dget (accepted (manager_tokens m)) t of None \<Rightarrow> None
         | Some i \<Rightarrow> if t \<noteq> primary_token (manager_tokens m) \<and> issued_at i < now - grace then None else Some i))
    \<and> length (accepted (manager_tokens m')) + k = length (accepted (manager_tokens m))
    \<and> primary_token (manager_tokens m') = primary_token (manager_tokens m)"
proof -
  let ?ts = "retire_older_than (now - grace) (manager_tokens m)"
  have "length (accepted ?ts) \<le> length (accepted (manager_tokens m))"
    by (simp add: retire_older_than_def Let_def length_dpurge_le)
  moreover have "primary_token ?ts = primary_token (manager_tokens m)"
    by (simp add: retire_older_than_def Let_def primary_token_def split: option.splits)
  moreover have "retire_tokens_if_configured grace now m = snd (retire_stale_tokens now grace m)"
    using assms(2) by (simp add: retire_tokens_if_configured_def)
  ultimately show ?thesis
    using assms(1)
    by (simp add: retire_stale_tokens_def Let_def retire_dget)
qed

theorem retire_exact_witness:
  "\<exists>k m'. retire_stale_tokens 10 0 (set_tokens two_tokens demo_manager) = (k, m')
     \<and> length (accepted (manager_tokens m')) + k = 2"
proof -
  have "length (accepted two_tokens) = 2" using arg_cong [OF two_tokens_facts(3), of length] by simp
  then show ?thesis
    using retire_exact [of "set_tokens two_tokens demo_manager" 0 10] two_tokens_facts(1)
    by auto
qed

lemma get_node_remove: "get_node i (remove_node k s) = (if i = k then None else get_node i s)"
  by (simp add: get_node_def remove_node_def)

text \<open>
  Leaving the cluster. After \<open>stop\<close> of a running node its record is gone and it is not running;
  if some node is online, the stored leader is a node id other than its own.
\<close>

theorem stop_hands_over:
  assumes "state_wf (m_state m)" and "m_running m" and "online (m_state (stop m)) i"
  shows "get_node (m_node_id m) (m_state (stop m)) = None \<and> \<not> m_running (stop m)
    \<and> state_leader (m_state (stop m)) \<noteq> None \<and> state_leader (m_state (stop m)) \<noteq> Some (m_node_id m)"
proof -
  define s1 where "s1 = remove_node (m_node_id m) (case get_node (m_node_id m) (m_state m) of
      None \<Rightarrow> m_state m
    | Some n \<Rightarrow> update_node (n\<lparr>n_status := OFFLINE\<rparr>) (update_node (n\<lparr>n_status := DRAINING\<rparr>) (m_state m)))"
  have st: "m_state (stop m) = (if state_leader s1 = Some (m_node_id m) \<or> state_leader s1 = None
      then snd (elect_leader s1) else s1)" "\<not> m_running (stop m)"
    using assms(2) by (simp_all add: stop_def s1_def Let_def)
  have wf: "state_wf s1" unfolding s1_def using assms(1) by (auto intro!: state_wf_remove split: option.split)
  have none: "get_node (m_node_id m) s1 = None" by (simp add: s1_def get_node_def remove_node_def)
  have on: "online s1 i" using assms(3) st(1) by (auto simp: online_def split: if_splits)
  obtain l where l: "fst (elect_leader s1) = Some l" using elect_leader_None [OF wf] on by fastforce
  have "l \<noteq> m_node_id m" using elect_leader_Some(1) [OF wf l] none by (auto simp: online_def)
  then show ?thesis
    using st none elect_leader_Some(3) [OF wf l] by auto
qed

theorem stop_hands_over_witness:
  "state_leader (m_state (stop (demo_manager\<lparr>m_running := True\<rparr>))) \<noteq> Some ''n1''"
proof -
  have "online (m_state (stop (demo_manager\<lparr>m_running := True\<rparr>))) ''n2''"
    by (simp add: stop_def demo_manager_def new_cluster_manager_def demo_get Let_def online_def
        get_node_remove update_node_get demo_node_def)
  then show ?thesis
    using stop_hands_over [of "demo_manager\<lparr>m_running := True\<rparr>" "''n2''"]
    by (simp add: demo_manager_def new_cluster_manager_def)
qed


section \<open>Gossip\<close>

text \<open>A peer that answers as the code does: an I/O error, an oversized body, or its own snapshot.\<close>

definition sane_answer :: "crypto \<Rightarrow> (nat \<times> json py_result) py_result \<Rightarrow> bool" where
  "sane_answer cr ans \<longleftrightarrow> (\<exists>e. ans = Inl e \<and> caught e) \<or> (\<exists>n b. ans = Inr (n, b) \<and> n > MAX_SNAPSHOT_BYTES) \<or>
     (\<exists>n st p. ans = Inr (n, Inr (JObj (get_state_snapshot cr st p))) \<and> accepted (cs_tokens p) \<noteq> [] \<and>
        store_ok (cs_tokens p) \<and> current_announcement (cs_tokens p) = None)"

lemma merge_plain_caught:
  assumes "accepted (cs_tokens p) \<noteq> []" "store_ok (cs_tokens p)" "current_announcement (cs_tokens p) = None"
    and "merge_state cr now (get_state_snapshot cr st p) s = (Inl e, s')"
  shows "caught e"
  using assms by (auto simp: merge_state_def check_trust_plain merge_records_snapshot mismatch_def split: if_splits)

lemma fetch_sane:
  assumes "sane_answer cr (fetch (peer_url m p) (peer_headers m))"
    and "fetch_and_merge_peer cr now fetch p m = (Inl e, m')"
  shows "caught e"
  using assms
  by (auto simp: sane_answer_def fetch_and_merge_peer_def merge_peer_state_def split: prod.splits if_splits
      intro: merge_plain_caught)

lemma fetch_wf: "state_wf (m_state m) \<Longrightarrow> state_wf (m_state (snd (fetch_and_merge_peer cr now fetch p m)))"
  using state_wf_merge [of "m_state m" cr now]
  by (auto simp: fetch_and_merge_peer_def merge_peer_state_def Let_def split_beta split: sum.splits json.splits)

lemma gossip_peers_survives:
  assumes "\<And>url hs. sane_answer cr (fetch url hs)" and "state_wf (m_state m)"
  shows "fst (gossip_peers cr now fetch ps m) = Inr () \<and> state_wf (m_state (snd (gossip_peers cr now fetch ps m)))"
  using assms(2)
proof (induction ps arbitrary: m)
  case (Cons p ps)
  obtain r m1 where f: "fetch_and_merge_peer cr now fetch p m = (r, m1)" by force
  have "state_wf (m_state m1)" using fetch_wf [OF Cons.prems, of cr now fetch p] f by simp
  from Cons.IH [OF this] show ?case
    using fetch_sane [OF assms(1), where m = m and p = p and m' = m1] f by (cases r) auto
qed simp

text \<open>
  A gossip round survives unreachable, oversized and unrelated peers: as long as every answer is
  an I/O error, too long, or the snapshot of some cluster node, the round visits every peer, raises
  nothing and leaves the tables well formed, even when a snapshot is refused for a token mismatch.
\<close>

lemma gossip_round_survives:
  assumes "\<And>url hs. sane_answer cr (fetch url hs)" and "state_wf (m_state m)"
  shows "fst (gossip_round cr now fetch off m) = Inr () \<and> state_wf (m_state (snd (gossip_round cr now fetch off m)))"
  unfolding gossip_round_def using assms by (rule gossip_peers_survives)

lemma gossip_round_survives_witness:
  "fst (gossip_round toy_crypto 1 (\<lambda>_ _. Inr (5, Inr (JObj (get_state_snapshot toy_crypto ''t'' demo_peer)))) True demo_manager) = Inr ()"
proof -
  have "accepted (cs_tokens demo_peer) \<noteq> []"
    using new_token_store_facts(1) [of 0 "''k''"] by (auto simp: demo_tokens)
  then have "sane_answer toy_crypto (Inr (5, Inr (JObj (get_state_snapshot toy_crypto ''t'' demo_peer))))"
    unfolding sane_answer_def
    by (intro disjI2 exI [of _ 5] exI [of _ "''t''"] exI [of _ demo_peer]) (simp add: demo_tokens new_token_store_facts)
  then show ?thesis
    by (intro gossip_round_survives [THEN conjunct1]) (simp_all add: demo_manager_def)
qed

text \<open>
  One malformed record ends the gossip thread. If the first peer of the pass passes the token check
  and sends a node without an id, the pass ends with \<open>KeyError\<close> (neither handler of the round
  catches it): the remaining peers are not contacted and no token is retired.
\<close>

lemma malformed_peer_stops_gossip:
  assumes "gossip_targets (cycle mod 10 = 0) m = p # ps" and "n \<le> MAX_SNAPSHOT_BYTES"
    and "fetch (peer_url m p) (peer_headers m) =
      Inr (n, Inr (JObj [(''cluster_token'', JStr (cluster_token (m_state m))), (''nodes'', JList [JObj []])]))"
  shows "gossip_pass cr grace now fetch cycle m = (Inl (KeyError ''node_id''), m)"
proof -
  have "merge_state cr now [(''cluster_token'', JStr (cluster_token (m_state m))), (''nodes'', JList [JObj []])] (m_state m) =
      (Inl (KeyError ''node_id''), m_state m)"
    by (simp add: merge_state_def check_trust_def get_json_def trust_absent_def cluster_token_def merge_records_def
        get_or_def node_from_dict_def need_def)
  then show ?thesis
    using assms by (simp add: gossip_pass_def gossip_round_def fetch_and_merge_peer_def merge_peer_state_def)
qed

lemma malformed_peer_stops_gossip_witness:
  "\<exists>e. gossip_pass toy_crypto 3600 1 (\<lambda>_ _. Inr (50, Inr (JObj [(''cluster_token'', JStr ''k''),
      (''nodes'', JList [JObj []])]))) 1 demo_manager = (Inl e, demo_manager)"
proof -
  have k: "cluster_token (m_state demo_manager) = ''k''"
    by (simp add: demo_manager_def cluster_token_def demo_tokens new_token_store_facts)
  have "(demo_node ''n2'' 2)\<lparr>n_version := 1\<rparr> \<in> set (gossip_targets False demo_manager)"
    by (simp add: gossip_targets_def demo_manager_def list_nodes_def all_nodes_get demo_get new_cluster_manager_def)
       (simp add: demo_node_def)
  then obtain p ps where "gossip_targets (1 mod 10 = (0 :: nat)) demo_manager = p # ps"
    by (cases "gossip_targets False demo_manager") auto
  then show ?thesis
    using malformed_peer_stops_gossip [of 1 demo_manager p ps 50 "\<lambda>_ _. Inr (50, Inr (JObj [(''cluster_token'', JStr ''k''),
      (''nodes'', JList [JObj []])]))" toy_crypto 3600 1] k
    by (auto simp: MAX_SNAPSHOT_BYTES_def)
qed

end
