(* ===== verification/Audit_Chain.thy ===== *)
theory Audit_Chain
  imports Py_Strings
begin

text \<open>
  The server's tamper-evident audit log (\<open>src/picosentry/serve/services/audit_chain.py\<close>) and its
  retention purge (\<open>audit_cleanup.py\<close>). The table is the list of its rows in id order with SQLite's
  \<open>AUTOINCREMENT\<close> counter; every operation is one write transaction. SHA-256 and the JSON encoder
  and decoder are parameters.
\<close>

section \<open>Model\<close>

record codec =
  sha256 :: "string \<Rightarrow> string"
  dumps :: "json \<Rightarrow> string"
  loads :: "string \<Rightarrow> json option"

record audit_row =
  row_id :: nat
  a_action :: string
  a_user :: int
  a_resource_type :: string
  a_resource_id :: string
  a_details :: string
  a_ip :: "string option"
  a_agent :: "string option"
  a_prev :: string
  a_hash :: string
  a_org :: "int option"
  a_severity :: string
  a_created :: pyfloat

record audit_db =
  audit_rows :: "audit_row list"
  next_id :: nat

definition empty_audit_db :: audit_db where
  "empty_audit_db = \<lparr>audit_rows = [], next_id = 1\<rparr>"

definition canonical :: "string \<Rightarrow> string \<Rightarrow> int \<Rightarrow> string \<Rightarrow> string \<Rightarrow> string option \<Rightarrow> string" where
  "canonical prev action user rid details ip =
     join_with ''|'' [prev, action, show_int user, rid, details, case ip of None \<Rightarrow> '''' | Some i \<Rightarrow> i]"

definition compute_row_hash :: "codec \<Rightarrow> string \<Rightarrow> string \<Rightarrow> int \<Rightarrow> string \<Rightarrow> string \<Rightarrow> string option \<Rightarrow> string" where
  "compute_row_hash cd prev action user rid details ip = sha256 cd (canonical prev action user rid details ip)"

text \<open>The arguments of an append. \<open>details\<close> is a string or an object.\<close>

record audit_event =
  e_action :: string
  e_user :: "int option"
  e_resource_type :: string
  e_resource_id :: string
  e_details :: "string + json"
  e_ip :: "string option"
  e_agent :: "string option"
  e_severity :: string
  e_org :: "int option"

definition details_json :: "codec \<Rightarrow> string + json \<Rightarrow> string" where
  "details_json cd d = (case d of Inl s \<Rightarrow> s | Inr j \<Rightarrow> dumps cd j)"

definition last_hash :: "audit_row list \<Rightarrow> string" where
  "last_hash rows = (if rows = [] then '''' else a_hash (last rows))"

text \<open>\<open>db_ok\<close> is whether the write transaction commits; a database error leaves the table as it was.\<close>

definition append_audit_row :: "codec \<Rightarrow> bool \<Rightarrow> pyfloat \<Rightarrow> audit_event \<Rightarrow> audit_db \<Rightarrow> bool \<times> audit_db" where
  "append_audit_row cd db_ok now e db =
     (if \<not> db_ok then (False, db)
      else
        let det = details_json cd (e_details e);
            user = (case e_user e of None \<Rightarrow> - 1 | Some u \<Rightarrow> u);
            prev = last_hash (audit_rows db);
            h = compute_row_hash cd prev (e_action e) user (e_resource_id e) det (e_ip e)
        in (True, db\<lparr>audit_rows := audit_rows db @ [\<lparr>row_id = next_id db, a_action = e_action e, a_user = user,
              a_resource_type = e_resource_type e, a_resource_id = e_resource_id e, a_details = det, a_ip = e_ip e,
              a_agent = e_agent e, a_prev = prev, a_hash = h, a_org = e_org e, a_severity = e_severity e,
              a_created = now\<rparr>], next_id := next_id db + 1\<rparr>))"

text \<open>The purged ids, as ranges; a malformed marker contributes the ranges read before the error.\<close>

fun gap_pairs :: "json list \<Rightarrow> (int \<times> int) list" where
  "gap_pairs (JList [JInt lo, JInt hi] # js) = (lo, hi) # gap_pairs js"
| "gap_pairs _ = []"

definition marker_gaps :: "codec \<Rightarrow> string \<Rightarrow> (int \<times> int) list" where
  "marker_gaps cd details =
     (case loads cd details of
        Some (JObj d) \<Rightarrow> (case get_json ''gaps'' d of JList js \<Rightarrow> gap_pairs js | _ \<Rightarrow> [])
      | _ \<Rightarrow> [])"

definition load_purged_ids :: "codec \<Rightarrow> audit_row list \<Rightarrow> (int \<times> int) list" where
  "load_purged_ids cd rows = concat (map (\<lambda>r. marker_gaps cd (a_details r)) (filter (\<lambda>r. a_action r = ''audit.purge'') rows))"

definition in_purged :: "(int \<times> int) list \<Rightarrow> nat \<Rightarrow> bool" where
  "in_purged gaps i = list_ex (\<lambda>(lo, hi). lo \<le> int i \<and> int i \<le> hi) gaps"

definition gap_explains :: "(int \<times> int) list \<Rightarrow> nat option \<Rightarrow> nat \<Rightarrow> bool" where
  "gap_explains purged prev_id rid =
     (case prev_id of
        None \<Rightarrow> rid > 1 \<and> list_ex (\<lambda>(lo, hi). lo \<le> hi) purged \<and> list_all (in_purged purged) [1..<rid]
      | Some p \<Rightarrow> if rid = p + 1 then False else list_all (in_purged purged) [p + 1..<rid])"

text \<open>The join with the row of the greatest smaller id.\<close>

definition predecessor :: "audit_row list \<Rightarrow> nat \<Rightarrow> audit_row option" where
  "predecessor rows rid =
     (let before = filter (\<lambda>x. row_id x < rid) rows in if before = [] then None else Some (last before))"

record report =
  valid :: bool
  rows_checked :: nat
  violation :: "string option"
  bad_row :: "nat option"

definition check_row :: "codec \<Rightarrow> (int \<times> int) list \<Rightarrow> audit_row list \<Rightarrow> audit_row \<Rightarrow> string option" where
  "check_row cd purged rows r =
     (if a_prev r = '''' \<and> a_hash r = '''' then None
      else
        let pred = predecessor rows (row_id r);
            pred_hash = (case pred of None \<Rightarrow> '''' | Some p \<Rightarrow> a_hash p)
        in if a_prev r \<noteq> pred_hash then
             (if gap_explains purged (map_option row_id pred) (row_id r) then None
              else Some (''row '' @ show_nat (row_id r) @ '': prev_hash does not match predecessor (fork or deleted link)''))
           else if compute_row_hash cd (a_prev r) (a_action r) (a_user r) (a_resource_id r) (a_details r) (a_ip r) \<noteq> a_hash r then
             Some (''row '' @ show_nat (row_id r) @ '': row_hash does not match stored fields (tampered)'')
           else None)"

fun first_violation :: "(audit_row \<Rightarrow> string option) \<Rightarrow> audit_row list \<Rightarrow> (nat \<times> string) option" where
  "first_violation chk [] = None"
| "first_violation chk (r # rs) = (case chk r of None \<Rightarrow> first_violation chk rs | Some v \<Rightarrow> Some (row_id r, v))"

definition verify_audit_chain :: "codec \<Rightarrow> int option \<Rightarrow> nat option \<Rightarrow> audit_row list \<Rightarrow> report" where
  "verify_audit_chain cd org limit table =
     (let rows = (case org of None \<Rightarrow> table | Some i \<Rightarrow> filter (\<lambda>r. a_org r = Some i) table);
          rows = (case limit of None \<Rightarrow> rows | Some n \<Rightarrow> rev (take n (rev rows)))
      in case first_violation (check_row cd (load_purged_ids cd table) table) rows of
           None \<Rightarrow> \<lparr>valid = True, rows_checked = length rows, violation = None, bad_row = None\<rparr>
         | Some (i, v) \<Rightarrow> \<lparr>valid = False, rows_checked = length rows, violation = Some v, bad_row = Some i\<rparr>)"

section \<open>Retention\<close>

definition DEFAULT_RETENTION :: "(string \<times> nat) list" where
  "DEFAULT_RETENTION = [(''critical'', 365), (''high'', 180), (''medium'', 90), (''low'', 30), (''default'', 90)]"

definition DELETE_CHUNK :: nat where "DELETE_CHUNK = 500"

definition extend_run :: "(int \<times> int) list \<Rightarrow> int \<Rightarrow> (int \<times> int) list" where
  "extend_run runs i =
     (if runs \<noteq> [] \<and> i = snd (last runs) + 1 then butlast runs @ [(fst (last runs), i)] else runs @ [(i, i)])"

definition contiguous_runs :: "int list \<Rightarrow> (int \<times> int) list" where
  "contiguous_runs ids = foldl extend_run [] (sort ids)"

function delete_chunks :: "nat \<Rightarrow> nat list \<Rightarrow> audit_row list \<Rightarrow> audit_row list" where
  "delete_chunks n ids rows =
     (if ids = [] \<or> n = 0 then rows
      else delete_chunks n (drop n ids) (filter (\<lambda>r. row_id r \<notin> set (take n ids)) rows))"
  by pat_completeness auto
termination
  by (relation "measure (\<lambda>(n, ids, rows). length ids)") auto

definition gap_marker :: "nat list \<Rightarrow> int option \<Rightarrow> audit_event" where
  "gap_marker ids org =
     (let runs = contiguous_runs (map int ids)
      in \<lparr>e_action = ''audit.purge'', e_user = None, e_resource_type = ''audit_log'',
          e_resource_id = (if runs = [] then ''gap:none''
            else ''gap:'' @ show_int (fst (hd runs)) @ ''..'' @ show_int (snd (last runs))),
          e_details = Inr (JObj [(''deleted'', JInt (int (length ids))),
            (''gaps'', JList (map (\<lambda>(lo, hi). JList [JInt lo, JInt hi]) runs)), (''org_id'', opt_json JInt org)]),
          e_ip = None, e_agent = None, e_severity = ''critical'', e_org = org\<rparr>)"

definition delete_ids :: "codec \<Rightarrow> bool \<Rightarrow> pyfloat \<Rightarrow> nat list \<Rightarrow> int option \<Rightarrow> audit_db \<Rightarrow> audit_db" where
  "delete_ids cd db_ok now ids org db =
     (if ids = [] then db
      else
        let ids = map row_id (filter (\<lambda>r. row_id r \<in> set ids) (audit_rows db));
            db = db\<lparr>audit_rows := delete_chunks DELETE_CHUNK ids (audit_rows db)\<rparr>
        in snd (append_audit_row cd db_ok now (gap_marker ids org) db))"

definition select_ids :: "pyfloat \<Rightarrow> string option \<Rightarrow> int option \<Rightarrow> audit_db \<Rightarrow> nat list" where
  "select_ids cutoff sev org db = map row_id (filter (\<lambda>r. a_created r < cutoff \<and> (sev = None \<or> sev = Some (a_severity r))
     \<and> (org = None \<or> a_org r = org)) (audit_rows db))"

text \<open>Clock and retention are in days. The result is the number per class, deleted or to be deleted.\<close>

definition purge_audit_logs :: "codec \<Rightarrow> bool \<Rightarrow> pyfloat \<Rightarrow> nat option \<Rightarrow> bool \<Rightarrow> int option \<Rightarrow> audit_db \<Rightarrow>
    (string \<times> nat) list \<times> audit_db" where
  "purge_audit_logs cd db_ok now retention dry_run org db =
     (case retention of
        Some days \<Rightarrow>
          let ids = select_ids (now - of_nat days) None org db
          in if dry_run then ([(''would_delete'', length ids)], db)
             else ([(''deleted'', length ids)], delete_ids cd db_ok now ids org db)
      | None \<Rightarrow>
          let sel = map (\<lambda>(sev, days). (sev, select_ids (now - of_nat days) (Some sev) org db)) DEFAULT_RETENTION;
              counts = map (\<lambda>(sev, ids). (sev, length ids)) sel;
              all_ids = concat (map snd sel)
          in if dry_run \<or> all_ids = [] then (counts, db) else (counts, delete_ids cd db_ok now all_ids org db))"


section \<open>Deletion and gap runs\<close>

declare delete_chunks.simps [simp del]

lemma delete_chunks_filter: "0 < n \<Longrightarrow> delete_chunks n ids rows = filter (\<lambda>r. row_id r \<notin> set ids) rows"
proof (induction n ids rows rule: delete_chunks.induct)
  case (1 n ids rows)
  show ?case
  proof (cases "ids = []")
    case False
    have "set ids = set (take n ids) \<union> set (drop n ids)" by (metis append_take_drop_id set_append)
    then show ?thesis using 1 False by (auto simp: delete_chunks.simps [of n ids rows] intro!: filter_cong)
  qed (simp add: delete_chunks.simps)
qed

definition covers :: "(int \<times> int) list \<Rightarrow> int \<Rightarrow> bool" where
  "covers gaps i \<longleftrightarrow> (\<exists>(lo, hi) \<in> set gaps. lo \<le> i \<and> i \<le> hi)"

lemma covers_append [simp]: "covers (xs @ ys) i \<longleftrightarrow> covers xs i \<or> covers ys i"
  by (auto simp: covers_def)

lemma covers_single [simp]: "covers [(lo, hi)] i \<longleftrightarrow> lo \<le> i \<and> i \<le> hi"
  by (simp add: covers_def)

lemma covers_Nil [simp]: "\<not> covers [] i"
  by (simp add: covers_def)

lemma in_purged_covers: "in_purged gaps i \<longleftrightarrow> covers gaps (int i)"
  by (simp add: in_purged_def covers_def list_ex_iff)

definition runs_wf :: "(int \<times> int) list \<Rightarrow> bool" where
  "runs_wf runs \<longleftrightarrow> list_all (\<lambda>(lo, hi). lo \<le> hi) runs"

lemma extend_run_covers:
  assumes "runs_wf runs"
  shows "covers (extend_run runs i) j \<longleftrightarrow> covers runs j \<or> j = i" and "runs_wf (extend_run runs i)"
proof -
  have "(covers (extend_run runs i) j \<longleftrightarrow> covers runs j \<or> j = i) \<and> runs_wf (extend_run runs i)"
  proof (cases "runs \<noteq> [] \<and> i = snd (last runs) + 1")
    case True
    then obtain xs lo hi where r: "runs = xs @ [(lo, hi)]" by (metis append_butlast_last_id prod.collapse)
    then show ?thesis using True assms by (auto simp: extend_run_def runs_wf_def)
  next
    case False
    then show ?thesis using assms by (auto simp: extend_run_def runs_wf_def)
  qed
  then show "covers (extend_run runs i) j \<longleftrightarrow> covers runs j \<or> j = i" and "runs_wf (extend_run runs i)" by auto
qed

lemma foldl_runs_cover:
  "runs_wf runs \<Longrightarrow> (covers (foldl extend_run runs is) j \<longleftrightarrow> covers runs j \<or> j \<in> set is) \<and> runs_wf (foldl extend_run runs is)"
  by (induction "is" arbitrary: runs) (auto simp: extend_run_covers)

lemma contiguous_runs_cover: "covers (contiguous_runs ids) i \<longleftrightarrow> i \<in> set ids"
  using foldl_runs_cover [of "[]" "sort ids" i] by (simp add: contiguous_runs_def runs_wf_def)

section \<open>The chain invariant\<close>

definition linked :: "audit_row list \<Rightarrow> audit_row \<Rightarrow> bool" where
  "linked rows r = (case predecessor rows (row_id r) of
     Some p \<Rightarrow> a_prev r = a_hash p \<or> row_id p + 1 < row_id r
   | None \<Rightarrow> a_prev r = '''' \<or> 1 < row_id r)"

definition hashed :: "codec \<Rightarrow> audit_row \<Rightarrow> bool" where
  "hashed cd r \<longleftrightarrow> a_hash r = compute_row_hash cd (a_prev r) (a_action r) (a_user r) (a_resource_id r) (a_details r) (a_ip r)"

text \<open>Rows in id order below the counter, correctly hashed and linked; every missing id is recorded.\<close>

definition rows_ok :: "codec \<Rightarrow> audit_db \<Rightarrow> bool" where
  "rows_ok cd db \<longleftrightarrow> sorted_wrt (<) (map row_id (audit_rows db)) \<and> 1 \<le> next_id db \<and>
     (\<forall>r \<in> set (audit_rows db). 1 \<le> row_id r \<and> row_id r < next_id db \<and> hashed cd r \<and> linked (audit_rows db) r)"

definition missing_recorded :: "codec \<Rightarrow> audit_db \<Rightarrow> bool" where
  "missing_recorded cd db \<longleftrightarrow> (\<forall>i. 1 \<le> i \<and> i < next_id db \<longrightarrow>
     i \<in> row_id ` set (audit_rows db) \<or> in_purged (load_purged_ids cd (audit_rows db)) i)"

definition chain_inv :: "codec \<Rightarrow> audit_db \<Rightarrow> bool" where
  "chain_inv cd db \<longleftrightarrow> rows_ok cd db \<and> missing_recorded cd db"

text \<open>Facts about the join.\<close>

lemma last_filter_sorted:
  assumes "sorted_wrt (<) (map f xs)" and "filter P xs \<noteq> []"
  shows "last (filter P xs) \<in> set xs \<and> P (last (filter P xs)) \<and> (\<forall>x \<in> set xs. P x \<longrightarrow> f x \<le> (f (last (filter P xs)) :: nat))"
proof -
  have "sorted_wrt (<) (map f (filter P xs))" using assms(1) by (simp add: sorted_wrt_map sorted_wrt_filter)
  moreover have split: "filter P xs = butlast (filter P xs) @ [last (filter P xs)]" using assms(2) by simp
  ultimately have lt: "\<forall>x \<in> set (butlast (filter P xs)). f x < f (last (filter P xs))"
    by (metis sorted_wrt_append sorted_wrt_map list.set_intros(1))
  have "f x \<le> f (last (filter P xs))" if "x \<in> set xs" "P x" for x
  proof -
    have "x \<in> set (filter P xs)" using that by simp
    then have "x \<in> set (butlast (filter P xs) @ [last (filter P xs)])" by (simp only: split [symmetric])
    then show ?thesis using lt by auto
  qed
  moreover have "last (filter P xs) \<in> set (filter P xs)" using assms(2) by (rule last_in_set)
  ultimately show ?thesis by auto
qed

lemma predecessor_Some:
  assumes "sorted_wrt (<) (map row_id rows)" and "predecessor rows i = Some p"
  shows "p \<in> set rows" "row_id p < i" "x \<in> set rows \<Longrightarrow> row_id x < i \<Longrightarrow> row_id x \<le> row_id p"
  using assms last_filter_sorted [of row_id rows "\<lambda>x. row_id x < i"]
  by (auto simp: predecessor_def Let_def split: if_splits)

lemma predecessor_None: "predecessor rows i = None \<longleftrightarrow> (\<forall>x \<in> set rows. \<not> row_id x < i)"
  by (simp add: predecessor_def Let_def filter_empty_conv)

lemma predecessor_unique:
  assumes "sorted_wrt (<) (map row_id rows)" and "p \<in> set rows" "row_id p < i"
    and "\<And>x. x \<in> set rows \<Longrightarrow> row_id x < i \<Longrightarrow> row_id x \<le> row_id p"
  shows "predecessor rows i = Some p"
proof (cases "predecessor rows i")
  case None
  then show ?thesis using assms(2,3) by (auto simp: predecessor_None)
next
  case (Some q)
  have "row_id q = row_id p"
    using predecessor_Some [OF assms(1) Some] assms(2-4) by (meson le_antisym)
  moreover have "inj_on row_id (set rows)"
    using assms(1) strict_sorted_iff [of "map row_id rows"] by (auto simp: distinct_map)
  ultimately show ?thesis using Some predecessor_Some(1) [OF assms(1) Some] assms(2) by (auto dest: inj_onD)
qed

lemma load_purged_append: "load_purged_ids cd (xs @ ys) = load_purged_ids cd xs @ load_purged_ids cd ys"
  by (simp add: load_purged_ids_def)


lemma predecessor_append_other:
  "i \<le> row_id r \<Longrightarrow> predecessor (rows @ [r]) i = predecessor rows i"
  by (simp add: predecessor_def Let_def)

lemma predecessor_last:
  "\<forall>x \<in> set rows. row_id x < n \<Longrightarrow> predecessor rows n = (if rows = [] then None else Some (last rows))"
proof -
  assume "\<forall>x \<in> set rows. row_id x < n"
  then have "filter (\<lambda>x. row_id x < n) rows = rows" by (simp add: filter_id_conv)
  then show ?thesis by (simp add: predecessor_def)
qed

lemma bex_weaken: "\<exists>x \<in> A. P x \<Longrightarrow> (\<And>x. P x \<Longrightarrow> Q x) \<Longrightarrow> \<exists>x \<in> A. Q x" by blast

text \<open>An intact chain passes, whatever slice of it is checked.\<close>

lemma chain_row_passes:
  assumes inv: "chain_inv cd db" and r: "r \<in> set (audit_rows db)"
  shows "check_row cd (load_purged_ids cd (audit_rows db)) (audit_rows db) r = None"
proof -
  let ?rows = "audit_rows db"
  let ?P = "load_purged_ids cd ?rows"
  have sorted: "sorted_wrt (<) (map row_id ?rows)" and hr: "hashed cd r" and lr: "linked ?rows r"
    and range: "1 \<le> row_id r" "row_id r < next_id db"
    using inv r by (auto simp: chain_inv_def rows_ok_def)
  have rec: "in_purged ?P i" if "1 \<le> i" "i < row_id r" "i \<notin> row_id ` set ?rows" for i
    using inv that range(2) unfolding chain_inv_def missing_recorded_def by auto
  have "gap_explains ?P (map_option row_id (predecessor ?rows (row_id r))) (row_id r)"
    if mis: "a_prev r \<noteq> (case predecessor ?rows (row_id r) of None \<Rightarrow> '''' | Some p \<Rightarrow> a_hash p)"
  proof (cases "predecessor ?rows (row_id r)")
    case None
    then have none: "\<And>i. i < row_id r \<Longrightarrow> i \<notin> row_id ` set ?rows" by (auto simp: predecessor_None)
    have gt: "1 < row_id r" using lr mis None by (simp add: linked_def)
    then have "in_purged ?P 1" by (intro rec none) auto
    then have "list_ex (\<lambda>(lo, hi). lo \<le> hi) ?P"
      unfolding in_purged_def list_ex_iff by (rule bex_weaken) auto
    then show ?thesis using gt rec none by (auto simp: gap_explains_def None list_all_iff)
  next
    case (Some p)
    note ps = predecessor_Some [OF sorted Some]
    have none: "i \<notin> row_id ` set ?rows" if "row_id p < i" "i < row_id r" for i
      using ps(3) that by fastforce
    have "row_id p + 1 < row_id r" using lr mis Some by (simp add: linked_def)
    then show ?thesis using rec none by (auto simp: gap_explains_def Some list_all_iff)
  qed
  then show ?thesis using hr by (simp add: check_row_def Let_def hashed_def)
qed

lemma first_violation_None: "first_violation chk rows = None \<longleftrightarrow> (\<forall>r \<in> set rows. chk r = None)"
  by (induction rows) (auto split: option.splits)

definition slice :: "int option \<Rightarrow> nat option \<Rightarrow> audit_row list \<Rightarrow> audit_row list" where
  "slice org limit table =
     (let rows = (case org of None \<Rightarrow> table | Some i \<Rightarrow> filter (\<lambda>r. a_org r = Some i) table)
      in case limit of None \<Rightarrow> rows | Some n \<Rightarrow> rev (take n (rev rows)))"

lemma set_slice: "set (slice org limit table) \<subseteq> set table"
  by (auto simp: slice_def Let_def split: option.splits dest: in_set_takeD)

lemma verify_valid_iff:
  "valid (verify_audit_chain cd org limit table) \<longleftrightarrow>
     (\<forall>r \<in> set (slice org limit table). check_row cd (load_purged_ids cd table) table r = None)"
  unfolding first_violation_None [symmetric] slice_def verify_audit_chain_def Let_def by (simp split: option.splits)

section \<open>Preservation\<close>

lemma chain_inv_empty: "chain_inv cd empty_audit_db"
  by (simp add: chain_inv_def rows_ok_def missing_recorded_def empty_audit_db_def)

text \<open>An append, from any state in which the missing ids may be recorded by the new row itself.\<close>

lemma append_row:
  assumes "append_audit_row cd True now e db = (b, db')"
  obtains r where "audit_rows db' = audit_rows db @ [r]" "next_id db' = next_id db + 1" "row_id r = next_id db"
    "a_prev r = last_hash (audit_rows db)" "hashed cd r" "a_action r = e_action e" "a_details r = details_json cd (e_details e)"
    "a_created r = now"
  using assms by (fastforce simp: append_audit_row_def Let_def hashed_def)

lemma append_rows_ok:
  assumes ok: "rows_ok cd db" and app: "append_audit_row cd True now e db = (b, db')"
  shows "rows_ok cd db'"
proof -
  obtain r where r: "audit_rows db' = audit_rows db @ [r]" "next_id db' = next_id db + 1" "row_id r = next_id db"
    "a_prev r = last_hash (audit_rows db)" "hashed cd r"
    using append_row [OF app] by metis
  have below: "\<forall>x \<in> set (audit_rows db). row_id x < next_id db" using ok by (auto simp: rows_ok_def)
  have "predecessor (audit_rows db') (row_id r) = (if audit_rows db = [] then None else Some (last (audit_rows db)))"
    unfolding r(1) using predecessor_last [OF below] by (simp add: predecessor_append_other r(3))
  then have "linked (audit_rows db') r" using r(4) by (simp add: linked_def last_hash_def)
  moreover have "linked (audit_rows db') x" if "x \<in> set (audit_rows db)" for x
    using ok that below by (auto simp: linked_def r(1,3) predecessor_append_other rows_ok_def)
  ultimately show ?thesis
    using ok below r(2,3,5) unfolding rows_ok_def r(1) by (auto simp: sorted_wrt_append)
qed

lemma append_chain_inv:
  assumes "chain_inv cd db"
  shows "chain_inv cd (snd (append_audit_row cd db_ok now e db))"
proof (cases db_ok)
  case True
  obtain b db' where app: "append_audit_row cd True now e db = (b, db')" by force
  obtain r where r: "audit_rows db' = audit_rows db @ [r]" "next_id db' = next_id db + 1" "row_id r = next_id db"
    using append_row [OF app] by metis
  have "missing_recorded cd db'"
    using assms by (auto simp: chain_inv_def missing_recorded_def r load_purged_append in_purged_covers less_Suc_eq)
  then show ?thesis using append_rows_ok [OF _ app] assms True app by (simp add: chain_inv_def)
qed (use assms in \<open>simp add: append_audit_row_def\<close>)


lemma predecessor_filter:
  assumes sorted: "sorted_wrt (<) (map row_id rows)" and "predecessor rows i = Some p" and "P p"
  shows "predecessor (filter P rows) i = Some p"
proof -
  note ps = predecessor_Some [OF sorted assms(2)]
  show ?thesis
    by (rule predecessor_unique) (use sorted ps assms(3) in \<open>auto simp: sorted_wrt_map sorted_wrt_filter\<close>)
qed

text \<open>Deleting rows keeps the survivors linked: a survivor that loses its predecessor gains a gap.\<close>

lemma filter_linked:
  assumes sorted: "sorted_wrt (<) (map row_id rows)" and pos: "\<forall>x \<in> set rows. 1 \<le> row_id x"
    and r: "r \<in> set rows" and lr: "linked rows r"
  shows "linked (filter P rows) r"
proof (cases "predecessor rows (row_id r)")
  case None
  then have "predecessor (filter P rows) (row_id r) = None" by (auto simp: predecessor_None)
  then show ?thesis using None lr by (simp add: linked_def)
next
  case (Some p)
  note ps = predecessor_Some [OF sorted Some]
  show ?thesis
  proof (cases "P p")
    case True
    then show ?thesis using predecessor_filter [OF sorted Some] Some lr by (simp add: linked_def)
  next
    case False
    have s': "sorted_wrt (<) (map row_id (filter P rows))" using sorted by (simp add: sorted_wrt_map sorted_wrt_filter)
    show ?thesis
    proof (cases "predecessor (filter P rows) (row_id r)")
      case None
      then show ?thesis using ps(1,2) pos by (auto simp: linked_def)
    next
      case (Some q)
      note qs = predecessor_Some [OF s' Some]
      have "q \<noteq> p" "q \<in> set rows" using qs(1) False by auto
      moreover have "row_id q \<noteq> row_id p"
        using sorted strict_sorted_iff [of "map row_id rows"] \<open>q \<noteq> p\<close> \<open>q \<in> set rows\<close> ps(1)
        by (auto simp: distinct_map dest: inj_onD)
      ultimately have "row_id q < row_id p" using ps(3) [of q] qs(2) by auto
      then show ?thesis using Some ps(2) by (simp add: linked_def)
    qed
  qed
qed

lemma filter_rows_ok: "rows_ok cd db \<Longrightarrow> rows_ok cd (db\<lparr>audit_rows := filter P (audit_rows db)\<rparr>)"
  using filter_linked [of "audit_rows db" _ P] by (auto simp: rows_ok_def sorted_wrt_map sorted_wrt_filter)

lemma marker_gaps_marker:
  assumes "\<And>j. loads cd (dumps cd j) = Some j"
  shows "marker_gaps cd (details_json cd (e_details (gap_marker ids org))) = contiguous_runs (map int ids)"
proof -
  have "gap_pairs (map (\<lambda>(lo, hi). JList [JInt lo, JInt hi]) runs) = runs" for runs
    by (induction runs) auto
  then show ?thesis by (simp add: marker_gaps_def gap_marker_def details_json_def Let_def assms get_json_def)
qed

text \<open>A purge that deletes no gap marker and records its own.\<close>

lemma delete_ids_chain_inv:
  assumes inv: "chain_inv cd db" and codec: "\<And>j. loads cd (dumps cd j) = Some j"
    and keep: "\<forall>r \<in> set (audit_rows db). a_action r = ''audit.purge'' \<longrightarrow> row_id r \<notin> set ids"
  shows "chain_inv cd (delete_ids cd True now ids org db)"
proof (cases "ids = []")
  case True
  then show ?thesis using inv by (simp add: delete_ids_def)
next
  case False
  let ?ids = "map row_id (filter (\<lambda>r. row_id r \<in> set ids) (audit_rows db))"
  define del where "del = db\<lparr>audit_rows := filter (\<lambda>r. row_id r \<notin> set ?ids) (audit_rows db)\<rparr>"
  obtain b db' where app: "append_audit_row cd True now (gap_marker ?ids org) del = (b, db')" by force
  obtain r where r: "audit_rows db' = audit_rows del @ [r]" "next_id db' = next_id del + 1" "row_id r = next_id del"
      "a_action r = ''audit.purge''" "a_details r = details_json cd (e_details (gap_marker ?ids org))"
    using append_row [OF app] by (metis (no_types, lifting) gap_marker_def audit_event.select_convs(1))
  have res: "delete_ids cd True now ids org db = db'"
    using False app by (simp add: delete_ids_def Let_def delete_chunks_filter DELETE_CHUNK_def del_def)
  have "rows_ok cd db'"
    using append_rows_ok [OF _ app] filter_rows_ok inv unfolding del_def chain_inv_def by blast
  moreover have "load_purged_ids cd (audit_rows db') = load_purged_ids cd (audit_rows db) @ contiguous_runs (map int ?ids)"
  proof -
    have "filter (\<lambda>r. a_action r = ''audit.purge'') (audit_rows del) = filter (\<lambda>r. a_action r = ''audit.purge'') (audit_rows db)"
      unfolding del_def using keep by (auto intro!: filter_cong)
    then have "load_purged_ids cd (audit_rows del) = load_purged_ids cd (audit_rows db)" by (simp add: load_purged_ids_def)
    then show ?thesis
      unfolding r(1) load_purged_append
      by (simp add: load_purged_ids_def [of cd "[r]"] r(4,5) marker_gaps_marker [OF codec])
  qed
  moreover have "int i \<in> set (map int ?ids)" if "i \<in> row_id ` set (audit_rows db)" "i \<notin> row_id ` set (audit_rows del)" for i
    using that by (auto simp: del_def)
  ultimately have "missing_recorded cd db'"
    using inv unfolding chain_inv_def missing_recorded_def r(2) in_purged_covers
    by (auto simp: r(1,3) contiguous_runs_cover less_Suc_eq del_def simp del: set_map)
  with \<open>rows_ok cd db'\<close> show ?thesis unfolding res chain_inv_def by blast
qed


text \<open>The ids a purge selects.\<close>

definition purge_selection :: "pyfloat \<Rightarrow> nat option \<Rightarrow> int option \<Rightarrow> audit_db \<Rightarrow> nat list" where
  "purge_selection now retention org db =
     (case retention of
        Some days \<Rightarrow> select_ids (now - of_nat days) None org db
      | None \<Rightarrow> concat (map (\<lambda>(sev, days). select_ids (now - of_nat days) (Some sev) org db) DEFAULT_RETENTION))"

lemma purge_is_delete:
  "snd (purge_audit_logs cd db_ok now retention dry org db) =
     (if dry then db else delete_ids cd db_ok now (purge_selection now retention org db) org db)"
  by (auto simp: purge_audit_logs_def purge_selection_def Let_def delete_ids_def comp_def split_beta split: option.splits)

text \<open>States reached by appends (committed or failed) and purges that select no gap marker.\<close>

inductive audit_reachable :: "codec \<Rightarrow> audit_db \<Rightarrow> bool" for cd where
  init: "audit_reachable cd empty_audit_db"
| append: "audit_reachable cd db \<Longrightarrow> audit_reachable cd (snd (append_audit_row cd db_ok now e db))"
| purge: "audit_reachable cd db \<Longrightarrow>
    \<forall>r \<in> set (audit_rows db). a_action r = ''audit.purge'' \<longrightarrow> row_id r \<notin> set (purge_selection now retention org db) \<Longrightarrow>
    audit_reachable cd (snd (purge_audit_logs cd True now retention dry org db))"

lemma reachable_chain_inv:
  assumes "audit_reachable cd db" and "\<And>j. loads cd (dumps cd j) = Some j"
  shows "chain_inv cd db"
  using assms(1)
  by (induction rule: audit_reachable.induct)
     (auto simp: chain_inv_empty append_chain_inv purge_is_delete intro: delete_ids_chain_inv [OF _ assms(2)])

section \<open>Properties\<close>

text \<open>
  C9. Honest histories verify. After any sequence of appends and retention purges (none of which
  deletes a gap marker) the verifier accepts the log, for every organisation and every limit.
\<close>

theorem honest_log_verifies:
  assumes "audit_reachable cd db" and "\<And>j. loads cd (dumps cd j) = Some j"
  shows "valid (verify_audit_chain cd org limit (audit_rows db))"
  unfolding verify_valid_iff
  using chain_row_passes [OF reachable_chain_inv [OF assms]] set_slice by blast

text \<open>A stand-in codec for the witnesses: decoding inverts encoding, the digest is never empty.\<close>

definition toy_codec :: codec where
  "toy_codec = \<lparr>sha256 = (\<lambda>s. CHR ''#'' # s), dumps = (\<lambda>j. replicate (to_nat j) CHR ''j''),
     loads = (\<lambda>s. Some (from_nat (length s)))\<rparr>"

lemma toy_codec_loads: "loads toy_codec (dumps toy_codec j) = Some j"
  by (simp add: toy_codec_def)

definition demo_event :: "string \<Rightarrow> audit_event" where
  "demo_event a = \<lparr>e_action = a, e_user = Some 7, e_resource_type = ''t'', e_resource_id = ''r'', e_details = Inl ''d'',
     e_ip = None, e_agent = None, e_severity = ''low'', e_org = None\<rparr>"

definition demo_log :: audit_db where
  "demo_log = snd (append_audit_row toy_codec True 35 (demo_event ''c'') (snd (append_audit_row toy_codec True 1
     (demo_event ''b'') (snd (append_audit_row toy_codec True 0 (demo_event ''a'') empty_audit_db)))))"

lemma demo_log_reachable: "audit_reachable toy_codec demo_log"
  unfolding demo_log_def by (intro audit_reachable.intros)

lemma demo_log_rows: "map a_action (audit_rows demo_log) = [''a'', ''b'', ''c'']"
  by (simp add: demo_log_def append_audit_row_def Let_def demo_event_def empty_audit_db_def)

theorem honest_log_verifies_witness:
  "valid (verify_audit_chain toy_codec None None (audit_rows (snd (purge_audit_logs toy_codec True 40 (Some 30) False None demo_log))))"
proof -
  have "\<forall>r \<in> set (audit_rows demo_log). a_action r \<noteq> ''audit.purge''"
    using demo_log_rows by (auto simp: map_eq_Cons_conv)
  then have "audit_reachable toy_codec (snd (purge_audit_logs toy_codec True 40 (Some 30) False None demo_log))"
    using demo_log_reachable by (intro audit_reachable.purge) auto
  then show ?thesis by (rule honest_log_verifies) (rule toy_codec_loads)
qed


text \<open>
  A row after a purge gap is not protected. When a row's predecessor was purged, so that its link
  only passes because the gap is recorded, its action, user, resource, details and address can be
  rewritten without any effect on the verification: the verifier skips the recomputation of its hash.
\<close>

lemma tampering_after_gap_undetected:
  assumes "chain_inv cd db" and "audit_rows db = xs @ r # ys"
    and "a_prev r \<noteq> (case predecessor (audit_rows db) (row_id r) of None \<Rightarrow> '''' | Some p \<Rightarrow> a_hash p)"
    and "a_action r \<noteq> ''audit.purge''" "act \<noteq> ''audit.purge''"
    and "r' = r\<lparr>a_action := act, a_user := u, a_resource_id := rid, a_details := det, a_ip := ip\<rparr>"
  shows "valid (verify_audit_chain cd org limit (xs @ r' # ys))"
proof -
  let ?rows = "xs @ r # ys" and ?rows' = "xs @ r' # ys"
  have purged: "load_purged_ids cd ?rows' = load_purged_ids cd ?rows"
    using assms(4-6) by (simp add: load_purged_ids_def)
  have pid: "map_option row_id (predecessor ?rows' i) = map_option row_id (predecessor ?rows i)"
    and ph: "map_option a_hash (predecessor ?rows' i) = map_option a_hash (predecessor ?rows i)" for i
    by (simp_all add: predecessor_def Let_def assms(6))
  have hash: "(case predecessor ?rows' i of None \<Rightarrow> '''' | Some p \<Rightarrow> a_hash p) =
      (case predecessor ?rows i of None \<Rightarrow> '''' | Some p \<Rightarrow> a_hash p)" for i
    using ph [of i] by (auto split: option.splits)
  have old: "check_row cd (load_purged_ids cd ?rows) ?rows x = None" if "x \<in> set ?rows" for x
    using chain_row_passes [OF assms(1)] that assms(2) by simp
  have "check_row cd (load_purged_ids cd ?rows') ?rows' x = None" if "x \<in> set ?rows'" for x
  proof (cases "x = r'")
    case True
    have "check_row cd (load_purged_ids cd ?rows) ?rows r = None" by (rule old) simp
    then show ?thesis
      using assms(3) unfolding True check_row_def Let_def purged hash pid assms(2)
      by (simp add: assms(6) split: if_splits)
  next
    case False
    then have "x \<in> set ?rows" using that by auto
    from old [OF this] show ?thesis unfolding check_row_def Let_def purged hash pid .
  qed
  then show ?thesis unfolding verify_valid_iff using set_slice by blast
qed


text \<open>The table a purge leaves: the unselected rows, then the marker of the deleted ones.\<close>

lemma delete_ids_rows:
  assumes "ids \<noteq> []"
  obtains m where "audit_rows (delete_ids cd True now ids org db) = filter (\<lambda>x. row_id x \<notin> set ids) (audit_rows db) @ [m]"
    "row_id m = next_id db" "a_action m = ''audit.purge''"
    "a_details m = details_json cd (e_details (gap_marker (map row_id (filter (\<lambda>r. row_id r \<in> set ids) (audit_rows db))) org))"
    "next_id (delete_ids cd True now ids org db) = next_id db + 1"
    "a_created m = now" "a_prev m = last_hash (filter (\<lambda>x. row_id x \<notin> set ids) (audit_rows db))"
proof -
  let ?ids = "map row_id (filter (\<lambda>r. row_id r \<in> set ids) (audit_rows db))"
  have "filter (\<lambda>r. row_id r \<notin> set ?ids) (audit_rows db) = filter (\<lambda>x. row_id x \<notin> set ids) (audit_rows db)"
    by (rule filter_cong) auto
  then have eq: "delete_chunks DELETE_CHUNK ?ids (audit_rows db) = filter (\<lambda>x. row_id x \<notin> set ids) (audit_rows db)"
    by (simp only: delete_chunks_filter DELETE_CHUNK_def zero_less_numeral)
  obtain b db' where app: "append_audit_row cd True now (gap_marker ?ids org)
      (db\<lparr>audit_rows := filter (\<lambda>x. row_id x \<notin> set ids) (audit_rows db)\<rparr>) = (b, db')" by force
  have res: "delete_ids cd True now ids org db = db'" using assms app by (simp add: delete_ids_def Let_def eq)
  have act: "e_action (gap_marker ?ids org) = ''audit.purge''" by (simp add: gap_marker_def Let_def)
  show thesis
    by (rule append_row [OF app], rule that) (simp_all add: res act)
qed

text \<open>
  Purging a gap marker makes an honest log fail. If a purge deletes everything before a surviving
  row \<open>s\<close>, among it the marker of an earlier purge, and some id below \<open>s\<close> removed by that earlier purge
  is recorded by no surviving marker, the verifier reports a fork or deleted link although every row
  was removed by the retention job.
\<close>

lemma purged_marker_false_alarm:
  assumes inv: "chain_inv cd db" and codec: "\<And>j. loads cd (dumps cd j) = Some j"
    and s: "s \<in> set (audit_rows db)" "row_id s \<notin> set ids" "a_prev s \<noteq> ''''" and "ids \<noteq> []"
    and before: "\<forall>x \<in> set (audit_rows db). row_id x < row_id s \<longrightarrow> row_id x \<in> set ids"
    and lost: "1 \<le> i" "i < row_id s" "i \<notin> row_id ` set (audit_rows db)"
      "\<not> in_purged (load_purged_ids cd (filter (\<lambda>x. row_id x \<notin> set ids) (audit_rows db))) i"
  shows "\<not> valid (verify_audit_chain cd None None (audit_rows (delete_ids cd True now ids org db)))"
proof -
  let ?keep = "filter (\<lambda>x. row_id x \<notin> set ids) (audit_rows db)"
  let ?del = "map row_id (filter (\<lambda>r. row_id r \<in> set ids) (audit_rows db))"
  obtain m where m: "audit_rows (delete_ids cd True now ids org db) = ?keep @ [m]" "row_id m = next_id db"
      "a_action m = ''audit.purge''" "a_details m = details_json cd (e_details (gap_marker ?del org))"
    by (rule delete_ids_rows [OF \<open>ids \<noteq> []\<close>, of cd now org db]) (rule that; assumption)
  have "row_id s < next_id db" using inv s(1) by (auto simp: chain_inv_def rows_ok_def)
  then have none: "predecessor (?keep @ [m]) (row_id s) = None"
    using before m(2) by (auto simp: predecessor_None)
  have purged: "load_purged_ids cd (?keep @ [m]) = load_purged_ids cd ?keep @ contiguous_runs (map int ?del)"
    unfolding load_purged_append by (simp add: load_purged_ids_def [of cd "[m]"] m(3,4) marker_gaps_marker [OF codec])
  have "int i \<notin> set (map int ?del)" using lost(3) by auto
  then have "\<not> in_purged (load_purged_ids cd (?keep @ [m])) i"
    using lost(4) unfolding purged in_purged_covers covers_append contiguous_runs_cover by blast
  then have "\<not> gap_explains (load_purged_ids cd (?keep @ [m])) None (row_id s)"
    using lost(1,2) by (auto simp: gap_explains_def list_all_iff)
  then have "check_row cd (load_purged_ids cd (?keep @ [m])) (?keep @ [m]) s \<noteq> None"
    using s(3) none by (simp add: check_row_def Let_def)
  moreover have "s \<in> set (?keep @ [m])" using s by simp
  ultimately show ?thesis unfolding m(1) by (auto simp: verify_valid_iff slice_def)
qed

lemma show_int_eval: "show_int 7 = ''7''"
  by code_simp

definition demo_row :: "nat \<Rightarrow> string \<Rightarrow> string \<Rightarrow> string \<Rightarrow> pyfloat \<Rightarrow> audit_row" where
  "demo_row i a p h t = \<lparr>row_id = i, a_action = a, a_user = 7, a_resource_type = ''t'', a_resource_id = ''r'', a_details = ''d'',
     a_ip = None, a_agent = None, a_prev = p, a_hash = h, a_org = None, a_severity = ''low'', a_created = t\<rparr>"

lemma demo_row_simps [simp]: "row_id (demo_row i a p h t) = i" "a_action (demo_row i a p h t) = a" "a_prev (demo_row i a p h t) = p"
  "a_hash (demo_row i a p h t) = h" "a_created (demo_row i a p h t) = t"
  by (simp_all add: demo_row_def)

lemma demo_log_eval:
  "audit_rows demo_log = [demo_row 1 ''a'' '''' ''#|a|7|r|d|'' 0, demo_row 2 ''b'' ''#|a|7|r|d|'' ''##|a|7|r|d||b|7|r|d|'' 1,
     demo_row 3 ''c'' ''##|a|7|r|d||b|7|r|d|'' ''###|a|7|r|d||b|7|r|d||c|7|r|d|'' 35]" "next_id demo_log = 4"
  by (simp_all add: demo_log_def append_audit_row_def Let_def demo_event_def empty_audit_db_def last_hash_def
        compute_row_hash_def canonical_def details_json_def toy_codec_def show_int_eval demo_row_def)

lemma demo_log_inv: "chain_inv toy_codec demo_log"
  by (rule reachable_chain_inv [OF demo_log_reachable toy_codec_loads])


text \<open>The demo log after a first purge of its two oldest rows.\<close>

definition demo_purged :: audit_db where
  "demo_purged = delete_ids toy_codec True 40 [1, 2] None demo_log"

lemma demo_purged_inv: "chain_inv toy_codec demo_purged"
  unfolding demo_purged_def by (rule delete_ids_chain_inv [OF demo_log_inv toy_codec_loads]) (simp add: demo_log_eval)

lemma demo_purged_eval:
  obtains m where "audit_rows demo_purged = [demo_row 3 ''c'' ''##|a|7|r|d||b|7|r|d|'' ''###|a|7|r|d||b|7|r|d||c|7|r|d|'' 35, m]"
    "row_id m = 4" "next_id demo_purged = 5" "a_action m = ''audit.purge''" "a_hash m \<noteq> ''''"
proof -
  obtain m where m: "audit_rows demo_purged = filter (\<lambda>x. row_id x \<notin> set [1, 2]) (audit_rows demo_log) @ [m]"
      "row_id m = next_id demo_log" "a_action m = ''audit.purge''" "next_id demo_purged = next_id demo_log + 1"
    unfolding demo_purged_def by (rule delete_ids_rows [of "[1, 2]" toy_codec 40 None demo_log]) simp_all
  have "hashed toy_codec m" using demo_purged_inv m(1) by (simp add: chain_inv_def rows_ok_def)
  then have "a_hash m \<noteq> ''''" by (simp add: hashed_def compute_row_hash_def toy_codec_def)
  then show thesis using m by (intro that [of m]) (simp_all add: demo_log_eval)
qed

lemma tampering_after_gap_undetected_witness:
  "\<exists>r ys. audit_rows demo_purged = r # ys \<and> a_action r = ''c''
    \<and> valid (verify_audit_chain toy_codec None None (r\<lparr>a_action := ''forged'', a_user := 0, a_resource_id := ''x'',
        a_details := ''y'', a_ip := None\<rparr> # ys))"
proof -
  let ?c = "demo_row 3 ''c'' ''##|a|7|r|d||b|7|r|d|'' ''###|a|7|r|d||b|7|r|d||c|7|r|d|'' 35"
  obtain m where m: "audit_rows demo_purged = [?c, m]" "row_id m = 4" by (rule demo_purged_eval)
  have "valid (verify_audit_chain toy_codec None None ([] @ ?c\<lparr>a_action := ''forged'', a_user := 0, a_resource_id := ''x'',
        a_details := ''y'', a_ip := None\<rparr> # [m]))"
    by (rule tampering_after_gap_undetected [OF demo_purged_inv, of "[]" ?c "[m]"]) (simp_all add: m predecessor_def)
  then show ?thesis using m(1) by simp
qed

lemma purged_marker_false_alarm_witness:
  "\<not> valid (verify_audit_chain toy_codec None None (audit_rows (delete_ids toy_codec True 100 [3, 4] None
      (snd (append_audit_row toy_codec True 90 (demo_event ''e'') demo_purged)))))"
proof -
  let ?c = "demo_row 3 ''c'' ''##|a|7|r|d||b|7|r|d|'' ''###|a|7|r|d||b|7|r|d||c|7|r|d|'' 35"
  let ?db = "snd (append_audit_row toy_codec True 90 (demo_event ''e'') demo_purged)"
  obtain m where m: "audit_rows demo_purged = [?c, m]" "row_id m = 4" "next_id demo_purged = 5" "a_hash m \<noteq> ''''"
    by (rule demo_purged_eval)
  obtain db' where app: "append_audit_row toy_codec True 90 (demo_event ''e'') demo_purged = (True, db')"
    by (simp add: append_audit_row_def Let_def)
  obtain s where s: "audit_rows db' = [?c, m, s]" "row_id s = 5" "a_prev s \<noteq> ''''" "a_action s = ''e''"
    by (rule append_row [OF app], rule that) (simp_all add: m last_hash_def demo_event_def)
  have "chain_inv toy_codec db'" using append_chain_inv [OF demo_purged_inv, of True 90 "demo_event ''e''"] app by simp
  then have "\<not> valid (verify_audit_chain toy_codec None None (audit_rows (delete_ids toy_codec True 100 [3, 4] None db')))"
    by (rule purged_marker_false_alarm [where s = s and i = 1])
       (simp_all add: m s toy_codec_loads load_purged_ids_def in_purged_def)
  then show ?thesis by (simp add: app)
qed

end
