(* ===== verification/Scan_Models.thy ===== *)
theory Scan_Models
  imports Py_Strings "HOL-Library.Product_Lexorder"
begin

text \<open>
  The scanner's result model (\<open>src/picosentry/scan/models.py\<close>, \<open>src/picosentry/_core/models.py\<close>):
  findings, baselines of accepted findings, statistics and the serialised scan result, whose
  deterministic form must not depend on the order in which rules produced their findings. SHA-256
  is a parameter; \<open>to_ml_context\<close> is not modelled.
\<close>

section \<open>Model\<close>

datatype severity = CRITICAL | HIGH | MEDIUM | LOW | INFO

fun severity_value :: "severity \<Rightarrow> string" where
  "severity_value CRITICAL = ''CRITICAL''"
| "severity_value HIGH = ''HIGH''"
| "severity_value MEDIUM = ''MEDIUM''"
| "severity_value LOW = ''LOW''"
| "severity_value INFO = ''INFO''"

datatype confidence = EXACT | CONF_HIGH | CONF_MEDIUM | CONF_LOW

fun confidence_value :: "confidence \<Rightarrow> string" where
  "confidence_value EXACT = ''EXACT''"
| "confidence_value CONF_HIGH = ''HIGH''"
| "confidence_value CONF_MEDIUM = ''MEDIUM''"
| "confidence_value CONF_LOW = ''LOW''"

definition SEVERITY_ORDER :: "(string \<times> nat) list" where
  "SEVERITY_ORDER = [(''critical'', 0), (''high'', 1), (''medium'', 2), (''low'', 3), (''info'', 4)]"

record finding =
  f_rule :: string
  f_severity :: severity
  f_confidence :: confidence
  f_package :: string
  f_file :: string
  f_message :: string
  f_evidence :: string
  f_remediation :: string
  f_references :: "string list"
  f_line :: "int option"
  f_ecosystem :: string
  f_reachable :: bool

type_synonym fingerprint = "string \<times> string \<times> string \<times> string"

definition fingerprint_of :: "finding \<Rightarrow> fingerprint" where
  "fingerprint_of f = (f_rule f, f_ecosystem f, f_package f, f_file f)"

definition finding_sort_key :: "finding \<Rightarrow> string \<times> string \<times> string \<times> string \<times> int" where
  "finding_sort_key f = (f_rule f, f_ecosystem f, f_package f, f_file f, case f_line f of None \<Rightarrow> 0 | Some l \<Rightarrow> l)"

definition finding_to_dict :: "finding \<Rightarrow> (string \<times> json) list" where
  "finding_to_dict f =
     [(''rule_id'', JStr (f_rule f)), (''severity'', JStr (severity_value (f_severity f))),
      (''confidence'', JStr (confidence_value (f_confidence f))), (''ecosystem'', JStr (f_ecosystem f)),
      (''package'', JStr (f_package f)), (''file'', JStr (f_file f)), (''line'', opt_json JInt (f_line f)),
      (''message'', JStr (f_message f)), (''evidence'', JStr (f_evidence f)), (''remediation'', JStr (f_remediation f)),
      (''reachable'', JBool (f_reachable f))] @
     (if f_references f = [] then [] else [(''references'', JList (map JStr (f_references f)))])"

subsection \<open>Baselines\<close>

definition entry_fingerprint :: "(string \<times> json) list \<Rightarrow> fingerprint py_result" where
  "entry_fingerprint d =
     bindE (get_or as_str ''rule_id'' '''' d) (\<lambda>r.
     bindE (get_or as_str ''ecosystem'' ''npm'' d) (\<lambda>e.
     bindE (get_or as_str ''package'' '''' d) (\<lambda>p.
     bindE (get_or as_str ''file'' '''' d) (\<lambda>f. Inr (r, e, p, f)))))"

definition BASELINE_ECOSYSTEMS :: "string list" where
  "BASELINE_ECOSYSTEMS = [''npm'', ''pypi'', ''go'', ''cargo'', ''maven'', ''rubygems'', ''nuget'']"

text \<open>\<open>line.split(":", 3)\<close>: at most four pieces, the last one with the rest of the line.\<close>

fun split_max :: "nat \<Rightarrow> char \<Rightarrow> string \<Rightarrow> string list" where
  "split_max 0 c s = [s]"
| "split_max (Suc n) c s = (case split_first c s of (p, None) \<Rightarrow> [p] | (p, Some q) \<Rightarrow> p # split_max n c q)"

definition nth_strip :: "string list \<Rightarrow> nat \<Rightarrow> string" where
  "nth_strip parts i = (if i < length parts then strip (parts ! i) else '''')"

definition baseline_line :: "string \<Rightarrow> fingerprint option" where
  "baseline_line raw =
     (let line = strip raw
      in if line = '''' \<or> starts_with ''#'' line then None
         else let parts = split_max 3 CHR '':'' line
              in if hd parts \<in> set BASELINE_ECOSYSTEMS
                 then Some (nth_strip parts 1, strip (hd parts), nth_strip parts 2, nth_strip parts 3)
                 else Some (strip (hd parts), ''npm'', nth_strip parts 1, nth_strip parts 2))"

text \<open>
  \<open>load_baseline\<close> on a file that decodes as JSON (\<open>Some\<close>) or is read line by line.
\<close>

definition load_baseline :: "json option \<Rightarrow> string list \<Rightarrow> fingerprint list py_result" where
  "load_baseline decoded lines =
     (case decoded of
        Some (JObj d) \<Rightarrow>
          if dget d ''findings'' \<noteq> None
          then bindE (need as_list ''findings'' d) (mapE (\<lambda>j. bindE (as_obj j) entry_fingerprint))
          else Inr (List.map_filter baseline_line lines)
      | Some _ \<Rightarrow> Inl TypeError
      | None \<Rightarrow> Inr (List.map_filter baseline_line lines))"

record baseline_result =
  original_count :: nat
  suppressed_count :: nat
  remaining :: "finding list"

definition suppressed :: "fingerprint list \<Rightarrow> finding \<Rightarrow> bool" where
  "suppressed fps f =
     (let exact = filter (\<lambda>(r, e, p, fl). fl \<noteq> '''') fps;
          rule_ecosystem_pkg = map (\<lambda>(r, e, p, fl). (r, e, p)) (filter (\<lambda>(r, e, p, fl). p \<noteq> '''' \<and> fl = '''') fps);
          rule_only = map fst (filter (\<lambda>(r, e, p, fl). p = '''') fps)
      in fingerprint_of f \<in> set exact
         \<or> (f_rule f, f_ecosystem f, f_package f) \<in> set rule_ecosystem_pkg
         \<or> f_rule f \<in> set rule_only)"

definition apply_baseline :: "finding list \<Rightarrow> fingerprint list \<Rightarrow> baseline_result" where
  "apply_baseline findings fps =
     (let rest = filter (\<lambda>f. \<not> suppressed fps f) findings
      in \<lparr>original_count = length findings, suppressed_count = length findings - length rest, remaining = rest\<rparr>)"

subsection \<open>Results\<close>

record scan_stats =
  packages_scanned :: int
  files_scanned :: int
  duration_ms :: int
  by_severity :: "(string, int) pydict"
  by_rule :: "(string, int) pydict"
  rule_timings :: "(string, int) pydict"

record rule_execution =
  x_rule :: string
  x_status :: string
  x_duration :: int
  x_error :: string
  x_files :: int
  x_findings :: int

record scan_result =
  r_target :: string
  r_engine_version :: string
  r_corpus_version :: string
  r_findings :: "finding list"
  r_stats :: scan_stats
  r_started :: string
  r_completed :: string
  r_config_digest :: string
  r_policy_digest :: string
  r_scanner_version :: string
  r_policy :: "json option"
  r_executions :: "rule_execution list"
  r_intel :: "(string \<times> json) list"
  r_behaviour :: "json option"
  r_unscannable :: int

definition sorted_dict :: "('k :: linorder, 'v) pydict \<Rightarrow> ('k, 'v) pydict" where
  "sorted_dict d = sort_key fst d"

definition count_key :: "'k \<Rightarrow> ('k, int) pydict \<Rightarrow> ('k, int) pydict" where
  "count_key k d = dset k ((case dget d k of None \<Rightarrow> 0 | Some n \<Rightarrow> n) + 1) d"

definition recompute_stats :: "scan_result \<Rightarrow> scan_result" where
  "recompute_stats r =
     (let sev = foldl (\<lambda>d f. count_key (severity_value (f_severity f)) d) [] (r_findings r);
          rule = foldl (\<lambda>d f. count_key (f_rule f) d) [] (r_findings r)
      in r\<lparr>r_stats := (r_stats r)\<lparr>by_severity := sorted_dict sev, by_rule := sorted_dict rule\<rparr>\<rparr>)"

definition apply_overrides :: "finding list \<Rightarrow> scan_result \<Rightarrow> scan_result" where
  "apply_overrides fs r = recompute_stats (r\<lparr>r_findings := fs\<rparr>)"

definition result_scan_id :: "(string \<Rightarrow> string) \<Rightarrow> scan_result \<Rightarrow> string" where
  "result_scan_id sha r = take 16 (sha (r_target r @ '':'' @ r_corpus_version r @ '':'' @ r_engine_version r))"

definition int_dict :: "(string, int) pydict \<Rightarrow> json" where
  "int_dict d = JObj (map (\<lambda>(k, v). (k, JInt v)) d)"

definition stats_to_dict :: "bool \<Rightarrow> scan_stats \<Rightarrow> json" where
  "stats_to_dict det s = JObj (sorted_dict
     ([(''packages_scanned'', JInt (packages_scanned s)), (''files_scanned'', JInt (files_scanned s)),
       (''findings_by_severity'', int_dict (sorted_dict (by_severity s))),
       (''findings_by_rule'', int_dict (sorted_dict (by_rule s)))] @
      (if det then [] else [(''duration_ms'', JInt (duration_ms s))]) @
      (if rule_timings s = [] then [] else [(''rule_timings_ms'', int_dict (sorted_dict (rule_timings s)))])))"

definition execution_to_dict :: "bool \<Rightarrow> rule_execution \<Rightarrow> json" where
  "execution_to_dict det x = JObj
     ([(''rule_id'', JStr (x_rule x)), (''status'', JStr (x_status x)), (''findings_count'', JInt (x_findings x)),
       (''files_scanned'', JInt (x_files x))] @
      (if det then [] else (''duration_ms'', JInt (x_duration x)) #
         (if x_error x = '''' then [] else [(''error'', JStr (x_error x))])))"

definition audit_fields :: "scan_result \<Rightarrow> (string \<times> json) list" where
  "audit_fields r = map (\<lambda>(k, v). (k, JStr v)) (filter (\<lambda>(k, v). v \<noteq> '''')
     [(''started_at'', r_started r), (''completed_at'', r_completed r), (''config_digest'', r_config_digest r),
      (''policy_digest'', r_policy_digest r), (''scanner_version'', r_scanner_version r)])"

definition result_to_dict :: "(string \<Rightarrow> string) \<Rightarrow> bool \<Rightarrow> scan_result \<Rightarrow> (string \<times> json) list" where
  "result_to_dict sha det r = sorted_dict
     ([(''scan_id'', JStr (result_scan_id sha r)), (''engine_version'', JStr (r_engine_version r)),
       (''corpus_version'', JStr (r_corpus_version r)), (''target'', JStr (r_target r)),
       (''findings'', JList (map (\<lambda>f. JObj (finding_to_dict f)) (sort_key finding_sort_key (r_findings r))))] @
      (if r_unscannable r = 0 then [] else [(''unscannable_components'', JInt (r_unscannable r))]) @
      [(''stats'', if det then JObj [(''packages_scanned'', JInt (packages_scanned (r_stats r))),
          (''files_scanned'', JInt (files_scanned (r_stats r))),
          (''findings_by_severity'', int_dict (sorted_dict (by_severity (r_stats r)))),
          (''findings_by_rule'', int_dict (sorted_dict (by_rule (r_stats r))))]
        else stats_to_dict False (r_stats r))] @
      (if r_executions r = [] then []
       else [(''rule_status'', JObj (foldl (\<lambda>d x. dset (x_rule x) (execution_to_dict det x) d) [] (r_executions r))),
             (''scan_completeness'', JStr (if list_ex (\<lambda>x. x_status x \<noteq> ''ok'') (r_executions r) then ''partial'' else ''complete''))]) @
      (case r_policy r of None \<Rightarrow> [] | Some p \<Rightarrow> [(''policy'', p)]) @
      (if det \<or> audit_fields r = [] then [] else [(''audit'', JObj (audit_fields r))]) @
      (if det \<or> r_intel r = [] then [] else [(''package_intel'', JObj (r_intel r))]) @
      (case r_behaviour r of None \<Rightarrow> [] | Some b \<Rightarrow> [(''behavioral_evidence'', b)]))"

section \<open>Sorted dictionaries\<close>

lemma map_of_filter_key: "map_of xs k = (case filter (\<lambda>p. fst p = k) xs of [] \<Rightarrow> None | p # _ \<Rightarrow> Some (snd p))"
  by (induction xs) auto

lemma dget_sorted_dict [simp]: "dget (sorted_dict d) k = dget d k"
  unfolding sorted_dict_def map_of_filter_key sort_key_stable ..

lemma wf_sorted_dict [simp]: "wf_dict (sorted_dict d) \<longleftrightarrow> wf_dict d"
  unfolding sorted_dict_def by (metis mset_eq_imp_distinct_iff mset_map mset_sort)

text \<open>A sorted dictionary is determined by its entries.\<close>

lemma sorted_dict_ext:
  assumes "wf_dict d" and "wf_dict e" and "\<And>k. dget d k = dget e k"
  shows "sorted_dict d = sorted_dict e"
proof -
  have "set d = set e" using map_of_inject_set [OF assms(1,2)] assms(3) by blast
  moreover have "distinct d" "distinct e" using assms(1,2) by (simp_all add: distinct_map)
  ultimately have "mset d = mset e" by (simp add: set_eq_iff_mset_eq_distinct)
  then show ?thesis
    unfolding sorted_dict_def by (intro sort_key_inj_key_eq) (use assms(1) in \<open>simp_all add: distinct_map\<close>)
qed

section \<open>Baselines\<close>

lemma suppressed_iff:
  "suppressed fps f \<longleftrightarrow> (f_file f \<noteq> '''' \<and> fingerprint_of f \<in> set fps)
     \<or> (f_package f \<noteq> '''' \<and> (f_rule f, f_ecosystem f, f_package f, '''') \<in> set fps)
     \<or> (\<exists>e fl. (f_rule f, e, '''', fl) \<in> set fps)"
  by (force simp: suppressed_def Let_def fingerprint_of_def)

lemma entry_fingerprint_of: "entry_fingerprint (finding_to_dict f) = Inr (fingerprint_of f)"
  by (simp add: entry_fingerprint_def finding_to_dict_def get_or_def fingerprint_of_def)

text \<open>
  A scan is its own baseline. Loading the serialised result of a scan as a baseline succeeds and
  suppresses every finding of that scan, and the counts add up for any baseline.
\<close>

theorem baseline_of_own_result:
  "\<exists>fps. load_baseline (Some (JObj (result_to_dict sha det r))) lines = Inr fps
     \<and> remaining (apply_baseline (r_findings r) fps) = []
     \<and> suppressed_count (apply_baseline fs fps) + length (remaining (apply_baseline fs fps)) = original_count (apply_baseline fs fps)"
proof -
  let ?fs = "sort_key finding_sort_key (r_findings r)"
  have "dget (result_to_dict sha det r) ''findings'' = Some (JList (map (\<lambda>f. JObj (finding_to_dict f)) ?fs))"
    by (simp add: result_to_dict_def)
  moreover have "mapE (\<lambda>j. bindE (as_obj j) entry_fingerprint) (map (\<lambda>f. JObj (finding_to_dict f)) fs) = Inr (map fingerprint_of fs)" for fs
    by (induction fs) (simp_all add: entry_fingerprint_of)
  ultimately have load: "load_baseline (Some (JObj (result_to_dict sha det r))) lines = Inr (map fingerprint_of ?fs)"
    by (simp add: load_baseline_def need_def)
  have "suppressed (map fingerprint_of ?fs) f" if "f \<in> set (r_findings r)" for f
  proof -
    have "fingerprint_of f \<in> set (map fingerprint_of ?fs)" using that by simp
    then show ?thesis unfolding suppressed_iff by (cases "f_file f = ''''"; cases "f_package f = ''''") (auto simp: fingerprint_of_def)
  qed
  then have "remaining (apply_baseline (r_findings r) (map fingerprint_of ?fs)) = []"
    by (simp add: apply_baseline_def Let_def filter_empty_conv)
  moreover have "suppressed_count (apply_baseline fs fps) + length (remaining (apply_baseline fs fps)) =
      original_count (apply_baseline fs fps)" for fps
    by (simp add: apply_baseline_def Let_def length_filter_le)
  ultimately show ?thesis using load by blast
qed

section \<open>Determinism\<close>

lemma count_fold_wf: "wf_dict d \<Longrightarrow> wf_dict (foldl (\<lambda>d f. count_key (g f) d) d fs)"
  by (induction fs arbitrary: d) (auto simp: count_key_def intro: distinct_update)

lemma count_fold:
  "dget (foldl (\<lambda>d f. count_key (g f) d) d fs) k =
     (if k \<in> set (map g fs) then Some ((case dget d k of None \<Rightarrow> 0 | Some n \<Rightarrow> n) + int (count (mset (map g fs)) k)) else dget d k)"
proof (induction fs arbitrary: d)
  case (Cons f fs)
  have step: "dget (count_key (g f) d) k = (if k = g f then Some ((case dget d k of None \<Rightarrow> 0 | Some n \<Rightarrow> n) + 1) else dget d k)"
    by (simp add: count_key_def)
  show ?case
  proof (cases "k \<in> set (map g fs)")
    case True
    then show ?thesis unfolding foldl_Cons Cons.IH [of "count_key (g f) d"] step by simp
  next
    case False
    then have "count (mset (map g fs)) k = 0" by (simp only: count_eq_zero_iff set_mset_mset not_False_eq_True)
    with False show ?thesis unfolding foldl_Cons Cons.IH [of "count_key (g f) d"] step by auto
  qed
qed simp

lemma count_sorted_mset:
  assumes "mset fs = mset gs"
  shows "sorted_dict (foldl (\<lambda>d f. count_key (g f) d) [] fs) = sorted_dict (foldl (\<lambda>d f. count_key (g f) d) [] gs)"
proof (rule sorted_dict_ext)
  have m: "mset (map g fs) = mset (map g gs)" using assms by simp
  have m': "set (map g fs) = set (map g gs)" using m by (rule mset_eq_setD)
  show "dget (foldl (\<lambda>d f. count_key (g f) d) [] fs) k = dget (foldl (\<lambda>d f. count_key (g f) d) [] gs) k" for k
    unfolding count_fold m m' ..
qed (simp_all add: count_fold_wf del: distinct_map)

lemma overrides_fields:
  "r_findings (apply_overrides fs r) = fs" "r_target (apply_overrides fs r) = r_target r"
  "r_engine_version (apply_overrides fs r) = r_engine_version r" "r_corpus_version (apply_overrides fs r) = r_corpus_version r"
  "r_started (apply_overrides fs r) = r_started r" "r_completed (apply_overrides fs r) = r_completed r"
  "r_config_digest (apply_overrides fs r) = r_config_digest r" "r_policy_digest (apply_overrides fs r) = r_policy_digest r"
  "r_scanner_version (apply_overrides fs r) = r_scanner_version r" "r_policy (apply_overrides fs r) = r_policy r"
  "r_executions (apply_overrides fs r) = r_executions r" "r_intel (apply_overrides fs r) = r_intel r"
  "r_behaviour (apply_overrides fs r) = r_behaviour r" "r_unscannable (apply_overrides fs r) = r_unscannable r"
  by (simp_all add: apply_overrides_def recompute_stats_def Let_def)

text \<open>
  The deterministic output does not depend on the order of the findings: two orders of the same
  findings give the same document, provided no two of them share the sort key (rule, ecosystem,
  package, file, line).
\<close>

lemma deterministic_output:
  assumes "mset fs = mset gs" and "distinct (map finding_sort_key fs)"
  shows "result_to_dict sha det (apply_overrides fs r) = result_to_dict sha det (apply_overrides gs r)"
proof -
  have "sort_key finding_sort_key fs = sort_key finding_sort_key gs"
    by (rule sort_key_inj_key_eq) (use assms in \<open>simp_all add: distinct_map\<close>)
  moreover have "r_stats (apply_overrides fs r) = r_stats (apply_overrides gs r)"
    using count_sorted_mset [OF assms(1), of f_rule] count_sorted_mset [OF assms(1), of "\<lambda>f. severity_value (f_severity f)"]
    by (simp add: apply_overrides_def recompute_stats_def Let_def)
  ultimately show ?thesis
    by (simp only: result_to_dict_def result_scan_id_def audit_fields_def overrides_fields)
qed


definition demo_finding :: "string \<Rightarrow> severity \<Rightarrow> string \<Rightarrow> finding" where
  "demo_finding rule sev pkg = \<lparr>f_rule = rule, f_severity = sev, f_confidence = EXACT, f_package = pkg, f_file = ''package.json'',
     f_message = ''m'', f_evidence = ''e'', f_remediation = '''', f_references = [], f_line = None, f_ecosystem = ''npm'',
     f_reachable = True\<rparr>"

lemma deterministic_output_witness:
  "\<forall>sha r. result_to_dict sha True (apply_overrides [demo_finding ''R1'' HIGH ''p'', demo_finding ''R2'' LOW ''p''] r) =
   result_to_dict sha True (apply_overrides [demo_finding ''R2'' LOW ''p'', demo_finding ''R1'' HIGH ''p''] r)"
  by (intro allI deterministic_output) (simp_all add: demo_finding_def finding_sort_key_def)

end
