(* ===== verification/Scan_Policy.thy ===== *)
theory Scan_Policy
  imports Scan_Models
begin

text \<open>
  The scan policy engine (\<open>src/picosentry/scan/policy_pkg/engine.py\<close> and \<open>models.py\<close>): waivers with
  expiry, the severity and rule gate, license and package deny lists, lockfile requirements, and the
  policy's dictionary form. The date parser, SHA-256 of the canonical JSON and the file system are
  parameters; reading a YAML file and audit records are not modelled.
\<close>

section \<open>Model\<close>

definition POLICY_VERSION :: int where "POLICY_VERSION = 1"

definition KNOWN_POLICY_KEYS :: "string list" where
  "KNOWN_POLICY_KEYS = [''version'', ''fail_on'', ''allow_licenses'', ''deny_licenses'', ''deny_packages'', ''require'', ''waivers'']"

definition parse_npm_label :: "string \<Rightarrow> string \<times> string" where
  "parse_npm_label label =
     (if starts_with ''@'' label then
        (case rfind CHR ''@'' label of
           Some (Suc i) \<Rightarrow> (take (Suc i) label, drop (Suc i + 1) label)
         | _ \<Rightarrow> (label, ''''))
      else (case split_first CHR ''@'' label of
              (p, Some v) \<Rightarrow> (p, v)
            | (p, None) \<Rightarrow> (label, '''')))"

record waiver =
  w_id :: string
  w_rule :: string
  w_package :: string
  w_reason :: string
  w_owner :: string
  w_expires :: string
  w_ticket :: string

text \<open>\<open>parse_date\<close> is \<open>datetime.fromisoformat\<close> (\<open>None\<close>: \<open>ValueError\<close>) on the UTC time line of \<open>now\<close>.\<close>

definition is_expired :: "(string \<Rightarrow> pyfloat option) \<Rightarrow> pyfloat \<Rightarrow> waiver \<Rightarrow> bool" where
  "is_expired parse_date now w = (case parse_date (w_expires w) of None \<Rightarrow> True | Some expiry \<Rightarrow> now > expiry)"

definition waiver_matches :: "waiver \<Rightarrow> string \<Rightarrow> string \<Rightarrow> bool" where
  "waiver_matches w rule package =
     (if w_rule w \<noteq> rule then False
      else let pkg_name = fst (parse_npm_label package); w_pkg_name = fst (parse_npm_label (w_package w))
           in if w_pkg_name = ''*'' \<or> w_pkg_name = pkg_name then True else w_package w = package)"

definition waiver_to_dict :: "waiver \<Rightarrow> (string \<times> json) list" where
  "waiver_to_dict w =
     [(''id'', JStr (w_id w)), (''rule_id'', JStr (w_rule w)), (''package'', JStr (w_package w)), (''reason'', JStr (w_reason w)),
      (''owner'', JStr (w_owner w)), (''expires'', JStr (w_expires w)), (''ticket'', JStr (w_ticket w))]"

definition waiver_from_dict :: "(string \<times> json) list \<Rightarrow> waiver py_result" where
  "waiver_from_dict d =
     bindE (get_or as_str ''id'' '''' d) (\<lambda>i.
     bindE (get_or as_str ''rule_id'' '''' d) (\<lambda>r.
     bindE (get_or as_str ''package'' '''' d) (\<lambda>p.
     bindE (get_or as_str ''reason'' '''' d) (\<lambda>re.
     bindE (get_or as_str ''owner'' '''' d) (\<lambda>ow.
     bindE (get_or as_str ''expires'' '''' d) (\<lambda>ex.
     bindE (get_or as_str ''ticket'' '''' d) (\<lambda>t.
       Inr \<lparr>w_id = i, w_rule = r, w_package = p, w_reason = re, w_owner = ow, w_expires = ex, w_ticket = t\<rparr>)))))))"

record policy_violation =
  v_type :: string
  v_severity :: string
  v_message :: string
  v_detail :: "(string \<times> json) list"

record policy_result =
  p_passed :: bool
  p_violations :: "policy_violation list"
  p_waived :: nat
  p_expired :: "string list"
  p_digest :: string

definition pep503_normalize :: "string \<Rightarrow> string" where
  "pep503_normalize name = lower (pep503_collapse name)"

record policy =
  fail_on_severity :: string
  fail_on_rules :: "string list"
  allow_licenses :: "string list"
  deny_licenses :: "string list"
  deny_packages :: "string list"
  require_lockfile :: bool
  require_integrity :: bool
  require_provenance :: bool
  updates_enabled :: bool
  updates_allowed_sources :: "string list"
  updates_require_integrity :: bool
  corpus_require_signature :: bool
  waivers :: "waiver list"

definition default_policy :: policy where
  "default_policy = \<lparr>fail_on_severity = ''high'', fail_on_rules = [], allow_licenses = [], deny_licenses = [], deny_packages = [],
     require_lockfile = True, require_integrity = True, require_provenance = False, updates_enabled = True,
     updates_allowed_sources = [], updates_require_integrity = True, corpus_require_signature = True, waivers = []\<rparr>"

definition str_list :: "string list \<Rightarrow> json" where
  "str_list xs = JList (map JStr xs)"

definition policy_to_dict :: "policy \<Rightarrow> (string \<times> json) list" where
  "policy_to_dict p =
     [(''version'', JInt POLICY_VERSION),
      (''fail_on'', JObj [(''severity'', JStr (fail_on_severity p)), (''rules'', str_list (fail_on_rules p))]),
      (''allow_licenses'', str_list (allow_licenses p)), (''deny_licenses'', str_list (deny_licenses p)),
      (''deny_packages'', str_list (deny_packages p)),
      (''require'', JObj [(''lockfile'', JBool (require_lockfile p)), (''integrity'', JBool (require_integrity p)),
         (''provenance'', JBool (require_provenance p))]),
      (''updates'', JObj [(''enabled'', JBool (updates_enabled p)), (''allowed_sources'', str_list (updates_allowed_sources p)),
         (''require_integrity'', JBool (updates_require_integrity p)),
         (''corpus_require_signature'', JBool (corpus_require_signature p))]),
      (''waivers'', JList (map (\<lambda>w. JObj (waiver_to_dict w)) (waivers p)))]"

definition as_str_list :: "json \<Rightarrow> string list py_result" where
  "as_str_list j = bindE (as_list j) (mapE as_str)"

definition as_stripped :: "json \<Rightarrow> string list py_result" where
  "as_stripped j = bindE (as_str_list j) (\<lambda>xs. Inr (map strip xs))"

text \<open>A section read only when it is present and an object.\<close>

definition section_of :: "string \<Rightarrow> (string \<times> json) list \<Rightarrow> (string \<times> json) list option" where
  "section_of k d = (case dget d k of Some (JObj s) \<Rightarrow> Some s | _ \<Rightarrow> None)"

definition read_fail_on :: "(string \<times> json) list \<Rightarrow> policy \<Rightarrow> policy py_result" where
  "read_fail_on data p = (case section_of ''fail_on'' data of None \<Rightarrow> Inr p | Some s \<Rightarrow>
     bindE (get_or as_str ''severity'' ''high'' s) (\<lambda>sev. bindE (get_or as_str_list ''rules'' [] s) (\<lambda>rs.
       Inr (p\<lparr>fail_on_severity := sev, fail_on_rules := rs\<rparr>))))"

definition read_require :: "(string \<times> json) list \<Rightarrow> policy \<Rightarrow> policy py_result" where
  "read_require data p = (case section_of ''require'' data of None \<Rightarrow> Inr p | Some s \<Rightarrow>
     bindE (get_or as_bool ''lockfile'' True s) (\<lambda>l. bindE (get_or as_bool ''integrity'' True s) (\<lambda>i.
     bindE (get_or as_bool ''provenance'' False s) (\<lambda>pr.
       Inr (p\<lparr>require_lockfile := l, require_integrity := i, require_provenance := pr\<rparr>)))))"

definition read_updates :: "(string \<times> json) list \<Rightarrow> policy \<Rightarrow> policy py_result" where
  "read_updates data p = (case section_of ''updates'' data of None \<Rightarrow> Inr p | Some s \<Rightarrow>
     bindE (get_or as_bool ''enabled'' True s) (\<lambda>en. bindE (get_or as_str_list ''allowed_sources'' [] s) (\<lambda>src.
     bindE (get_or as_bool ''require_integrity'' True s) (\<lambda>i. bindE (get_or as_bool ''corpus_require_signature'' True s) (\<lambda>c.
       Inr (p\<lparr>updates_enabled := en, updates_allowed_sources := src, updates_require_integrity := i, corpus_require_signature := c\<rparr>))))))"

definition policy_from_dict :: "(string \<times> json) list \<Rightarrow> policy py_result" where
  "policy_from_dict data =
     bindE (read_fail_on data default_policy) (\<lambda>p.
     bindE (get_or as_stripped ''allow_licenses'' (allow_licenses p) data) (\<lambda>al.
     bindE (get_or as_stripped ''deny_licenses'' (deny_licenses p) data) (\<lambda>dl.
     bindE (get_or as_stripped ''deny_packages'' (deny_packages p) data) (\<lambda>dp.
     bindE (read_require data (p\<lparr>allow_licenses := al, deny_licenses := dl, deny_packages := dp\<rparr>)) (\<lambda>p.
     bindE (read_updates data p) (\<lambda>p.
     bindE (get_or (\<lambda>j. bindE (as_list j) (mapE (\<lambda>w. bindE (as_obj w) waiver_from_dict))) ''waivers'' (waivers p) data) (\<lambda>ws.
       Inr (p\<lparr>waivers := ws\<rparr>))))))))"

definition unknown_keys :: "(string \<times> json) list \<Rightarrow> string list" where
  "unknown_keys data = sort (filter (\<lambda>k. k \<notin> set KNOWN_POLICY_KEYS) (dkeys data))"

definition get_active_waivers :: "(string \<Rightarrow> pyfloat option) \<Rightarrow> pyfloat \<Rightarrow> policy \<Rightarrow> waiver list" where
  "get_active_waivers parse_date now p = filter (\<lambda>w. \<not> is_expired parse_date now w) (waivers p)"

definition is_finding_waived :: "(string \<Rightarrow> pyfloat option) \<Rightarrow> pyfloat \<Rightarrow> policy \<Rightarrow> string \<Rightarrow> string \<Rightarrow> waiver option" where
  "is_finding_waived parse_date now p rule package =
     List.find (\<lambda>w. waiver_matches w rule package) (get_active_waivers parse_date now p)"

definition license_violation :: "policy \<Rightarrow> string \<times> string \<Rightarrow> policy_violation list" where
  "license_violation p item =
     (let (pkg, lic) = item; lic_norm = strip lic
      in if deny_licenses p = [] then []
         else (case List.find (\<lambda>d. lower d = lower lic_norm) (deny_licenses p) of
                 Some denied \<Rightarrow> [\<lparr>v_type = ''license'', v_severity = ''ERROR'',
                     v_message = ''Package '' @ quoted pkg @ '' uses denied license '' @ quoted lic,
                     v_detail = [(''package'', JStr pkg), (''license'', JStr lic), (''denied'', JStr denied)]\<rparr>]
               | None \<Rightarrow>
                   if allow_licenses p \<noteq> [] \<and> \<not> list_ex (\<lambda>a. lower a = lower lic_norm) (allow_licenses p)
                   then [\<lparr>v_type = ''license'', v_severity = ''WARNING'',
                     v_message = ''Package '' @ quoted pkg @ '' license '' @ quoted lic @ '' not in allow list'',
                     v_detail = [(''package'', JStr pkg), (''license'', JStr lic)]\<rparr>]
                   else []))"

definition check_licenses :: "policy \<Rightarrow> (string, string) pydict \<Rightarrow> policy_violation list" where
  "check_licenses p licenses = concat (map (license_violation p) (sort licenses))"

definition parse_package_name :: "string \<Rightarrow> string" where
  "parse_package_name pkg =
     (if starts_with ''@'' pkg then
        (case rfind CHR ''@'' pkg of Some (Suc i) \<Rightarrow> take (Suc i) pkg | _ \<Rightarrow> pkg)
      else (case split_first CHR ''@'' pkg of (n, Some _) \<Rightarrow> n | (n, None) \<Rightarrow> pkg))"

definition denied_map :: "string list \<Rightarrow> (string, string) pydict" where
  "denied_map denied = foldl (\<lambda>m d. let k = pep503_normalize (parse_package_name d) in if dget m k = None then dset k d m else m) [] denied"

text \<open>\<open>installed\<close> enumerates the set of installed packages.\<close>

definition check_packages :: "policy \<Rightarrow> string list \<Rightarrow> policy_violation list" where
  "check_packages p installed =
     (if deny_packages p = [] then []
      else List.map_filter (\<lambda>pkg. map_option (\<lambda>matched. \<lparr>v_type = ''deny_package'', v_severity = ''ERROR'',
               v_message = ''Package '' @ quoted pkg @ '' is on the deny list'',
               v_detail = [(''package'', JStr pkg), (''denied'', JStr matched)]\<rparr>)
             (dget (denied_map (deny_packages p)) (pep503_normalize (parse_package_name pkg))))
           (sort (remdups installed)))"

definition requirement :: "string \<Rightarrow> string \<Rightarrow> policy_violation" where
  "requirement what msg = \<lparr>v_type = ''requirement'', v_severity = ''WARNING'', v_message = msg, v_detail = [(''required'', JStr what)]\<rparr>"

text \<open>\<open>exists\<close> tells whether a file exists below the target.\<close>

definition check_requirements :: "policy \<Rightarrow> (string \<Rightarrow> bool) \<Rightarrow> policy_violation list" where
  "check_requirements p exists =
     (if require_lockfile p \<and> \<not> (exists ''package-lock.json'' \<or> exists ''pnpm-lock.yaml'' \<or> exists ''yarn.lock'')
      then [requirement ''lockfile'' (''No lockfile found '' @ em_dash @ '' dependency versions are not pinned'')] else []) @
     (if require_integrity p \<and> \<not> exists ''package-lock.json'' \<and> \<not> exists ''pnpm-lock.yaml''
      then [requirement ''integrity'' (''No npm/pnpm lockfile '' @ em_dash @ '' cannot verify package integrity'')] else [])"

definition severity_level :: "string \<Rightarrow> nat \<Rightarrow> nat" where
  "severity_level s dflt = (case dget SEVERITY_ORDER (lower s) of None \<Rightarrow> dflt | Some n \<Rightarrow> n)"

definition finding_violation :: "policy \<Rightarrow> finding \<Rightarrow> policy_violation list" where
  "finding_violation p f =
     (let detail = [(''rule_id'', JStr (f_rule f)), (''package'', JStr (f_package f)), (''severity'', JStr (severity_value (f_severity f)))]
      in if f_rule f \<in> set (fail_on_rules p)
         then [\<lparr>v_type = ''severity'', v_severity = ''ERROR'', v_message = ''Finding violates fail-on rule: '' @ f_rule f, v_detail = detail\<rparr>]
         else if severity_level (severity_value (f_severity f)) 4 \<le> severity_level (fail_on_severity p) 1
         then [\<lparr>v_type = ''severity'', v_severity = severity_value (f_severity f),
                v_message = ''Finding at or above fail-on severity ('' @ fail_on_severity p @ '')'', v_detail = detail\<rparr>]
         else [])"

definition policy_apply :: "(string \<Rightarrow> pyfloat option) \<Rightarrow> pyfloat \<Rightarrow> (policy \<Rightarrow> string) \<Rightarrow> (string \<Rightarrow> bool) \<Rightarrow> policy \<Rightarrow> finding list \<Rightarrow>
    (string, string) pydict \<Rightarrow> string list \<Rightarrow> policy_result" where
  "policy_apply parse_date now digest exists p findings licenses installed =
     (let waived = (\<lambda>f. is_finding_waived parse_date now p (f_rule f) (f_package f) \<noteq> None);
          violations = concat (map (finding_violation p) (filter (\<lambda>f. \<not> waived f) findings))
            @ (if licenses = [] then [] else check_licenses p licenses)
            @ (if installed = [] then [] else check_packages p installed)
            @ check_requirements p exists
      in \<lparr>p_passed = (violations = []), p_violations = violations, p_waived = length (filter waived findings),
          p_expired = map w_id (filter (is_expired parse_date now) (waivers p)), p_digest = digest p\<rparr>)"


section \<open>Labels\<close>

lemma parse_package_name_label: "parse_package_name s = fst (parse_npm_label s)"
  by (auto simp: parse_package_name_def parse_npm_label_def split: option.splits nat.splits prod.splits)

lemma parse_unscoped:
  "CHR ''@'' \<notin> set name \<Longrightarrow> name \<noteq> [] \<Longrightarrow> parse_npm_label (name @ CHR ''@'' # v) = (name, v)"
  "CHR ''@'' \<notin> set name \<Longrightarrow> parse_npm_label name = (name, '''')"
proof -
  assume a: "CHR ''@'' \<notin> set name"
  then have "\<not> starts_with ''@'' name" by (cases name) auto
  then show "parse_npm_label name = (name, '''')" using a by (simp add: parse_npm_label_def split_first_none)
  assume "name \<noteq> []"
  then have "\<not> starts_with ''@'' (name @ CHR ''@'' # v)" using a by (cases name) auto
  then show "parse_npm_label (name @ CHR ''@'' # v) = (name, v)" unfolding parse_npm_label_def split_first_at [OF a] by simp
qed

lemma parse_scoped:
  assumes "CHR ''@'' \<notin> set name" "CHR ''@'' \<notin> set v"
  shows "parse_npm_label (CHR ''@'' # name @ CHR ''@'' # v) = (CHR ''@'' # name, v)"
    and "parse_npm_label (CHR ''@'' # name) = (CHR ''@'' # name, '''')"
proof -
  have "rfind CHR ''@'' ((CHR ''@'' # name) @ CHR ''@'' # v) = Some (length (CHR ''@'' # name))"
    using assms(2) by (rule rfind_last)
  then show "parse_npm_label (CHR ''@'' # name @ CHR ''@'' # v) = (CHR ''@'' # name, v)"
    by (simp add: parse_npm_label_def)
  have "rfind CHR ''@'' ([] @ CHR ''@'' # name) = Some 0"
    using rfind_last [OF assms(1), of "[]"] by simp
  then show "parse_npm_label (CHR ''@'' # name) = (CHR ''@'' # name, '''')" by (simp add: parse_npm_label_def)
qed

text \<open>A package name as npm writes it: unscoped, or a scope and a name.\<close>

definition npm_name :: "string \<Rightarrow> bool" where
  "npm_name s = (case s of [] \<Rightarrow> False | c # cs \<Rightarrow> CHR ''@'' \<notin> set cs)"

text \<open>
  Labels of the form \<open>name@version\<close> are parsed back into name and version, for unscoped and
  scoped names, by both parsers. A waiver written for one version of a package applies to every
  version of it.
\<close>

theorem label_roundtrip:
  assumes "npm_name name" and "CHR ''@'' \<notin> set v" "CHR ''@'' \<notin> set v'"
  shows "parse_npm_label (name @ ''@'' @ v) = (name, v) \<and> parse_npm_label name = (name, '''')
    \<and> parse_package_name (name @ ''@'' @ v) = name
    \<and> (w_rule w = rule \<and> w_package w = name @ ''@'' @ v' \<longrightarrow> waiver_matches w rule (name @ ''@'' @ v))"
proof -
  have parse: "parse_npm_label (name @ ''@'' @ u) = (name, u) \<and> parse_npm_label name = (name, '''')"
    if u: "CHR ''@'' \<notin> set u" for u
  proof (cases name)
    case Nil
    then show ?thesis using assms(1) by (simp add: npm_name_def)
  next
    case (Cons c cs)
    show ?thesis
    proof (cases "c = CHR ''@''")
      case True
      then show ?thesis using parse_scoped [of cs u] assms(1) u Cons by (simp add: npm_name_def)
    next
      case False
      then have "CHR ''@'' \<notin> set name" using assms(1) Cons by (simp add: npm_name_def)
      then show ?thesis using parse_unscoped(1) [of name u] parse_unscoped(2) [of name] Cons by simp
    qed
  qed
  show ?thesis
    using parse [OF assms(2)] parse [OF assms(3)] by (simp add: parse_package_name_label waiver_matches_def)
qed

theorem label_roundtrip_witness:
  "parse_npm_label ''@babel/core@7.1.0'' = (''@babel/core'', ''7.1.0'')"
  using label_roundtrip [of "''@babel/core''" "''7.1.0''" "''6.0.0''"] by (simp add: npm_name_def)

section \<open>The gate\<close>

lemma denied_map_dget:
  "dget (foldl (\<lambda>m d. let k = pep503_normalize (parse_package_name d) in if dget m k = None then dset k d m else m) m0 ds) k = None \<longleftrightarrow>
     dget m0 k = None \<and> (\<forall>d \<in> set ds. pep503_normalize (parse_package_name d) \<noteq> k)"
  by (induction ds arbitrary: m0) (auto simp: Let_def)

lemma map_filter_Nil: "List.map_filter f xs = [] \<longleftrightarrow> (\<forall>x \<in> set xs. f x = None)"
  by (induction xs) (auto simp: List.map_filter_simps split: option.splits)

lemma check_packages_empty:
  "check_packages p installed = [] \<longleftrightarrow> (\<forall>pkg \<in> set installed. \<forall>d \<in> set (deny_packages p).
     pep503_normalize (parse_package_name d) \<noteq> pep503_normalize (parse_package_name pkg))"
proof -
  have "dget (denied_map (deny_packages p)) k = None \<longleftrightarrow> (\<forall>d \<in> set (deny_packages p). pep503_normalize (parse_package_name d) \<noteq> k)" for k
    unfolding denied_map_def denied_map_dget by simp
  then show ?thesis by (simp add: check_packages_def map_filter_Nil)
qed

lemma find_None: "List.find P xs = None \<longleftrightarrow> (\<forall>x \<in> set xs. \<not> P x)"
  by (auto simp: find_None_iff)

lemma license_violation_empty:
  "license_violation p item = [] \<longleftrightarrow> deny_licenses p = [] \<or>
     ((\<forall>d \<in> set (deny_licenses p). lower d \<noteq> lower (strip (snd item))) \<and>
      (allow_licenses p = [] \<or> (\<exists>a \<in> set (allow_licenses p). lower a = lower (strip (snd item)))))"
  by (cases item) (auto simp: license_violation_def Let_def find_None list_ex_iff find_Some_iff split: option.splits)

lemma check_licenses_empty: "check_licenses p lics = [] \<longleftrightarrow> (\<forall>item \<in> set lics. license_violation p item = [])"
  by (simp add: check_licenses_def)

lemma check_requirements_empty:
  "check_requirements p ex = [] \<longleftrightarrow>
     (require_lockfile p \<longrightarrow> ex ''package-lock.json'' \<or> ex ''pnpm-lock.yaml'' \<or> ex ''yarn.lock'') \<and>
     (require_integrity p \<longrightarrow> ex ''package-lock.json'' \<or> ex ''pnpm-lock.yaml'')"
  by (auto simp: check_requirements_def)

lemma waived_iff: "is_finding_waived parse_date now p rule pkg \<noteq> None \<longleftrightarrow>
    (\<exists>w \<in> set (waivers p). \<not> is_expired parse_date now w \<and> waiver_matches w rule pkg)"
  unfolding is_finding_waived_def get_active_waivers_def find_None by auto

lemma finding_violation_empty:
  "finding_violation p f = [] \<longleftrightarrow> f_rule f \<notin> set (fail_on_rules p) \<and>
     severity_level (fail_on_severity p) 1 < severity_level (severity_value (f_severity f)) 4"
  by (auto simp: finding_violation_def Let_def)

text \<open>
  C11. What a policy accepts. A scan passes exactly when: every finding is covered by an unexpired
  waiver or is neither of a fail-on rule nor at or above the fail-on severity; with a non-empty deny
  list of licenses, no package has a denied license and, with an allow list, each has an allowed one;
  no installed package has the normalised name of a denied one (the version is not compared); and
  the required lockfiles exist.
\<close>

theorem policy_passes_iff:
  "p_passed (policy_apply parse_date now digest ex p findings licenses installed) \<longleftrightarrow>
     (\<forall>f \<in> set findings. (\<exists>w \<in> set (waivers p). \<not> is_expired parse_date now w \<and> waiver_matches w (f_rule f) (f_package f)) \<or>
        f_rule f \<notin> set (fail_on_rules p) \<and> severity_level (fail_on_severity p) 1 < severity_level (severity_value (f_severity f)) 4)
     \<and> (deny_licenses p = [] \<or> (\<forall>item \<in> set licenses. (\<forall>d \<in> set (deny_licenses p). lower d \<noteq> lower (strip (snd item))) \<and>
          (allow_licenses p = [] \<or> (\<exists>a \<in> set (allow_licenses p). lower a = lower (strip (snd item))))))
     \<and> (\<forall>pkg \<in> set installed. \<forall>d \<in> set (deny_packages p).
          pep503_normalize (parse_package_name d) \<noteq> pep503_normalize (parse_package_name pkg))
     \<and> (require_lockfile p \<longrightarrow> ex ''package-lock.json'' \<or> ex ''pnpm-lock.yaml'' \<or> ex ''yarn.lock'')
     \<and> (require_integrity p \<longrightarrow> ex ''package-lock.json'' \<or> ex ''pnpm-lock.yaml'')"
proof -
  have f: "concat (map (finding_violation p) (filter (\<lambda>f. \<not> is_finding_waived parse_date now p (f_rule f) (f_package f) \<noteq> None) findings)) = [] \<longleftrightarrow>
      (\<forall>f \<in> set findings. (\<exists>w \<in> set (waivers p). \<not> is_expired parse_date now w \<and> waiver_matches w (f_rule f) (f_package f)) \<or>
        f_rule f \<notin> set (fail_on_rules p) \<and> severity_level (fail_on_severity p) 1 < severity_level (severity_value (f_severity f)) 4)"
    unfolding waived_iff concat_eq_Nil_conv set_map set_filter by (auto simp: finding_violation_empty)
  have l: "(if licenses = [] then [] else check_licenses p licenses) = [] \<longleftrightarrow>
      (deny_licenses p = [] \<or> (\<forall>item \<in> set licenses. (\<forall>d \<in> set (deny_licenses p). lower d \<noteq> lower (strip (snd item))) \<and>
          (allow_licenses p = [] \<or> (\<exists>a \<in> set (allow_licenses p). lower a = lower (strip (snd item))))))"
    by (auto simp: check_licenses_empty license_violation_empty)
  have i: "(if installed = [] then [] else check_packages p installed) = [] \<longleftrightarrow> check_packages p installed = []"
    by (auto simp: check_packages_empty)
  show ?thesis
    unfolding policy_apply_def Let_def policy_result.select_convs append_is_Nil_conv f l i check_packages_empty check_requirements_empty ..
qed


theorem policy_passes_iff_witness:
  "p_passed (policy_apply (\<lambda>_. None) 0 (\<lambda>_. '''') (\<lambda>f. f = ''package-lock.json'') default_policy
     [demo_finding ''R1'' LOW ''p''] [] [])"
proof -
  have "severity_level ''high'' 1 < severity_level ''LOW'' 4" by code_simp
  then show ?thesis unfolding policy_passes_iff by (simp add: default_policy_def demo_finding_def)
qed

section \<open>The dictionary form\<close>

lemma as_str_list_json [simp]: "as_str_list (str_list xs) = Inr xs"
proof -
  have "mapE as_str (map JStr xs) = Inr xs" by (induction xs) simp_all
  then show ?thesis by (simp add: as_str_list_def str_list_def)
qed

lemma as_stripped_json: "map strip xs = xs \<Longrightarrow> as_stripped (str_list xs) = Inr xs"
  by (simp add: as_stripped_def)

lemma waivers_json [simp]: "mapE (\<lambda>w. bindE (as_obj w) waiver_from_dict) (map (\<lambda>w. JObj (waiver_to_dict w)) ws) = Inr ws"
proof (induction ws)
  case (Cons w ws)
  have "waiver_from_dict (waiver_to_dict w) = Inr w" by (simp add: waiver_from_dict_def waiver_to_dict_def get_or_def)
  with Cons show ?case by simp
qed simp

lemma policy_sections:
  "dget (policy_to_dict p) ''allow_licenses'' = Some (str_list (allow_licenses p))"
  "dget (policy_to_dict p) ''deny_licenses'' = Some (str_list (deny_licenses p))"
  "dget (policy_to_dict p) ''deny_packages'' = Some (str_list (deny_packages p))"
  "dget (policy_to_dict p) ''waivers'' = Some (JList (map (\<lambda>w. JObj (waiver_to_dict w)) (waivers p)))"
  "read_fail_on (policy_to_dict p) q = Inr (q\<lparr>fail_on_severity := fail_on_severity p, fail_on_rules := fail_on_rules p\<rparr>)"
  "read_require (policy_to_dict p) q = Inr (q\<lparr>require_lockfile := require_lockfile p, require_integrity := require_integrity p,
     require_provenance := require_provenance p\<rparr>)"
  "read_updates (policy_to_dict p) q = Inr (q\<lparr>updates_enabled := updates_enabled p, updates_allowed_sources := updates_allowed_sources p,
     updates_require_integrity := updates_require_integrity p, corpus_require_signature := corpus_require_signature p\<rparr>)"
  by (simp_all add: policy_to_dict_def read_fail_on_def read_require_def read_updates_def section_of_def get_or_def)

text \<open>
  A policy survives being written and read back, if its license and package names carry no
  surrounding white space (the reader strips them).
\<close>

theorem policy_dict_roundtrip:
  assumes "map strip (allow_licenses p) = allow_licenses p" "map strip (deny_licenses p) = deny_licenses p"
    "map strip (deny_packages p) = deny_packages p"
  shows "policy_from_dict (policy_to_dict p) = Inr p"
proof -
  have "p\<lparr>waivers := waivers p\<rparr> = p" by simp
  then show ?thesis
    using assms by (cases p) (simp add: policy_from_dict_def policy_sections get_or_def as_stripped_json)
qed

theorem policy_dict_roundtrip_witness:
  "policy_from_dict (policy_to_dict (default_policy\<lparr>deny_licenses := [''GPL-3.0'']\<rparr>)) = Inr (default_policy\<lparr>deny_licenses := [''GPL-3.0'']\<rparr>)"
proof -
  have "strip ''GPL-3.0'' = ''GPL-3.0''" by code_simp
  then show ?thesis by (intro policy_dict_roundtrip) (simp_all add: default_policy_def)
qed

end
