(* ===== verification/Verdict_Cache.thy ===== *)
theory Verdict_Cache
  imports Prelude
begin

text \<open>
  The firewall's verdict cache (\<open>src/picosentry/firewall/cache.py\<close>): entries with an expiry time,
  at most \<open>max_entries\<close> of them, the one that expires first evicted for a new key. All operations
  hold the cache's lock; the clock is read once per operation.
\<close>

section \<open>Model\<close>

type_synonym cache_key = "string \<times> string \<times> string"

record 'v verdict_cache =
  c_ttl :: pyfloat
  c_max :: nat
  c_store :: "(cache_key, pyfloat \<times> 'v) pydict"
  c_hits :: nat
  c_misses :: nat
  c_evictions :: nat

record cache_stats =
  s_hits :: nat
  s_misses :: nat
  s_evictions :: nat
  s_size :: nat

definition new_verdict_cache :: "pyfloat \<Rightarrow> nat \<Rightarrow> 'v verdict_cache" where
  "new_verdict_cache ttl mx = \<lparr>c_ttl = ttl, c_max = mx, c_store = [], c_hits = 0, c_misses = 0, c_evictions = 0\<rparr>"

definition cache_get :: "pyfloat \<Rightarrow> cache_key \<Rightarrow> 'v verdict_cache \<Rightarrow> 'v option \<times> 'v verdict_cache" where
  "cache_get now k c =
     (case dget (c_store c) k of
        None \<Rightarrow> (None, c\<lparr>c_misses := c_misses c + 1\<rparr>)
      | Some (expires_at, v) \<Rightarrow>
          if now > expires_at
          then (None, c\<lparr>c_store := dpop k (c_store c), c_evictions := c_evictions c + 1, c_misses := c_misses c + 1\<rparr>)
          else (Some v, c\<lparr>c_hits := c_hits c + 1\<rparr>))"

text \<open>\<open>min(self._store, key=...)\<close>: the first key with the least expiry; \<open>ValueError\<close> on an empty store.\<close>

fun min_expiry :: "(cache_key \<times> pyfloat \<times> 'v) list \<Rightarrow> cache_key py_result" where
  "min_expiry [] = Inl (ValueError ''min() arg is an empty sequence'')"
| "min_expiry (e # es) = Inr (fst (foldl (\<lambda>best x. if fst (snd x) < fst (snd best) then x else best) e es))"

definition cache_put :: "pyfloat \<Rightarrow> cache_key \<Rightarrow> 'v \<Rightarrow> pyfloat option \<Rightarrow> 'v verdict_cache \<Rightarrow> 'v verdict_cache py_result" where
  "cache_put now k v ttl_override c =
     bindE (if dget (c_store c) k = None \<and> length (c_store c) \<ge> c_max c
            then bindE (min_expiry (c_store c)) (\<lambda>oldest.
              Inr (c\<lparr>c_store := dpop oldest (c_store c), c_evictions := c_evictions c + 1\<rparr>))
            else Inr c)
       (\<lambda>c. let ttl = (case ttl_override of None \<Rightarrow> c_ttl c | Some t \<Rightarrow> t)
            in Inr (c\<lparr>c_store := dset k (now + ttl, v) (c_store c)\<rparr>))"

definition cache_clear :: "'v verdict_cache \<Rightarrow> 'v verdict_cache" where
  "cache_clear c = c\<lparr>c_store := [], c_hits := 0, c_misses := 0, c_evictions := 0\<rparr>"

definition cache_evict_expired :: "pyfloat \<Rightarrow> 'v verdict_cache \<Rightarrow> 'v verdict_cache" where
  "cache_evict_expired now c =
     (let expired = filter (\<lambda>(k, exp, _). now > exp) (c_store c)
      in c\<lparr>c_store := dpurge (\<lambda>(k, exp, _). now > exp) (c_store c), c_evictions := c_evictions c + length expired\<rparr>)"

definition cache_statistics :: "pyfloat \<Rightarrow> 'v verdict_cache \<Rightarrow> cache_stats \<times> 'v verdict_cache" where
  "cache_statistics now c =
     (let c = cache_evict_expired now c
      in (\<lparr>s_hits = c_hits c, s_misses = c_misses c, s_evictions = c_evictions c, s_size = length (c_store c)\<rparr>, c))"

section \<open>Lemmas\<close>

definition cache_ok :: "'v verdict_cache \<Rightarrow> bool" where
  "cache_ok c \<longleftrightarrow> wf_dict (c_store c) \<and> length (c_store c) \<le> c_max c"

lemma new_cache_ok [simp]: "cache_ok (new_verdict_cache ttl mx)"
  by (simp add: cache_ok_def new_verdict_cache_def)

lemma fold_min_expiry:
  fixes e :: "cache_key \<times> pyfloat \<times> 'v"
  defines "best \<equiv> \<lambda>e es. foldl (\<lambda>best x. if fst (snd x) < fst (snd best) then x else best) e es"
  shows "best e es \<in> set (e # es) \<and> (\<forall>x \<in> set (e # es). fst (snd (best e es)) \<le> fst (snd x))"
proof (induction es arbitrary: e)
  case Nil
  then show ?case by (simp add: best_def)
next
  case (Cons x es)
  have step: "best e (x # es) = best (if fst (snd x) < fst (snd e) then x else e) es" by (simp add: best_def)
  show ?case unfolding step using Cons [of "if fst (snd x) < fst (snd e) then x else e"] by (auto split: if_splits)
qed

lemma min_expiry_in: "es \<noteq> [] \<Longrightarrow> \<exists>k exp v. min_expiry es = Inr k \<and> (k, exp, v) \<in> set es \<and> (\<forall>(k', exp', v') \<in> set es. exp \<le> exp')"
proof (cases es)
  case (Cons e es')
  let ?b = "foldl (\<lambda>best x. if fst (snd x) < fst (snd best) then x else best) e es'"
  have "?b \<in> set es" "\<forall>x \<in> set es. fst (snd ?b) \<le> fst (snd x)" using fold_min_expiry [of e es'] Cons by auto
  then show ?thesis
    using Cons by (intro exI [of _ "fst ?b"] exI [of _ "fst (snd ?b)"] exI [of _ "snd (snd ?b)"]) auto
qed simp

lemma cache_get_ok: "cache_ok c \<Longrightarrow> cache_ok (snd (cache_get now k c))"
  by (auto simp: cache_get_def cache_ok_def distinct_delete intro: order_trans [OF length_dpop_le] split: option.splits)

lemma cache_evict_ok: "cache_ok c \<Longrightarrow> cache_ok (cache_evict_expired now c)"
  by (auto simp: cache_evict_expired_def cache_ok_def Let_def wf_dpurge intro: order_trans [OF length_dpurge_le])

lemma cache_get_value: "fst (cache_get now k c) = Some v \<longleftrightarrow> (\<exists>exp. dget (c_store c) k = Some (exp, v) \<and> now \<le> exp)"
  by (auto simp: cache_get_def split: option.splits)

section \<open>Property\<close>

text \<open>
  The cache is a bounded map with expiry. For a positive capacity \<open>put\<close> never raises and keeps the
  table within its capacity; the new entry is returned until its expiry and not after; every other
  entry is kept, except that a full cache gives up one entry, no entry expiring before it.
\<close>

lemma cache_put_get:
  assumes "cache_ok c" and "0 < c_max c" and "ttl = (case ovr of None \<Rightarrow> c_ttl c | Some t \<Rightarrow> t)"
  shows "\<exists>c'. cache_put now k v ovr c = Inr c' \<and> cache_ok c'
    \<and> (\<forall>t. fst (cache_get t k c') = (if t \<le> now + ttl then Some v else None))
    \<and> (\<exists>victim. (\<forall>k'. k' \<noteq> k \<and> Some k' \<noteq> victim \<longrightarrow> dget (c_store c') k' = dget (c_store c) k')
        \<and> (\<forall>o'. victim = Some o' \<longrightarrow> dget (c_store c) k = None \<and> length (c_store c) = c_max c
            \<and> (\<exists>exp x. dget (c_store c) o' = Some (exp, x) \<and> (\<forall>k' exp' y. dget (c_store c) k' = Some (exp', y) \<longrightarrow> exp \<le> exp'))))"
proof -
  have fresh: "fst (cache_get t k d) = (if t \<le> now + ttl then Some v else None)"
    if "dget (c_store d) k = Some (now + ttl, v)" for t and d :: "'a verdict_cache"
    using that by (simp add: cache_get_def)
  have wf: "wf_dict (c_store c)" and len: "length (c_store c) \<le> c_max c" using assms(1) by (simp_all add: cache_ok_def)
  show ?thesis
  proof (cases "dget (c_store c) k = None \<and> length (c_store c) \<ge> c_max c")
    case False
    let ?c' = "c\<lparr>c_store := dset k (now + ttl, v) (c_store c)\<rparr>"
    have "length (dset k (now + ttl, v) (c_store c)) \<le> c_max c"
      using False len by (auto simp: length_dset dget_None_iff)
    then have "cache_ok ?c'" using wf by (simp add: cache_ok_def distinct_update)
    moreover have "cache_put now k v ovr c = Inr ?c'" using False assms(3) by (auto simp: cache_put_def Let_def)
    ultimately show ?thesis using fresh [of ?c'] by (intro exI [of _ ?c']) (auto intro!: exI [of _ None])
  next
    case True
    then have "c_store c \<noteq> []" using assms(2) by auto
    then obtain o' exp x where m: "min_expiry (c_store c) = Inr o'" "(o', exp, x) \<in> set (c_store c)"
        "\<forall>(k', exp', v') \<in> set (c_store c). exp \<le> exp'"
      using min_expiry_in by blast
    let ?c' = "c\<lparr>c_store := dset k (now + ttl, v) (dpop o' (c_store c)), c_evictions := c_evictions c + 1\<rparr>"
    have o': "dget (c_store c) o' = Some (exp, x)" using wf m(2) by (rule map_of_is_SomeI)
    have "length (dset k (now + ttl, v) (dpop o' (c_store c))) \<le> Suc (length (dpop o' (c_store c)))" by (simp add: length_dset)
    moreover have "Suc (length (dpop o' (c_store c))) = length (c_store c)"
      using wf m(2) by (intro length_dpop) force+
    ultimately have "cache_ok ?c'" using wf len by (simp add: cache_ok_def distinct_update distinct_delete)
    moreover have "cache_put now k v ovr c = Inr ?c'" using True m(1) assms(3) by (cases ovr) (simp_all add: cache_put_def Let_def)
    moreover have "\<forall>k' exp' y. dget (c_store c) k' = Some (exp', y) \<longrightarrow> exp \<le> exp'"
      using m(3) by (auto dest: map_of_SomeD)
    ultimately show ?thesis
      using fresh [of ?c'] True len o' by (intro exI [of _ ?c']) (auto intro!: exI [of _ "Some o'"])
  qed
qed

lemma cache_put_get_witness:
  "\<exists>c'. cache_put 5 (''npm'', ''a'', ''1'') ''allow'' None (new_verdict_cache 60 2) = Inr c'
    \<and> fst (cache_get 65 (''npm'', ''a'', ''1'') c') = Some ''allow'' \<and> fst (cache_get 66 (''npm'', ''a'', ''1'') c') = None"
  using cache_put_get [of "new_verdict_cache 60 2 :: string verdict_cache" 60 None 5 "(''npm'', ''a'', ''1'')" "''allow''"]
  by (force simp: new_verdict_cache_def cache_ok_def)

end
