(* ===== verification/Py_Stdlib.thy ===== *)
theory Py_Stdlib
  imports Py_Strings
begin

text \<open>
  The parts of Python's library the modelled code calls on strings: substring and suffix tests,
  \<open>urllib.parse.urlsplit\<close> with the host name of its result, and \<open>fnmatch\<close> patterns.
\<close>

section \<open>Substrings and suffixes\<close>

definition contains :: "string \<Rightarrow> string \<Rightarrow> bool" where
  "contains sub s = list_ex (\<lambda>i. starts_with sub (drop i s)) [0..<length s + 1]"

definition ends_with :: "string \<Rightarrow> string \<Rightarrow> bool" where
  "ends_with suf s = starts_with (rev suf) (rev s)"

section \<open>Representation of strings\<close>

text \<open>
  \<open>repr\<close> of a string: single quotes unless only those occur in it; control characters, the backslash
  and the quote in use are escaped.
\<close>

definition hex_digit :: "nat \<Rightarrow> char" where
  "hex_digit n = char_of (if n < 10 then 48 + n else 87 + n)"

definition repr_char :: "char \<Rightarrow> char \<Rightarrow> string" where
  "repr_char q c =
     (let n = (of_char c :: nat) in
      if c = q \<or> c = CHR 0x5C then [CHR 0x5C, c]
      else if c = CHR 0x09 then [CHR 0x5C, CHR ''t'']
      else if c = CHR 0x0A then [CHR 0x5C, CHR ''n'']
      else if c = CHR 0x0D then [CHR 0x5C, CHR ''r'']
      else if n < 32 \<or> n = 127 then [CHR 0x5C, CHR ''x'', hex_digit (n div 16), hex_digit (n mod 16)]
      else [c])"

definition py_repr :: "string \<Rightarrow> string" where
  "py_repr s = (let q = (if CHR 0x27 \<in> set s \<and> CHR 0x22 \<notin> set s then CHR 0x22 else CHR 0x27)
     in q # concat (map (repr_char q) s) @ [q])"

definition repr_list :: "string list \<Rightarrow> string" where
  "repr_list xs = ''['' @ join_with '', '' (map py_repr xs) @ '']''"

section \<open>URLs\<close>

text \<open>\<open>urllib.parse.urlsplit\<close>: scheme, network location, path and query (the fragment is dropped).\<close>

definition url_clean :: "string \<Rightarrow> string" where
  "url_clean s = remove_chars [CHR 0x09, CHR 0x0A, CHR 0x0D] (lstrip_by (\<lambda>c. (of_char c :: nat) \<le> 32) s)"

definition is_alpha :: "char \<Rightarrow> bool" where
  "is_alpha c = (let n = (of_char c :: nat) in (65 \<le> n \<and> n \<le> 90) \<or> (97 \<le> n \<and> n \<le> 122))"

definition scheme_char :: "char \<Rightarrow> bool" where
  "scheme_char c = (is_alpha c \<or> (let n = (of_char c :: nat) in 48 \<le> n \<and> n \<le> 57) \<or> c \<in> {CHR ''+'', CHR ''-'', CHR ''.''})"

definition split_scheme :: "string \<Rightarrow> string \<times> string" where
  "split_scheme url =
     (case split_first CHR '':'' url of
        (p, Some rest) \<Rightarrow> if p \<noteq> '''' \<and> is_alpha (hd p) \<and> list_all scheme_char p then (lower p, rest) else ('''', url)
      | (p, None) \<Rightarrow> ('''', url))"

definition split_netloc :: "string \<Rightarrow> (string \<times> string) py_result" where
  "split_netloc url =
     (if starts_with ''//'' url then
        let rest = drop 2 url; n = takeWhile (\<lambda>c. c \<notin> {CHR ''/'', CHR ''?'', CHR ''#''}) rest
        in if (CHR ''['' \<in> set n) \<noteq> (CHR '']'' \<in> set n) then Inl (ValueError ''Invalid IPv6 URL'')
           else Inr (n, drop (length n) rest)
      else Inr ('''', url))"

definition urlsplit :: "string \<Rightarrow> (string \<times> string \<times> string \<times> string) py_result" where
  "urlsplit url =
     (let (scheme, rest) = split_scheme (url_clean url)
      in bindE (split_netloc rest) (\<lambda>(netloc, rest).
           let rest = fst (split_first CHR ''#'' rest);
               (path, query) = split_first CHR ''?'' rest
           in Inr (scheme, netloc, path, case query of None \<Rightarrow> '''' | Some q \<Rightarrow> q)))"

text \<open>
  The \<open>hostname\<close> of a network location: without user information, brackets and port, in lower case;
  \<open>None\<close> when it is empty.
\<close>

definition netloc_hostname :: "string \<Rightarrow> string option" where
  "netloc_hostname netloc =
     (let hostinfo = (case rfind CHR ''@'' netloc of None \<Rightarrow> netloc | Some i \<Rightarrow> drop (i + 1) netloc);
          host = (case split_first CHR ''['' hostinfo of
                    (_, Some bracketed) \<Rightarrow> fst (split_first CHR '']'' bracketed)
                  | (_, None) \<Rightarrow> fst (split_first CHR '':'' hostinfo))
      in if host = '''' then None else Some (lower host))"

section \<open>Shell patterns\<close>

text \<open>
  \<open>fnmatch.fnmatch\<close> on a POSIX system: \<open>*\<close> matches any run of characters (slashes too), \<open>?\<close> one
  character, \<open>[...]\<close> one character of a set, \<open>[!...]\<close> one outside it; a \<open>[\<close> that is not closed stands
  for itself. \<open>bracket\<close> reads a set after its opening bracket.
\<close>

definition bracket :: "string \<Rightarrow> (bool \<times> string \<times> string) option" where
  "bracket p =
     (let (neg, q) = (case p of c # r \<Rightarrow> if c = CHR ''!'' then (True, r) else (False, p) | [] \<Rightarrow> (False, p));
          (lead, body) = (case q of c # r \<Rightarrow> if c = CHR '']'' then ([c], r) else ([], q) | [] \<Rightarrow> ([], q))
      in case split_first CHR '']'' body of
           (stuff, Some rest) \<Rightarrow> Some (neg, lead @ stuff, rest)
         | (_, None) \<Rightarrow> None)"

fun in_items :: "string \<Rightarrow> char \<Rightarrow> bool" where
  "in_items (x # d # y # r) c =
     (if d = CHR ''-'' then (of_char x \<le> (of_char c :: nat) \<and> of_char c \<le> (of_char y :: nat)) \<or> in_items r c
      else c = x \<or> in_items (d # y # r) c)"
| "in_items (x # r) c = (c = x \<or> in_items r c)"
| "in_items [] c = False"

lemma split_first_shorter: "split_first c s = (p, Some q) \<Longrightarrow> length q < length s"
proof -
  assume "split_first c s = (p, Some q)"
  then have "length (takeWhile (\<lambda>x. x \<noteq> c) s) \<noteq> length s" "q = drop (length (takeWhile (\<lambda>x. x \<noteq> c) s) + 1) s"
    by (auto simp: split_first_def Let_def split: if_splits)
  moreover have "length (takeWhile (\<lambda>x. x \<noteq> c) s) \<le> length s" by (rule length_takeWhile_le)
  ultimately show ?thesis by simp
qed

lemma bracket_shorter: "bracket p = Some (neg, items, rest) \<Longrightarrow> length rest < length p"
  by (auto simp: bracket_def Let_def split: list.splits if_splits option.splits prod.splits dest!: split_first_shorter)

function fnmatch :: "string \<Rightarrow> string \<Rightarrow> bool" where
  "fnmatch [] s = (s = [])"
| "fnmatch (c # p) s =
     (if s = [] then (if c = CHR ''*'' then fnmatch p s else False)
      else if c = CHR ''*'' then fnmatch p s \<or> fnmatch (c # p) (tl s)
      else if c = CHR ''?'' then fnmatch p (tl s)
      else case (if c = CHR ''['' then bracket p else None) of
             Some (neg, items, rest) \<Rightarrow> (in_items items (hd s) \<noteq> neg) \<and> fnmatch rest (tl s)
           | None \<Rightarrow> hd s = c \<and> fnmatch p (tl s))"
  by pat_completeness auto
termination
  by (relation "measure (\<lambda>(p, s). length p + length s)")
     (auto simp: neq_Nil_conv split: if_splits dest!: bracket_shorter)

declare fnmatch.simps [simp del]

lemma fnmatch_star: "fnmatch (CHR ''*'' # p) s \<longleftrightarrow> (\<exists>u t. s = u @ t \<and> fnmatch p t)"
proof (induction s)
  case Nil
  show ?case by (subst fnmatch.simps) simp
next
  case (Cons x s)
  have "fnmatch (CHR ''*'' # p) (x # s) \<longleftrightarrow> fnmatch p (x # s) \<or> fnmatch (CHR ''*'' # p) s"
    by (subst fnmatch.simps) simp
  also have "\<dots> \<longleftrightarrow> (\<exists>u t. x # s = u @ t \<and> fnmatch p t)"
    unfolding Cons by (metis append_Cons append_Nil append_eq_Cons_conv)
  finally show ?case .
qed

lemma fnmatch_literal:
  "set lit \<inter> {CHR ''*'', CHR ''?'', CHR ''[''} = {} \<Longrightarrow> fnmatch (lit @ p) s \<longleftrightarrow> (\<exists>t. s = lit @ t \<and> fnmatch p t)"
proof (induction lit arbitrary: s)
  case (Cons c lit)
  then have "fnmatch ((c # lit) @ p) s \<longleftrightarrow> s \<noteq> [] \<and> hd s = c \<and> fnmatch (lit @ p) (tl s)"
    by (subst append_Cons, subst fnmatch.simps) auto
  also have "\<dots> \<longleftrightarrow> (\<exists>t. s = (c # lit) @ t \<and> fnmatch p t)"
    using Cons by (cases s) auto
  finally show ?case .
qed simp

end
