(* ===== verification/Firewall.thy ===== *)
theory Firewall
  imports Verdict_Cache Py_Stdlib Scan_Models
begin

text \<open>
  The registry firewall (\<open>src/picosentry/firewall/scanner.py\<close> and \<open>proxy.py\<close>): classification of
  request paths, the check of the upstream path, the choice of the upstream host, the verdict on
  registry metadata and the proxy's request handler. The scan engine, the network, the JSON codec
  and the PEP 508 parser are parameters; paths are 8-bit strings.
\<close>

section \<open>Paths and origins\<close>

definition safe_upstream_path :: "string \<Rightarrow> string option py_result" where
  "safe_upstream_path path =
     (if contains ''//'' path then Inr None
      else bindE (urlsplit path) (\<lambda>(_, _, p, query).
        let decoded = unquote p
        in if \<not> starts_with ''/'' decoded then Inr None
           else if ''..'' \<in> set (split_on CHR ''/'' decoded) then Inr None
           else if ''..'' \<in> set (split_on CHR ''/'' (unquote decoded)) then Inr None
           else Inr (Some (decoded @ (if query = '''' then '''' else ''?'' @ query)))))"

text \<open>
  Where \<open>urljoin(base, url)\<close> points to: the scheme and the network location of the result.
\<close>

definition join_origin :: "string \<times> string \<Rightarrow> string \<Rightarrow> (string \<times> string) py_result" where
  "join_origin base url =
     (if url = '''' then Inr base
      else bindE (urlsplit url) (\<lambda>(scheme, netloc, _, _).
        let scheme = (if scheme = '''' then fst base else scheme)
        in if scheme \<noteq> fst base then Inr (scheme, netloc)
           else if netloc \<noteq> '''' then Inr (scheme, netloc) else Inr base))"

section \<open>Scanner\<close>

definition STATIC_EXT :: "string list" where
  "STATIC_EXT = [''.ico'', ''.png'', ''.jpg'', ''.jpeg'', ''.gif'', ''.svg'', ''.css'', ''.js'', ''.woff'', ''.woff2'', ''.ttf'', ''.eot'', ''.map'']"

definition static_path :: "string \<Rightarrow> bool" where
  "static_path path = list_ex (\<lambda>e. ends_with e (lower path)) STATIC_EXT"

text \<open>
  The two regular expressions on the segments of the decoded path. A \<open>$\<close> also matches before a final
  line feed.
\<close>

definition match_pypi :: "string list \<Rightarrow> (string \<times> string) option" where
  "match_pypi segs =
     (case segs of
        [e, p, name, j] \<Rightarrow> if e = '''' \<and> p = ''pypi'' \<and> name \<noteq> '''' \<and> (j = ''json'' \<or> j = ''json'' @ [CHR 0x0A]) then Some (name, ''latest'') else None
      | [e, p, name, v, j] \<Rightarrow> if e = '''' \<and> p = ''pypi'' \<and> name \<noteq> '''' \<and> v \<noteq> '''' \<and> (j = ''json'' \<or> j = ''json'' @ [CHR 0x0A]) then Some (name, v) else None
      | _ \<Rightarrow> None)"

definition scoped :: "string \<Rightarrow> bool" where
  "scoped s = (length s > 1 \<and> hd s = CHR ''@'')"

definition match_npm :: "string list \<Rightarrow> (string \<times> string) option" where
  "match_npm segs =
     (case segs of
        [e, a] \<Rightarrow> if e = '''' \<and> a \<noteq> '''' then Some (a, ''latest'') else None
      | [e, a, b] \<Rightarrow> if e = '''' \<and> a \<noteq> '''' \<and> b \<noteq> ''''
          then (if scoped a then Some (a @ ''/'' @ b, ''latest'') else Some (a, b)) else None
      | [e, a, b, c] \<Rightarrow> if e = '''' \<and> scoped a \<and> b \<noteq> '''' \<and> c \<noteq> '''' then Some (a @ ''/'' @ b, c) else None
      | _ \<Rightarrow> None)"

definition classify_path :: "string \<Rightarrow> (string \<times> string \<times> string) option py_result" where
  "classify_path path =
     bindE (urlsplit path) (\<lambda>(_, _, p, _).
       let p = rstrip_by (\<lambda>c. c = CHR ''/'') p
       in if static_path p then Inr None
          else let segs = split_on CHR ''/'' (unquote p)
               in case match_pypi segs of
                    Some (n, v) \<Rightarrow> Inr (Some (''pypi'', n, v))
                  | None \<Rightarrow> (case match_npm segs of Some (n, v) \<Rightarrow> Inr (Some (''npm'', n, v)) | None \<Rightarrow> Inr None))"

definition extract_version_manifest :: "(string \<times> json) list \<Rightarrow> string \<Rightarrow> (string \<times> json) list option py_result" where
  "extract_version_manifest metadata version =
     (case get_json ''versions'' metadata of
        JObj versions \<Rightarrow>
          let resolved = (if version = ''latest'' then
                (case get_json ''dist-tags'' metadata of JObj tags \<Rightarrow> get_json ''latest'' tags | _ \<Rightarrow> JNull)
              else JStr version)
          in if \<not> json_truthy resolved then Inr None
             else (case resolved of
                     JStr v \<Rightarrow> (case dget versions v of Some (JObj m) \<Rightarrow> Inr (Some m) | _ \<Rightarrow> Inr None)
                   | JList _ \<Rightarrow> Inl TypeError
                   | JObj _ \<Rightarrow> Inl TypeError
                   | _ \<Rightarrow> Inr None)
      | _ \<Rightarrow> (case get_json ''info'' metadata of JObj info \<Rightarrow> Inr (Some info) | _ \<Rightarrow> Inr (Some metadata)))"

datatype firewall_verdict = FW_ALLOW | FW_QUARANTINE | FW_BLOCK | FW_UNRESOLVED

fun verdict_value :: "firewall_verdict \<Rightarrow> string" where
  "verdict_value FW_ALLOW = ''allow''"
| "verdict_value FW_QUARANTINE = ''quarantine''"
| "verdict_value FW_BLOCK = ''block''"
| "verdict_value FW_UNRESOLVED = ''unresolved''"

definition UNRESOLVED_TTL_SECONDS :: pyfloat where "UNRESOLVED_TTL_SECONDS = 30"

text \<open>\<open>str.isprintable\<close> on the characters up to U+00FF.\<close>

definition printable_char :: "char \<Rightarrow> bool" where
  "printable_char c = (let n = (of_char c :: nat) in (32 \<le> n \<and> n \<le> 126) \<or> (161 \<le> n \<and> n \<noteq> 173))"

definition sanitize_pypi_name :: "string \<Rightarrow> string option" where
  "sanitize_pypi_name name =
     (let safe = strip (remove_chars [CHR 0x27, CHR 0x0A, CHR 0x0D, CHR '']'', CHR ''#''] name)
      in if safe = '''' \<or> \<not> list_all printable_char safe then None else Some safe)"

text \<open>\<open>parse_req\<close> is \<open>packaging.requirements.Requirement(dep).name\<close> (\<open>None\<close>: it raises).\<close>

definition pep508_dep_name :: "(string \<Rightarrow> string option) \<Rightarrow> string \<Rightarrow> string" where
  "pep508_dep_name parse_req dep =
     (case parse_req dep of
        Some n \<Rightarrow> n
      | None \<Rightarrow> strip (hd (split_on CHR ''['' (strip (foldl (\<lambda>s c. hd (split_on c s)) dep [CHR ''>'', CHR ''<'', CHR ''='', CHR ''!'', CHR '';''])))))"


text \<open>\<open>info.get(k) or ""\<close>, as the value when it is true; \<open>pystr\<close> is Python's \<open>str\<close> of a decoded value.\<close>

definition truthy_field :: "string \<Rightarrow> (string \<times> json) list \<Rightarrow> json option" where
  "truthy_field k d = (let v = get_json k d in if json_truthy v then Some v else None)"

definition project_url :: "(string \<times> json) list \<Rightarrow> json option" where
  "project_url info =
     (let home = truthy_field ''home_page'' info
      in case get_json ''project_urls'' info of
           JObj urls \<Rightarrow>
             (case List.find (\<lambda>k. case truthy_field k urls of Some (JStr _) \<Rightarrow> True | _ \<Rightarrow> False)
                     [''Repository'', ''repository'', ''Source'', ''source'', ''Homepage'', ''homepage''] of
                Some k \<Rightarrow> truthy_field k urls
              | None \<Rightarrow> home)
         | _ \<Rightarrow> home)"

definition person :: "(json \<Rightarrow> string) \<Rightarrow> json \<Rightarrow> json option \<Rightarrow> (string \<times> json) list" where
  "person pystr name email = (''name'', JStr (pystr name)) # (case email of None \<Rightarrow> [] | Some e \<Rightarrow> [(''email'', JStr (pystr e))])"

definition manifest_dependencies :: "(string \<Rightarrow> string option) \<Rightarrow> (string \<times> json) list \<Rightarrow> (string, json) pydict" where
  "manifest_dependencies parse_req info =
     (case truthy_field ''requires_dist'' info of
        Some (JList reqs) \<Rightarrow>
          foldl (\<lambda>deps req. case req of
              JStr r \<Rightarrow> if r = '''' then deps
                else let n = pep508_dep_name parse_req r
                     in if n = '''' then deps
                        else (case sanitize_pypi_name n of None \<Rightarrow> deps | Some safe \<Rightarrow> dset safe (JStr ''*'') deps)
            | _ \<Rightarrow> deps) [] reqs
      | _ \<Rightarrow> [])"

definition pypi_to_npm_manifest :: "(json \<Rightarrow> string) \<Rightarrow> (string \<Rightarrow> string option) \<Rightarrow> string \<Rightarrow> string \<Rightarrow> (string \<times> json) list \<Rightarrow>
    (string \<times> json) list" where
  "pypi_to_npm_manifest pystr parse_req name version info =
     [(''name'', JStr name), (''version'', JStr version)] @
     (case truthy_field ''author'' info of
        None \<Rightarrow> []
      | Some a \<Rightarrow> (case truthy_field ''author_email'' info of
            None \<Rightarrow> [(''author'', JStr (pystr a))]
          | Some e \<Rightarrow> [(''author'', JObj (person pystr a (Some e)))])) @
     (case truthy_field ''maintainer'' info of
        None \<Rightarrow> []
      | Some m \<Rightarrow> [(''maintainers'', JList [JObj (person pystr m (truthy_field ''maintainer_email'' info))])]) @
     (case project_url info of
        None \<Rightarrow> []
      | Some u \<Rightarrow> [(''repository'', JObj [(''type'', JStr ''git''), (''url'', JStr (pystr u))]), (''homepage'', JStr (pystr u))]) @
     (case (case truthy_field ''summary'' info of None \<Rightarrow> truthy_field ''description'' info | Some s \<Rightarrow> Some s) of
        None \<Rightarrow> [] | Some d \<Rightarrow> [(''description'', JStr (pystr d))]) @
     (case truthy_field ''license'' info of Some (JStr l) \<Rightarrow> [(''license'', JStr l)] | _ \<Rightarrow> []) @
     (let deps = manifest_dependencies parse_req info in if deps = [] then [] else [(''dependencies'', JObj deps)]) @
     (if json_truthy (get_json ''yanked'' info)
      then [(''_npmUser'', JObj [(''name'', JStr (case dget info ''author'' of None \<Rightarrow> ''unknown'' | Some a \<Rightarrow> pystr a))])] else [])"

text \<open>
  What the scanner depends on: the encoder, the engine on the files written to the temporary
  directory (\<open>None\<close>: it raises), and the functions above.
\<close>

record firewall_env =
  env_dumps :: "(string \<times> json) list \<Rightarrow> string"
  env_engine :: "(string \<times> string) list \<Rightarrow> finding list option"
  env_pystr :: "json \<Rightarrow> string"
  env_parse_req :: "string \<Rightarrow> string option"

record firewall_scanner =
  block_sevs :: "string list"
  quarantine_sevs :: "string list"
  fw_cache :: "(firewall_verdict \<times> finding list) verdict_cache"

definition or_default :: "'a list option \<Rightarrow> 'a list \<Rightarrow> 'a list" where
  "or_default x d = (case x of None \<Rightarrow> d | Some [] \<Rightarrow> d | Some xs \<Rightarrow> xs)"

definition new_firewall_scanner :: "string list option \<Rightarrow> string list option \<Rightarrow> pyfloat \<Rightarrow> nat \<Rightarrow> firewall_scanner" where
  "new_firewall_scanner block quarantine ttl mx =
     \<lparr>block_sevs = map upper (or_default block [''CRITICAL'']),
      quarantine_sevs = map upper (or_default quarantine [''HIGH'', ''MEDIUM'']),
      fw_cache = new_verdict_cache ttl mx\<rparr>"

definition verdict_from_findings :: "firewall_scanner \<Rightarrow> finding list \<Rightarrow> firewall_verdict" where
  "verdict_from_findings s findings =
     (if findings = [] then FW_ALLOW
      else if list_ex (\<lambda>f. upper (severity_value (f_severity f)) \<in> set (block_sevs s)) findings then FW_BLOCK
      else if list_ex (\<lambda>f. upper (severity_value (f_severity f)) \<in> set (quarantine_sevs s)) findings then FW_QUARANTINE
      else FW_ALLOW)"

definition scan_files :: "firewall_env \<Rightarrow> string \<Rightarrow> string \<Rightarrow> string \<Rightarrow> (string \<times> json) list \<Rightarrow> (string \<times> string) list option" where
  "scan_files env ecosystem name version manifest =
     (if ecosystem = ''npm'' then Some [(''package.json'', env_dumps env manifest)]
      else case sanitize_pypi_name name of
             None \<Rightarrow> None
           | Some safe \<Rightarrow> Some
               [(''pyproject.toml'', ''[project]'' @ [CHR 0x0A] @ ''name = '' @ [CHR 0x27] @ safe @ [CHR 0x27, CHR 0x0A]),
                (''requirements.txt'', safe @ ''=='' @ version), (''pypi_metadata.json'', env_dumps env manifest),
                (''node_modules/'' @ safe @ ''/package.json'',
                 env_dumps env (pypi_to_npm_manifest (env_pystr env) (env_parse_req env) safe version manifest))])"

definition put_verdict :: "pyfloat \<Rightarrow> cache_key \<Rightarrow> firewall_verdict \<times> finding list \<Rightarrow> pyfloat option \<Rightarrow> firewall_scanner \<Rightarrow>
    firewall_scanner py_result" where
  "put_verdict now k v ttl s = bindE (cache_put now k v ttl (fw_cache s)) (\<lambda>c. Inr (s\<lparr>fw_cache := c\<rparr>))"

definition scan_manifest :: "firewall_env \<Rightarrow> pyfloat \<Rightarrow> cache_key \<Rightarrow> (string \<times> json) list \<Rightarrow> firewall_scanner \<Rightarrow>
    ((firewall_verdict \<times> finding list) \<times> firewall_scanner) py_result" where
  "scan_manifest env now k manifest s =
     (let (ecosystem, name, version) = k
      in if ecosystem \<noteq> ''npm'' \<and> ecosystem \<noteq> ''pypi'' then Inr ((FW_ALLOW, []), s)
         else case scan_files env ecosystem name version manifest of
                None \<Rightarrow> Inr ((FW_BLOCK, []), s)
              | Some files \<Rightarrow>
                  (case env_engine env files of
                     None \<Rightarrow> Inr ((FW_BLOCK, []), s)
                   | Some findings \<Rightarrow>
                       let v = verdict_from_findings s findings
                       in bindE (put_verdict now k (v, findings) None s) (\<lambda>s. Inr ((v, findings), s))))"

definition scan_metadata :: "firewall_env \<Rightarrow> pyfloat \<Rightarrow> string \<Rightarrow> string \<Rightarrow> string \<Rightarrow> (string \<times> json) list \<Rightarrow> firewall_scanner \<Rightarrow>
    ((firewall_verdict \<times> finding list) \<times> firewall_scanner) py_result" where
  "scan_metadata env now ecosystem name version metadata s =
     (let k = (ecosystem, name, version); (cached, c) = cache_get now k (fw_cache s); s = s\<lparr>fw_cache := c\<rparr>
      in case cached of
           Some v \<Rightarrow> Inr (v, s)
         | None \<Rightarrow>
             bindE (extract_version_manifest metadata version) (\<lambda>m.
               case m of
                 None \<Rightarrow> bindE (put_verdict now k (FW_UNRESOLVED, []) (Some UNRESOLVED_TTL_SECONDS) s) (\<lambda>s. Inr ((FW_UNRESOLVED, []), s))
               | Some manifest \<Rightarrow> scan_manifest env now k manifest s))"

section \<open>Proxy\<close>

record firewall_config =
  upstream_npm :: "string \<times> string"
  upstream_pypi :: "string \<times> string"
  auth_token :: "string option"
  quarantine_action :: string
  pass_through_max :: nat

text \<open>Upstream answers: an HTTP error, unreachable (or refused as unsafe), or status, type and body.\<close>

datatype upstream = UHttpError nat string | UUnreachable | UOk nat string string

record response =
  status :: nat
  headers :: "(string \<times> string) list"
  body :: string

definition sanitize_header :: "string \<Rightarrow> string" where
  "sanitize_header v = remove_chars [CHR 0x0D, CHR 0x0A] v"

definition authorized :: "firewall_config \<Rightarrow> string option \<Rightarrow> bool" where
  "authorized cfg presented = (case auth_token cfg of None \<Rightarrow> True
     | Some t \<Rightarrow> (case presented of None \<Rightarrow> '''' | Some p \<Rightarrow> p) = ''Bearer '' @ t)"

definition send_forward :: "nat \<Rightarrow> string \<Rightarrow> string \<Rightarrow> (string \<times> string) list \<Rightarrow> response" where
  "send_forward st ctype b extra = \<lparr>status = st, headers = [(''Content-Type'', sanitize_header ctype), (''X-PicoSentry-Proxy'', ''true'')]
     @ map (\<lambda>(k, v). (k, sanitize_header v)) extra, body = b\<rparr>"

definition error_body :: "string \<Rightarrow> string" where
  "error_body m = [CHR 0x7B, CHR 0x22] @ ''error'' @ [CHR 0x22] @ '': '' @ [CHR 0x22] @ m @ [CHR 0x22, CHR 0x7D]"

definition invalid_path :: response where
  "invalid_path = \<lparr>status = 400, headers = [(''Content-Type'', ''application/json'')], body = error_body ''invalid path''\<rparr>"

text \<open>The base the code chooses for a path, and the reference it resolves against it.\<close>

definition upstream_target :: "firewall_config \<Rightarrow> string \<Rightarrow> string \<Rightarrow> ((string \<times> string) \<times> string) option py_result" where
  "upstream_target cfg ecosystem path =
     bindE (safe_upstream_path path) (\<lambda>p. Inr (map_option (\<lambda>u.
       (if ecosystem = ''npm'' then upstream_npm cfg else upstream_pypi cfg, lstrip_by (\<lambda>c. c = CHR ''/'') u)) p))"

definition guess_upstream :: "firewall_config \<Rightarrow> string \<Rightarrow> ((string \<times> string) \<times> string) option py_result" where
  "guess_upstream cfg path =
     bindE (safe_upstream_path path) (\<lambda>p. Inr (map_option (\<lambda>u.
       (if starts_with ''/pypi/'' path then upstream_pypi cfg else upstream_npm cfg, lstrip_by (\<lambda>c. c = CHR ''/'') u)) p))"

text \<open>The copy loop of a pass-through: the chunks written, and whether the connection is cut.\<close>

fun stream_copy :: "nat \<Rightarrow> nat \<Rightarrow> string list \<Rightarrow> string list \<times> bool" where
  "stream_copy mx n [] = ([], False)"
| "stream_copy mx n (chunk # chunks) =
     (if chunk = '''' then ([], False)
      else if n + length chunk > mx then ([], True)
      else let (w, cut) = stream_copy mx (n + length chunk) chunks in (chunk # w, cut))"

definition proxy_pass :: "firewall_config \<Rightarrow> ((string \<times> string) \<times> string \<Rightarrow> upstream) \<Rightarrow> (string \<Rightarrow> string list) \<Rightarrow> string \<Rightarrow> response py_result" where
  "proxy_pass cfg fetch chunks path =
     bindE (guess_upstream cfg path) (\<lambda>t. Inr (
       case t of
         None \<Rightarrow> invalid_path
       | Some target \<Rightarrow>
           (case fetch target of
              UHttpError code _ \<Rightarrow> \<lparr>status = code, headers = [], body = ''''\<rparr>
            | UUnreachable \<Rightarrow> \<lparr>status = 502, headers = [], body = ''''\<rparr>
            | UOk st ctype b \<Rightarrow> \<lparr>status = st, headers = [(''Content-Type'', sanitize_header ctype), (''X-PicoSentry-Proxy'', ''true''),
                (''X-PicoSentry-Verdict'', ''passthrough'')], body = concat (fst (stream_copy (pass_through_max cfg) 0 (chunks b)))\<rparr>)))"

definition block_body :: "firewall_verdict \<Rightarrow> string \<Rightarrow> string \<Rightarrow> string \<Rightarrow> finding list \<Rightarrow> (string \<times> json) list" where
  "block_body v ecosystem name version findings =
     [(''verdict'', JStr (verdict_value v)), (''ecosystem'', JStr ecosystem), (''package'', JStr name), (''version'', JStr version),
      (''reasons'', JList (map (\<lambda>f. JObj [(''rule_id'', JStr (f_rule f)), (''severity'', JStr (severity_value (f_severity f))),
         (''message'', JStr (f_message f))]) findings))]"

definition reply :: "firewall_env \<Rightarrow> firewall_config \<Rightarrow> string \<Rightarrow> string \<Rightarrow> string \<Rightarrow> nat \<Rightarrow> string \<Rightarrow> string \<Rightarrow> firewall_verdict \<Rightarrow> finding list \<Rightarrow> response" where
  "reply env cfg ecosystem name version st ctype b v findings =
     (if v = FW_UNRESOLVED then \<lparr>status = 502, headers = [(''Content-Type'', ''application/json''), (''X-PicoSentry-Verdict'', ''unresolved'')],
        body = error_body ''version not found in upstream catalog''\<rparr>
      else if v = FW_ALLOW then send_forward st ctype b [(''X-PicoSentry-Verdict'', ''allow'')]
      else if v = FW_QUARANTINE \<and> quarantine_action cfg = ''tag'' then
        send_forward st ctype b [(''X-PicoSentry-Verdict'', ''quarantine''),
          (''X-PicoSentry-Reasons'', join_with '','' (map f_rule findings))]
      else \<lparr>status = 403, headers = [(''Content-Type'', ''application/json''), (''X-PicoSentry-Verdict'', sanitize_header (verdict_value v))],
        body = env_dumps env (block_body v ecosystem name version findings)\<rparr>)"

definition MAX_ERROR_BODY :: nat where "MAX_ERROR_BODY = 2 ^ 20"

text \<open>
  The request handler: \<open>fetch\<close> is the upstream request, \<open>loads\<close> the JSON decoder of the body.
\<close>

definition do_GET :: "firewall_env \<Rightarrow> firewall_config \<Rightarrow> pyfloat \<Rightarrow> ((string \<times> string) \<times> string \<Rightarrow> upstream) \<Rightarrow> (string \<Rightarrow> json option) \<Rightarrow>
    (string \<Rightarrow> string list) \<Rightarrow> string \<Rightarrow> string option \<Rightarrow> firewall_scanner \<Rightarrow> (response \<times> firewall_scanner) py_result" where
  "do_GET env cfg now fetch loads chunks path auth s =
     (if \<not> authorized cfg auth then
        Inr (\<lparr>status = 401, headers = [(''Content-Type'', ''application/json''), (''WWW-Authenticate'', ''Bearer'')], body = error_body ''unauthorized''\<rparr>, s)
      else bindE (classify_path path) (\<lambda>parsed.
        case parsed of
          None \<Rightarrow> bindE (proxy_pass cfg fetch chunks path) (\<lambda>r. Inr (r, s))
        | Some (ecosystem, name, version) \<Rightarrow>
            bindE (upstream_target cfg ecosystem path) (\<lambda>t.
              case t of
                None \<Rightarrow> Inr (invalid_path, s)
              | Some target \<Rightarrow>
                  (case fetch target of
                     UHttpError code b \<Rightarrow> Inr (\<lparr>status = code, headers = [], body = take MAX_ERROR_BODY b\<rparr>, s)
                   | UUnreachable \<Rightarrow> Inr (\<lparr>status = 502, headers = [], body = error_body ''upstream unreachable''\<rparr>, s)
                   | UOk st ctype b \<Rightarrow>
                       (case loads b of
                          Some (JObj metadata) \<Rightarrow>
                            bindE (scan_metadata env now ecosystem name version metadata s) (\<lambda>((v, findings), s).
                              Inr (reply env cfg ecosystem name version st ctype b v findings, s))
                        | _ \<Rightarrow> Inr (send_forward st ctype b [], s))))))"


section \<open>Verdicts\<close>

definition blocking :: "firewall_scanner \<Rightarrow> finding \<Rightarrow> bool" where
  "blocking s f \<longleftrightarrow> upper (severity_value (f_severity f)) \<in> set (block_sevs s)"

definition quarantining :: "firewall_scanner \<Rightarrow> finding \<Rightarrow> bool" where
  "quarantining s f \<longleftrightarrow> upper (severity_value (f_severity f)) \<in> set (quarantine_sevs s)"

lemma verdict_cases:
  "verdict_from_findings s fs = FW_BLOCK \<longleftrightarrow> (\<exists>f \<in> set fs. blocking s f)"
  "verdict_from_findings s fs = FW_QUARANTINE \<longleftrightarrow> \<not> (\<exists>f \<in> set fs. blocking s f) \<and> (\<exists>f \<in> set fs. quarantining s f)"
  "verdict_from_findings s fs = FW_ALLOW \<longleftrightarrow> (\<forall>f \<in> set fs. \<not> blocking s f \<and> \<not> quarantining s f)"
  by (auto simp: verdict_from_findings_def blocking_def quarantining_def list_ex_iff)

text \<open>Every verdict in the cache is the one its findings give.\<close>

definition entry_sound :: "firewall_scanner \<Rightarrow> firewall_verdict \<times> finding list \<Rightarrow> bool" where
  "entry_sound s e \<longleftrightarrow> e = (FW_UNRESOLVED, []) \<or> fst e = verdict_from_findings s (snd e)"


lemma entry_sound_cache [simp]: "entry_sound (s\<lparr>fw_cache := c\<rparr>) e = entry_sound s e"
  by (simp add: entry_sound_def verdict_from_findings_def)







text \<open>The severities a scanner acts on never change.\<close>

lemma put_verdict_sevs: "put_verdict now k v ttl s = Inr s' \<Longrightarrow> block_sevs s' = block_sevs s \<and> quarantine_sevs s' = quarantine_sevs s"
  by (auto simp: put_verdict_def bindE_eq_Inr)






text \<open>A concrete scanner environment for the witnesses: an engine that reports one finding.\<close>

definition demo_env :: "severity \<Rightarrow> firewall_env" where
  "demo_env sev = \<lparr>env_dumps = (\<lambda>_. ''doc''), env_engine = (\<lambda>_. Some [demo_finding ''L2-TYPO-001'' sev ''p'']),
     env_pystr = (\<lambda>_. ''''), env_parse_req = (\<lambda>_. None)\<rparr>"

definition demo_scanner :: firewall_scanner where
  "demo_scanner = new_firewall_scanner None None 3600 10"

lemma demo_scanner_sevs: "block_sevs demo_scanner = [''CRITICAL'']" "quarantine_sevs demo_scanner = [''HIGH'', ''MEDIUM'']"
proof -
  have "map upper [''CRITICAL''] = [''CRITICAL'']" "map upper [''HIGH'', ''MEDIUM''] = [''HIGH'', ''MEDIUM'']" by code_simp+
  then show "block_sevs demo_scanner = [''CRITICAL'']" "quarantine_sevs demo_scanner = [''HIGH'', ''MEDIUM'']"
    by (simp_all only: demo_scanner_def new_firewall_scanner_def or_default_def option.case firewall_scanner.select_convs)
qed

lemma demo_blocking: "blocking demo_scanner (demo_finding r CRITICAL p)"
proof -
  have "upper ''CRITICAL'' = ''CRITICAL''" by code_simp
  then show ?thesis by (simp add: blocking_def demo_scanner_sevs demo_finding_def)
qed

lemma demo_cache: "fst (cache_get now k (fw_cache demo_scanner)) = None" "c_max (fw_cache demo_scanner) = 10" "cache_ok (fw_cache demo_scanner)"
  by (simp_all add: demo_scanner_def new_firewall_scanner_def) (simp_all add: cache_get_def new_verdict_cache_def)

section \<open>Refusing packages\<close>

lemma put_verdict_total:
  assumes "cache_ok (fw_cache s)" and "0 < c_max (fw_cache s)" "0 \<le> c_ttl (fw_cache s)"
  shows "\<exists>s'. put_verdict now k v None s = Inr s' \<and> fst (cache_get now k (fw_cache s')) = Some v"
proof (cases "dget (c_store (fw_cache s)) k = None \<and> length (c_store (fw_cache s)) \<ge> c_max (fw_cache s)")
  case True
  then have "c_store (fw_cache s) \<noteq> []" using assms(2) by auto
  then obtain old where "min_expiry (c_store (fw_cache s)) = Inr old" using min_expiry_in by blast
  with True assms(3) show ?thesis by (simp add: put_verdict_def cache_put_def Let_def cache_get_value)
next
  case False
  then have "cache_put now k v None (fw_cache s) = Inr (fw_cache s\<lparr>c_store := dset k (now + c_ttl (fw_cache s), v) (c_store (fw_cache s))\<rparr>)"
    by (auto simp: cache_put_def Let_def)
  then show ?thesis using assms(3) by (simp add: put_verdict_def cache_get_value)
qed

lemma cache_get_fields: "c_max (snd (cache_get now k c)) = c_max c" "c_ttl (snd (cache_get now k c)) = c_ttl c"
  by (simp_all add: cache_get_def split: option.splits)

text \<open>
  A dangerous package is refused. For an authorised request that names an npm package, whose
  upstream metadata decodes to a document with the requested version and is not cached: if the
  engine fails, or reports a finding of a blocking severity, the client gets status 403 and not the
  upstream document, and in the second case the BLOCK verdict is cached.
\<close>

lemma dangerous_package_refused:
  assumes auth: "authorized cfg auth" and cls: "classify_path path = Inr (Some (''npm'', name, ver))"
    and up: "upstream_target cfg ''npm'' path = Inr (Some t)" and f: "fetch t = UOk st ctype b" and l: "loads b = Some (JObj md)"
    and miss: "fst (cache_get now (''npm'', name, ver) (fw_cache s)) = None" and m: "extract_version_manifest md ver = Inr (Some manifest)"
    and eng: "env_engine env [(''package.json'', env_dumps env manifest)] = res" "res = None \<or> (\<exists>fs. res = Some fs \<and> (\<exists>f \<in> set fs. blocking s f))"
    and c: "cache_ok (fw_cache s)" "0 < c_max (fw_cache s)" "0 \<le> c_ttl (fw_cache s)"
  shows "\<exists>r s'. do_GET env cfg now fetch loads chunks path auth s = Inr (r, s') \<and> status r = 403
    \<and> (\<forall>fs. res = Some fs \<longrightarrow> fst (cache_get now (''npm'', name, ver) (fw_cache s')) = Some (FW_BLOCK, fs))"
proof -
  let ?k = "(''npm'', name, ver)"
  let ?s = "s\<lparr>fw_cache := snd (cache_get now ?k (fw_cache s))\<rparr>"
  have ok: "cache_ok (fw_cache ?s)" "0 < c_max (fw_cache ?s)" "0 \<le> c_ttl (fw_cache ?s)"
    using c by (simp_all add: cache_get_ok cache_get_fields)
  have "\<exists>fs s'. scan_metadata env now ''npm'' name ver md s = Inr ((FW_BLOCK, fs), s')
      \<and> (\<forall>gs. res = Some gs \<longrightarrow> fst (cache_get now ?k (fw_cache s')) = Some (FW_BLOCK, gs))"
  proof (cases res)
    case None
    then show ?thesis
      using miss m eng(1) by (simp add: scan_metadata_def split_beta Let_def scan_manifest_def scan_files_def)
  next
    case (Some fs)
    then have "verdict_from_findings s fs = FW_BLOCK" using eng(2) by (auto simp: verdict_cases)
    moreover have "verdict_from_findings ?s fs = verdict_from_findings s fs" by (simp add: verdict_from_findings_def)
    moreover obtain s' where "put_verdict now ?k (FW_BLOCK, fs) None ?s = Inr s'" "fst (cache_get now ?k (fw_cache s')) = Some (FW_BLOCK, fs)"
      using put_verdict_total [OF ok] by blast
    ultimately show ?thesis
      using miss m eng(1) Some by (simp add: scan_metadata_def split_beta Let_def scan_manifest_def scan_files_def)
  qed
  then obtain fs s' where "scan_metadata env now ''npm'' name ver md s = Inr ((FW_BLOCK, fs), s')"
      "\<forall>gs. res = Some gs \<longrightarrow> fst (cache_get now ?k (fw_cache s')) = Some (FW_BLOCK, gs)" by blast
  then show ?thesis
    using auth cls up f l by (simp add: do_GET_def reply_def)
qed


section \<open>Paths\<close>

definition url_special :: "char set" where
  "url_special = {CHR ''?'', CHR ''#'', CHR 0x09, CHR 0x0A, CHR 0x0D}"

lemma slash_alpha: "\<not> is_alpha CHR ''/''" "is_alpha CHR ''h''"
  by code_simp+

lemma url_clean_id: "s \<noteq> [] \<Longrightarrow> (of_char (hd s) :: nat) > 32 \<Longrightarrow> set s \<inter> url_special = {} \<Longrightarrow> url_clean s = s"
proof -
  assume a: "s \<noteq> []" "(of_char (hd s) :: nat) > 32" "set s \<inter> url_special = {}"
  then have "lstrip_by (\<lambda>c. (of_char c :: nat) \<le> 32) s = s" by (cases s) (simp_all add: lstrip_by_def)
  moreover have "remove_chars [CHR 0x09, CHR 0x0A, CHR 0x0D] s = s"
    using a(3) by (auto simp: remove_chars_def url_special_def filter_id_conv)
  ultimately show ?thesis by (simp add: url_clean_def)
qed

text \<open>A path that starts with a single slash is its own path component.\<close>

lemma urlsplit_path:
  assumes "\<not> starts_with ''/'' t" and "set t \<inter> url_special = {}"
  shows "urlsplit (CHR ''/'' # t) = Inr ('''', '''', CHR ''/'' # t, '''')"
proof -
  let ?s = "CHR ''/'' # t"
  have "url_clean ?s = ?s" by (rule url_clean_id) (use assms(2) in \<open>auto simp: url_special_def\<close>)
  moreover have "split_scheme ?s = ('''', ?s)"
    by (auto simp: split_scheme_def split_first_def Let_def slash_alpha split: option.splits prod.splits)
  moreover have "split_netloc ?s = Inr ('''', ?s)" using assms(1) by (simp add: split_netloc_def)
  moreover have "split_first CHR ''#'' ?s = (?s, None)" "split_first CHR ''?'' ?s = (?s, None)"
    by (rule split_first_none, use assms(2) in \<open>auto simp: url_special_def\<close>)+
  ultimately show ?thesis by (simp add: urlsplit_def Let_def)
qed

text \<open>Letters, digits, dots and dashes: what host names and plain package names are made of.\<close>

definition plain :: "string \<Rightarrow> bool" where
  "plain s = (s \<noteq> '''' \<and> list_all (\<lambda>c. c \<notin> url_special \<union> {CHR ''/'', CHR ''%'', CHR '':'', CHR ''['', CHR '']'', CHR '' ''}) s)"

lemma plain_facts:
  assumes "plain s"
  shows "set s \<inter> url_special = {}" "CHR ''/'' \<notin> set s" "CHR ''%'' \<notin> set s" "CHR '':'' \<notin> set s" "s \<noteq> []"
    "CHR ''['' \<notin> set s" "CHR '']'' \<notin> set s"
  using assms by (auto simp: plain_def list_all_iff)

text \<open>
  A package whose name ends like a static asset is never scanned. For every plain name, a
  request for \<open>/<name>.js\<close> (and so for \<open>chart.js\<close> or \<open>highlight.js\<close>) is classified as a static file
  and passed through, whatever the metadata contains and whatever the engine would report.
\<close>

theorem static_suffix_bypasses_scan:
  assumes "plain name" and "authorized cfg auth"
  shows "do_GET env cfg now fetch loads chunks (''/'' @ name @ ''.js'') auth s =
    bindE (proxy_pass cfg fetch chunks (''/'' @ name @ ''.js'')) (\<lambda>r. Inr (r, s))"
proof -
  note p = plain_facts [OF assms(1)]
  let ?p = "name @ ''.js''"
  have "urlsplit (CHR ''/'' # ?p) = Inr ('''', '''', CHR ''/'' # ?p, '''')"
  proof (rule urlsplit_path)
    show "\<not> starts_with ''/'' ?p" using p(2,5) by (cases name) auto
    show "set ?p \<inter> url_special = {}" using p(1) by (auto simp: url_special_def)
  qed
  moreover have "rstrip_by (\<lambda>c. c = CHR ''/'') (CHR ''/'' # ?p) = CHR ''/'' # ?p" by (simp add: rstrip_by_def)
  moreover have "static_path (CHR ''/'' # ?p)"
  proof -
    have "lower ''.js'' = ''.js''" by code_simp
    then have "ends_with ''.js'' (lower (CHR ''/'' # ?p))" by (simp add: ends_with_def)
    then show ?thesis by (simp add: static_path_def STATIC_EXT_def)
  qed
  ultimately have "classify_path (''/'' @ ?p) = Inr None" by (simp add: classify_path_def)
  then show ?thesis using assms(2) by (simp add: do_GET_def)
qed

lemma contains_simps: "contains sub [] = starts_with sub []" "contains sub (x # xs) \<longleftrightarrow> starts_with sub (x # xs) \<or> contains sub xs"
proof -
  show "contains sub [] = starts_with sub []" by (simp add: contains_def)
  have "[0..<length (x # xs) + 1] = 0 # [Suc 0..<Suc (length xs + 1)]" using upt_conv_Cons [of 0 "length (x # xs) + 1"] by simp
  also have "\<dots> = 0 # map Suc [0..<length xs + 1]" by (simp only: map_Suc_upt)
  finally have "[0..<length (x # xs) + 1] = 0 # map Suc [0..<length xs + 1]" .
  then have "contains sub (x # xs) \<longleftrightarrow> list_ex (\<lambda>i. starts_with sub (drop i (x # xs))) (0 # map Suc [0..<length xs + 1])"
    unfolding contains_def by (rule arg_cong)
  then show "contains sub (x # xs) \<longleftrightarrow> starts_with sub (x # xs) \<or> contains sub xs"
    unfolding contains_def by (simp only: list_ex_iff list.set set_map image_iff bex_simps) force
qed

lemma contains_plain: "CHR ''/'' \<notin> set h \<Longrightarrow> contains ''//'' (h @ ''/x'') = False"
proof (induction h)
  case Nil
  then show ?case by (simp add: contains_simps)
next
  case (Cons c h)
  then show ?case by (auto simp: contains_simps)
qed

lemma hex_eval: "hex_value CHR ''2'' = Some 2" "hex_value CHR ''f'' = Some 15" "char_of (47 :: nat) = CHR ''/''"
  "lower_char CHR ''x'' = CHR ''x''" "lower ''https'' = ''https''" "list_all scheme_char ''https''"
  by code_simp+

lemma escape_decoded:
  assumes "plain h"
  shows "unquote (''/https:%2f%2f'' @ h @ ''/x'') = ''/https://'' @ h @ ''/x''"
    and "unquote (''/https://'' @ h @ ''/x'') = ''/https://'' @ h @ ''/x''"
    and "split_on CHR ''/'' (''/https://'' @ h @ ''/x'') = ['''', ''https:'', '''', h, ''x'']"
proof -
  note p = plain_facts [OF assms]
  have "unquote (h @ ''/x'') = h @ ''/x''" by (rule unquote_plain) (use p(3) in simp)
  then show "unquote (''/https:%2f%2f'' @ h @ ''/x'') = ''/https://'' @ h @ ''/x''" by (simp add: hex_eval)
  show "unquote (''/https://'' @ h @ ''/x'') = ''/https://'' @ h @ ''/x''" by (rule unquote_plain) (use p(3) in simp)
  show "split_on CHR ''/'' (''/https://'' @ h @ ''/x'') = ['''', ''https:'', '''', h, ''x'']"
    using split_on_append [OF p(2), of "''x''"] by simp
qed

lemma urlsplit_escape:
  assumes "plain h"
  shows "urlsplit (''/https:%2f%2f'' @ h @ ''/x'') = Inr ('''', '''', ''/https:%2f%2f'' @ h @ ''/x'', '''')"
    and "urlsplit (''https://'' @ h @ ''/x'') = Inr (''https'', h, ''/x'', '''')"
proof -
  note p = plain_facts [OF assms]
  have sp: "set (''https:%2f%2f'' @ h @ ''/x'') \<inter> url_special = {}" "set (''https://'' @ h @ ''/x'') \<inter> url_special = {}"
    using p(1) by (auto simp: url_special_def)
  show "urlsplit (''/https:%2f%2f'' @ h @ ''/x'') = Inr ('''', '''', ''/https:%2f%2f'' @ h @ ''/x'', '''')"
    using urlsplit_path [OF _ sp(1)] by simp
  have "url_clean (''https://'' @ h @ ''/x'') = ''https://'' @ h @ ''/x''"
    by (rule url_clean_id) (use sp(2) in simp_all)
  moreover have "split_scheme (''https'' @ CHR '':'' # ''//'' @ h @ ''/x'') = (''https'', ''//'' @ h @ ''/x'')"
    unfolding split_scheme_def by (subst split_first_at) (simp, use hex_eval slash_alpha in simp)
  moreover have "takeWhile (\<lambda>c. c \<notin> {CHR ''/'', CHR ''?'', CHR ''#''}) (h @ ''/x'') = h"
    using p(1,2) by (subst takeWhile_append2) (auto simp: url_special_def)
  then have "split_netloc (''//'' @ h @ ''/x'') = Inr (h, ''/x'')"
    using p(6,7) by (simp add: split_netloc_def Let_def)
  moreover have "split_first CHR ''#'' ''/x'' = (''/x'', None)" "split_first CHR ''?'' ''/x'' = (''/x'', None)"
    by (simp_all add: split_first_none)
  ultimately show "urlsplit (''https://'' @ h @ ''/x'') = Inr (''https'', h, ''/x'', '''')"
    by (simp add: urlsplit_def Let_def)
qed

text \<open>
  The client chooses the host. The request path \<open>/https:%2f%2f<host>/x\<close> passes the path check
  (no double slash before decoding, no dot-dot segment), is not classified, and the reference the
  proxy resolves against its registry points to \<open>https://<host>\<close>, for every plain host name.
\<close>

lemma client_chooses_host:
  assumes "plain host" and "host \<noteq> ''..''" and "fst (upstream_npm cfg) = ''https''"
  shows "classify_path (''/https:%2f%2f'' @ host @ ''/x'') = Inr None
    \<and> guess_upstream cfg (''/https:%2f%2f'' @ host @ ''/x'') = Inr (Some (upstream_npm cfg, ''https://'' @ host @ ''/x''))
    \<and> join_origin (upstream_npm cfg) (''https://'' @ host @ ''/x'') = Inr (''https'', host)"
proof -
  let ?path = "''/https:%2f%2f'' @ host @ ''/x''"
  note p = plain_facts [OF assms(1)] and d = escape_decoded [OF assms(1)] and u = urlsplit_escape [OF assms(1)]
  have nostatic: "\<not> static_path ?path"
    by (simp add: static_path_def STATIC_EXT_def ends_with_def hex_eval)
  have strip: "rstrip_by (\<lambda>c. c = CHR ''/'') ?path = ?path" by (simp add: rstrip_by_def)
  have "classify_path ?path = Inr None"
    unfolding classify_path_def u(1) using nostatic strip d(1,3)
    by (simp add: match_pypi_def match_npm_def Let_def)
  moreover have "\<not> contains ''//'' ?path" using contains_plain [OF p(2)] by (simp add: contains_simps)
  then have "safe_upstream_path ?path = Inr (Some (''/https://'' @ host @ ''/x''))"
    unfolding safe_upstream_path_def u(1) using assms(2) d by (simp add: Let_def)
  then have "guess_upstream cfg ?path = Inr (Some (upstream_npm cfg, ''https://'' @ host @ ''/x''))"
    by (simp add: guess_upstream_def lstrip_by_def)
  moreover have "join_origin (upstream_npm cfg) (''https://'' @ host @ ''/x'') = Inr (''https'', host)"
    using assms(3) p(5) u(2) by (simp add: join_origin_def Let_def)
  ultimately show ?thesis by blast
qed


definition demo_config :: firewall_config where
  "demo_config = \<lparr>upstream_npm = (''https'', ''registry.npmjs.org''), upstream_pypi = (''https'', ''pypi.org''), auth_token = None,
     quarantine_action = ''tag'', pass_through_max = 100\<rparr>"

lemma demo_path: "classify_path ''/p/1.0'' = Inr (Some (''npm'', ''p'', ''1.0''))"
  "safe_upstream_path ''/p/1.0'' = Inr (Some ''/p/1.0'')"
  by code_simp+

lemma dangerous_package_refused_witness:
  "\<exists>r s'. do_GET (demo_env CRITICAL) demo_config 1 (\<lambda>_. UOk 200 ''application/json'' ''x'') (\<lambda>_. Some (JObj [(''name'', JStr ''p'')]))
     (\<lambda>b. [b]) ''/p/1.0'' None demo_scanner = Inr (r, s') \<and> status r = 403"
proof -
  have "\<exists>r s'. do_GET (demo_env CRITICAL) demo_config 1 (\<lambda>_. UOk 200 ''application/json'' ''x'') (\<lambda>_. Some (JObj [(''name'', JStr ''p'')]))
     (\<lambda>b. [b]) ''/p/1.0'' None demo_scanner = Inr (r, s') \<and> status r = 403
    \<and> (\<forall>fs. Some [demo_finding ''L2-TYPO-001'' CRITICAL ''p''] = Some fs \<longrightarrow>
         fst (cache_get 1 (''npm'', ''p'', ''1.0'') (fw_cache s')) = Some (FW_BLOCK, fs))"
    by (rule dangerous_package_refused [where name = "''p''" and ver = "''1.0''" and t = "((''https'', ''registry.npmjs.org''), ''p/1.0'')"
          and md = "[(''name'', JStr ''p'')]" and manifest = "[(''name'', JStr ''p'')]"])
       (use demo_blocking in \<open>simp_all add: demo_path demo_cache upstream_target_def demo_config_def authorized_def lstrip_by_def
          extract_version_manifest_def get_json_def demo_env_def\<close>,
        simp add: demo_scanner_def new_firewall_scanner_def new_verdict_cache_def)
  then show ?thesis by blast
qed

theorem static_suffix_bypasses_scan_witness:
  "do_GET (demo_env CRITICAL) demo_config 1 (\<lambda>_. UOk 200 ''application/json'' ''x'') (\<lambda>_. None) (\<lambda>b. [b]) (''/'' @ ''chart'' @ ''.js'') None demo_scanner =
    bindE (proxy_pass demo_config (\<lambda>_. UOk 200 ''application/json'' ''x'') (\<lambda>b. [b]) (''/'' @ ''chart'' @ ''.js'')) (\<lambda>r. Inr (r, demo_scanner))"
  by (rule static_suffix_bypasses_scan) (simp_all add: plain_def url_special_def authorized_def demo_config_def)

lemma client_chooses_host_witness:
  "join_origin (upstream_npm demo_config) (''https://'' @ ''evil.example'' @ ''/x'') = Inr (''https'', ''evil.example'')"
  using client_chooses_host [of "''evil.example''" demo_config] by (simp add: plain_def url_special_def demo_config_def)

end
