(* ===== verification/Rbac.thy ===== *)
theory Rbac
  imports Prelude
begin

text \<open>
  Role-based access control of the server (\<open>src/picosentry/serve/services/rbac.py\<close>): the permissions,
  the three roles and the check on a user object.
\<close>

datatype permission =
    READ_PROJECTS | READ_INTELLIGENCE | READ_ALERTS | READ_METRICS | READ_DASHBOARD | READ_LOGS |
    READ_EVENTS | READ_ORGS | READ_PLUGINS | READ_HEALTH | READ_BACKUPS | READ_AUDIT | READ_WEBHOOKS |
    READ_SCHEDULER | READ_ANOMALY | RUN_PROJECTS | WRITE_WEBHOOKS | WRITE_INTELLIGENCE | WRITE_ALERTS |
    WRITE_SCHEDULER | WRITE_ANOMALY | ADMIN_USERS | ADMIN_ORGS | ADMIN_BACKUPS | ADMIN_AUDIT | ADMIN_LOGS

fun permission_value :: "permission \<Rightarrow> string" where
  "permission_value READ_PROJECTS = ''read:projects''"
| "permission_value READ_INTELLIGENCE = ''read:intelligence''"
| "permission_value READ_ALERTS = ''read:alerts''"
| "permission_value READ_METRICS = ''read:metrics''"
| "permission_value READ_DASHBOARD = ''read:dashboard''"
| "permission_value READ_LOGS = ''read:logs''"
| "permission_value READ_EVENTS = ''read:events''"
| "permission_value READ_ORGS = ''read:orgs''"
| "permission_value READ_PLUGINS = ''read:plugins''"
| "permission_value READ_HEALTH = ''read:health''"
| "permission_value READ_BACKUPS = ''read:backups''"
| "permission_value READ_AUDIT = ''read:audit''"
| "permission_value READ_WEBHOOKS = ''read:webhooks''"
| "permission_value READ_SCHEDULER = ''read:scheduler''"
| "permission_value READ_ANOMALY = ''read:anomaly''"
| "permission_value RUN_PROJECTS = ''run:projects''"
| "permission_value WRITE_WEBHOOKS = ''write:webhooks''"
| "permission_value WRITE_INTELLIGENCE = ''write:intelligence''"
| "permission_value WRITE_ALERTS = ''write:alerts''"
| "permission_value WRITE_SCHEDULER = ''write:scheduler''"
| "permission_value WRITE_ANOMALY = ''write:anomaly''"
| "permission_value ADMIN_USERS = ''admin:users''"
| "permission_value ADMIN_ORGS = ''admin:orgs''"
| "permission_value ADMIN_BACKUPS = ''admin:backups''"
| "permission_value ADMIN_AUDIT = ''admin:audit''"
| "permission_value ADMIN_LOGS = ''admin:logs''"

definition all_permissions :: "permission list" where
  "all_permissions = [
     READ_PROJECTS, READ_INTELLIGENCE, READ_ALERTS, READ_METRICS, READ_DASHBOARD, READ_LOGS, READ_EVENTS,
     READ_ORGS, READ_PLUGINS, READ_HEALTH, READ_BACKUPS, READ_AUDIT, READ_WEBHOOKS, READ_SCHEDULER,
     READ_ANOMALY, RUN_PROJECTS, WRITE_WEBHOOKS, WRITE_INTELLIGENCE, WRITE_ALERTS, WRITE_SCHEDULER,
     WRITE_ANOMALY, ADMIN_USERS, ADMIN_ORGS, ADMIN_BACKUPS, ADMIN_AUDIT, ADMIN_LOGS]"

definition ROLE_PERMISSIONS :: "(string \<times> permission list) list" where
  "ROLE_PERMISSIONS =
     [(''viewer'', [
        READ_PROJECTS, READ_INTELLIGENCE, READ_ALERTS, READ_METRICS, READ_DASHBOARD, READ_HEALTH, READ_ORGS,
        READ_PLUGINS, READ_EVENTS, READ_WEBHOOKS, READ_SCHEDULER, READ_ANOMALY]),
      (''operator'', [
        READ_PROJECTS, READ_INTELLIGENCE, READ_ALERTS, READ_METRICS, READ_DASHBOARD, READ_HEALTH, READ_ORGS,
        READ_PLUGINS, READ_EVENTS, READ_LOGS, READ_BACKUPS, READ_WEBHOOKS, READ_SCHEDULER, READ_ANOMALY,
        RUN_PROJECTS, WRITE_WEBHOOKS, WRITE_INTELLIGENCE, WRITE_ALERTS, WRITE_SCHEDULER, WRITE_ANOMALY]),
      (''admin'', all_permissions)]"

definition get_permissions :: "string \<Rightarrow> permission set" where
  "get_permissions role = set (case dget ROLE_PERMISSIONS role of None \<Rightarrow> [] | Some ps \<Rightarrow> ps)"

text \<open>A user object; a role that is no string is in no table, a list or object is unhashable.\<close>

definition has_permission :: "(string \<times> json) list \<Rightarrow> permission \<Rightarrow> bool py_result" where
  "has_permission user p =
     (case dget user ''role'' of
        None \<Rightarrow> Inr (p \<in> get_permissions ''viewer'')
      | Some (JStr role) \<Rightarrow> Inr (p \<in> get_permissions role)
      | Some (JList _) \<Rightarrow> Inl TypeError
      | Some (JObj _) \<Rightarrow> Inl TypeError
      | Some _ \<Rightarrow> Inr False)"

lemma all_permissions_complete: "set all_permissions = UNIV"
proof -
  have "x \<in> set all_permissions" for x by (cases x) (simp_all add: all_permissions_def)
  then show ?thesis by blast
qed

text \<open>
  The roles form a hierarchy: what a viewer may do an operator may, an admin may do everything,
  a user without a role is a viewer, and an unknown role may do nothing. Neither a viewer nor an
  operator holds an administrative permission, and a viewer holds only permissions to read.
\<close>

lemma role_hierarchy:
  "get_permissions ''viewer'' \<subseteq> get_permissions ''operator'' \<and> get_permissions ''admin'' = UNIV
    \<and> has_permission [] p = Inr (p \<in> get_permissions ''viewer'')
    \<and> has_permission [(''role'', JStr ''guest'')] p = Inr False
    \<and> {ADMIN_USERS, ADMIN_ORGS, ADMIN_BACKUPS, ADMIN_AUDIT, ADMIN_LOGS} \<inter> get_permissions ''operator'' = {}
    \<and> list_all (\<lambda>q. take 5 (permission_value q) = ''read:'') (the (dget ROLE_PERMISSIONS ''viewer''))"
  by (simp add: get_permissions_def has_permission_def ROLE_PERMISSIONS_def all_permissions_complete)

end
