(* ===== verification/Edit_Distance.thy ===== *)
theory Edit_Distance
  imports Scan_Models
begin

text \<open>
  The distances of the typosquat detectors (\<open>src/picosentry/scan/rules/typosquat_utils.py\<close>): the
  two-row dynamic programs \<open>edit_distance\<close> and \<open>keyboard_distance\<close>, and the reference they are
  proved to compute. The reference is a relation: \<open>edits sub c a b\<close> says that a script of
  insertions, deletions (cost 1) and substitutions (cost \<open>sub x y\<close>) of total cost \<open>c\<close> turns
  \<open>a\<close> into \<open>b\<close>; both programs return the cost of a cheapest script.
\<close>

section \<open>Edit scripts\<close>

inductive edits :: "(char \<Rightarrow> char \<Rightarrow> 'n::linordered_idom) \<Rightarrow> 'n \<Rightarrow> string \<Rightarrow> string \<Rightarrow> bool"
  for sub :: "char \<Rightarrow> char \<Rightarrow> 'n" where
  edits_nil: "edits sub 0 [] []"
| edits_ins: "edits sub c a b \<Longrightarrow> edits sub (c + 1) a (y # b)"
| edits_del: "edits sub c a b \<Longrightarrow> edits sub (c + 1) (x # a) b"
| edits_sub: "edits sub c a b \<Longrightarrow> edits sub (c + sub x y) (x # a) (y # b)"

text \<open>The cost of a cheapest script, by recursion on both strings.\<close>

fun wdist :: "(char \<Rightarrow> char \<Rightarrow> 'n::linordered_idom) \<Rightarrow> string \<Rightarrow> string \<Rightarrow> 'n" where
  "wdist sub [] b = of_nat (length b)"
| "wdist sub (x # a) [] = of_nat (length (x # a))"
| "wdist sub (x # a) (y # b) =
     min (min (wdist sub a (y # b) + 1) (wdist sub (x # a) b + 1)) (wdist sub a b + sub x y)"

lemma wdist_Nil2 [simp]: "wdist sub a [] = of_nat (length a)"
  by (cases a) auto

lemma edits_Nil1: "edits sub (of_nat (length b)) [] b"
  by (induction b) (auto intro: edits_nil dest: edits_ins simp: add.commute)

lemma edits_Nil2: "edits sub (of_nat (length a)) a []"
  by (induction a) (auto intro: edits_nil dest: edits_del simp: add.commute)

lemma wdist_edits: "edits sub (wdist sub a b) a b"
proof (induction sub a b rule: wdist.induct)
  case (3 sub x a y b)
  then show ?case
    using edits_del [of sub _ a "y # b" x] edits_ins [of sub _ "x # a" b y] edits_sub [of sub _ a b x y]
    by (auto simp: min_def)
qed (simp_all add: edits_Nil1 edits_Nil2 del: length_Cons of_nat_Suc list.size)

lemma wdist_le_edits: "edits sub c a b \<Longrightarrow> wdist sub a b \<le> c"
proof (induction rule: edits.induct)
  case (edits_ins c a b y)
  then show ?case by (cases a) auto
next
  case (edits_del c a b x)
  then show ?case by (cases b) auto
qed auto

lemma wdist_least: "wdist sub a b = c \<longleftrightarrow> edits sub c a b \<and> (\<forall>d. edits sub d a b \<longrightarrow> c \<le> d)"
  using wdist_edits wdist_le_edits by (metis order_antisym)

lemma edits_append: "edits sub c a b \<Longrightarrow> edits sub c' a' b' \<Longrightarrow> edits sub (c + c') (a @ a') (b @ b')"
proof (induction rule: edits.induct)
  case (edits_ins c a b y)
  then show ?case using edits.edits_ins [of sub "c + c'" "a @ a'" "b @ b'" y] by (simp add: algebra_simps)
next
  case (edits_del c a b x)
  then show ?case using edits.edits_del [of sub "c + c'" "a @ a'" "b @ b'" x] by (simp add: algebra_simps)
next
  case (edits_sub c a b x y)
  then show ?case using edits.edits_sub [of sub "c + c'" "a @ a'" "b @ b'" x y] by (simp add: algebra_simps)
qed simp

lemma edits_split:
  assumes "edits sub c a b" and "a = p @ s"
  shows "\<exists>b1 b2 c1 c2. b = b1 @ b2 \<and> c = c1 + c2 \<and> edits sub c1 p b1 \<and> edits sub c2 s b2"
  using assms
proof (induction arbitrary: p rule: edits.induct)
  case edits_nil
  then show ?case by (force intro: edits.edits_nil)
next
  case (edits_ins c a b y)
  then obtain b1 b2 c1 c2 where *: "b = b1 @ b2" "c = c1 + c2" "edits sub c1 p b1" "edits sub c2 s b2" by blast
  then have "y # b = (y # b1) @ b2" "c + 1 = (c1 + 1) + c2" "edits sub (c1 + 1) p (y # b1)"
    by (simp_all add: edits.edits_ins)
  with *(4) show ?case by blast
next
  case (edits_del c a b x)
  show ?case
  proof (cases p)
    case Nil
    with edits_del.prems edits.edits_del [OF edits_del.hyps, of x] have "edits sub (c + 1) s b" by simp
    moreover have "edits sub 0 p []" using Nil by (simp add: edits.edits_nil)
    ultimately show ?thesis by (metis add_0 append_Nil)
  next
    case (Cons z p')
    with edits_del obtain b1 b2 c1 c2 where *: "b = b1 @ b2" "c = c1 + c2" "edits sub c1 p' b1" "edits sub c2 s b2"
      by (metis append_Cons list.inject)
    then have "c + 1 = (c1 + 1) + c2" "edits sub (c1 + 1) p b1" using Cons by (simp_all add: edits.edits_del)
    with * show ?thesis by blast
  qed
next
  case (edits_sub c a b x y)
  show ?case
  proof (cases p)
    case Nil
    with edits_sub.prems edits.edits_sub [OF edits_sub.hyps, of x y] have "edits sub (c + sub x y) s (y # b)" by simp
    moreover have "edits sub 0 p []" using Nil by (simp add: edits.edits_nil)
    ultimately show ?thesis by (metis add_0 append_Nil)
  next
    case (Cons z p')
    with edits_sub obtain b1 b2 c1 c2 where *: "b = b1 @ b2" "c = c1 + c2" "edits sub c1 p' b1" "edits sub c2 s b2"
      by (metis append_Cons list.inject)
    then have "y # b = (y # b1) @ b2" "c + sub x y = (c1 + sub x y) + c2" "edits sub (c1 + sub x y) p (y # b1)"
      using Cons edits_sub.prems by (simp_all add: edits.edits_sub)
    with *(4) show ?thesis by blast
  qed
qed

lemma edits_rev: "edits sub c a b \<Longrightarrow> edits sub c (rev a) (rev b)"
proof (induction rule: edits.induct)
  case edits_nil
  show ?case by (simp add: edits.edits_nil)
next
  case (edits_ins c a b y)
  from edits_append [OF edits_ins.IH, of 1 "[]" "[y]"] edits.edits_ins [OF edits.edits_nil, of sub y]
  show ?case by simp
next
  case (edits_del c a b x)
  from edits_append [OF edits_del.IH, of 1 "[x]" "[]"] edits.edits_del [OF edits.edits_nil, of sub x]
  show ?case by simp
next
  case (edits_sub c a b x y)
  from edits_append [OF edits_sub.IH, of "sub x y" "[x]" "[y]"] edits.edits_sub [OF edits.edits_nil, of sub x y]
  show ?case by simp
qed

lemma wdist_rev: "wdist sub (rev a) (rev b) = wdist sub a b"
proof (rule order_antisym)
  show "wdist sub (rev a) (rev b) \<le> wdist sub a b"
    by (rule wdist_le_edits [OF edits_rev [OF wdist_edits]])
  show "wdist sub a b \<le> wdist sub (rev a) (rev b)"
    using wdist_le_edits [OF edits_rev [OF wdist_edits, of sub "rev a" "rev b"]] by simp
qed

text \<open>The recursion on the last characters, which is the one the tables follow.\<close>

lemma wdist_snoc:
  "wdist sub (a @ [x]) (b @ [y]) =
     min (min (wdist sub a (b @ [y]) + 1) (wdist sub (a @ [x]) b + 1)) (wdist sub a b + sub x y)"
proof -
  have "wdist sub (a @ [x]) (b @ [y]) = wdist sub (x # rev a) (y # rev b)"
    using wdist_rev [of sub "a @ [x]" "b @ [y]"] by simp
  also have "\<dots> = min (min (wdist sub (rev a) (rev (b @ [y])) + 1) (wdist sub (rev (a @ [x])) (rev b) + 1))
      (wdist sub (rev a) (rev b) + sub x y)"
    by simp
  finally show ?thesis by (simp only: wdist_rev)
qed

section \<open>Admissible costs\<close>

text \<open>
  What the pruning, banding and swapping of the searches rely on: a substitution costs nothing
  exactly where the characters agree, is never negative, and does not depend on the direction.
\<close>

locale edit_cost =
  fixes sub :: "char \<Rightarrow> char \<Rightarrow> 'n::linordered_idom"
  assumes sub_nonneg: "0 \<le> sub x y"
    and sub_refl: "sub x x = 0"
    and sub_sym: "sub x y = sub y x"
begin

lemma edits_length: "edits sub c a b \<Longrightarrow> \<bar>of_nat (length a) - of_nat (length b)\<bar> \<le> c"
proof (induction rule: edits.induct)
  case (edits_sub c a b x y)
  then show ?case using sub_nonneg [of x y] by auto
qed auto

lemma wdist_length: "\<bar>of_nat (length a) - of_nat (length b)\<bar> \<le> wdist sub a b"
  by (rule edits_length [OF wdist_edits])

lemma wdist_nonneg: "0 \<le> wdist sub a b"
  using wdist_length [of a b] by linarith

lemma edits_flip: "edits sub c a b \<Longrightarrow> edits sub c b a"
proof (induction rule: edits.induct)
  case (edits_sub c a b x y)
  then show ?case using edits.edits_sub [of sub c b a y x] sub_sym [of x y] by simp
qed (auto intro: edits.intros)

lemma wdist_sym: "wdist sub a b = wdist sub b a"
  by (rule order_antisym; rule wdist_le_edits; rule edits_flip; rule wdist_edits)

lemma wdist_same: "wdist sub a a = 0"
proof (rule order_antisym)
  have "edits sub 0 a a"
  proof (induction a)
    case (Cons x a)
    from edits_sub [OF Cons, of x x] show ?case by (simp add: sub_refl)
  qed (rule edits_nil)
  then show "wdist sub a a \<le> 0" by (rule wdist_le_edits)
qed (rule wdist_nonneg)

text \<open>A row of the table bounds everything below it: the reason a branch may be pruned.\<close>

lemma wdist_prefix: "\<exists>j \<le> length b. wdist sub p (take j b) \<le> wdist sub (p @ s) b"
proof -
  obtain b1 b2 c1 c2 where *: "b = b1 @ b2" "wdist sub (p @ s) b = c1 + c2" "edits sub c1 p b1" "edits sub c2 s b2"
    using edits_split [OF wdist_edits [of sub "p @ s" b] refl] by blast
  have "0 \<le> c2" using edits_length [OF *(4)] by linarith
  moreover have "wdist sub p b1 \<le> c1" by (rule wdist_le_edits [OF *(3)])
  ultimately have "length b1 \<le> length b \<and> wdist sub p (take (length b1) b) \<le> wdist sub (p @ s) b"
    using * by simp
  then show ?thesis by blast
qed

end

section \<open>The dynamic programs\<close>

text \<open>
  The inner and outer loops of \<open>edit_distance\<close> and \<open>keyboard_distance\<close>, which differ in the cost of
  a substitution only: \<open>prev\<close> and \<open>row\<close> (\<open>curr\<close>) are the two rows.
\<close>

definition dp_cell :: "(char \<Rightarrow> char \<Rightarrow> 'n::linordered_idom) \<Rightarrow> char \<Rightarrow> 'n list \<Rightarrow> 'n list \<Rightarrow> nat \<times> char \<Rightarrow> 'n list" where
  "dp_cell sub ca prev row = (\<lambda>(j, cb).
     let insertions = prev ! (j + 1) + 1;
         deletions = row ! j + 1;
         substitutions = prev ! j + sub ca cb
     in row @ [min (min insertions deletions) substitutions])"

definition dp_row :: "(char \<Rightarrow> char \<Rightarrow> 'n::linordered_idom) \<Rightarrow> string \<Rightarrow> 'n list \<Rightarrow> nat \<times> char \<Rightarrow> 'n list" where
  "dp_row sub b prev = (\<lambda>(i, ca). foldl (dp_cell sub ca prev) [of_nat i + 1] (enumerate 0 b))"

definition dp_distance :: "(char \<Rightarrow> char \<Rightarrow> 'n::linordered_idom) \<Rightarrow> string \<Rightarrow> string \<Rightarrow> 'n" where
  "dp_distance sub a0 b0 =
     (let (a, b) = (if length a0 < length b0 then (b0, a0) else (a0, b0))
      in if length b = 0 then of_nat (length a)
         else last (foldl (dp_row sub b) (map of_nat [0..<length b + 1]) (enumerate 0 a)))"

definition unit_cost :: "char \<Rightarrow> char \<Rightarrow> 'n::linordered_idom" where
  "unit_cost x y = (if x \<noteq> y then 1 else 0)"

definition edit_distance :: "string \<Rightarrow> string \<Rightarrow> int" where
  "edit_distance a b = dp_distance unit_cost a b"

definition keyboard_adj :: "char \<Rightarrow> char list" where
  "keyboard_adj c =
     (case map_of
        [(CHR ''q'', ''wa''), (CHR ''w'', ''qeas''), (CHR ''e'', ''wrsd''), (CHR ''r'', ''etdf''),
         (CHR ''t'', ''ryfg''), (CHR ''y'', ''tugh''), (CHR ''u'', ''yihj''), (CHR ''i'', ''uojk''),
         (CHR ''o'', ''ipkl''), (CHR ''p'', ''ol''), (CHR ''a'', ''qwsz''), (CHR ''s'', ''weadzx''),
         (CHR ''d'', ''ersfxc''), (CHR ''f'', ''rtdgcv''), (CHR ''g'', ''tyfhvb''), (CHR ''h'', ''yugjbn''),
         (CHR ''j'', ''uihknm''), (CHR ''k'', ''iojlm''), (CHR ''l'', ''opk''), (CHR ''z'', ''asx''),
         (CHR ''x'', ''sdzc''), (CHR ''c'', ''dfxv''), (CHR ''v'', ''fgcb''), (CHR ''b'', ''ghvn''),
         (CHR ''n'', ''hjbm''), (CHR ''m'', ''jkn'')] c of
        None \<Rightarrow> [] | Some cs \<Rightarrow> cs)"

definition is_keyboard_adjacent :: "char \<Rightarrow> char \<Rightarrow> bool" where
  "is_keyboard_adjacent a b =
     (let al = lower_char a; bl = lower_char b
      in if al = bl then False else bl \<in> set (keyboard_adj al) \<or> al \<in> set (keyboard_adj bl))"

definition keyboard_cost :: "char \<Rightarrow> char \<Rightarrow> pyfloat" where
  "keyboard_cost x y = (if x = y then 0 else if is_keyboard_adjacent x y then 1 / 2 else 1)"

definition keyboard_distance :: "string \<Rightarrow> string \<Rightarrow> pyfloat" where
  "keyboard_distance a b = dp_distance keyboard_cost a b"

interpretation unit_cost: edit_cost "unit_cost :: char \<Rightarrow> char \<Rightarrow> 'n::linordered_idom"
  by unfold_locales (auto simp: unit_cost_def)

interpretation keyboard_cost: edit_cost keyboard_cost
  by unfold_locales (auto simp: keyboard_cost_def is_keyboard_adjacent_def Let_def)

text \<open>The row of the table for a prefix \<open>p\<close> of the first string.\<close>

definition table_row :: "(char \<Rightarrow> char \<Rightarrow> 'n::linordered_idom) \<Rightarrow> string \<Rightarrow> string \<Rightarrow> 'n list" where
  "table_row sub b p = map (\<lambda>j. wdist sub p (take j b)) [0..<length b + 1]"

lemma length_table_row [simp]: "length (table_row sub b p) = length b + 1"
  by (simp add: table_row_def)

lemma nth_table_row [simp]: "j \<le> length b \<Longrightarrow> table_row sub b p ! j = wdist sub p (take j b)"
  by (simp add: table_row_def nth_append)

lemma table_row_next:
  assumes "j < length b"
  shows "wdist sub (p @ [c]) (take (Suc j) b) =
    min (min (table_row sub b p ! Suc j + 1) (wdist sub (p @ [c]) (take j b) + 1)) (table_row sub b p ! j + sub c (b ! j))"
  using assms by (simp add: take_Suc_conv_app_nth wdist_snoc)

lemma dp_row_table:
  "dp_row sub b (table_row sub b p) (length p, c) = table_row sub b (p @ [c])"
proof -
  have "foldl (dp_cell sub c (table_row sub b p)) [of_nat (length p) + 1] (enumerate 0 (take j b))
      = map (\<lambda>k. wdist sub (p @ [c]) (take k b)) [0..<Suc j]" if "j \<le> length b" for j
    using that
  proof (induction j)
    case (Suc j)
    then show ?case
      using table_row_next [of j b sub p c]
      by (simp add: take_Suc_conv_app_nth enumerate_append_eq dp_cell_def nth_append)
  qed (simp add: add.commute)
  from this [of "length b"] show ?thesis by (simp add: dp_row_def table_row_def)
qed

lemma dp_rows_table:
  assumes "i \<le> length a"
  shows "foldl (dp_row sub b) (map of_nat [0..<length b + 1]) (enumerate 0 (take i a)) = table_row sub b (take i a)"
  using assms
proof (induction i)
  case 0
  then show ?case by (simp add: table_row_def)
next
  case (Suc i)
  with dp_row_table [of sub b "take i a" "a ! i"] show ?case
    by (simp add: take_Suc_conv_app_nth enumerate_append_eq)
qed

lemma last_table_row: "last (table_row sub b p) = wdist sub p b"
  by (simp add: last_conv_nth flip: length_0_conv)

context edit_cost
begin

lemma dp_distance_wdist: "dp_distance sub a b = wdist sub a b"
proof -
  have table: "last (foldl (dp_row sub y) (map of_nat [0..<length y + 1]) (enumerate 0 x)) = wdist sub x y" for x y
    using dp_rows_table [of "length x" x sub y] by (simp add: last_table_row)
  show ?thesis
    by (cases "length a < length b"; cases "length a = 0"; cases "length b = 0")
       (simp_all only: dp_distance_def table Let_def prod.case if_True if_False,
        simp_all add: wdist_sym)
qed

end

text \<open>
  C14. \<open>edit_distance\<close> and \<open>keyboard_distance\<close>, computed row by row with the strings swapped so
  that the second is the shorter, return the cost of a cheapest edit script: such a script exists,
  and no script is cheaper. They are symmetric, vanish on equal names and are at least the difference
  of the lengths.
\<close>

theorem distances_exact:
  "edits unit_cost (edit_distance a b) a b \<and> (\<forall>c. edits unit_cost c a b \<longrightarrow> edit_distance a b \<le> c)
    \<and> edits keyboard_cost (keyboard_distance a b) a b
    \<and> (\<forall>c. edits keyboard_cost c a b \<longrightarrow> keyboard_distance a b \<le> c)
    \<and> edit_distance a b = edit_distance b a \<and> keyboard_distance a b = keyboard_distance b a
    \<and> edit_distance a a = 0 \<and> keyboard_distance a a = 0
    \<and> \<bar>int (length a) - int (length b)\<bar> \<le> edit_distance a b
    \<and> \<bar>of_nat (length a) - of_nat (length b)\<bar> \<le> keyboard_distance a b"
  unfolding edit_distance_def keyboard_distance_def
    unit_cost.dp_distance_wdist keyboard_cost.dp_distance_wdist
  by (intro conjI allI impI)
     (fact wdist_edits unit_cost.wdist_sym keyboard_cost.wdist_sym unit_cost.wdist_same keyboard_cost.wdist_same
       unit_cost.wdist_length keyboard_cost.wdist_length | erule wdist_le_edits)+

theorem distances_exact_witness:
  "edit_distance ''vite'' ''viet'' = 2 \<and> keyboard_distance ''nx'' ''nz'' = 1 / 2
    \<and> edits unit_cost (edit_distance ''vite'' ''viet'') ''vite'' ''viet''
    \<and> edit_distance ''vite'' ''viet'' \<le> 3"
proof (intro conjI)
  show "edit_distance ''vite'' ''viet'' = 2" by code_simp
  then show "edit_distance ''vite'' ''viet'' \<le> 3" by linarith
  show "keyboard_distance ''nx'' ''nz'' = 1 / 2" by code_simp
  show "edits unit_cost (edit_distance ''vite'' ''viet'') ''vite'' ''viet''"
    using distances_exact [of "''vite''" "''viet''"] by (rule conjunct1)
qed

section \<open>The brute-force scan\<close>

text \<open>
  \<open>check_typosquat\<close> compares a name with every name of the corpus. The corpus and the priority set
  are lists here, read through their elements. \<open>dep_name[0]\<close> on an empty name is the \<open>IndexError\<close>.
\<close>

definition distance_fn :: "bool \<Rightarrow> string \<Rightarrow> string \<Rightarrow> pyfloat" where
  "distance_fn use_keyboard a b = (if use_keyboard then keyboard_distance a b else of_int (edit_distance a b))"

definition typo_match :: "pyfloat \<Rightarrow> bool \<Rightarrow> string list \<Rightarrow> string \<Rightarrow> string \<Rightarrow> (string \<times> pyfloat) list py_result" where
  "typo_match max_distance use_keyboard priority dep_name popular =
     (let short_query = length dep_name < 4;
          dist = distance_fn use_keyboard dep_name popular
      in if popular = dep_name then Inr []
         else if short_query \<and> popular \<notin> set priority then Inr []
         else if of_int \<bar>int (length dep_name) - int (length popular)\<bar> > max_distance then Inr []
         else if dist > max_distance then Inr []
         else if short_query \<and> length popular < 4 \<and> dist > 1 then Inr []
         else if short_query \<and> length popular \<ge> 4
         then (case dep_name of
                 [] \<Rightarrow> Inl IndexError
               | c # _ \<Rightarrow> if \<not> starts_with [c] popular then Inr [] else Inr [(popular, dist)])
         else Inr [(popular, dist)])"

definition match_key :: "string \<times> pyfloat \<Rightarrow> pyfloat \<times> string" where
  "match_key m = (snd m, fst m)"

definition check_typosquat ::
  "string \<Rightarrow> string list \<Rightarrow> pyfloat \<Rightarrow> bool \<Rightarrow> string list option \<Rightarrow> (string \<times> pyfloat) list py_result" where
  "check_typosquat dep_name corpus max_distance use_keyboard priority_names =
     (if starts_with ''@'' dep_name then Inr []
      else let priority = (case priority_names of None \<Rightarrow> corpus | Some ps \<Rightarrow> ps)
           in bindE (mapE (typo_match max_distance use_keyboard priority dep_name) (sort (remdups corpus)))
                (\<lambda>ms. Inr (sort_key match_key (concat ms))))"

definition typosquat_severity_confidence :: "string \<Rightarrow> string \<Rightarrow> pyfloat \<Rightarrow> severity \<times> confidence" where
  "typosquat_severity_confidence dep_name match_name distance =
     (let min_len = min (length dep_name) (length match_name);
          length_ratio = (of_nat min_len :: pyfloat) / of_nat (max (max (length dep_name) (length match_name)) 1)
      in if min_len \<le> 4 then (if distance \<ge> 2 then (LOW, CONF_LOW) else (MEDIUM, CONF_MEDIUM))
         else if distance \<le> 1 \<and> length_ratio \<ge> 8 / 10 then (HIGH, CONF_HIGH)
         else if distance \<le> 2 \<and> length_ratio \<ge> 6 / 10 then (MEDIUM, CONF_MEDIUM)
         else (LOW, CONF_LOW))"

text \<open>
  \<open>load_corpus_for_ecosystem\<close>: the corpus file is \<open>None\<close> when it is missing, an exception when
  it cannot be read or decoded, and the decoded JSON value otherwise. \<open>set(data)\<close> raises
  \<open>TypeError\<close> on a list or an object among the elements.
\<close>

fun unhashable :: "json \<Rightarrow> bool" where
  "unhashable (JList _) = True"
| "unhashable (JObj _) = True"
| "unhashable _ = False"

definition builtin_corpus :: "string list option \<Rightarrow> json list" where
  "builtin_corpus builtin_list = (case builtin_list of None \<Rightarrow> [] | Some ns \<Rightarrow> map JStr ns)"

definition load_corpus_for_ecosystem :: "json py_result option \<Rightarrow> string list option \<Rightarrow> json list py_result" where
  "load_corpus_for_ecosystem corpus_file builtin_list =
     (case corpus_file of
        None \<Rightarrow> Inr (builtin_corpus builtin_list)
      | Some (Inl e) \<Rightarrow>
          if e = OSError \<or> e = ValueError ''JSONDecodeError'' then Inr (builtin_corpus builtin_list) else Inl e
      | Some (Inr (JList data)) \<Rightarrow> if \<exists>v \<in> set data. unhashable v then Inl TypeError else Inr data
      | Some (Inr _) \<Rightarrow> Inr (builtin_corpus builtin_list))"

end
