(* ===== verification/Corpus_Index.thy ===== *)
theory Corpus_Index
  imports Edit_Distance
begin

text \<open>
  The indexed near-match search of the typosquat rules
  (\<open>src/picosentry/scan/rules/corpus_index.py\<close>): a trie per name length, walked with a banded and
  pruned row of the edit-distance table, and a dictionary of delete variants (SymSpell) that is built
  one chunk per query and replaces the walk once it is complete. The theorem of this file is that none
  of this shows: in every state an index can reach, \<open>near_matches\<close> returns what the brute-force
  \<open>check_typosquat\<close> returns, and the row access of the walk never leaves the row.

  Candidates are collected in Python sets; their order is erased by the final sort, so the model keeps
  lists without duplicates. The lock of the delete index makes each query one step of the state.
\<close>

section \<open>Bounded Levenshtein distance\<close>

definition lw_cell :: "char \<Rightarrow> string \<Rightarrow> int list \<Rightarrow> int list \<times> int \<Rightarrow> nat \<Rightarrow> int list \<times> int" where
  "lw_cell ca b prev = (\<lambda>(row, row_min) j.
     let val0 = prev ! j + 1;
         deletion = row ! (j - 1) + 1;
         val1 = (if deletion < val0 then deletion else val0);
         substitution = (if ca = b ! (j - 1) then prev ! (j - 1) else prev ! (j - 1) + 1);
         val = (if substitution < val1 then substitution else val1)
     in (row @ [val], if val < row_min then val else row_min))"

fun lw_rows :: "string \<Rightarrow> string \<Rightarrow> int \<Rightarrow> int list \<Rightarrow> nat list \<Rightarrow> int" where
  "lw_rows a b max_distance prev [] = (if last prev \<le> max_distance then last prev else max_distance + 1)"
| "lw_rows a b max_distance prev (i # is) =
     (let (row, row_min) = foldl (lw_cell (a ! (i - 1)) b prev) ([int i], int i) [1..<length b + 1]
      in if row_min > max_distance then max_distance + 1 else lw_rows a b max_distance row is)"

definition levenshtein_within :: "string \<Rightarrow> string \<Rightarrow> int \<Rightarrow> int" where
  "levenshtein_within a b max_distance =
     (let la = int (length a); lb = int (length b)
      in if la - lb > max_distance \<or> lb - la > max_distance then max_distance + 1
         else if la = 0 then (if lb \<le> max_distance then lb else max_distance + 1)
         else lw_rows a b max_distance (map int [0..<length b + 1]) [1..<length a + 1])"

section \<open>The trie\<close>

datatype trie_node = TrieNode (trie_children: "(char \<times> trie_node) list") (trie_names: "string list")

definition empty_trie :: trie_node where
  "empty_trie = TrieNode [] []"

fun trie_insert :: "string \<Rightarrow> string \<Rightarrow> trie_node \<Rightarrow> trie_node" where
  "trie_insert name [] (TrieNode cs ns) = TrieNode cs (ns @ [name])"
| "trie_insert name (ch # rest) (TrieNode cs ns) =
     TrieNode (dset ch (trie_insert name rest (case dget cs ch of None \<Rightarrow> empty_trie | Some t \<Rightarrow> t)) cs) ns"

definition insert_name :: "(nat, trie_node) pydict \<Rightarrow> string \<Rightarrow> (nat, trie_node) pydict" where
  "insert_name ts name =
     dset (length name) (trie_insert name name (case dget ts (length name) of None \<Rightarrow> empty_trie | Some t \<Rightarrow> t)) ts"

subsection \<open>The banded walk\<close>

definition step_cost :: "bool \<Rightarrow> char \<Rightarrow> char \<Rightarrow> pyfloat" where
  "step_cost use_keyboard ch q =
     (if ch = q then 0 else if use_keyboard \<and> is_keyboard_adjacent ch q then 1 / 2 else 1)"

definition band_cell ::
  "bool \<Rightarrow> string \<Rightarrow> char \<Rightarrow> pyfloat list \<Rightarrow> pyfloat list \<times> pyfloat \<times> pyfloat \<Rightarrow> nat \<Rightarrow> pyfloat list \<times> pyfloat \<times> pyfloat" where
  "band_cell use_keyboard query ch prev_row = (\<lambda>(row, row_min, prev_j) j.
     let pj = prev_row ! j;
         val0 = pj + 1;
         deletion = row ! (j - 1) + 1;
         val1 = (if deletion < val0 then deletion else val0);
         substitution = prev_j + step_cost use_keyboard ch (query ! (j - 1));
         val = (if substitution < val1 then substitution else val1)
     in (row[j := val], if val < row_min then val else row_min, pj))"

text \<open>
  The row of a child at depth \<open>i\<close>: \<open>IndexError\<close> when \<open>prev_row[lo - 1]\<close> is out of range; the
  other accesses are at positions \<open>lo .. hi\<close>, inside the rows.
\<close>

definition band_row :: "bool \<Rightarrow> string \<Rightarrow> pyfloat \<Rightarrow> pyfloat list \<Rightarrow> nat \<Rightarrow> char \<Rightarrow> (pyfloat list \<times> pyfloat) py_result" where
  "band_row use_keyboard query maxd prev_row i ch =
     (let sentinel = maxd + 1;
          band = py_int maxd + 1;
          lo = nat (max 1 (int i - band));
          hi = min (int i + band) (int (length query));
          row0 = (replicate (length query + 1) sentinel)[0 := of_nat i]
      in if lo - 1 \<ge> length prev_row then Inl IndexError
         else let (row, row_min, prev_j) =
                foldl (band_cell use_keyboard query ch prev_row) (row0, min sentinel (of_nat i), prev_row ! (lo - 1))
                  [lo..<nat (hi + 1)]
              in Inr (row, row_min))"

type_synonym walk_item = "trie_node \<times> pyfloat list \<times> nat"

fun push_children ::
  "bool \<Rightarrow> string \<Rightarrow> pyfloat \<Rightarrow> pyfloat list \<Rightarrow> nat \<Rightarrow> (char \<times> trie_node) list \<Rightarrow> walk_item list \<Rightarrow> walk_item list py_result" where
  "push_children use_keyboard query maxd prev_row i [] stack = Inr stack"
| "push_children use_keyboard query maxd prev_row i ((ch, child) # cs) stack =
     (case band_row use_keyboard query maxd prev_row i ch of
        Inl e \<Rightarrow> Inl e
      | Inr (row, row_min) \<Rightarrow>
          push_children use_keyboard query maxd prev_row i cs
            (if row_min \<le> maxd then (child, row, i) # stack else stack))"

definition node_matches :: "string \<Rightarrow> pyfloat \<Rightarrow> pyfloat list \<Rightarrow> string list \<Rightarrow> (string \<times> pyfloat) list" where
  "node_matches query maxd prev_row ns =
     [(candidate, last prev_row). candidate \<leftarrow> ns, candidate \<noteq> query, last prev_row \<le> maxd]"

fun trie_size :: "trie_node \<Rightarrow> nat" where
  "trie_size (TrieNode cs ns) = Suc (sum_list (map (\<lambda>(c, t). trie_size t) cs))"

lemma push_children_size:
  "push_children kb query maxd row i cs stack = Inr stack' \<Longrightarrow>
     sum_list (map (\<lambda>(t, _). trie_size t) stack')
       \<le> sum_list (map (\<lambda>(c, t). trie_size t) cs) + sum_list (map (\<lambda>(t, _). trie_size t) stack)"
proof (induction kb query maxd row i cs stack rule: push_children.induct)
  case (2 kb query maxd prev_row i ch child cs stack)
  then show ?case by (fastforce split: sum.splits prod.splits if_splits)
qed simp

text \<open>The stack, with its top first.\<close>

function walk :: "bool \<Rightarrow> string \<Rightarrow> pyfloat \<Rightarrow> walk_item list \<Rightarrow> (string \<times> pyfloat) list \<Rightarrow> (string \<times> pyfloat) list py_result" where
  "walk use_keyboard query maxd [] matches = Inr matches"
| "walk use_keyboard query maxd ((TrieNode cs ns, prev_row, depth) # stack) matches =
     (case push_children use_keyboard query maxd prev_row (depth + 1) cs stack of
        Inl e \<Rightarrow> Inl e
      | Inr stack' \<Rightarrow> walk use_keyboard query maxd stack' (matches @ node_matches query maxd prev_row ns))"
  by pat_completeness auto
termination
  by (relation "measure (\<lambda>(_, _, _, stack, _). sum_list (map (\<lambda>(t, _). trie_size t) stack))")
     (auto dest!: push_children_size)

definition search_banded :: "bool \<Rightarrow> trie_node \<Rightarrow> string \<Rightarrow> pyfloat \<Rightarrow> (string \<times> pyfloat) list \<Rightarrow> (string \<times> pyfloat) list py_result" where
  "search_banded use_keyboard node query maxd matches =
     walk use_keyboard query maxd
       [(node, map (\<lambda>i. if of_nat i \<le> maxd then of_nat i else maxd + 1) [0..<length query + 1], 0)] matches"

definition search_edit :: "trie_node \<Rightarrow> string \<Rightarrow> pyfloat \<Rightarrow> (string \<times> pyfloat) list \<Rightarrow> (string \<times> pyfloat) list py_result" where
  "search_edit node query maxd matches = search_banded False node query maxd matches"

definition search_keyboard :: "trie_node \<Rightarrow> string \<Rightarrow> pyfloat \<Rightarrow> (string \<times> pyfloat) list \<Rightarrow> (string \<times> pyfloat) list py_result" where
  "search_keyboard node query maxd matches = search_banded True node query maxd matches"

fun search_lengths ::
  "(nat, trie_node) pydict \<Rightarrow> bool \<Rightarrow> string \<Rightarrow> pyfloat \<Rightarrow> int list \<Rightarrow> (string \<times> pyfloat) list \<Rightarrow> (string \<times> pyfloat) list py_result" where
  "search_lengths ts use_keyboard query maxd [] matches = Inr matches"
| "search_lengths ts use_keyboard query maxd (len # lens) matches =
     (case dget ts (nat len) of
        None \<Rightarrow> search_lengths ts use_keyboard query maxd lens matches
      | Some node \<Rightarrow>
          bindE (if use_keyboard then search_keyboard node query maxd matches else search_edit node query maxd matches)
            (search_lengths ts use_keyboard query maxd lens))"

definition search_length_buckets ::
  "(nat, trie_node) pydict \<Rightarrow> bool \<Rightarrow> string \<Rightarrow> pyfloat \<Rightarrow> int \<Rightarrow> int \<Rightarrow> (string \<times> pyfloat) list \<Rightarrow> (string \<times> pyfloat) list py_result" where
  "search_length_buckets ts use_keyboard query maxd query_len max_dist_int matches =
     (let min_len = max 0 (query_len - max_dist_int); max_len = query_len + max_dist_int
      in search_lengths ts use_keyboard query maxd [min_len..max_len] matches)"

section \<open>The delete index\<close>

datatype delete_bucket = Single string | Several "string list"

definition delete_at :: "nat \<Rightarrow> string \<Rightarrow> string" where
  "delete_at i s = take i s @ drop (i + 1) s"

definition deletes1 :: "string \<Rightarrow> string list" where
  "deletes1 s = [delete_at i s. i \<leftarrow> [0..<length s]]"

definition deletes2 :: "string \<Rightarrow> string list" where
  "deletes2 s = [take i s @ drop (i + 1) (take j s) @ drop (j + 1) s.
     i \<leftarrow> [0..<length s], j \<leftarrow> [i + 1..<length s]]"

definition upsert :: "string \<Rightarrow> (string, delete_bucket) pydict \<Rightarrow> string \<Rightarrow> (string, delete_bucket) pydict" where
  "upsert name index variant =
     (case dget index variant of
        None \<Rightarrow> dset variant (Single name) index
      | Some (Single cur) \<Rightarrow> dset variant (Several [cur, name]) index
      | Some (Several ns) \<Rightarrow> dset variant (Several (ns @ [name])) index)"

definition index_name :: "(string, delete_bucket) pydict \<Rightarrow> string \<Rightarrow> (string, delete_bucket) pydict" where
  "index_name index name =
     (let index1 = foldl (upsert name) index (name # deletes1 name)
      in if length name \<ge> 2 then foldl (upsert name) index1 (deletes2 name) else index1)"

definition bucket_names :: "delete_bucket option \<Rightarrow> string list" where
  "bucket_names b = (case b of None \<Rightarrow> [] | Some (Single n) \<Rightarrow> [n] | Some (Several ns) \<Rightarrow> ns)"

definition delete_candidates :: "(string, delete_bucket) pydict \<Rightarrow> string \<Rightarrow> int \<Rightarrow> string list" where
  "delete_candidates index query max_dist_int =
     remdups (concat (map (\<lambda>v. bucket_names (dget index v))
       (query # deletes1 query @ (if max_dist_int \<ge> 2 \<and> length query \<ge> 2 then deletes2 query else []))))"

definition search_deletes ::
  "(string, delete_bucket) pydict \<Rightarrow> string \<Rightarrow> int \<Rightarrow> (string \<times> pyfloat) list \<Rightarrow> (string \<times> pyfloat) list" where
  "search_deletes index query max_dist_int matches =
     matches @ [(candidate, of_int (levenshtein_within query candidate max_dist_int)).
       candidate \<leftarrow> delete_candidates index query max_dist_int, candidate \<noteq> query,
       levenshtein_within query candidate max_dist_int \<le> max_dist_int]"

section \<open>The index\<close>

record corpus_index =
  ci_priority :: "string list"
  ci_names :: "string list"
  ci_tries :: "(nat, trie_node) pydict"
  ci_delete_index :: "(string, delete_bucket) pydict"
  ci_delete_step :: nat
  ci_delete_cursor :: "nat option"

definition SYMSPELL_MAX_DISTANCE :: int where
  "SYMSPELL_MAX_DISTANCE = 2"

definition DELETE_INDEX_CHUNKS :: int where
  "DELETE_INDEX_CHUNKS = 16"

definition advance_delete_build :: "nat \<Rightarrow> corpus_index \<Rightarrow> corpus_index" where
  "advance_delete_build step ix =
     (let start = (case ci_delete_cursor ix of None \<Rightarrow> 0 | Some c \<Rightarrow> c);
          stop = (case ci_delete_cursor ix of None \<Rightarrow> length (ci_names ix)
                  | Some c \<Rightarrow> min (length (ci_names ix)) (c + step))
      in ix\<lparr>ci_delete_index := foldl index_name (ci_delete_index ix) (drop start (take stop (ci_names ix))),
            ci_delete_cursor := (if stop < length (ci_names ix) then Some stop else None)\<rparr>)"

text \<open>\<open>isinstance(name, str)\<close> over the values a corpus file may hold.\<close>

definition str_names :: "json list \<Rightarrow> string list" where
  "str_names vs = concat (map (\<lambda>v. case v of JStr s \<Rightarrow> [s] | _ \<Rightarrow> []) vs)"

definition new_corpus_index :: "json list \<Rightarrow> string list option \<Rightarrow> int \<Rightarrow> corpus_index" where
  "new_corpus_index names priority_names chunks =
     (let priority = (case priority_names of None \<Rightarrow> [] | Some ps \<Rightarrow> ps);
          all_names = sort (remdups (str_names names @ priority));
          n = length all_names;
          ix = \<lparr>ci_priority = priority, ci_names = all_names, ci_tries = foldl insert_name [] all_names,
                ci_delete_index = [],
                ci_delete_step = (if chunks > 0 then nat (max 1 (- ((- int n) div chunks))) else n),
                ci_delete_cursor = (if chunks > 0 then Some 0 else None)\<rparr>
      in if chunks \<le> 0 then advance_delete_build n ix else ix)"

definition index_contains :: "string \<Rightarrow> corpus_index \<Rightarrow> bool" where
  "index_contains name ix \<longleftrightarrow> name \<in> set (ci_names ix)"

definition finish_delete_index :: "corpus_index \<Rightarrow> corpus_index" where
  "finish_delete_index ix =
     (if ci_delete_cursor ix \<noteq> None then advance_delete_build (length (ci_names ix)) ix else ix)"

text \<open>The condition on a match of a short query; \<open>name[0]\<close> of an empty query is the \<open>IndexError\<close>.\<close>

definition short_filter :: "string list \<Rightarrow> string \<Rightarrow> string \<times> pyfloat \<Rightarrow> (string \<times> pyfloat) list py_result" where
  "short_filter priority name m =
     (if fst m \<notin> set priority then Inr []
      else if length (fst m) < 4 \<and> snd m > 1 then Inr []
      else if length (fst m) \<ge> 4
      then (case name of [] \<Rightarrow> Inl IndexError | c # _ \<Rightarrow> if \<not> starts_with [c] (fst m) then Inr [] else Inr [m])
      else Inr [m])"

text \<open>
  The search itself: the trie for keyboard distances and for large distances; otherwise one more
  chunk of the delete index is built, and the delete index answers once it is complete.
\<close>

definition advance_on_query :: "corpus_index \<Rightarrow> corpus_index" where
  "advance_on_query ix = (if ci_delete_cursor ix \<noteq> None then advance_delete_build (ci_delete_step ix) ix else ix)"

definition near_search ::
  "string \<Rightarrow> pyfloat \<Rightarrow> bool \<Rightarrow> corpus_index \<Rightarrow> (string \<times> pyfloat) list py_result \<times> corpus_index" where
  "near_search name max_distance use_keyboard ix =
     (let query_len = int (length name); max_dist_int = py_int max_distance
      in if use_keyboard \<or> max_dist_int > SYMSPELL_MAX_DISTANCE
         then (search_length_buckets (ci_tries ix) use_keyboard name max_distance query_len max_dist_int [], ix)
         else let ix1 = advance_on_query ix
              in (if ci_delete_cursor ix1 = None
                  then Inr (search_deletes (ci_delete_index ix1) name max_dist_int [])
                  else search_length_buckets (ci_tries ix1) False name max_distance query_len max_dist_int [], ix1))"

definition near_matches ::
  "string \<Rightarrow> pyfloat \<Rightarrow> bool \<Rightarrow> corpus_index \<Rightarrow> (string \<times> pyfloat) list py_result \<times> corpus_index" where
  "near_matches name max_distance use_keyboard ix =
     (if starts_with ''@'' name then (Inr [], ix)
      else let (found, ix1) = near_search name max_distance use_keyboard ix
           in (bindE found (\<lambda>matches.
                 bindE (if length name < 4 then bindE (mapE (short_filter (ci_priority ix) name) matches) (\<lambda>ms. Inr (concat ms))
                        else Inr matches)
                   (\<lambda>ms. Inr (sort_key match_key ms))), ix1))"

definition check_typosquat_against_index ::
  "string \<Rightarrow> pyfloat \<Rightarrow> bool \<Rightarrow> corpus_index \<Rightarrow> (string \<times> pyfloat) list py_result \<times> corpus_index" where
  "check_typosquat_against_index dep_name max_distance use_keyboard ix =
     (let (found, ix1) = near_matches dep_name max_distance use_keyboard ix
      in (bindE found (\<lambda>ms. Inr [m \<leftarrow> ms. fst m \<noteq> dep_name]), ix1))"

section \<open>The bounded distance is exact\<close>

lemma lw_cell_min:
  "lw_cell c b prev (row, m) (Suc j) =
     (let v = min (min (prev ! Suc j + 1) (row ! j + 1)) (prev ! j + unit_cost c (b ! j)) in (row @ [v], min m v))"
  by (auto simp: lw_cell_def unit_cost_def Let_def min_def)

lemma lw_row_table:
  assumes "j \<le> length b"
  shows "foldl (lw_cell c b (table_row unit_cost b p)) ([int (Suc (length p))], int (Suc (length p))) [1..<Suc j] =
    (map (\<lambda>k. wdist unit_cost (p @ [c]) (take k b)) [0..<Suc j],
     Min ((\<lambda>k. wdist unit_cost (p @ [c]) (take k b)) ` {0..j}))"
  using assms
proof (induction j)
  case (Suc j)
  have "{0..Suc j} = insert (Suc j) {0..j}" by auto
  then have "Min ((\<lambda>k. wdist unit_cost (p @ [c]) (take k b)) ` {0..Suc j}) =
      min (Min ((\<lambda>k. wdist unit_cost (p @ [c]) (take k b)) ` {0..j})) (wdist unit_cost (p @ [c]) (take (Suc j) b) :: int)"
    by (simp add: min.commute)
  with Suc table_row_next [of j b "unit_cost :: char \<Rightarrow> char \<Rightarrow> int" p c] show ?case
    by (simp add: lw_cell_min nth_append Let_def)
qed simp

lemma lw_rows_exact:
  assumes "k \<le> length a"
  shows "lw_rows a b m (table_row unit_cost b (take k a)) [Suc k..<Suc (length a)] =
    (if wdist unit_cost a b \<le> m then wdist unit_cost a b else m + 1)"
  using assms
proof (induction "length a - k" arbitrary: k)
  case 0
  then show ?case by (simp add: last_table_row)
next
  case (Suc n)
  then have k: "k < length a" by simp
  let ?D = "\<lambda>j. wdist unit_cost (take (Suc k) a) (take j b) :: int"
  have row: "foldl (lw_cell (a ! k) b (table_row unit_cost b (take k a))) ([int (Suc k)], int (Suc k)) [1..<Suc (length b)] =
      (table_row unit_cost b (take (Suc k) a), Min (?D ` {0..length b}))"
    using k lw_row_table [of "length b" b "a ! k" "take k a"]
    by (simp add: table_row_def take_Suc_conv_app_nth)
  have upt: "[Suc k..<Suc (length a)] = Suc k # [Suc (Suc k)..<Suc (length a)]" using k by (simp add: upt_conv_Cons)
  show ?case
  proof (cases "Min (?D ` {0..length b}) > m")
    case True
    obtain j where "j \<le> length b" "?D j \<le> wdist unit_cost (take (Suc k) a @ drop (Suc k) a) b"
      using unit_cost.wdist_prefix [where 'n = int] by blast
    moreover from True this(1) have "m < ?D j" by simp
    ultimately have "m < wdist unit_cost a b" by simp
    with True show ?thesis unfolding upt by (simp add: row [simplified])
  next
    case False
    then show ?thesis unfolding upt using Suc k by (auto simp: row [simplified])
  qed
qed

lemma levenshtein_within_exact:
  "levenshtein_within a b m = (if wdist unit_cost a b \<le> m then wdist unit_cost a b else m + 1)"
proof (cases "int (length a) - int (length b) > m \<or> int (length b) - int (length a) > m \<or> length a = 0")
  case True
  then show ?thesis using unit_cost.wdist_length [of a b, where 'n = int]
    by (auto simp: levenshtein_within_def Let_def)
next
  case False
  have "map int [0..<length b + 1] = table_row unit_cost b (take 0 a)"
    by (simp add: table_row_def)
  then show ?thesis using False lw_rows_exact [of 0 a b m] by (auto simp: levenshtein_within_def Let_def)
qed

section \<open>Delete variants find every close name\<close>

lemma edits_common:
  "edits (unit_cost :: char \<Rightarrow> char \<Rightarrow> int) c a b \<Longrightarrow>
     \<exists>v. subseq v a \<and> subseq v b \<and> int (length a) - int (length v) \<le> c \<and> int (length b) - int (length v) \<le> c"
proof (induction rule: edits.induct)
  case (edits_ins c a b y)
  then obtain v where "subseq v a" "subseq v b" "int (length a) - int (length v) \<le> c" "int (length b) - int (length v) \<le> c"
    by blast
  then show ?case by (intro exI [of _ v]) auto
next
  case (edits_del c a b x)
  then obtain v where "subseq v a" "subseq v b" "int (length a) - int (length v) \<le> c" "int (length b) - int (length v) \<le> c"
    by blast
  then show ?case by (intro exI [of _ v]) auto
next
  case (edits_sub c a b x y)
  then obtain v where v: "subseq v a" "subseq v b" "int (length a) - int (length v) \<le> c" "int (length b) - int (length v) \<le> c"
    by blast
  show ?case
  proof (cases "x = y")
    case True
    with v show ?thesis by (intro exI [of _ "x # v"]) (auto simp: unit_cost_def)
  next
    case False
    with v show ?thesis by (intro exI [of _ v]) (auto simp: unit_cost_def)
  qed
qed (rule exI [of _ "[]"], simp)

lemma deletes1_Cons: "set (deletes1 (x # s)) = insert s ((#) x ` set (deletes1 s))"
proof -
  have "set (deletes1 (x # s)) = (\<lambda>i. delete_at i (x # s)) ` {0..<Suc (length s)}"
    by (simp add: deletes1_def del: upt_Suc)
  also have "{0..<Suc (length s)} = insert 0 (Suc ` {0..<length s})"
    by (simp add: atLeast0_lessThan_Suc_eq_insert_0)
  also have "(\<lambda>i. delete_at i (x # s)) ` \<dots> = insert s ((#) x ` set (deletes1 s))"
    by (simp add: delete_at_def deletes1_def image_image del: image_Suc_atLeastLessThan)
  finally show ?thesis .
qed

lemma deletes1_subseq: "subseq v s \<Longrightarrow> length s = Suc (length v) \<Longrightarrow> v \<in> set (deletes1 s)"
proof (induction s arbitrary: v)
  case (Cons x s)
  show ?case
  proof (cases "subseq v s")
    case True
    with Cons.prems(2) have "v = s" by (simp add: subseq_same_length)
    then show ?thesis by (simp add: deletes1_Cons)
  next
    case False
    with Cons.prems obtain w where "v = x # w" "subseq w s"
      by (cases v) (auto split: if_splits)
    with Cons show ?thesis by (simp add: deletes1_Cons)
  qed
qed simp

lemma deletes2_Cons: "set (deletes2 (x # s)) = set (deletes1 s) \<union> (#) x ` set (deletes2 s)"
proof -
  have conc: "set (deletes2 t) = {take i t @ drop (i + 1) (take j t) @ drop (j + 1) t | i j. i < j \<and> j < length t}" for t
    by (force simp: deletes2_def)
  have "v \<in> set (deletes1 s) \<union> (#) x ` set (deletes2 s)" if v: "v \<in> set (deletes2 (x # s))" for v
  proof -
    obtain i j where ij: "i < j" "j < length (x # s)" "v = take i (x # s) @ drop (i + 1) (take j (x # s)) @ drop (j + 1) (x # s)"
      using v conc by auto
    then obtain j' where j': "j = Suc j'" "j' < length s" by (cases j) auto
    show ?thesis
    proof (cases i)
      case 0
      with ij j' have "v = delete_at j' s" by (simp add: delete_at_def)
      with j' show ?thesis by (auto simp: deletes1_def)
    next
      case (Suc i')
      with ij j' have "v = x # (take i' s @ drop (i' + 1) (take j' s) @ drop (j' + 1) s)" "i' < j'" by simp_all
      with j' show ?thesis using conc [of s] by blast
    qed
  qed
  moreover have "v \<in> set (deletes2 (x # s))" if v: "v \<in> set (deletes1 s)" for v
  proof -
    obtain j where "j < length s" "v = delete_at j s" using v by (auto simp: deletes1_def)
    then have "0 < Suc j \<and> Suc j < length (x # s)
        \<and> v = take 0 (x # s) @ drop (0 + 1) (take (Suc j) (x # s)) @ drop (Suc j + 1) (x # s)"
      by (simp add: delete_at_def)
    then show ?thesis unfolding conc by blast
  qed
  moreover have "x # v \<in> set (deletes2 (x # s))" if v: "v \<in> set (deletes2 s)" for v
  proof -
    obtain i j where "i < j" "j < length s" "v = take i s @ drop (i + 1) (take j s) @ drop (j + 1) s"
      using v conc by auto
    then have "Suc i < Suc j \<and> Suc j < length (x # s)
        \<and> x # v = take (Suc i) (x # s) @ drop (Suc i + 1) (take (Suc j) (x # s)) @ drop (Suc j + 1) (x # s)"
      by simp
    then show ?thesis unfolding conc by blast
  qed
  ultimately show ?thesis by blast
qed

lemma deletes2_subseq: "subseq v s \<Longrightarrow> length s = Suc (Suc (length v)) \<Longrightarrow> v \<in> set (deletes2 s)"
proof (induction s arbitrary: v)
  case (Cons x s)
  show ?case
  proof (cases "subseq v s")
    case True
    with Cons.prems(2) show ?thesis by (simp add: deletes2_Cons deletes1_subseq)
  next
    case False
    with Cons.prems obtain w where "v = x # w" "subseq w s"
      by (cases v) (auto split: if_splits)
    with Cons show ?thesis by (simp add: deletes2_Cons)
  qed
qed simp

definition variants :: "string \<Rightarrow> string set" where
  "variants s = insert s (set (deletes1 s) \<union> set (deletes2 s))"

lemma deletes2_short: "length s < 2 \<Longrightarrow> deletes2 s = []"
  by (cases s) (auto simp: deletes2_def)

lemma variants_subseq:
  assumes "subseq v s" and "int (length s) - int (length v) \<le> 2"
  shows "v \<in> variants s"
proof -
  have "length v \<le> length s" using assms(1) by (rule list_emb_length)
  with assms(2) consider "length s = length v" | "length s = Suc (length v)" | "length s = Suc (Suc (length v))"
    by linarith
  then show ?thesis
    using assms(1) by cases (auto simp: variants_def subseq_same_length deletes1_subseq deletes2_subseq)
qed

lemma bucket_upsert:
  "set (bucket_names (dget (upsert n index v) w)) = (if w = v then insert n else id) (set (bucket_names (dget index w)))"
  by (auto simp: upsert_def bucket_names_def split: option.splits delete_bucket.splits)

lemma bucket_upserts:
  "set (bucket_names (dget (foldl (upsert n) index vs) w)) =
     (if w \<in> set vs then insert n else id) (set (bucket_names (dget index w)))"
  by (induction vs arbitrary: index) (auto simp: bucket_upsert)

lemma bucket_index_name:
  "set (bucket_names (dget (index_name index n) w)) =
     (if w \<in> variants n then insert n else id) (set (bucket_names (dget index w)))"
  using deletes2_short [of n]
  by (auto simp: index_name_def Let_def bucket_upserts variants_def simp del: foldl_Cons)

lemma bucket_index_names:
  "set (bucket_names (dget (foldl index_name index ns) w)) =
     set (bucket_names (dget index w)) \<union> {n \<in> set ns. w \<in> variants n}"
  by (induction ns arbitrary: index) (auto simp: bucket_index_name)

lemma delete_candidates_set:
  "set (delete_candidates (foldl index_name [] ns) q m) =
     {n \<in> set ns. \<exists>v \<in> set (q # deletes1 q @ (if m \<ge> 2 \<and> length q \<ge> 2 then deletes2 q else [])). v \<in> variants n}"
  unfolding delete_candidates_def set_remdups set_concat set_map
  using bucket_index_names [of "[]" ns] by (fastforce simp: bucket_names_def)

lemma delete_candidates_complete:
  assumes "n \<in> set ns" and "wdist unit_cost q n \<le> m" and "m \<le> (2 :: int)"
  shows "n \<in> set (delete_candidates (foldl index_name [] ns) q m)"
proof -
  obtain v where v: "subseq v q" "subseq v n" "int (length q) - int (length v) \<le> m" "int (length n) - int (length v) \<le> m"
    using edits_common [OF wdist_edits [of unit_cost q n]] assms(2) by force
  have "length v \<le> length q" using v(1) by (rule list_emb_length)
  with v(3) assms(3) consider "length q = length v" | "length q = Suc (length v)"
    | "length q = Suc (Suc (length v))" "m \<ge> 2"
    by linarith
  then have "v \<in> set (q # deletes1 q @ (if m \<ge> 2 \<and> length q \<ge> 2 then deletes2 q else []))"
    using v(1) by cases (auto simp: subseq_same_length deletes1_subseq deletes2_subseq)
  moreover have "v \<in> variants n" using v(2,4) assms(3) by (intro variants_subseq) auto
  ultimately show ?thesis using assms(1) unfolding delete_candidates_set by blast
qed

text \<open>
  What a search must return, up to order: every name other than the query within the distance, once.
\<close>

definition exact_matches :: "(char \<Rightarrow> char \<Rightarrow> pyfloat) \<Rightarrow> string \<Rightarrow> pyfloat \<Rightarrow> string list \<Rightarrow> (string \<times> pyfloat) list" where
  "exact_matches sub query maxd ns =
     [(n, wdist sub query n). n \<leftarrow> ns, n \<noteq> query, wdist sub query n \<le> maxd]"

lemma wdist_of_int: "of_int (wdist unit_cost a b) = (wdist unit_cost a b :: pyfloat)"
  by (induction "unit_cost :: char \<Rightarrow> char \<Rightarrow> pyfloat" a b rule: wdist.induct) (auto simp: unit_cost_def min_def)

lemma wdist_le_floor: "wdist unit_cost a b \<le> (\<lfloor>x :: pyfloat\<rfloor> :: int) \<longleftrightarrow> wdist unit_cost a b \<le> x"
  by (simp add: le_floor_iff wdist_of_int)

lemma search_deletes_exact:
  assumes "distinct ns" and "0 \<le> maxd" and "py_int maxd \<le> 2"
  shows "mset (search_deletes (foldl index_name [] ns) q (py_int maxd) []) = mset (exact_matches unit_cost q maxd ns)"
proof (rule set_eq_iff_mset_eq_distinct [THEN iffD1])
  let ?D = "\<lambda>n. wdist unit_cost q n :: int" and ?m = "py_int maxd"
  have m: "?D n \<le> ?m \<longleftrightarrow> wdist unit_cost q n \<le> maxd" for n
    using assms(2) by (simp add: py_int_def wdist_le_floor)
  have inset: "set (delete_candidates (foldl index_name [] ns) q ?m) \<subseteq> set ns"
    by (auto simp: delete_candidates_set)
  have "?D n \<le> ?m \<Longrightarrow> levenshtein_within q n ?m = ?D n" "\<not> ?D n \<le> ?m \<Longrightarrow> \<not> levenshtein_within q n ?m \<le> ?m" for n
    by (simp_all add: levenshtein_within_exact)
  then have "set (search_deletes (foldl index_name [] ns) q ?m []) =
      {(n, of_int (?D n)) | n. n \<in> set (delete_candidates (foldl index_name [] ns) q ?m) \<and> n \<noteq> q \<and> ?D n \<le> ?m}"
    by (fastforce simp: search_deletes_def split: if_splits)
  also have "\<dots> = {(n, wdist unit_cost q n) | n. n \<in> set ns \<and> n \<noteq> q \<and> wdist unit_cost q n \<le> maxd}"
    using delete_candidates_complete [OF _ _ assms(3)] inset by (auto simp: wdist_of_int m)
  finally show "set (search_deletes (foldl index_name [] ns) q ?m []) = set (exact_matches unit_cost q maxd ns)"
    by (auto simp: exact_matches_def)
  have once: "distinct ks \<Longrightarrow> distinct [(k, f k). k \<leftarrow> ks, k \<noteq> q, g k \<le> b]" for ks f g and b :: "'x::order"
    by (induction ks) auto
  show "distinct (search_deletes (foldl index_name [] ns) q ?m [])"
    unfolding search_deletes_def append_Nil by (rule once) (simp add: delete_candidates_def)
  show "distinct (exact_matches unit_cost q maxd ns)"
    unfolding exact_matches_def by (rule once) (rule assms(1))
qed

section \<open>The banded rows are exact where it matters\<close>

interpretation step_cost: edit_cost "step_cost kb" for kb
  by unfold_locales (auto simp: step_cost_def is_keyboard_adjacent_def Let_def)

lemma step_cost_unit: "step_cost False = unit_cost" "step_cost True = keyboard_cost"
  by (auto simp: step_cost_def unit_cost_def keyboard_cost_def fun_eq_iff)

text \<open>Two values that are equal as soon as one of them is within the distance.\<close>

definition near :: "pyfloat \<Rightarrow> pyfloat \<Rightarrow> pyfloat \<Rightarrow> bool" where
  "near m x y \<longleftrightarrow> (x \<le> m \<or> y \<le> m \<longrightarrow> x = y)"

lemma near_iff: "near m x y \<longleftrightarrow> x = y \<or> m < x \<and> m < y"
  by (auto simp: near_def)

lemma near_refl [simp]: "near m x x"
  by (simp add: near_iff)

lemma near_far: "m < x \<Longrightarrow> m < y \<Longrightarrow> near m x y"
  by (simp add: near_iff)

lemma near_add: "near m x y \<Longrightarrow> 0 \<le> c \<Longrightarrow> near m (x + c) (y + c)"
  by (auto simp: near_iff)

lemma near_min: "near m x y \<Longrightarrow> near m x' y' \<Longrightarrow> near m (min x x') (min y y')"
  by (auto simp: near_iff min_def)

lemma near_le: "near m x y \<Longrightarrow> x \<le> m \<longleftrightarrow> y \<le> m"
  by (auto simp: near_iff)

definition row_near :: "bool \<Rightarrow> string \<Rightarrow> pyfloat \<Rightarrow> string \<Rightarrow> pyfloat list \<Rightarrow> bool" where
  "row_near kb query maxd pre row \<longleftrightarrow> length row = length query + 1
     \<and> (\<forall>j \<le> length query. near maxd (row ! j) (wdist (step_cost kb) pre (take j query)))"

definition alive :: "bool \<Rightarrow> string \<Rightarrow> pyfloat \<Rightarrow> string \<Rightarrow> bool" where
  "alive kb query maxd pre \<longleftrightarrow> (\<exists>j \<le> length query. wdist (step_cost kb) pre (take j query) \<le> maxd)"

lemma wdist_band:
  assumes "0 \<le> maxd" and "j \<le> length query" and "\<bar>int (length pre) - int j\<bar> \<ge> py_int maxd + 1"
  shows "maxd < wdist (step_cost kb) pre (take j query)"
proof -
  have "maxd < of_int (py_int maxd + 1)" using assms(1) floor_correct [of maxd] by (simp add: py_int_def)
  also have "\<dots> \<le> of_int \<bar>int (length pre) - int j\<bar>" using assms(3) by (simp only: of_int_le_iff)
  also have "\<dots> \<le> wdist (step_cost kb) pre (take j query)"
    using step_cost.wdist_length [of pre "take j query" kb] assms(2) by (simp add: min_absorb2)
  finally show ?thesis .
qed

lemma alive_length: "0 \<le> maxd \<Longrightarrow> alive kb query maxd pre \<Longrightarrow> int (length pre) \<le> int (length query) + py_int maxd"
  unfolding alive_def using wdist_band [of maxd _ query pre kb] by force

lemma band_cell_min:
  "band_cell kb query ch prev (row, m, pj) (Suc j) =
     (let v = min (min (prev ! Suc j + 1) (row ! j + 1)) (pj + step_cost kb ch (query ! j))
      in (row[Suc j := v], min m v, prev ! Suc j))"
  by (auto simp: band_cell_def Let_def min_def)

text \<open>The loop over the band, up to column \<open>k\<close>.\<close>

definition band_state :: "bool \<Rightarrow> string \<Rightarrow> pyfloat \<Rightarrow> string \<Rightarrow> pyfloat list \<Rightarrow> nat \<Rightarrow> pyfloat list \<times> pyfloat \<times> pyfloat \<Rightarrow> bool" where
  "band_state kb query maxd pre prev k = (\<lambda>(row, m, pj). length row = length query + 1 \<and> pj = prev ! (k - 1)
     \<and> (\<forall>j < k. near maxd (row ! j) (wdist (step_cost kb) pre (take j query)))
     \<and> (\<forall>j. k \<le> j \<longrightarrow> j \<le> length query \<longrightarrow> row ! j = maxd + 1)
     \<and> (m \<le> maxd \<longleftrightarrow> (\<exists>j < k. wdist (step_cost kb) pre (take j query) \<le> maxd)))"

lemma band_state_step:
  assumes st: "band_state kb query maxd (pre @ [ch]) prev (Suc k) st" and prev: "row_near kb query maxd pre prev"
    and k: "k < length query"
  shows "band_state kb query maxd (pre @ [ch]) prev (Suc (Suc k)) (band_cell kb query ch prev st (Suc k))"
proof -
  let ?D = "\<lambda>j. wdist (step_cost kb) (pre @ [ch]) (take j query)"
  obtain row m pj where st3: "st = (row, m, pj)" by (cases st)
  with st have "pj = prev ! k" unfolding band_state_def prod.case by simp
  with st3 have s: "st = (row, m, prev ! k)" by simp
  have len: "length row = length query + 1" and cells: "\<And>j. j < Suc k \<Longrightarrow> near maxd (row ! j) (?D j)"
    and rest: "\<And>j. Suc k \<le> j \<Longrightarrow> j \<le> length query \<Longrightarrow> row ! j = maxd + 1"
    and low: "m \<le> maxd \<longleftrightarrow> (\<exists>j < Suc k. ?D j \<le> maxd)"
    using st unfolding s band_state_def prod.case by blast+
  let ?v = "min (min (prev ! Suc k + 1) (row ! k + 1)) (prev ! k + step_cost kb ch (query ! k))"
  have v: "near maxd ?v (?D (Suc k))"
  proof -
    have "near maxd (prev ! j) (table_row (step_cost kb) query pre ! j)" if "j \<le> length query" for j
      using prev that by (simp add: row_near_def)
    with k have p: "near maxd (prev ! Suc k) (table_row (step_cost kb) query pre ! Suc k)"
        "near maxd (prev ! k) (table_row (step_cost kb) query pre ! k)" by simp_all
    show ?thesis unfolding table_row_next [OF k]
      by (rule near_min near_add p cells [OF lessI] zero_le_one step_cost.sub_nonneg)+
  qed
  have "min m ?v \<le> maxd \<longleftrightarrow> m \<le> maxd \<or> ?v \<le> maxd" by (rule min_le_iff_disj)
  also have "\<dots> \<longleftrightarrow> (\<exists>j < Suc (Suc k). ?D j \<le> maxd)"
    by (simp only: low near_le [OF v] Ex_less_Suc) (rule disj_commute)
  finally have 1: "min m ?v \<le> maxd \<longleftrightarrow> (\<exists>j < Suc (Suc k). ?D j \<le> maxd)" .
  have 2: "near maxd (row[Suc k := ?v] ! j) (?D j)" if "j < Suc (Suc k)" for j
    using v cells [of j] that k len by (cases "j = Suc k") simp_all
  have 3: "row[Suc k := ?v] ! j = maxd + 1" if "Suc (Suc k) \<le> j" "j \<le> length query" for j
    using rest [of j] that by simp
  show ?thesis
    unfolding s band_cell_min Let_def band_state_def prod.case
    by (intro conjI allI impI 1 2 3; simp add: len)
qed

lemma band_state_run:
  assumes "band_state kb query maxd (pre @ [ch]) prev lo st" and "row_near kb query maxd pre prev"
    and "1 \<le> lo" and "lo \<le> k" and "k \<le> Suc (length query)"
  shows "band_state kb query maxd (pre @ [ch]) prev k (foldl (band_cell kb query ch prev) st [lo..<k])"
  using assms(4,5)
proof (induction k rule: dec_induct)
  case base
  then show ?case using assms(1) by simp
next
  case (step k)
  then obtain k' where "k = Suc k'" using assms(3) by (cases k) auto
  with step assms(2) show ?case by (simp add: band_state_step)
qed

text \<open>Before the loop, column 0 holds the exact distance and the columns left of the band are far away.\<close>

lemma band_state_start:
  assumes lo: "1 \<le> lo" "lo \<le> Suc (length query)"
    and far: "\<And>j. 1 \<le> j \<Longrightarrow> j < lo \<Longrightarrow> maxd < wdist (step_cost kb) pre (take j query)"
  shows "band_state kb query maxd pre prev lo
    ((replicate (length query + 1) (maxd + 1))[0 := of_nat (length pre)], min (maxd + 1) (of_nat (length pre)), prev ! (lo - 1))"
proof -
  let ?D = "\<lambda>j. wdist (step_cost kb) pre (take j query)" and ?row0 = "(replicate (length query + 1) (maxd + 1))[0 := of_nat (length pre)]"
  have zero: "?D 0 = of_nat (length pre)" by simp
  have cell: "near maxd (?row0 ! j) (?D j)" if "j < lo" for j
    using that far [of j] lo by (cases "j = 0") (auto intro!: near_far)
  have "min (maxd + 1) (of_nat (length pre)) \<le> maxd \<longleftrightarrow> of_nat (length pre) \<le> maxd" by (auto simp: min_def)
  also have "\<dots> \<longleftrightarrow> (\<exists>j < lo. ?D j \<le> maxd)"
  proof
    assume "of_nat (length pre) \<le> maxd"
    then show "\<exists>j < lo. ?D j \<le> maxd" using lo zero by (intro exI [of _ 0]) simp
  next
    assume "\<exists>j < lo. ?D j \<le> maxd"
    then obtain j where j: "j < lo" "?D j \<le> maxd" by blast
    with far [of j] lo have "j = 0" by fastforce
    with j zero show "of_nat (length pre) \<le> maxd" by simp
  qed
  finally have low: "min (maxd + 1) (of_nat (length pre)) \<le> maxd \<longleftrightarrow> (\<exists>j < lo. ?D j \<le> maxd)" .
  show ?thesis unfolding band_state_def prod.case
    by (intro conjI allI impI low cell) (use lo in auto)
qed

text \<open>After the loop, the columns right of the band are far away too.\<close>

lemma band_state_end:
  assumes st: "band_state kb query maxd pre prev stop (row, m, pj)" and stop: "stop \<le> Suc (length query)"
    and far: "\<And>j. stop \<le> j \<Longrightarrow> j \<le> length query \<Longrightarrow> maxd < wdist (step_cost kb) pre (take j query)"
  shows "row_near kb query maxd pre row \<and> (m \<le> maxd \<longleftrightarrow> alive kb query maxd pre)"
proof
  have "near maxd (row ! j) (wdist (step_cost kb) pre (take j query))" if "j \<le> length query" for j
  proof (cases "j < stop")
    case True
    with st show ?thesis unfolding band_state_def by simp
  next
    case False
    with st that have "row ! j = maxd + 1" unfolding band_state_def by simp
    with far [of j] False that show ?thesis by (simp add: near_far)
  qed
  with st show "row_near kb query maxd pre row" by (simp add: row_near_def band_state_def)
  have "m \<le> maxd \<longleftrightarrow> (\<exists>j < stop. wdist (step_cost kb) pre (take j query) \<le> maxd)"
    using st by (simp add: band_state_def)
  then show "m \<le> maxd \<longleftrightarrow> alive kb query maxd pre"
    unfolding alive_def using far stop by (metis not_le less_Suc_eq_le order_less_le_trans)
qed

lemma band_row_exact:
  assumes maxd: "0 \<le> maxd" and prev: "row_near kb query maxd pre prev" and alive: "alive kb query maxd pre"
  shows "\<exists>row row_min. band_row kb query maxd prev (Suc (length pre)) ch = Inr (row, row_min)
    \<and> row_near kb query maxd (pre @ [ch]) row \<and> (row_min \<le> maxd \<longleftrightarrow> alive kb query maxd (pre @ [ch]))"
proof -
  let ?n = "length query" and ?i = "Suc (length pre)" and ?B = "py_int maxd + 1"
  define lo where "lo = nat (max 1 (int ?i - ?B))"
  define hi where "hi = min (int ?i + ?B) (int ?n)"
  define stop where "stop = max lo (nat (hi + 1))"
  have lo: "1 \<le> lo" "lo \<le> Suc ?n" using alive_length [OF maxd alive] by (auto simp: lo_def)
  have stop: "lo \<le> stop" "stop \<le> Suc ?n" using lo by (auto simp: stop_def hi_def)
  have "?B \<ge> 1" using maxd by (simp add: py_int_def)
  then have far: "maxd < wdist (step_cost kb) (pre @ [ch]) (take j query)" if "j \<le> ?n" "1 \<le> j \<and> j < lo \<or> stop \<le> j" for j
    using that by (intro wdist_band [OF maxd that(1)]) (auto simp: lo_def stop_def hi_def split: if_splits)
  let ?start = "((replicate (?n + 1) (maxd + 1))[0 := of_nat ?i], min (maxd + 1) (of_nat ?i), prev ! (lo - 1))"
  obtain row m pj where st: "foldl (band_cell kb query ch prev) ?start [lo..<stop] = (row, m, pj)"
    by (metis prod_cases3)
  have "band_state kb query maxd (pre @ [ch]) prev lo ?start"
    using band_state_start [OF lo, of maxd kb "pre @ [ch]" prev] far lo by simp
  from band_state_run [OF this prev lo(1) stop] st
  have fin: "band_state kb query maxd (pre @ [ch]) prev stop (row, m, pj)" by simp
  have "[lo..<nat (hi + 1)] = [lo..<stop]" unfolding stop_def by (cases "lo \<le> nat (hi + 1)") (auto simp: max_def)
  moreover have "\<not> length prev \<le> lo - 1" using lo prev by (simp add: row_near_def)
  ultimately have "band_row kb query maxd prev ?i ch = Inr (row, m)"
    unfolding band_row_def Let_def lo_def [symmetric] hi_def [symmetric] using st by (simp only: if_False prod.case)
  with band_state_end [OF fin stop(2)] far show ?thesis by blast
qed

section \<open>The walk returns exactly the close names\<close>

fun trie_entries :: "trie_node \<Rightarrow> (string \<times> string) list" where
  "trie_entries (TrieNode cs ns) =
     map (Pair []) ns @ concat (map (\<lambda>(c, t). map (\<lambda>(p, n). (c # p, n)) (trie_entries t)) cs)"

lemma mset_concat_dset:
  "mset (concat (map f (dset k v cs))) + (case dget cs k of None \<Rightarrow> {#} | Some t \<Rightarrow> mset (f (k, t))) =
     mset (concat (map f cs)) + mset (f (k, v))"
  by (induction cs) (auto split: option.splits)

lemma trie_entries_insert:
  "mset (trie_entries (trie_insert n p t)) = add_mset (p, n) (mset (trie_entries t))"
proof (induction n p t rule: trie_insert.induct)
  case (2 n ch rest cs ns)
  let ?f = "\<lambda>(c, t). map (\<lambda>(p, n). (c # p, n)) (trie_entries t)"
  let ?t = "case dget cs ch of None \<Rightarrow> empty_trie | Some t \<Rightarrow> t"
  have "mset (?f (ch, trie_insert n rest ?t)) = add_mset (ch # rest, n) (mset (?f (ch, ?t)))"
    using 2 by (simp flip: image_mset_add_mset mset_map) simp
  with mset_concat_dset [of ?f ch "trie_insert n rest ?t" cs] show ?case
    by (cases "dget cs ch") (simp_all add: empty_trie_def)
qed simp

definition bucket_trie :: "(nat, trie_node) pydict \<Rightarrow> nat \<Rightarrow> trie_node" where
  "bucket_trie ts len = (case dget ts len of None \<Rightarrow> empty_trie | Some t \<Rightarrow> t)"

lemma bucket_entries:
  "mset (trie_entries (bucket_trie (foldl insert_name ts ns) len)) =
     mset (trie_entries (bucket_trie ts len)) + mset (map (\<lambda>n. (n, n)) (filter (\<lambda>n. length n = len) ns))"
proof (induction ns arbitrary: ts)
  case (Cons n ns)
  have "mset (trie_entries (bucket_trie (insert_name ts n) len)) =
      (if length n = len then add_mset (n, n) else id) (mset (trie_entries (bucket_trie ts len)))"
    by (auto simp: bucket_trie_def insert_name_def trie_entries_insert)
  with Cons show ?case by simp
qed simp

text \<open>
  The names below a node that a search must report, when the path to the node spells \<open>pre\<close>, and
  what the walk keeps of every node on its stack.
\<close>

definition hit :: "bool \<Rightarrow> string \<Rightarrow> pyfloat \<Rightarrow> string \<Rightarrow> string \<times> string \<Rightarrow> (string \<times> pyfloat) list" where
  "hit kb query maxd pre e =
     (if snd e \<noteq> query \<and> wdist (step_cost kb) (pre @ fst e) query \<le> maxd
      then [(snd e, wdist (step_cost kb) (pre @ fst e) query)] else [])"

definition below :: "bool \<Rightarrow> string \<Rightarrow> pyfloat \<Rightarrow> string \<Rightarrow> trie_node \<Rightarrow> (string \<times> pyfloat) multiset" where
  "below kb query maxd pre t = mset (concat (map (hit kb query maxd pre) (trie_entries t)))"

definition item_ok :: "bool \<Rightarrow> string \<Rightarrow> pyfloat \<Rightarrow> walk_item \<Rightarrow> string \<Rightarrow> bool" where
  "item_ok kb query maxd = (\<lambda>(t, row, depth) pre.
     depth = length pre \<and> row_near kb query maxd pre row \<and> alive kb query maxd pre)"

fun below_all :: "bool \<Rightarrow> string \<Rightarrow> pyfloat \<Rightarrow> walk_item list \<Rightarrow> string list \<Rightarrow> (string \<times> pyfloat) multiset" where
  "below_all kb query maxd ((t, row, depth) # stack) (pre # pres) =
     below kb query maxd pre t + below_all kb query maxd stack pres"
| "below_all kb query maxd _ _ = {#}"

lemma below_dead:
  assumes "\<not> alive kb query maxd pre"
  shows "below kb query maxd pre t = {#}"
proof -
  have "\<not> wdist (step_cost kb) (pre @ p) query \<le> maxd" for p
    using step_cost.wdist_prefix [of query kb pre p] assms unfolding alive_def by (meson order_trans)
  then show ?thesis by (auto simp: below_def hit_def)
qed

lemma hit_child: "hit kb query maxd pre (c # p, n) = hit kb query maxd (pre @ [c]) (p, n)"
  by (simp add: hit_def)

lemma below_node:
  assumes "row_near kb query maxd pre row"
  shows "below kb query maxd pre (TrieNode cs ns) =
    mset (node_matches query maxd row ns) + (\<Sum>(c, t)\<leftarrow>cs. below kb query maxd (pre @ [c]) t)"
proof -
  have "last row = row ! length query" using assms by (cases row rule: rev_cases) (auto simp: row_near_def nth_append)
  with assms have "near maxd (last row) (wdist (step_cost kb) pre query)" by (force simp: row_near_def)
  then have "node_matches query maxd row ns = concat (map (\<lambda>n. hit kb query maxd pre ([], n)) ns)"
    unfolding node_matches_def near_iff hit_def by (elim disjE) (auto intro!: arg_cong [of _ _ concat] map_cong)
  moreover have "mset (concat (map (hit kb query maxd pre) (concat (map (\<lambda>(c, t). map (\<lambda>(p, n). (c # p, n)) (trie_entries t)) cs))))
      = (\<Sum>(c, t)\<leftarrow>cs. below kb query maxd (pre @ [c]) t)"
    by (induction cs) (auto simp: below_def comp_def case_prod_beta hit_child)
  ultimately show ?thesis by (simp add: below_def comp_def)
qed

lemma push_children_exact:
  assumes maxd: "0 \<le> maxd" and row: "row_near kb query maxd pre row" "alive kb query maxd pre"
    and "list_all2 (item_ok kb query maxd) stack pres"
  shows "\<exists>stack' pres'. push_children kb query maxd row (Suc (length pre)) cs stack = Inr stack'
    \<and> list_all2 (item_ok kb query maxd) stack' pres'
    \<and> below_all kb query maxd stack' pres' =
        below_all kb query maxd stack pres + (\<Sum>(c, t)\<leftarrow>cs. below kb query maxd (pre @ [c]) t)"
  using assms(4)
proof (induction cs arbitrary: stack pres)
  case (Cons e cs)
  obtain ch child where e: "e = (ch, child)" by (cases e)
  obtain row' m where step: "band_row kb query maxd row (Suc (length pre)) ch = Inr (row', m)"
    "row_near kb query maxd (pre @ [ch]) row'" "m \<le> maxd \<longleftrightarrow> alive kb query maxd (pre @ [ch])"
    using band_row_exact [OF maxd row, of ch] by blast
  show ?case
  proof (cases "m \<le> maxd")
    case True
    then have "list_all2 (item_ok kb query maxd) ((child, row', Suc (length pre)) # stack) ((pre @ [ch]) # pres)"
      using Cons.prems step by (simp add: item_ok_def)
    from Cons.IH [OF this] True show ?thesis by (simp add: e step ac_simps)
  next
    case False
    then have "below kb query maxd (pre @ [ch]) child = {#}" using step(3) by (simp add: below_dead)
    with Cons.IH [OF Cons.prems] False show ?thesis by (simp add: e step)
  qed
qed auto

lemma walk_exact:
  assumes "0 \<le> maxd" and "list_all2 (item_ok kb query maxd) stack pres"
  shows "\<exists>ms. walk kb query maxd stack matches = Inr ms \<and> mset ms = mset matches + below_all kb query maxd stack pres"
  using assms
proof (induction kb query maxd stack matches arbitrary: pres rule: walk.induct)
  case (2 kb query maxd cs ns row depth stack matches)
  then obtain pre pres1 where pres: "pres = pre # pres1" "item_ok kb query maxd (TrieNode cs ns, row, depth) pre"
    "list_all2 (item_ok kb query maxd) stack pres1"
    by (auto simp: list_all2_Cons1)
  then have ok: "depth = length pre" "row_near kb query maxd pre row" "alive kb query maxd pre"
    by (auto simp: item_ok_def)
  obtain stack' pres' where push: "push_children kb query maxd row (depth + 1) cs stack = Inr stack'"
    "list_all2 (item_ok kb query maxd) stack' pres'"
    "below_all kb query maxd stack' pres' =
       below_all kb query maxd stack pres1 + (\<Sum>(c, t)\<leftarrow>cs. below kb query maxd (pre @ [c]) t)"
    using push_children_exact [OF 2(2) ok(2,3) pres(3), of cs] ok(1) by auto
  from 2(1) [OF push(1) 2(2) push(2)] push below_node [OF ok(2), of cs ns] pres(1) show ?case
    by (auto simp: ac_simps)
qed auto

lemma search_banded_exact:
  assumes "0 \<le> maxd"
  shows "\<exists>ms. search_banded kb t query maxd matches = Inr ms \<and> mset ms = mset matches + below kb query maxd [] t"
proof -
  let ?row = "map (\<lambda>i. if of_nat i \<le> maxd then of_nat i else maxd + 1) [0..<length query + 1]"
  have "row_near kb query maxd [] ?row"
    by (auto simp: row_near_def near_iff nth_append simp del: upt_Suc)
  moreover have "alive kb query maxd []" using assms by (auto simp: alive_def intro!: exI [of _ 0])
  ultimately have "list_all2 (item_ok kb query maxd) [(t, ?row, 0)] [[]]" by (simp add: item_ok_def)
  from walk_exact [OF assms this, of matches] show ?thesis by (simp add: search_banded_def)
qed

lemma search_lengths_exact:
  assumes "0 \<le> maxd"
  shows "\<exists>ms. search_lengths ts kb query maxd lens matches = Inr ms
    \<and> mset ms = mset matches + (\<Sum>len\<leftarrow>lens. below kb query maxd [] (bucket_trie ts (nat len)))"
proof (induction lens arbitrary: matches)
  case (Cons len lens)
  show ?case
  proof (cases "dget ts (nat len)")
    case None
    with Cons [of matches] show ?thesis by (simp add: bucket_trie_def below_def empty_trie_def)
  next
    case (Some t)
    obtain ms where "search_banded kb t query maxd matches = Inr ms" "mset ms = mset matches + below kb query maxd [] t"
      using search_banded_exact [OF assms] by blast
    with Cons [of ms] Some show ?thesis
      by (cases kb) (simp_all add: bucket_trie_def search_edit_def search_keyboard_def ac_simps)
  qed
qed simp

lemma mset_concat_map: "mset (concat (map g xs)) = (\<Sum>x \<in># mset xs. mset (g x))"
  by (induction xs) auto

lemma concat_map_filter: "(\<And>x. x \<in> set xs \<Longrightarrow> \<not> P x \<Longrightarrow> g x = []) \<Longrightarrow> concat (map g (filter P xs)) = concat (map g xs)"
  by (induction xs) auto

lemma below_bucket:
  "below kb query maxd [] (bucket_trie (foldl insert_name [] ns) len) =
     mset (exact_matches (step_cost kb) query maxd (filter (\<lambda>n. length n = len) ns))"
proof -
  have "mset (trie_entries (bucket_trie (foldl insert_name [] ns) len)) = mset (map (\<lambda>n. (n, n)) (filter (\<lambda>n. length n = len) ns))"
    unfolding bucket_entries by (simp add: bucket_trie_def empty_trie_def)
  moreover have "exact_matches (step_cost kb) query maxd ms = concat (map (\<lambda>n. hit kb query maxd [] (n, n)) ms)" for ms
    by (induction ms) (simp_all add: exact_matches_def hit_def step_cost.wdist_sym [of kb query])
  ultimately show ?thesis by (simp add: below_def mset_concat_map multiset.map_comp comp_def)
qed

lemma exact_matches_append:
  "mset (exact_matches sub q m (xs @ ys)) = mset (exact_matches sub q m xs) + mset (exact_matches sub q m ys)"
  by (simp add: exact_matches_def)

lemma exact_matches_mset: "mset xs = mset ys \<Longrightarrow> mset (exact_matches sub q m xs) = mset (exact_matches sub q m ys)"
  by (simp add: exact_matches_def mset_concat_map)

lemma exact_matches_lengths:
  assumes "distinct lens" and "\<forall>len \<in> set lens. 0 \<le> len"
  shows "(\<Sum>len\<leftarrow>lens. mset (exact_matches sub q m (filter (\<lambda>n. length n = nat len) ns)))
     = mset (exact_matches sub q m (filter (\<lambda>n. int (length n) \<in> set lens) ns))"
  using assms
proof (induction lens)
  case (Cons len lens)
  have "mset (filter (\<lambda>n. int (length n) \<in> set (len # lens)) ns) =
      mset (filter (\<lambda>n. length n = nat len) ns @ filter (\<lambda>n. int (length n) \<in> set lens) ns)"
    using Cons.prems by (induction ns) auto
  from exact_matches_mset [OF this] Cons show ?case by (simp add: exact_matches_append)
qed (simp add: exact_matches_def)

lemma search_length_buckets_exact:
  assumes maxd: "0 \<le> maxd"
  shows "\<exists>ms. search_length_buckets (foldl insert_name [] ns) kb query maxd (int (length query)) (py_int maxd) [] = Inr ms
    \<and> mset ms = mset (exact_matches (step_cost kb) query maxd ns)"
proof -
  let ?lens = "[max 0 (int (length query) - py_int maxd)..int (length query) + py_int maxd]"
  have "exact_matches (step_cost kb) query maxd (filter (\<lambda>n. int (length n) \<in> set ?lens) ns) =
      exact_matches (step_cost kb) query maxd ns"
    unfolding exact_matches_def
  proof (rule concat_map_filter)
    fix n :: string assume "int (length n) \<notin> set ?lens"
    then have "py_int maxd + 1 \<le> \<bar>int (length query) - int (length n)\<bar>" by auto
    with wdist_band [OF maxd, of "length n" n query kb] have "maxd < wdist (step_cost kb) query n" by simp
    then show "(if n \<noteq> query then if wdist (step_cost kb) query n \<le> maxd then [(n, wdist (step_cost kb) query n)] else [] else []) = []"
      by simp
  qed
  then show ?thesis
    using search_lengths_exact [OF maxd, of "foldl insert_name [] ns" kb query ?lens "[]"]
      exact_matches_lengths [of ?lens "step_cost kb" query maxd ns]
    by (simp add: search_length_buckets_def Let_def below_bucket)
qed

section \<open>The states of an index\<close>

definition index_ok :: "corpus_index \<Rightarrow> bool" where
  "index_ok ix \<longleftrightarrow> sorted (ci_names ix) \<and> distinct (ci_names ix) \<and> ci_tries ix = foldl insert_name [] (ci_names ix)
     \<and> (case ci_delete_cursor ix of
          None \<Rightarrow> ci_delete_index ix = foldl index_name [] (ci_names ix)
        | Some c \<Rightarrow> ci_delete_index ix = foldl index_name [] (take c (ci_names ix)))"

lemma advance_frame [simp]:
  "ci_names (advance_delete_build step ix) = ci_names ix" "ci_priority (advance_delete_build step ix) = ci_priority ix"
  "ci_tries (advance_delete_build step ix) = ci_tries ix" "ci_delete_step (advance_delete_build step ix) = ci_delete_step ix"
  by (simp_all add: advance_delete_build_def Let_def)

lemma advance_ok:
  assumes "index_ok ix" and "ci_delete_cursor ix = Some c"
  shows "index_ok (advance_delete_build step ix)"
proof -
  let ?stop = "min (length (ci_names ix)) (c + step)"
  have "take c (ci_names ix) @ drop c (take ?stop (ci_names ix)) = take ?stop (ci_names ix)"
    by (cases "c \<le> length (ci_names ix)") (simp_all add: take_add [symmetric] drop_take min_def flip: take_add)
  then have "foldl index_name (ci_delete_index ix) (drop c (take ?stop (ci_names ix))) =
      foldl index_name [] (take ?stop (ci_names ix))"
    using assms by (simp add: index_ok_def flip: foldl_append)
  then show ?thesis using assms by (auto simp: index_ok_def advance_delete_build_def Let_def min_def)
qed

lemma finish_ok: "index_ok ix \<Longrightarrow> index_ok (finish_delete_index ix)"
  by (auto simp: finish_delete_index_def advance_ok)

lemma new_index_ok: "index_ok (new_corpus_index names priority chunks)"
proof (cases "chunks \<le> 0")
  case True
  then show ?thesis by (simp add: index_ok_def new_corpus_index_def Let_def advance_delete_build_def)
qed (simp add: index_ok_def new_corpus_index_def Let_def)

lemma near_matches_ok: "index_ok ix \<Longrightarrow> index_ok (snd (near_matches name maxd kb ix))"
  by (auto simp: near_matches_def near_search_def advance_on_query_def Let_def case_prod_beta advance_ok)

lemma near_matches_frame:
  "ci_names (snd (near_matches name maxd kb ix)) = ci_names ix"
  "ci_priority (snd (near_matches name maxd kb ix)) = ci_priority ix"
  by (simp_all add: near_matches_def near_search_def advance_on_query_def Let_def case_prod_beta)

section \<open>The filters agree\<close>

text \<open>A filter whose only exception is \<open>e\<close>: the outcome does not depend on the order of the matches.\<close>

lemma mapE_one_error:
  assumes "\<And>x d. g x = Inl d \<Longrightarrow> d = e"
  shows "mapE g xs = (if \<forall>x \<in> set xs. \<not> isl (g x) then Inr (map (\<lambda>x. projr (g x)) xs) else Inl e)"
proof (induction xs)
  case (Cons x xs)
  then show ?case by (cases "g x") (auto dest: assms)
qed simp

definition collectE :: "('a \<Rightarrow> 'b list py_result) \<Rightarrow> 'a list \<Rightarrow> 'b list py_result" where
  "collectE g xs = bindE (mapE g xs) (\<lambda>ms. Inr (concat ms))"

lemma collectE_mset:
  assumes "\<And>x d. g x = Inl d \<Longrightarrow> d = e" and "mset xs = mset ys"
  shows "rel_sum (=) (\<lambda>us vs. mset us = mset vs) (collectE g xs) (collectE g ys)"
  using mset_eq_setD [OF assms(2)] assms(2)
  by (simp add: collectE_def mapE_one_error [OF assms(1)] mset_concat_map)

lemma collectE_guard:
  "collectE (\<lambda>n. if P n then g (h n) else Inr []) ns = collectE g (map h (filter P ns))"
proof (induction ns)
  case (Cons n ns)
  then show ?case
    by (cases "g (h n)"; cases "mapE g (map h (filter P ns))";
        cases "mapE (\<lambda>n. if P n then g (h n) else Inr []) ns") (auto simp: collectE_def)
qed (simp add: collectE_def)

lemma inj_match_key: "inj match_key"
  by (auto simp: inj_def match_key_def prod_eq_iff)

lemma sort_matches: "mset xs = mset ys \<Longrightarrow> sort_key match_key xs = sort_key match_key ys"
  by (rule sort_key_inj_key_eq) (auto intro: inj_on_subset [OF inj_match_key])

lemma exact_matches_filter:
  "exact_matches sub q m ns = map (\<lambda>n. (n, wdist sub q n)) (filter (\<lambda>n. n \<noteq> q \<and> wdist sub q n \<le> m) ns)"
  by (induction ns) (auto simp: exact_matches_def)

lemma distance_fn_wdist: "distance_fn kb a b = wdist (step_cost kb) a b"
  by (simp add: distance_fn_def edit_distance_def keyboard_distance_def unit_cost.dp_distance_wdist
      keyboard_cost.dp_distance_wdist step_cost_unit wdist_of_int)

lemma typo_match_guard:
  "typo_match maxd kb priority name =
     (\<lambda>n. if n \<noteq> name \<and> wdist (step_cost kb) name n \<le> maxd
          then (if length name < 4 then short_filter priority name else (\<lambda>m. Inr [m])) (n, wdist (step_cost kb) name n)
          else Inr [])"
proof
  fix n
  have "of_int \<bar>int (length name) - int (length n)\<bar> \<le> wdist (step_cost kb) name n"
    using step_cost.wdist_length [of name n kb] by simp
  then show "typo_match maxd kb priority name n =
     (if n \<noteq> name \<and> wdist (step_cost kb) name n \<le> maxd
      then (if length name < 4 then short_filter priority name else (\<lambda>m. Inr [m])) (n, wdist (step_cost kb) name n)
      else Inr [])"
    by (auto simp: typo_match_def short_filter_def distance_fn_wdist Let_def split: list.split)
qed

lemma near_search_exact:
  assumes ok: "index_ok ix" and maxd: "0 \<le> maxd"
  shows "\<exists>ms. fst (near_search name maxd kb ix) = Inr ms
    \<and> mset ms = mset (exact_matches (step_cost kb) name maxd (ci_names ix))"
proof (cases "kb \<or> py_int maxd > SYMSPELL_MAX_DISTANCE")
  case True
  with search_length_buckets_exact [OF maxd, of "ci_names ix" kb name] ok show ?thesis
    by (simp add: near_search_def index_ok_def)
next
  case False
  let ?ix = "advance_on_query ix"
  have ok1: "index_ok ?ix" "ci_names ?ix = ci_names ix"
    using ok by (auto simp: advance_on_query_def advance_ok)
  show ?thesis
  proof (cases "ci_delete_cursor ?ix")
    case None
    with False ok1 search_deletes_exact [of "ci_names ix" maxd name] maxd show ?thesis
      by (simp add: near_search_def Let_def index_ok_def SYMSPELL_MAX_DISTANCE_def step_cost_unit)
  next
    case (Some c)
    with False ok1 search_length_buckets_exact [OF maxd, of "ci_names ix" False name] show ?thesis
      by (simp add: near_search_def Let_def index_ok_def)
  qed
qed

lemma sort_collected:
  assumes "\<And>x d. g x = Inl d \<Longrightarrow> d = e" and "mset xs = mset ys"
  shows "bindE (collectE g xs) (\<lambda>us. Inr (sort_key match_key us)) = bindE (collectE g ys) (\<lambda>us. Inr (sort_key match_key us))"
proof -
  have "rel_sum (=) (\<lambda>us vs. mset us = mset vs) (collectE g xs) (collectE g ys)"
    by (rule collectE_mset [OF assms])
  then show ?thesis
  proof (cases rule: rel_sum.cases)
    case (2 us vs)
    then show ?thesis using sort_matches [of us vs] by (simp only: bindE_simps)
  qed (simp only: bindE_simps)
qed

lemma collectE_all: "collectE (\<lambda>m. Inr [m]) us = Inr us"
proof -
  have "mapE (\<lambda>m. Inr [m]) us = Inr (map (\<lambda>m. [m]) us)" by (rule mapE_total) simp
  then show ?thesis by (simp add: collectE_def)
qed

definition sortE :: "(string \<times> pyfloat) list py_result \<Rightarrow> (string \<times> pyfloat) list py_result" where
  "sortE r = bindE r (\<lambda>us. Inr (sort_key match_key us))"

lemma check_typosquat_collect:
  assumes "sorted ns" and "distinct ns" and "\<not> starts_with ''@'' name"
  shows "check_typosquat name ns maxd kb (Some priority) = sortE (collectE (typo_match maxd kb priority name) ns)"
proof -
  have "sort (remdups ns) = ns" using assms by (simp add: distinct_remdups_id sorted_sort_id)
  with assms(3) show ?thesis
    unfolding check_typosquat_def sortE_def collectE_def
    by (cases "mapE (typo_match maxd kb priority name) ns") simp_all
qed

lemma near_matches_collect:
  assumes "\<not> starts_with ''@'' name" and "fst (near_search name maxd kb ix) = Inr ms"
  shows "fst (near_matches name maxd kb ix) =
    sortE (collectE (if length name < 4 then short_filter (ci_priority ix) name else (\<lambda>m. Inr [m])) ms)"
proof (cases "length name < 4")
  case True
  with assms show ?thesis unfolding near_matches_def sortE_def collectE_def by (simp add: case_prod_beta)
next
  case False
  with assms show ?thesis unfolding near_matches_def sortE_def by (simp add: case_prod_beta collectE_all)
qed

lemma short_filter_error: "short_filter priority name m = Inl d \<Longrightarrow> d = IndexError"
  by (auto simp: short_filter_def split: if_splits list.splits)

lemma near_matches_brute_force:
  assumes ok: "index_ok ix" and maxd: "0 \<le> maxd"
  shows "fst (near_matches name maxd kb ix) =
    check_typosquat name (ci_names ix) maxd kb (Some (ci_priority ix))"
proof (cases "starts_with ''@'' name")
  case True
  then show ?thesis by (simp add: near_matches_def check_typosquat_def)
next
  case False
  let ?g = "if length name < 4 then short_filter (ci_priority ix) name else (\<lambda>m. Inr [m])"
  let ?exact = "exact_matches (step_cost kb) name maxd (ci_names ix)"
  obtain ms where ms: "fst (near_search name maxd kb ix) = Inr ms" "mset ms = mset ?exact"
    using near_search_exact [OF ok maxd] by blast
  have one: "?g m = Inl d \<Longrightarrow> d = IndexError" for m d
    by (cases "length name < 4") (simp_all add: short_filter_error)
  have "fst (near_matches name maxd kb ix) = sortE (collectE ?g ms)"
    using False ms(1) by (rule near_matches_collect)
  also have "\<dots> = sortE (collectE ?g ?exact)"
    unfolding sortE_def by (rule sort_collected [OF one ms(2)])
  also have "collectE ?g ?exact = collectE (typo_match maxd kb (ci_priority ix) name) (ci_names ix)"
    unfolding typo_match_guard exact_matches_filter by (rule collectE_guard [symmetric])
  also have "sortE \<dots> = check_typosquat name (ci_names ix) maxd kb (Some (ci_priority ix))"
    using ok False by (intro check_typosquat_collect [symmetric]) (simp_all add: index_ok_def)
  finally show ?thesis .
qed

text \<open>The states an index goes through: built from a corpus, then queried and finished in any order.\<close>

inductive index_reachable :: "json list \<Rightarrow> string list option \<Rightarrow> int \<Rightarrow> corpus_index \<Rightarrow> bool"
  for names :: "json list" and priority :: "string list option" and chunks :: int where
  built: "index_reachable names priority chunks (new_corpus_index names priority chunks)"
| queried: "index_reachable names priority chunks ix \<Longrightarrow>
     index_reachable names priority chunks (snd (near_matches name maxd kb ix))"
| finished: "index_reachable names priority chunks ix \<Longrightarrow> index_reachable names priority chunks (finish_delete_index ix)"

lemma finish_frame: "ci_names (finish_delete_index ix) = ci_names ix" "ci_priority (finish_delete_index ix) = ci_priority ix"
  by (simp_all add: finish_delete_index_def)

lemma new_index_frame:
  "ci_names (new_corpus_index names priority chunks) =
     sort (remdups (str_names names @ (case priority of None \<Rightarrow> [] | Some ps \<Rightarrow> ps)))"
  "ci_priority (new_corpus_index names priority chunks) = (case priority of None \<Rightarrow> [] | Some ps \<Rightarrow> ps)"
  by (simp_all add: new_corpus_index_def Let_def)

lemma index_reachable_ok:
  assumes "index_reachable names priority chunks ix"
  shows "index_ok ix \<and> ci_names ix = sort (remdups (str_names names @ (case priority of None \<Rightarrow> [] | Some ps \<Rightarrow> ps)))
    \<and> ci_priority ix = (case priority of None \<Rightarrow> [] | Some ps \<Rightarrow> ps)"
  using assms
proof induction
  case built
  show ?case by (simp add: new_index_ok new_index_frame)
next
  case (queried ix name maxd kb)
  then show ?case by (simp add: near_matches_ok near_matches_frame)
next
  case (finished ix)
  then show ?case by (simp add: finish_ok finish_frame)
qed

lemma check_typosquat_corpus:
  "check_typosquat name (sort (remdups corpus)) maxd kb (Some priority) = check_typosquat name corpus maxd kb (Some priority)"
  by (simp add: check_typosquat_def sorted_sort_id distinct_remdups_id)

text \<open>A query of fewer than four characters that raises \<open>IndexError\<close> is empty and reaches a long name.\<close>

lemma typo_match_total:
  assumes "maxd < 4"
  shows "\<not> isl (typo_match maxd kb priority name n)"
proof -
  have "of_nat (length n) \<le> distance_fn kb [] n"
    using step_cost.wdist_length [of "[]" n kb] by (simp add: distance_fn_wdist)
  moreover have "(4 :: pyfloat) \<le> of_nat (length n)" if "4 \<le> length n"
    using that by (metis of_nat_le_iff of_nat_numeral)
  ultimately show ?thesis using assms
    by (auto simp: typo_match_def Let_def split: list.splits)
qed

lemma check_typosquat_total:
  assumes "maxd < 4"
  shows "\<exists>ms. check_typosquat name corpus maxd kb priority = Inr ms"
proof -
  have "\<exists>ms. mapE (typo_match maxd kb p name) ns = Inr ms" for p ns
  proof (induction ns)
    case (Cons n ns)
    obtain u where "typo_match maxd kb p name n = Inr u"
      using typo_match_total [OF assms, of kb p name n] by (cases "typo_match maxd kb p name n") auto
    with Cons show ?case by auto
  qed simp
  then show ?thesis by (auto simp: check_typosquat_def Let_def bindE_eq_Inr split: option.splits)
qed

text \<open>
  C13. The index is a drop-in replacement of the scan: whatever queries were made before, however far
  the delete index is built, and whichever of the trie walk and the delete index answers,
  \<open>near_matches\<close> returns the same list (the same exception for an empty name) as \<open>check_typosquat\<close> over
  the merged corpus with the same priority names; and with a distance below 4, such as the default 2,
  it returns a list.
\<close>

theorem index_is_exact:
  assumes "index_reachable names priority chunks ix" and "0 \<le> maxd"
  shows "fst (near_matches name maxd kb ix) =
      check_typosquat name (str_names names @ (case priority of None \<Rightarrow> [] | Some ps \<Rightarrow> ps)) maxd kb
        (Some (case priority of None \<Rightarrow> [] | Some ps \<Rightarrow> ps))
    \<and> (maxd < 4 \<longrightarrow> (\<exists>ms. fst (near_matches name maxd kb ix) = Inr ms))"
proof -
  have "fst (near_matches name maxd kb ix) =
      check_typosquat name (str_names names @ (case priority of None \<Rightarrow> [] | Some ps \<Rightarrow> ps)) maxd kb
        (Some (case priority of None \<Rightarrow> [] | Some ps \<Rightarrow> ps))"
    using near_matches_brute_force [OF _ assms(2), of ix name kb] index_reachable_ok [OF assms(1)]
    by (simp add: check_typosquat_corpus)
  with check_typosquat_total show ?thesis by simp
qed

definition demo_corpus :: "json list" where
  "demo_corpus = [JStr ''next'', JStr ''react'']"

theorem index_is_exact_witness:
  "fst (near_matches ''raect'' 2 False (snd (near_matches ''nx'' 2 False (new_corpus_index demo_corpus (Some [''next'']) 1))))
     = check_typosquat ''raect'' [''next'', ''react'', ''next''] 2 False (Some [''next''])
   \<and> ci_delete_cursor (new_corpus_index demo_corpus (Some [''next'']) 1) = Some 0
   \<and> ci_delete_cursor (snd (near_matches ''nx'' 2 False (new_corpus_index demo_corpus (Some [''next'']) 1))) = None"
proof (intro conjI)
  have "index_reachable demo_corpus (Some [''next'']) 1
      (snd (near_matches ''nx'' 2 False (new_corpus_index demo_corpus (Some [''next'']) 1)))"
    by (intro built queried)
  from index_is_exact [OF this, of 2 "''raect''" False]
  show "fst (near_matches ''raect'' 2 False (snd (near_matches ''nx'' 2 False (new_corpus_index demo_corpus (Some [''next'']) 1))))
     = check_typosquat ''raect'' [''next'', ''react'', ''next''] 2 False (Some [''next''])"
    by (simp add: demo_corpus_def str_names_def)
  show "ci_delete_cursor (new_corpus_index demo_corpus (Some [''next'']) 1) = Some 0" by code_simp
  show "ci_delete_cursor (snd (near_matches ''nx'' 2 False (new_corpus_index demo_corpus (Some [''next'']) 1))) = None" by code_simp
qed

section \<open>The cache of indexes\<close>

text \<open>
  \<open>_index_cache\<close>: a key holds the path, the ecosystem, the sorted built-in list and the version
  (modification time and size) of the corpus file. What the code asks of the file system for one
  ecosystem is a record: the resolved paths, the \<open>stat\<close> result and the decoded contents.
\<close>

type_synonym index_key = "string \<times> string \<times> string list \<times> (pyfloat \<times> int) option"

record corpus_location =
  loc_dir :: string
  loc_file :: string
  loc_stat :: "(pyfloat \<times> int) option"
  loc_data :: "json py_result"

definition index_cache_key :: "corpus_location \<Rightarrow> string \<Rightarrow> string list option \<Rightarrow> index_key" where
  "index_cache_key loc ecosystem builtin_list =
     (let builtin = sort (case builtin_list of None \<Rightarrow> [] | Some ns \<Rightarrow> ns)
      in case loc_stat loc of
           Some version \<Rightarrow> (loc_file loc, ecosystem, builtin, Some version)
         | None \<Rightarrow> (loc_dir loc, ecosystem, builtin, None))"

definition key_identity :: "index_key \<Rightarrow> string \<times> string \<times> string list" where
  "key_identity = (\<lambda>(path, ecosystem, builtin, version). (path, ecosystem, builtin))"

definition load_indexed_corpus ::
  "corpus_location \<Rightarrow> string \<Rightarrow> string list option \<Rightarrow> (index_key, corpus_index) pydict \<Rightarrow> corpus_index py_result \<times> (index_key, corpus_index) pydict" where
  "load_indexed_corpus loc ecosystem builtin_list cache =
     (let key = index_cache_key loc ecosystem builtin_list
      in case dget cache key of
           Some cached \<Rightarrow> (Inr cached, cache)
         | None \<Rightarrow>
             let cache1 = dpurge (\<lambda>(k, _). key_identity k = key_identity key \<and> k \<noteq> key) cache
             in (case load_corpus_for_ecosystem (map_option (\<lambda>_. loc_data loc) (loc_stat loc)) builtin_list of
                   Inl e \<Rightarrow> (Inl e, cache1)
                 | Inr corpus \<Rightarrow>
                     let ix = new_corpus_index corpus builtin_list DELETE_INDEX_CHUNKS
                     in (Inr ix, dset key ix cache1)))"

definition save_indexed_corpus :: "json list \<Rightarrow> json" where
  "save_indexed_corpus names = JList (map JStr (sort (remdups (str_names names))))"

definition cache_ok :: "(index_key, corpus_index) pydict \<Rightarrow> bool" where
  "cache_ok cache \<longleftrightarrow> distinct (map (key_identity \<circ> fst) cache) \<and> (\<forall>ix \<in> set (dvals cache). index_ok ix)"

lemma cache_ok_wf: "cache_ok cache \<Longrightarrow> wf_dict cache"
  by (auto simp: cache_ok_def distinct_map inj_on_def)

lemma map_of_append_new: "k \<notin> fst ` set m \<Longrightarrow> dset k v m = m @ [(k, v)]"
  by (induction m) auto

text \<open>
  The cache of indexes holds at most one version of each corpus: a corpus rewritten on disk gets
  a new index and the old one is dropped, a second load without a change on disk returns the index
  that is cached, and a corpus that was saved is loaded back with the same names.
\<close>

lemma load_indexed_corpus_one_version:
  assumes "cache_ok cache" and "load_indexed_corpus loc ecosystem builtin cache = (Inr ix, cache')"
  shows "cache_ok cache' \<and> index_ok ix
    \<and> load_indexed_corpus loc ecosystem builtin cache' = (Inr ix, cache')
    \<and> (\<forall>k \<in> set (dkeys cache'). key_identity k = key_identity (index_cache_key loc ecosystem builtin) \<longrightarrow>
         k = index_cache_key loc ecosystem builtin)
    \<and> (loc_stat loc \<noteq> None \<and> loc_data loc = Inr (save_indexed_corpus names) \<and> dget cache (index_cache_key loc ecosystem builtin) = None
         \<longrightarrow> ci_names ix = sort (remdups (str_names names @ (case builtin of None \<Rightarrow> [] | Some ns \<Rightarrow> ns))))"
proof -
  let ?key = "index_cache_key loc ecosystem builtin"
  have wf: "wf_dict cache" by (rule cache_ok_wf [OF assms(1)])
  have one: "k = k'" if "k \<in> set (dkeys cache)" "k' \<in> set (dkeys cache)" "key_identity k = key_identity k'" for k k'
    using assms(1) that unfolding cache_ok_def by (force simp: distinct_map inj_on_def)
  show ?thesis
  proof (cases "dget cache ?key")
    case (Some c)
    then have "?key \<in> set (dkeys cache)" by (force dest: map_of_SomeD)
    then show ?thesis using Some assms one dget_in_dvals [OF Some]
      by (auto simp: load_indexed_corpus_def Let_def cache_ok_def simp del: set_map)
  next
    case None
    let ?kept = "filter (\<lambda>p. key_identity (fst p) \<noteq> key_identity ?key) cache"
    have kept: "dpurge (\<lambda>(k, _). key_identity k = key_identity ?key \<and> k \<noteq> ?key) cache = ?kept"
      unfolding dpurge_filter [OF wf] using None by (intro filter_cong) (force simp: dget_None_iff)+
    obtain corpus where corpus: "load_corpus_for_ecosystem (map_option (\<lambda>_. loc_data loc) (loc_stat loc)) builtin = Inr corpus"
      using assms(2) None by (auto simp: load_indexed_corpus_def Let_def split: sum.splits)
    have app: "dset ?key v ?kept = ?kept @ [(?key, v)]" for v by (rule map_of_append_new) auto
    have res: "ix = new_corpus_index corpus builtin DELETE_INDEX_CHUNKS" "cache' = ?kept @ [(?key, ix)]"
      using assms(2) None corpus kept by (auto simp: load_indexed_corpus_def Let_def app)
    have saved: "str_names (map JStr ns) = ns" for ns by (induction ns) (auto simp: str_names_def)
    have "cache_ok cache'"
      using assms(1) new_index_ok res by (auto simp: cache_ok_def distinct_map inj_on_def)
    moreover have "ci_names ix = sort (remdups (str_names names @ (case builtin of None \<Rightarrow> [] | Some ns \<Rightarrow> ns)))"
      if "loc_stat loc \<noteq> None" "loc_data loc = Inr (save_indexed_corpus names)"
    proof -
      have "corpus = map JStr (sort (remdups (str_names names)))"
        using that corpus by (auto simp: load_corpus_for_ecosystem_def save_indexed_corpus_def split: if_splits)
      then show ?thesis unfolding res new_index_frame sorted_list_of_set_sort_remdups [symmetric] by (simp add: saved)
    qed
    moreover have "dget cache' ?key = Some ix" using res(2) unfolding app [symmetric] by simp
    then have "load_indexed_corpus loc ecosystem builtin cache' = (Inr ix, cache')"
      by (simp add: load_indexed_corpus_def)
    ultimately show ?thesis using res by (auto simp: new_index_ok)
  qed
qed

definition demo_location :: corpus_location where
  "demo_location = \<lparr>loc_dir = ''/c'', loc_file = ''/c/npm_top_packages.json'', loc_stat = Some (7, 42),
     loc_data = Inr (save_indexed_corpus demo_corpus)\<rparr>"

lemma load_indexed_corpus_one_version_witness:
  "case load_indexed_corpus demo_location ''npm'' (Some [''got'']) [] of
     (Inr ix, cache) \<Rightarrow> ci_names ix = [''got'', ''next'', ''react''] \<and> cache_ok cache
       \<and> load_indexed_corpus demo_location ''npm'' (Some [''got'']) cache = (Inr ix, cache)
   | _ \<Rightarrow> False"
proof -
  let ?load = "load_indexed_corpus demo_location ''npm'' (Some [''got''])"
  have "\<not> isl (fst (?load []))" by code_simp
  then obtain ix cache where load: "?load [] = (Inr ix, cache)" by (cases "?load []"; cases "fst (?load [])") auto
  have ok: "cache_ok []" by (simp add: cache_ok_def)
  have "ci_names ix = sort (remdups (str_names demo_corpus @ [''got'']))"
    using load_indexed_corpus_one_version [OF ok load, of demo_corpus] by (simp add: demo_location_def)
  also have "\<dots> = [''got'', ''next'', ''react'']" by code_simp
  finally show ?thesis using load_indexed_corpus_one_version [OF ok load] load by simp
qed

end
