(* ===== verification/Typosquat.thy ===== *)
theory Typosquat
  imports Corpus_Index
begin

text \<open>
  The typosquat rules (\<open>src/picosentry/scan/rules/typosquat.py\<close>): the generic detector, its
  configurations for six ecosystems, the npm detector and the adjustment of a finding by package
  intelligence. The manifest parsers are fields of a configuration in the source
  (\<open>collect_deps\<close>, \<open>detect_project\<close>, \<open>file_detection_fn\<close>) and of the model; the scanned directory
  is a value of type \<open>'t\<close>. Python's rendering of a float in a message is a parameter. Prewarming of the
  indexes is not modelled: it calls \<open>finish_delete_index\<close>, which \<open>index_is_exact\<close> covers.
\<close>

section \<open>Model\<close>

subsection \<open>Names\<close>




subsection \<open>Configurations\<close>

record 't typosquat_config =
  tc_ecosystem :: string
  tc_rule_id :: string
  tc_detect_project :: "'t \<Rightarrow> bool"
  tc_builtin_corpus :: "string list"
  tc_known_legitimate :: "string list"
  tc_use_short_name :: bool
  tc_min_name_length :: nat
  tc_use_keyboard :: bool
  tc_manifest_file :: string
  tc_collect_deps :: "('t \<Rightarrow> string list) option"
  tc_file_detection_fn :: "('t \<Rightarrow> string) option"

definition GO_CONFIG :: "('t \<Rightarrow> bool) \<Rightarrow> string list \<Rightarrow> ('t \<Rightarrow> string list) \<Rightarrow> 't typosquat_config" where
  "GO_CONFIG detect builtin collect =
     \<lparr>tc_ecosystem = ''go'', tc_rule_id = ''L2-GO-TYPO-001'', tc_detect_project = detect, tc_builtin_corpus = builtin,
      tc_known_legitimate = [''x'', ''v2'', ''v3'', ''api'', ''client'', ''server'', ''internal'', ''cmd'', ''pkg'', ''go'',
        ''etcd'', ''fmt''],
      tc_use_short_name = True, tc_min_name_length = 3, tc_use_keyboard = True, tc_manifest_file = ''go.mod'',
      tc_collect_deps = Some collect, tc_file_detection_fn = None\<rparr>"


definition PYPI_CONFIG ::
  "('t \<Rightarrow> bool) \<Rightarrow> string list \<Rightarrow> ('t \<Rightarrow> string list) \<Rightarrow> ('t \<Rightarrow> string) \<Rightarrow> 't typosquat_config" where
  "PYPI_CONFIG detect builtin collect finding_file =
     \<lparr>tc_ecosystem = ''pypi'', tc_rule_id = ''L2-PYPI-TYPO-001'', tc_detect_project = detect, tc_builtin_corpus = builtin,
      tc_known_legitimate = [''ruamel-yaml'', ''python-dateutil'', ''typing-extensions'', ''importlib-metadata'',
        ''importlib-resources'', ''pkgutil-resolve-name''],
      tc_use_short_name = False, tc_min_name_length = 3, tc_use_keyboard = False, tc_manifest_file = '''',
      tc_collect_deps = Some collect, tc_file_detection_fn = Some finding_file\<rparr>"

definition MAVEN_CONFIG ::
  "('t \<Rightarrow> bool) \<Rightarrow> string list \<Rightarrow> ('t \<Rightarrow> string list) \<Rightarrow> ('t \<Rightarrow> string) \<Rightarrow> 't typosquat_config" where
  "MAVEN_CONFIG detect builtin collect finding_file =
     \<lparr>tc_ecosystem = ''maven'', tc_rule_id = ''L2-MAVEN-TYPO-001'', tc_detect_project = detect, tc_builtin_corpus = builtin,
      tc_known_legitimate = [''api'', ''core'', ''client'', ''server'', ''common'', ''util'', ''utils'', ''annotations'',
        ''model'', ''dto'', ''service'', ''dao'', ''impl'', ''shared'', ''parent'', ''starter'', ''boot'', ''cloud'', ''data'',
        ''jpa'', ''security'', ''web'', ''config'', ''support'', ''base'', ''abstract'', ''spi''],
      tc_use_short_name = False, tc_min_name_length = 3, tc_use_keyboard = False, tc_manifest_file = '''',
      tc_collect_deps = Some collect, tc_file_detection_fn = Some finding_file\<rparr>"

definition NUGET_CONFIG ::
  "('t \<Rightarrow> bool) \<Rightarrow> string list \<Rightarrow> ('t \<Rightarrow> string list) \<Rightarrow> ('t \<Rightarrow> string) \<Rightarrow> 't typosquat_config" where
  "NUGET_CONFIG detect builtin collect finding_file =
     \<lparr>tc_ecosystem = ''nuget'', tc_rule_id = ''L2-NUGET-TYPO-001'', tc_detect_project = detect, tc_builtin_corpus = builtin,
      tc_known_legitimate = [''api'', ''client'', ''server'', ''core'', ''common'', ''extensions'', ''abstractions'',
        ''implementation'', ''interfaces'', ''models'', ''services'', ''data'', ''entity'', ''domain'', ''infrastructure'',
        ''provider'', ''contracts'', ''helpers'', ''logging'', ''configuration'', ''security'', ''serialization'',
        ''validation'', ''componentmodel'', ''component'', ''design'', ''runtime'', ''sdk''],
      tc_use_short_name = False, tc_min_name_length = 3, tc_use_keyboard = False, tc_manifest_file = '''',
      tc_collect_deps = Some collect, tc_file_detection_fn = Some finding_file\<rparr>"

definition RUBYGEMS_CONFIG :: "('t \<Rightarrow> bool) \<Rightarrow> string list \<Rightarrow> ('t \<Rightarrow> string list) \<Rightarrow> 't typosquat_config" where
  "RUBYGEMS_CONFIG detect builtin collect =
     \<lparr>tc_ecosystem = ''rubygems'', tc_rule_id = ''L2-RUBYGEMS-TYPO-001'', tc_detect_project = detect,
      tc_builtin_corpus = builtin,
      tc_known_legitimate = [''api'', ''client'', ''server'', ''core'', ''ext'', ''base'', ''common'', ''mixins'', ''helpers'',
        ''utils'', ''engine'', ''rails'', ''active'', ''action'', ''rack'', ''middleware'', ''plugin'', ''adapter'', ''provider'',
        ''strategy''],
      tc_use_short_name = False, tc_min_name_length = 3, tc_use_keyboard = False, tc_manifest_file = ''Gemfile'',
      tc_collect_deps = Some collect, tc_file_detection_fn = None\<rparr>"

subsection \<open>The generic detector\<close>






fun typosquat_deps ::
  "(string \<Rightarrow> corpus_index \<Rightarrow> finding list py_result \<times> corpus_index) \<Rightarrow> string list \<Rightarrow> corpus_index \<Rightarrow> finding list py_result \<times> corpus_index" where
  "typosquat_deps step [] ix = (Inr [], ix)"
| "typosquat_deps step (dep_name # deps) ix =
     (case step dep_name ix of
        (Inl e, ix1) \<Rightarrow> (Inl e, ix1)
      | (Inr fs, ix1) \<Rightarrow>
          (case typosquat_deps step deps ix1 of (rest, ix2) \<Rightarrow> (bindE rest (\<lambda>gs. Inr (fs @ gs)), ix2)))"


subsection \<open>Package intelligence\<close>

record package_intel =
  maintainer_count :: int
  anonymous_maintainer :: bool
  has_repository_url :: bool
  has_install_scripts :: bool
  has_postinstall_script :: bool
  risk_score :: pyfloat

definition intel_notes :: "(pyfloat \<Rightarrow> string) \<Rightarrow> package_intel \<Rightarrow> string list" where
  "intel_notes show2 intel =
     (if anonymous_maintainer intel then [''anonymous maintainer''] else []) @
     (if maintainer_count intel = 0 then [''no maintainers''] else []) @
     (if has_install_scripts intel then [''has install scripts''] else []) @
     (if risk_score intel > 1 / 2 then [''risk score '' @ show2 (risk_score intel)] else []) @
     (if \<not> has_repository_url intel then [''no repository URL''] else [])"

definition enforce_evidence :: "(pyfloat \<Rightarrow> string) \<Rightarrow> (string, package_intel) pydict option \<Rightarrow> string \<Rightarrow> finding \<Rightarrow> finding" where
  "enforce_evidence show2 package_intel dep_name f =
     (case package_intel of
        None \<Rightarrow> f
      | Some intels \<Rightarrow>
          (case dget intels dep_name of
             None \<Rightarrow> f
           | Some intel \<Rightarrow>
               let sev1 = (if (maintainer_count intel = 0 \<or> anonymous_maintainer intel) \<and> f_severity f \<noteq> CRITICAL
                           then CRITICAL else f_severity f);
                   notes1 = f_evidence f # intel_notes show2 intel @
                     (if has_install_scripts intel \<and> has_postinstall_script intel
                      then [''install + postinstall scripts present '' @ em_dash @ '' code execution on install''] else []);
                   conf = (if risk_score intel > 1 / 2 \<and> f_confidence f = CONF_MEDIUM then CONF_HIGH else f_confidence f);
                   legit = has_repository_url intel \<and> maintainer_count intel > 5 \<and> sev1 = HIGH;
                   sev2 = (if legit then MEDIUM else sev1);
                   notes2 = notes1 @ (if legit
                      then [''well-maintained package with repository '' @ em_dash @ '' likely legitimate''] else [])
               in f\<lparr>f_severity := sev2, f_confidence := conf, f_evidence := join_with ''; '' notes2\<rparr>))"

subsection \<open>The npm detector\<close>

definition get_dep_names :: "(string \<times> json) list \<Rightarrow> string list" where
  "get_dep_names pkg = concat (map (\<lambda>key. case get_json key pkg of JObj section \<Rightarrow> dkeys section | _ \<Rightarrow> [])
     [''dependencies'', ''devDependencies'', ''peerDependencies'', ''optionalDependencies''])"

text \<open>
  What the detector sees of \<open>node_modules\<close>: its sorted entries, each with its name, whether it is a
  directory, its \<open>package.json\<close> when it has one (\<open>load_package_json\<close> gives the empty object for an
  unreadable or invalid file), and the same for the entries below it.
\<close>

record npm_scoped =
  ns_is_dir :: bool
  ns_package :: "(string \<times> json) list option"

record npm_entry =
  ne_name :: string
  ne_is_dir :: bool
  ne_package :: "(string \<times> json) list option"
  ne_children :: "npm_scoped list"

definition package_deps :: "(string \<times> json) list option \<Rightarrow> string list" where
  "package_deps pkg = (case pkg of None \<Rightarrow> [] | Some d \<Rightarrow> if d = [] then [] else get_dep_names d)"

definition node_modules_deps :: "npm_entry list \<Rightarrow> string list" where
  "node_modules_deps nm = concat (map (\<lambda>child.
     if \<not> ne_is_dir child \<or> starts_with ''.'' (ne_name child) then []
     else package_deps (ne_package child) @
       (if starts_with ''@'' (ne_name child)
        then concat (map (\<lambda>s. if ns_is_dir s then package_deps (ns_package s) else []) (ne_children child)) else [])) nm)"

definition NPM_KNOWN_LEGITIMATE :: "string list" where
  "NPM_KNOWN_LEGITIMATE = [''preact'', ''remix'', ''vite'', ''vitest'', ''svelte'', ''solid-js'', ''pino'', ''ora'', ''got'',
     ''prettier'', ''knex'', ''mobx'', ''zod'', ''pkg'', ''uid'', ''num'']"

definition npm_finding :: "(pyfloat \<Rightarrow> string) \<Rightarrow> string \<Rightarrow> bool \<Rightarrow> string \<Rightarrow> (string \<times> pyfloat) list \<Rightarrow> finding" where
  "npm_finding show_float root_pkg is_root name close_matches =
     (let (best_match, best_dist) = hd close_matches;
          (sev, conf) = typosquat_severity_confidence name best_match best_dist
      in \<lparr>f_rule = ''L2-TYPO-001'', f_severity = sev, f_confidence = conf, f_package = name, f_file = root_pkg,
          f_message = (if is_root then ''Package '' else ''Dependency '') @ quoted name
             @ '' may be a typosquat of popular package(s): '' @ join_with '', '' (map fst close_matches),
          f_evidence =
            (if is_root then ''package_name('' @ name @ '') is edit_distance '' @ show_float best_dist @ '' from '' @ best_match
             else ''edit_distance('' @ name @ '', '' @ best_match @ '') = '' @ show_float best_dist),
          f_remediation = ''Verify that '' @ quoted name @ '' is the intended package, '' @ ''not a misspelling of ''
             @ quoted best_match @ ''. '' @ ''Check the npm page and author before installing.'',
          f_references = [''https://blog.npmjs.org/post/186451959906/typosquatting-on-npm'',
             ''https://snyk.io/blog/typosquatting-attacks-on-npm/''],
          f_line = None, f_ecosystem = ''npm'', f_reachable = True\<rparr>)"

definition npm_check ::
  "(pyfloat \<Rightarrow> string) \<Rightarrow> (pyfloat \<Rightarrow> string) \<Rightarrow> (string, package_intel) pydict option \<Rightarrow> string \<Rightarrow> bool \<Rightarrow> string \<Rightarrow> corpus_index
     \<Rightarrow> finding list py_result \<times> corpus_index" where
  "npm_check show_float show2 intels root_pkg is_root name ix =
     (if (is_root \<and> (name = '''' \<or> starts_with ''@'' name)) \<or> index_contains name ix \<or> name \<in> set NPM_KNOWN_LEGITIMATE
      then (Inr [], ix)
      else let (found, ix1) = check_typosquat_against_index name 2 False ix
           in (bindE found (\<lambda>close_matches. Inr (if close_matches = [] then []
                else [enforce_evidence show2 intels name (npm_finding show_float root_pkg is_root name close_matches)])), ix1))"

definition detect_npm_typosquat ::
  "(pyfloat \<Rightarrow> string) \<Rightarrow> (pyfloat \<Rightarrow> string) \<Rightarrow> (string, package_intel) pydict option \<Rightarrow> string \<Rightarrow> (string \<times> json) list option
     \<Rightarrow> npm_entry list \<Rightarrow> corpus_index \<Rightarrow> finding list py_result \<times> corpus_index" where
  "detect_npm_typosquat show_float show2 intels root_pkg pkg_file nm ix =
     (case pkg_file of
        None \<Rightarrow> (Inr [], ix)
      | Some pkg \<Rightarrow>
          if pkg = [] then (Inr [], ix)
          else
            (let pkg_name = get_json ''name'' pkg
             in case (if json_truthy pkg_name then as_str pkg_name else Inr '''') of
                  Inl e \<Rightarrow> (Inl e, ix)
                | Inr name \<Rightarrow>
                    (case npm_check show_float show2 intels root_pkg True name ix of
                       (Inl e, ix1) \<Rightarrow> (Inl e, ix1)
                     | (Inr fs, ix1) \<Rightarrow>
                         (case typosquat_deps (npm_check show_float show2 intels root_pkg False)
                                 (sort (remdups (get_dep_names pkg @ node_modules_deps nm))) ix1 of
                            (rest, ix2) \<Rightarrow> (bindE rest (\<lambda>gs. Inr (fs @ gs)), ix2)))))"

section \<open>The detectors report exactly the close names\<close>





















end
