(* ===== verification/L4_Models.thy ===== *)
theory L4_Models
  imports Scan_Models Py_Stdlib
begin

text \<open>
  The behavioural layer of the sandbox: the records of an observed run
  (\<open>src/picosentry/sandbox/l4/models.py\<close>, \<open>sandbox/models.py\<close>), the shipped baselines
  (\<open>l4/baseline.py\<close>) and the comparison of a run with a baseline (\<open>l4/differ.py\<close>). A drift score is
  a multiple of 1/5, so \<open>round(score, 2)\<close> leaves it unchanged. The theorems: the score counts the drift
  flags, a run is only as close to its best baseline as to any other that applies, and a run that
  drifts on all five counts has no best baseline at all.
\<close>

section \<open>Records\<close>

record network_call =
  nc_address :: string
  nc_port :: int
  nc_protocol :: string
  nc_bytes_sent :: int
  nc_bytes_received :: int
  nc_timestamp_ms :: int

record dns_query =
  dq_hostname :: string
  dq_resolved_ips :: "string list"
  dq_timestamp_ms :: int

record file_operation =
  fo_path :: string
  fo_operation :: string
  fo_success :: bool
  fo_bytes_transferred :: int
  fo_timestamp_ms :: int
  fo_mode :: string

record process_spawn =
  ps_executable :: string
  ps_args :: "string list"
  ps_pid :: int
  ps_exit_code :: "int option"
  ps_timestamp_ms :: int

record timing_point =
  tp_label :: string
  tp_elapsed_ms :: int
  tp_timestamp_ms :: int

record behavioral_profile =
  bp_package :: string
  bp_timing_points :: "timing_point list"
  bp_network_calls :: "network_call list"
  bp_dns_queries :: "dns_query list"
  bp_fs_ops :: "file_operation list"
  bp_spawns :: "process_spawn list"
  bp_entrypoint :: string
  bp_total_runtime_ms :: int
  bp_exit_code :: int
  bp_stdout_len :: int
  bp_stderr_len :: int

record l4_baseline =
  bl_name :: string
  bl_package :: string
  bl_version :: string
  bl_expected_network_calls :: int
  bl_expected_dns_queries :: int
  bl_expected_fs_ops :: int
  bl_expected_spawns :: int
  bl_expected_runtime_ms_range :: "int list"
  bl_allowed_domains :: "string list"
  bl_allowed_paths :: "string list"
  bl_notes :: string

record drift_result =
  dr_baseline_name :: string
  dr_score :: pyfloat
  dr_network_drift :: bool
  dr_dns_drift :: bool
  dr_fs_drift :: bool
  dr_spawn_drift :: bool
  dr_timing_drift :: bool
  dr_details :: string

datatype behavioral_verdict = CLEAN | SUSPICIOUS | MALICIOUS

record sandbox_finding =
  sf_rule_id :: string
  sf_severity :: severity
  sf_message :: string
  sf_location :: string
  sf_evidence :: "(string \<times> json) list"
  sf_finding_id :: string

definition new_finding :: "string \<Rightarrow> severity \<Rightarrow> string \<Rightarrow> string \<Rightarrow> (string \<times> json) list \<Rightarrow> sandbox_finding" where
  "new_finding rule sev msg loc ev =
     \<lparr>sf_rule_id = rule, sf_severity = sev, sf_message = msg, sf_location = loc, sf_evidence = ev, sf_finding_id = ''''\<rparr>"

subsection \<open>Dictionaries\<close>

text \<open>
  \<open>dict(sorted(d.items()))\<close> of the fields, with the time stamp only in the non-deterministic form and
  only when it is set.
\<close>

definition with_timestamp :: "bool \<Rightarrow> int \<Rightarrow> (string \<times> json) list \<Rightarrow> (string \<times> json) list" where
  "with_timestamp deterministic ts d =
     sort_key fst (d @ (if \<not> deterministic \<and> ts \<noteq> 0 then [(''timestamp_ms'', JInt ts)] else []))"

definition network_call_to_dict :: "bool \<Rightarrow> network_call \<Rightarrow> (string \<times> json) list" where
  "network_call_to_dict deterministic c = with_timestamp deterministic (nc_timestamp_ms c)
     [(''address'', JStr (nc_address c)), (''bytes_received'', JInt (nc_bytes_received c)),
      (''bytes_sent'', JInt (nc_bytes_sent c)), (''port'', JInt (nc_port c)), (''protocol'', JStr (nc_protocol c))]"

definition dns_query_to_dict :: "bool \<Rightarrow> dns_query \<Rightarrow> (string \<times> json) list" where
  "dns_query_to_dict deterministic q = with_timestamp deterministic (dq_timestamp_ms q)
     [(''hostname'', JStr (dq_hostname q)), (''resolved_ips'', JList (map JStr (dq_resolved_ips q)))]"

definition file_operation_to_dict :: "bool \<Rightarrow> file_operation \<Rightarrow> (string \<times> json) list" where
  "file_operation_to_dict deterministic op = with_timestamp deterministic (fo_timestamp_ms op)
     ([(''bytes_transferred'', JInt (fo_bytes_transferred op)), (''operation'', JStr (fo_operation op)),
       (''path'', JStr (fo_path op)), (''success'', JBool (fo_success op))] @
      (if fo_mode op \<noteq> '''' then [(''mode'', JStr (fo_mode op))] else []))"

definition process_spawn_to_dict :: "bool \<Rightarrow> process_spawn \<Rightarrow> (string \<times> json) list" where
  "process_spawn_to_dict deterministic sp = with_timestamp deterministic (ps_timestamp_ms sp)
     [(''args'', JList (map JStr (ps_args sp))), (''executable'', JStr (ps_executable sp)),
      (''exit_code'', opt_json JInt (ps_exit_code sp)), (''pid'', JInt (ps_pid sp))]"

definition timing_point_to_dict :: "bool \<Rightarrow> timing_point \<Rightarrow> (string \<times> json) list" where
  "timing_point_to_dict deterministic tp = with_timestamp deterministic (tp_timestamp_ms tp)
     [(''elapsed_ms'', JInt (tp_elapsed_ms tp)), (''label'', JStr (tp_label tp))]"

definition profile_to_dict :: "bool \<Rightarrow> behavioral_profile \<Rightarrow> (string \<times> json) list" where
  "profile_to_dict deterministic p = sort_key fst
     ([(''dns_queries_count'', JInt (int (length (bp_dns_queries p)))), (''entrypoint'', JStr (bp_entrypoint p)),
       (''exit_code'', JInt (bp_exit_code p)), (''fs_ops_count'', JInt (int (length (bp_fs_ops p)))),
       (''network_calls_count'', JInt (int (length (bp_network_calls p)))), (''package'', JStr (bp_package p)),
       (''spawns_count'', JInt (int (length (bp_spawns p)))), (''stderr_len'', JInt (bp_stderr_len p)),
       (''stdout_len'', JInt (bp_stdout_len p)), (''timing_points_count'', JInt (int (length (bp_timing_points p))))] @
      (if \<not> deterministic then [(''total_runtime_ms'', JInt (bp_total_runtime_ms p))] else []))"

definition baseline_to_dict :: "l4_baseline \<Rightarrow> (string \<times> json) list" where
  "baseline_to_dict b =
     [(''allowed_domains'', JList (map JStr (bl_allowed_domains b))), (''allowed_paths'', JList (map JStr (bl_allowed_paths b))),
      (''expected_dns_queries'', JInt (bl_expected_dns_queries b)), (''expected_fs_ops'', JInt (bl_expected_fs_ops b)),
      (''expected_network_calls'', JInt (bl_expected_network_calls b)),
      (''expected_runtime_ms_range'', JList (map JInt (bl_expected_runtime_ms_range b))),
      (''expected_spawns'', JInt (bl_expected_spawns b)), (''name'', JStr (bl_name b)), (''notes'', JStr (bl_notes b)),
      (''package'', JStr (bl_package b)), (''version'', JStr (bl_version b))]"

definition drift_to_dict :: "drift_result \<Rightarrow> (string \<times> json) list" where
  "drift_to_dict d =
     [(''baseline_name'', JStr (dr_baseline_name d)), (''details'', JStr (dr_details d)), (''dns_drift'', JBool (dr_dns_drift d)),
      (''fs_drift'', JBool (dr_fs_drift d)), (''network_drift'', JBool (dr_network_drift d)), (''score'', JFloat (dr_score d)),
      (''spawn_drift'', JBool (dr_spawn_drift d)), (''timing_drift'', JBool (dr_timing_drift d))]"

definition finding_dict :: "bool \<Rightarrow> sandbox_finding \<Rightarrow> (string \<times> json) list" where
  "finding_dict deterministic f = sort_key fst
     ([(''rule_id'', JStr (sf_rule_id f)), (''severity'', JStr (severity_value (sf_severity f))),
       (''message'', JStr (sf_message f)), (''location'', JStr (sf_location f)), (''evidence'', JObj (sf_evidence f))] @
      (if \<not> deterministic \<and> sf_finding_id f \<noteq> '''' then [(''finding_id'', JStr (sf_finding_id f))] else []))"

section \<open>Baselines\<close>

definition SHIPPED_BASELINES :: "(string, l4_baseline) pydict" where
  "SHIPPED_BASELINES =
     [(''npm-install'', \<lparr>bl_name = ''npm-install'', bl_package = ''npm'', bl_version = ''*'', bl_expected_network_calls = 10,
         bl_expected_dns_queries = 5, bl_expected_fs_ops = 500, bl_expected_spawns = 0,
         bl_expected_runtime_ms_range = [1000, 120000], bl_allowed_domains = [''registry.npmjs.org'', ''registry.yarnpkg.com''],
         bl_allowed_paths = [''node_modules/**'', ''package.json'', ''package-lock.json''],
         bl_notes = ''Default npm install baseline '' @ em_dash @ '' allows registry access and node_modules writes''\<rparr>),
      (''python-pip-install'', \<lparr>bl_name = ''python-pip-install'', bl_package = ''pip'', bl_version = ''*'',
         bl_expected_network_calls = 5, bl_expected_dns_queries = 3, bl_expected_fs_ops = 200, bl_expected_spawns = 0,
         bl_expected_runtime_ms_range = [500, 60000], bl_allowed_domains = [''pypi.org'', ''files.pythonhosted.org''],
         bl_allowed_paths = [''**/site-packages/**'', ''/tmp/**''], bl_notes = ''Default pip install baseline''\<rparr>),
      (''node-script'', \<lparr>bl_name = ''node-script'', bl_package = ''node'', bl_version = ''*'', bl_expected_network_calls = 1,
         bl_expected_dns_queries = 1, bl_expected_fs_ops = 50, bl_expected_spawns = 0,
         bl_expected_runtime_ms_range = [10, 30000], bl_allowed_domains = [''localhost''], bl_allowed_paths = [''**''],
         bl_notes = ''Generic Node.js script execution '' @ em_dash @ '' allows local filesystem, denies external network''\<rparr>),
      (''python-script'', \<lparr>bl_name = ''python-script'', bl_package = ''python'', bl_version = ''*'', bl_expected_network_calls = 0,
         bl_expected_dns_queries = 0, bl_expected_fs_ops = 100, bl_expected_spawns = 0,
         bl_expected_runtime_ms_range = [10, 30000], bl_allowed_domains = [], bl_allowed_paths = [''**''],
         bl_notes = ''Generic Python script execution '' @ em_dash @ '' no network, local filesystem only''\<rparr>),
      (''curl-wget'', \<lparr>bl_name = ''curl-wget'', bl_package = ''curl'', bl_version = ''*'', bl_expected_network_calls = 1,
         bl_expected_dns_queries = 1, bl_expected_fs_ops = 10, bl_expected_spawns = 0,
         bl_expected_runtime_ms_range = [100, 60000], bl_allowed_domains = [''*''], bl_allowed_paths = [''/dev/null'', ''/tmp/**''],
         bl_notes = ''curl/wget download '' @ em_dash @ '' allows any domain, writes to /tmp only''\<rparr>)]"

definition load_shipped_baseline :: "(string, l4_baseline) pydict \<Rightarrow> string \<Rightarrow> l4_baseline option" where
  "load_shipped_baseline registry name = dget registry name"

definition load_all_baselines :: "(string, l4_baseline) pydict \<Rightarrow> (string, l4_baseline) pydict" where
  "load_all_baselines registry = registry"

definition register_baseline :: "l4_baseline \<Rightarrow> (string, l4_baseline) pydict \<Rightarrow> (string, l4_baseline) pydict" where
  "register_baseline b registry = dset (bl_name b) b registry"

definition baseline_from_entry :: "(string \<times> json) list \<Rightarrow> l4_baseline py_result" where
  "baseline_from_entry entry =
     bindE (need as_str ''name'' entry) (\<lambda>name.
     bindE (get_or as_str ''package'' name entry) (\<lambda>package.
     bindE (get_or as_str ''version'' '''' entry) (\<lambda>version.
     bindE (get_or as_int ''expected_network_calls'' 0 entry) (\<lambda>net.
     bindE (get_or as_int ''expected_dns_queries'' 0 entry) (\<lambda>dns.
     bindE (get_or as_int ''expected_fs_ops'' 0 entry) (\<lambda>fs.
     bindE (get_or as_int ''expected_spawns'' 0 entry) (\<lambda>spawns.
     bindE (get_or (\<lambda>v. bindE (as_list v) (mapE as_int)) ''expected_runtime_ms_range'' [0, 0] entry) (\<lambda>range.
     bindE (get_or (\<lambda>v. bindE (as_list v) (mapE as_str)) ''allowed_domains'' [] entry) (\<lambda>domains.
     bindE (get_or (\<lambda>v. bindE (as_list v) (mapE as_str)) ''allowed_paths'' [] entry) (\<lambda>paths.
     bindE (get_or as_str ''notes'' '''' entry) (\<lambda>notes.
       Inr \<lparr>bl_name = name, bl_package = package, bl_version = version, bl_expected_network_calls = net,
            bl_expected_dns_queries = dns, bl_expected_fs_ops = fs, bl_expected_spawns = spawns,
            bl_expected_runtime_ms_range = range, bl_allowed_domains = domains, bl_allowed_paths = paths,
            bl_notes = notes\<rparr>)))))))))))"

definition load_baselines_from_path :: "json \<Rightarrow> (string, l4_baseline) pydict py_result" where
  "load_baselines_from_path data =
     bindE (as_list data) (\<lambda>entries.
     bindE (mapE (\<lambda>e. bindE (as_obj e) baseline_from_entry) entries) (\<lambda>bs.
       Inr (foldl (\<lambda>m b. register_baseline b m) [] bs)))"

section \<open>Drift\<close>

definition host_of :: "string \<Rightarrow> string py_result" where
  "host_of address =
     (let candidate = (if contains ''//'' address then address else ''//'' @ address)
      in bindE (urlsplit candidate) (\<lambda>(_, netloc, _, _).
           Inr (lower (case netloc_hostname netloc of None \<Rightarrow> address | Some h \<Rightarrow> h))))"

definition path_matches :: "string \<Rightarrow> string \<Rightarrow> bool" where
  "path_matches path pattern = fnmatch pattern path"

definition isdigit :: "string \<Rightarrow> bool" where
  "isdigit s \<longleftrightarrow> s \<noteq> '''' \<and> list_all (\<lambda>c. 48 \<le> (of_char c :: nat) \<and> of_char c \<le> (57 :: nat)) s"

fun unexpected_domain :: "string list \<Rightarrow> network_call list \<Rightarrow> network_call option py_result" where
  "unexpected_domain allowed [] = Inr None"
| "unexpected_domain allowed (call # calls) =
     (if isdigit (remove_chars [CHR ''.'', CHR '':''] (nc_address call)) then unexpected_domain allowed calls
      else bindE (host_of (nc_address call)) (\<lambda>host.
        if host \<notin> set allowed then Inr (Some call) else unexpected_domain allowed calls))"

definition unexpected_path :: "string list \<Rightarrow> file_operation list \<Rightarrow> file_operation option" where
  "unexpected_path allowed ops = find (\<lambda>op. \<not> list_ex (path_matches (fo_path op)) allowed) ops"

definition exceeds :: "int \<Rightarrow> 'a list \<Rightarrow> bool" where
  "exceeds expected xs \<longleftrightarrow> expected \<ge> 0 \<and> int (length xs) > expected"

definition le_sign :: string where
  "le_sign = [CHR 0xE2, CHR 0x89, CHR 0xA4]"

definition count_flag :: "string \<Rightarrow> string \<Rightarrow> int \<Rightarrow> 'a list \<Rightarrow> string list" where
  "count_flag label what expected xs =
     (if exceeds expected xs
      then [label @ '': '' @ show_int (int (length xs)) @ '' '' @ what @ '' (expected '' @ le_sign @ show_int expected @ '')'']
      else [])"

definition timing_out :: "behavioral_profile \<Rightarrow> int \<Rightarrow> int \<Rightarrow> bool" where
  "timing_out p low high \<longleftrightarrow> (low > 0 \<or> high > 0) \<and> (bp_total_runtime_ms p < low \<or> bp_total_runtime_ms p > high)"

definition stray_domain :: "behavioral_profile \<Rightarrow> l4_baseline \<Rightarrow> network_call option py_result" where
  "stray_domain p b =
     (if bl_allowed_domains b \<noteq> [] \<and> ''*'' \<notin> set (bl_allowed_domains b)
      then unexpected_domain (map lower (bl_allowed_domains b)) (bp_network_calls p) else Inr None)"

definition stray_path :: "behavioral_profile \<Rightarrow> l4_baseline \<Rightarrow> file_operation option" where
  "stray_path p b =
     (if bl_allowed_paths b \<noteq> [] \<and> ''**'' \<notin> set (bl_allowed_paths b)
      then unexpected_path (bl_allowed_paths b) (bp_fs_ops p) else None)"

definition count_true :: "bool list \<Rightarrow> int" where
  "count_true bs = int (length (filter id bs))"

definition drift_of :: "behavioral_profile \<Rightarrow> l4_baseline \<Rightarrow> int \<Rightarrow> int \<Rightarrow> network_call option \<Rightarrow> drift_result" where
  "drift_of p b low high stray =
     (let network_drift = (exceeds (bl_expected_network_calls b) (bp_network_calls p) \<or> stray \<noteq> None);
          dns_drift = exceeds (bl_expected_dns_queries b) (bp_dns_queries p);
          fs_drift = (exceeds (bl_expected_fs_ops b) (bp_fs_ops p) \<or> stray_path p b \<noteq> None);
          spawn_drift = exceeds (bl_expected_spawns b) (bp_spawns p);
          timing_drift = timing_out p low high;
          drift_count = count_true [network_drift, dns_drift, fs_drift, spawn_drift, timing_drift];
          flags = count_flag ''Network'' ''calls'' (bl_expected_network_calls b) (bp_network_calls p) @
            count_flag ''DNS'' ''queries'' (bl_expected_dns_queries b) (bp_dns_queries p) @
            count_flag ''FS'' ''operations'' (bl_expected_fs_ops b) (bp_fs_ops p) @
            count_flag ''Spawns'' ''processes'' (bl_expected_spawns b) (bp_spawns p) @
            (if timing_drift then [''Timing: '' @ show_int (bp_total_runtime_ms p) @ ''ms (expected '' @ show_int low @ ''-''
                 @ show_int high @ ''ms)''] else []) @
            (case stray of None \<Rightarrow> [] | Some call \<Rightarrow> [''Unexpected domain: '' @ nc_address call]) @
            (case stray_path p b of None \<Rightarrow> [] | Some op \<Rightarrow> [''Unexpected path: '' @ fo_path op])
      in \<lparr>dr_baseline_name = bl_name b, dr_score = of_int drift_count / 5, dr_network_drift = network_drift,
          dr_dns_drift = dns_drift, dr_fs_drift = fs_drift, dr_spawn_drift = spawn_drift, dr_timing_drift = timing_drift,
          dr_details = (if flags \<noteq> [] then join_with ''; '' flags else ''No drift detected'')\<rparr>)"

text \<open>\<open>low, high = baseline.expected_runtime_ms_range\<close> fails on a range that is not a pair.\<close>

definition compare_profile_to_baseline :: "behavioral_profile \<Rightarrow> l4_baseline \<Rightarrow> drift_result py_result" where
  "compare_profile_to_baseline p b =
     (case bl_expected_runtime_ms_range b of
        [low, high] \<Rightarrow> bindE (stray_domain p b) (\<lambda>stray. Inr (drift_of p b low high stray))
      | _ \<Rightarrow> Inl (ValueError ''unpack''))"

definition applies_to :: "behavioral_profile \<Rightarrow> l4_baseline \<Rightarrow> bool" where
  "applies_to p b \<longleftrightarrow> bl_package b \<in> {''*'', bp_package p, bp_entrypoint p}"

fun best_baseline :: "behavioral_profile \<Rightarrow> l4_baseline list \<Rightarrow> (l4_baseline \<times> drift_result) option \<Rightarrow> pyfloat \<Rightarrow>
  (l4_baseline \<times> drift_result) option py_result" where
  "best_baseline p [] best best_score = Inr best"
| "best_baseline p (b # bs) best best_score =
     (if \<not> applies_to p b then best_baseline p bs best best_score
      else bindE (compare_profile_to_baseline p b) (\<lambda>drift.
        if dr_score drift < best_score then best_baseline p bs (Some (b, drift)) (dr_score drift)
        else best_baseline p bs best best_score))"

definition find_best_baseline :: "behavioral_profile \<Rightarrow> (string, l4_baseline) pydict \<Rightarrow> (l4_baseline \<times> drift_result) option py_result" where
  "find_best_baseline p baselines = best_baseline p (dvals baselines) None 1"

section \<open>Drift scores\<close>

definition drift_flags :: "drift_result \<Rightarrow> bool list" where
  "drift_flags d = [dr_network_drift d, dr_dns_drift d, dr_fs_drift d, dr_spawn_drift d, dr_timing_drift d]"

lemma count_true_bounds: "0 \<le> count_true bs \<and> count_true bs \<le> int (length bs)"
  by (simp add: count_true_def)

lemma compare_score:
  assumes "compare_profile_to_baseline p b = Inr d"
  shows "dr_score d = of_int (count_true (drift_flags d)) / 5" "dr_baseline_name d = bl_name b"
  using assms by (auto simp: compare_profile_to_baseline_def bindE_eq_Inr drift_of_def drift_flags_def Let_def split: list.splits)

lemma count_true_all: "count_true bs = int (length bs) \<longleftrightarrow> (\<forall>x \<in> set bs. x)"
proof (cases "\<forall>x \<in> set bs. x")
  case True
  then have "filter id bs = bs" by (simp add: filter_id_conv)
  with True show ?thesis by (simp add: count_true_def)
next
  case False
  then have "length (filter id bs) < length bs" using length_filter_less [of False bs id] by auto
  with False show ?thesis by (simp add: count_true_def)
qed

lemma compare_score_bounds:
  assumes "compare_profile_to_baseline p b = Inr d"
  shows "0 \<le> dr_score d \<and> dr_score d \<le> 1 \<and> (dr_score d = 1 \<longleftrightarrow> (\<forall>x \<in> set (drift_flags d). x))"
proof -
  have "count_true (drift_flags d) \<le> 5" "0 \<le> count_true (drift_flags d)"
    using count_true_bounds [of "drift_flags d"] by (simp_all add: drift_flags_def)
  moreover have "count_true (drift_flags d) = 5 \<longleftrightarrow> (\<forall>x \<in> set (drift_flags d). x)"
    using count_true_all [of "drift_flags d"] by (simp add: drift_flags_def)
  ultimately show ?thesis using compare_score(1) [OF assms] by auto
qed

text \<open>The scan for the best baseline keeps the best of what it has seen.\<close>

definition score_or :: "pyfloat \<Rightarrow> (l4_baseline \<times> drift_result) option \<Rightarrow> pyfloat" where
  "score_or s r = (case r of None \<Rightarrow> s | Some (_, d) \<Rightarrow> dr_score d)"

lemma best_baseline_origin:
  assumes "best_baseline p bs best s = Inr r"
  shows "r = best \<or> (\<exists>b d. r = Some (b, d) \<and> b \<in> set bs \<and> applies_to p b \<and> compare_profile_to_baseline p b = Inr d)"
  using assms
proof (induction p bs best s rule: best_baseline.induct)
  case (2 p b bs best s)
  show ?case
  proof (cases "applies_to p b")
    case True
    with 2(4) obtain d where d: "compare_profile_to_baseline p b = Inr d" by (auto simp: bindE_eq_Inr)
    show ?thesis
    proof (cases "dr_score d < s")
      case less: True
      have "r = Some (b, d) \<or> (\<exists>b d. r = Some (b, d) \<and> b \<in> set bs \<and> applies_to p b \<and> compare_profile_to_baseline p b = Inr d)"
        using 2(2) [OF _ less] True d 2(4) less by simp
      with True d show ?thesis by auto
    next
      case False
      then show ?thesis using 2(3) [OF _ False] True d 2(4) by auto
    qed
  qed (use 2 in auto)
qed simp

lemma best_baseline_least:
  assumes "best_baseline p bs best s = Inr r" and "score_or s best = s"
  shows "score_or s r \<le> s
    \<and> (\<forall>b \<in> set bs. applies_to p b \<longrightarrow> (\<exists>d. compare_profile_to_baseline p b = Inr d \<and> score_or s r \<le> dr_score d))"
  using assms
proof (induction p bs best s rule: best_baseline.induct)
  case (2 p b bs best s)
  show ?case
  proof (cases "applies_to p b")
    case True
    with 2(4) obtain d where d: "compare_profile_to_baseline p b = Inr d" by (auto simp: bindE_eq_Inr)
    show ?thesis
    proof (cases "dr_score d < s")
      case less: True
      have rest: "best_baseline p bs (Some (b, d)) (dr_score d) = Inr r" using 2(4) True d less by simp
      have "r \<noteq> None" using best_baseline_origin [OF rest] by auto
      then have "score_or (dr_score d) r = score_or s r" by (auto simp: score_or_def)
      with 2(2) [OF _ less rest] True d less show ?thesis by (auto simp: score_or_def)
    next
      case False
      then have "best_baseline p bs best s = Inr r" using 2(4) True d by simp
      with 2(3) [OF _ False this 2(5)] True d False show ?thesis by force
    qed
  qed (use 2 in auto)
qed simp

lemma best_baseline_strict:
  assumes "best_baseline p bs best s = Inr r" and "s \<le> 1" and "\<forall>b d. best = Some (b, d) \<longrightarrow> dr_score d < 1"
  shows "r = Some (b, d) \<Longrightarrow> dr_score d < 1"
  using assms
proof (induction p bs best s rule: best_baseline.induct)
  case (2 p b0 bs best s)
  show ?case
  proof (cases "applies_to p b0")
    case True
    with 2(5) obtain d0 where d0: "compare_profile_to_baseline p b0 = Inr d0" by (auto simp: bindE_eq_Inr)
    show ?thesis
    proof (cases "dr_score d0 < s")
      case less: True
      then have "best_baseline p bs (Some (b0, d0)) (dr_score d0) = Inr r" using 2(5) True d0 by simp
      from 2(2) [OF _ less 2(4) this] True less 2(6) show ?thesis by simp
    next
      case False
      then have "best_baseline p bs best s = Inr r" using 2(5) True d0 by simp
      from 2(3) [OF _ False 2(4) this 2(6,7)] True show ?thesis by simp
    qed
  qed (use 2 in auto)
qed simp

text \<open>
  \<open>find_best_baseline\<close> returns a baseline that applies to the run, with its drift, and no
  baseline that applies is closer; the score is the number of drift flags over five. But the search
  starts from 1.0 and only accepts what is strictly closer: it returns nothing exactly when every
  baseline that applies is missed on all five counts.
\<close>

lemma best_baseline_closest:
  assumes "find_best_baseline p baselines = Inr r"
  shows "case r of
      Some (b, d) \<Rightarrow> b \<in> set (dvals baselines) \<and> applies_to p b \<and> compare_profile_to_baseline p b = Inr d
        \<and> dr_score d = of_int (count_true (drift_flags d)) / 5 \<and> dr_score d < 1
        \<and> (\<forall>b' \<in> set (dvals baselines). applies_to p b' \<longrightarrow>
             (\<exists>d'. compare_profile_to_baseline p b' = Inr d' \<and> dr_score d \<le> dr_score d'))
    | None \<Rightarrow> \<forall>b' \<in> set (dvals baselines). applies_to p b' \<longrightarrow>
        (\<exists>d'. compare_profile_to_baseline p b' = Inr d' \<and> (\<forall>x \<in> set (drift_flags d'). x))"
proof -
  have run: "best_baseline p (dvals baselines) None 1 = Inr r" using assms by (simp add: find_best_baseline_def)
  note origin = best_baseline_origin [OF run] and least = best_baseline_least [OF run, unfolded score_or_def]
  show ?thesis
  proof (cases r)
    case None
    have "dr_score d = 1 \<Longrightarrow> \<forall>x \<in> set (drift_flags d). x" "dr_score d \<le> 1"
      if "compare_profile_to_baseline p b = Inr d" for b d
      using compare_score_bounds [OF that] by blast+
    with least None show ?thesis by (force intro: order_antisym)
  next
    case (Some bd)
    obtain b d where bd: "bd = (b, d)" by (cases bd)
    have cmp: "b \<in> set (dvals baselines)" "applies_to p b" "compare_profile_to_baseline p b = Inr d"
      using origin Some bd by auto
    have "dr_score d < 1" using best_baseline_strict [OF run] Some bd by simp
    with cmp least Some bd compare_score(1) [OF cmp(3)] show ?thesis by auto
  qed
qed

definition idle_profile :: "string \<Rightarrow> int \<Rightarrow> behavioral_profile" where
  "idle_profile package ms = \<lparr>bp_package = package, bp_timing_points = [], bp_network_calls = [], bp_dns_queries = [],
     bp_fs_ops = [], bp_spawns = [], bp_entrypoint = '''', bp_total_runtime_ms = ms, bp_exit_code = 0,
     bp_stdout_len = 0, bp_stderr_len = 0\<rparr>"

end
