(* ===== verification/Py_Regex.thy ===== *)
theory Py_Regex
  imports Py_Stdlib
begin

text \<open>
  The fragment of Python's \<open>re\<close> the detectors use: literals, character classes, alternatives,
  sequences and repetitions. A pattern denotes a language (\<open>lang\<close>); \<open>matches\<close> decides it by taking
  derivatives, and \<open>re_search\<close> looks for a part of the text in the language, which is all that the truth
  value of \<open>re.search\<close> depends on.
\<close>

section \<open>Patterns and their languages\<close>

datatype regex =
    Zero
  | One
  | Cls "char \<Rightarrow> bool"
  | Alt regex regex
  | Seq regex regex
  | Star regex

inductive_set star_lang :: "string set \<Rightarrow> string set" for A :: "string set" where
  star_Nil: "[] \<in> star_lang A"
| star_append: "u \<in> A \<Longrightarrow> v \<in> star_lang A \<Longrightarrow> u @ v \<in> star_lang A"

fun lang :: "regex \<Rightarrow> string set" where
  "lang Zero = {}"
| "lang One = {[]}"
| "lang (Cls P) = {[c] |c. P c}"
| "lang (Alt r s) = lang r \<union> lang s"
| "lang (Seq r s) = {u @ v |u v. u \<in> lang r \<and> v \<in> lang s}"
| "lang (Star r) = star_lang (lang r)"

subsection \<open>Derived forms\<close>

fun seqs :: "regex list \<Rightarrow> regex" where
  "seqs [] = One"
| "seqs [r] = r"
| "seqs (r # rs) = Seq r (seqs rs)"

definition lit :: "string \<Rightarrow> regex" where
  "lit s = seqs (map (\<lambda>c. Cls (\<lambda>x. x = c)) s)"

definition one_or_more :: "regex \<Rightarrow> regex" where
  "one_or_more r = Seq r (Star r)"

definition maybe :: "regex \<Rightarrow> regex" where
  "maybe r = Alt One r"

fun alts :: "regex list \<Rightarrow> regex" where
  "alts [] = Zero"
| "alts [r] = r"
| "alts (r # rs) = Alt r (alts rs)"

text \<open>\<open>r{n}\<close> and \<open>r{n,}\<close>.\<close>

definition copies :: "nat \<Rightarrow> regex \<Rightarrow> regex" where
  "copies n r = seqs (replicate n r)"

definition at_least :: "nat \<Rightarrow> regex \<Rightarrow> regex" where
  "at_least n r = Seq (copies n r) (Star r)"

text \<open>The classes of the patterns: a dot does not match a line feed.\<close>

definition hex_lower :: "char \<Rightarrow> bool" where
  "hex_lower c \<longleftrightarrow> digit c \<or> (97 \<le> (of_char c :: nat) \<and> of_char c \<le> (102 :: nat))"

definition dot :: regex where
  "dot = Cls (\<lambda>c. c \<noteq> CHR 0x0A)"

definition space :: regex where
  "space = Cls is_space"

definition nonspace :: regex where
  "nonspace = Cls (\<lambda>c. \<not> is_space c)"

definition quote_mark :: regex where
  "quote_mark = Cls (\<lambda>c. c = CHR 0x27 \<or> c = CHR 0x22)"

section \<open>Deciding the language\<close>

fun nullable :: "regex \<Rightarrow> bool" where
  "nullable Zero = False"
| "nullable One = True"
| "nullable (Cls P) = False"
| "nullable (Alt r s) = (nullable r \<or> nullable s)"
| "nullable (Seq r s) = (nullable r \<and> nullable s)"
| "nullable (Star r) = True"

fun deriv :: "char \<Rightarrow> regex \<Rightarrow> regex" where
  "deriv c Zero = Zero"
| "deriv c One = Zero"
| "deriv c (Cls P) = (if P c then One else Zero)"
| "deriv c (Alt r s) = Alt (deriv c r) (deriv c s)"
| "deriv c (Seq r s) = (if nullable r then Alt (Seq (deriv c r) s) (deriv c s) else Seq (deriv c r) s)"
| "deriv c (Star r) = Seq (deriv c r) (Star r)"

fun matches :: "regex \<Rightarrow> string \<Rightarrow> bool" where
  "matches r [] = nullable r"
| "matches r (c # s) = matches (deriv c r) s"

definition re_search :: "regex \<Rightarrow> string \<Rightarrow> bool" where
  "re_search r s = list_ex (\<lambda>i. list_ex (\<lambda>n. matches r (take n (drop i s))) [0..<length s + 1]) [0..<length s + 1]"

lemma nullable_lang: "nullable r \<longleftrightarrow> [] \<in> lang r"
  by (induction r) (auto intro: star_lang.intros)

lemma star_lang_Cons:
  "c # w \<in> star_lang A \<longleftrightarrow> (\<exists>u v. w = u @ v \<and> c # u \<in> A \<and> v \<in> star_lang A)"
proof
  show "c # w \<in> star_lang A \<Longrightarrow> \<exists>u v. w = u @ v \<and> c # u \<in> A \<and> v \<in> star_lang A"
  proof (induction "c # w" rule: star_lang.induct)
    case (star_append u v)
    then show ?case by (cases u) auto
  qed
  show "\<exists>u v. w = u @ v \<and> c # u \<in> A \<and> v \<in> star_lang A \<Longrightarrow> c # w \<in> star_lang A"
    using star_lang.star_append [of "c # u" A v for u v] by fastforce
qed

lemma deriv_lang: "w \<in> lang (deriv c r) \<longleftrightarrow> c # w \<in> lang r"
proof (induction r arbitrary: w)
  case (Seq r s)
  have "(\<exists>u v. c # w = u @ v \<and> u \<in> lang r \<and> v \<in> lang s) \<longleftrightarrow>
      (\<exists>u v. w = u @ v \<and> c # u \<in> lang r \<and> v \<in> lang s) \<or> ([] \<in> lang r \<and> c # w \<in> lang s)"
    by (auto simp: Cons_eq_append_conv)
  with Seq show ?case by (auto simp: nullable_lang)
qed (auto simp: star_lang_Cons)

theorem matches_lang: "matches r s \<longleftrightarrow> s \<in> lang r"
  by (induction s arbitrary: r) (simp_all add: nullable_lang deriv_lang)

theorem re_search_lang: "re_search r s \<longleftrightarrow> (\<exists>u v w. s = u @ v @ w \<and> v \<in> lang r)"
proof
  assume "re_search r s"
  then obtain i n where "take n (drop i s) \<in> lang r"
    unfolding re_search_def list_ex_iff matches_lang by blast
  moreover have "s = take i s @ take n (drop i s) @ drop n (drop i s)"
    by (metis append_take_drop_id)
  ultimately show "\<exists>u v w. s = u @ v @ w \<and> v \<in> lang r" by blast
next
  assume "\<exists>u v w. s = u @ v @ w \<and> v \<in> lang r"
  then obtain u v w where s: "s = u @ v @ w" "v \<in> lang r" by blast
  then have "matches r (take (length v) (drop (length u) s))" by (simp add: matches_lang)
  moreover have "length u \<in> set [0..<length s + 1]" "length v \<in> set [0..<length s + 1]" using s(1) by auto
  ultimately show "re_search r s" unfolding re_search_def list_ex_iff by blast
qed

section \<open>Anchored matching\<close>

text \<open>\<open>re.match\<close>, and \<open>re.match\<close> of a pattern that ends in a dollar sign, which also accepts a final line feed.\<close>

definition re_match :: "regex \<Rightarrow> string \<Rightarrow> bool" where
  "re_match r s = list_ex (\<lambda>n. matches r (take n s)) [0..<length s + 1]"

definition re_match_end :: "regex \<Rightarrow> string \<Rightarrow> bool" where
  "re_match_end r s \<longleftrightarrow> matches r s \<or> (s \<noteq> [] \<and> last s = CHR 0x0A \<and> matches r (butlast s))"

lemma re_match_lang: "re_match r s \<longleftrightarrow> (\<exists>v w. s = v @ w \<and> v \<in> lang r)"
proof
  show "re_match r s \<Longrightarrow> \<exists>v w. s = v @ w \<and> v \<in> lang r"
    unfolding re_match_def list_ex_iff matches_lang by (metis append_take_drop_id)
  assume "\<exists>v w. s = v @ w \<and> v \<in> lang r"
  then obtain v w where s: "s = v @ w" "v \<in> lang r" by blast
  then have "matches r (take (length v) s)" "length v \<in> set [0..<length s + 1]" by (auto simp: matches_lang)
  then show "re_match r s" unfolding re_match_def list_ex_iff by blast
qed

lemma lang_seqs: "lang (seqs rs) = {concat ws |ws. list_all2 (\<lambda>w r. w \<in> lang r) ws rs}"
proof (induction rs rule: seqs.induct)
  case (2 r)
  then show ?case by (force simp: list_all2_Cons2)
next
  case (3 r r' rs)
  then show ?case by (auto simp: list_all2_Cons2) (metis append.assoc concat.simps(2) list_all2_Cons2)+
qed simp

lemma lang_lit [simp]: "lang (lit s) = {s}"
proof (induction s)
  case (Cons c s)
  then show ?case by (cases s) (auto simp: lit_def)
qed (simp add: lit_def)

lemma lang_alts: "lang (alts rs) = (\<Union>r \<in> set rs. lang r)"
  by (induction rs rule: alts.induct) auto

lemma re_search_lit: "re_search (lit p) s \<longleftrightarrow> contains p s"
proof -
  have "contains p s \<longleftrightarrow> (\<exists>i \<in> set [0..<length s + 1]. \<exists>t. drop i s = p @ t)"
    by (simp add: contains_def list_ex_iff starts_with_append)
  also have "\<dots> \<longleftrightarrow> (\<exists>u w. s = u @ p @ w)"
  proof
    show "\<exists>i \<in> set [0..<length s + 1]. \<exists>t. drop i s = p @ t \<Longrightarrow> \<exists>u w. s = u @ p @ w"
      by (metis append_take_drop_id)
    assume "\<exists>u w. s = u @ p @ w"
    then obtain u w where "s = u @ p @ w" by blast
    then show "\<exists>i \<in> set [0..<length s + 1]. \<exists>t. drop i s = p @ t"
      by (intro bexI [of _ "length u"] exI [of _ w]) auto
  qed
  finally show ?thesis by (auto simp: re_search_lang)
qed

end
