(* ===== verification/L4_Rules.thy ===== *)
theory L4_Rules
  imports L4_Models Py_Regex
begin

text \<open>
  The detectors of the behavioural layer (\<open>src/picosentry/sandbox/l4/rules/\<close>): each reads the profile of
  a run, some of them the closest baseline too, and returns findings. A Python set of patterns is a list
  here, in the order of the source: the order in which a rule reports the patterns of a set is not
  specified by the code and no statement below depends on it. \<open>math.log2\<close> and the rendering of floats
  are arguments of the entropy rule.
\<close>

unbundle bit_operations_syntax

section \<open>Shared parts\<close>

definition exe_base :: "string \<Rightarrow> string" where
  "exe_base exe = (if CHR ''/'' \<in> set exe then lower (last (split_on CHR ''/'' exe)) else lower exe)"

definition str_args :: "string list \<Rightarrow> json" where
  "str_args xs = JList (map JStr xs)"

definition spawn_evidence :: "process_spawn \<Rightarrow> (string \<times> json) list" where
  "spawn_evidence sp = [(''executable'', JStr (ps_executable sp)), (''args'', str_args (take 5 (ps_args sp)))]"

definition op_evidence :: "file_operation \<Rightarrow> (string \<times> json) list" where
  "op_evidence op = [(''operation'', JStr (fo_operation op)), (''path'', JStr (fo_path op))]"

definition endpoint :: "network_call \<Rightarrow> string" where
  "endpoint c = nc_address c @ '':'' @ show_int (nc_port c)"

definition call_evidence :: "network_call \<Rightarrow> (string \<times> json) list" where
  "call_evidence c = [(''address'', JStr (nc_address c)), (''port'', JInt (nc_port c))]"

definition command_line :: "process_spawn \<Rightarrow> string" where
  "command_line sp = ps_executable sp @ '' '' @ join_with '' '' (take 5 (ps_args sp))"

definition args_lower :: "process_spawn \<Rightarrow> string" where
  "args_lower sp = lower (join_with '' '' (ps_args sp))"

definition best_of :: "behavioral_profile \<Rightarrow> (string, l4_baseline) pydict \<Rightarrow> (l4_baseline \<times> drift_result) option py_result" where
  "best_of p baselines = (if baselines \<noteq> [] then find_best_baseline p baselines else Inr None)"

section \<open>Container escape\<close>

definition ESCAPE_PATHS :: "(string \<times> string \<times> severity) list" where
  "ESCAPE_PATHS =
     [(''/proc/1/'', ''host PID 1 access '' @ em_dash @ '' container escape probe'', CRITICAL),
      (''/proc/1/cgroup'', ''container cgroup escape via PID 1'', CRITICAL),
      (''/proc/1/mountinfo'', ''host mount info via PID 1'', HIGH),
      (''/proc/1/environ'', ''host environment via PID 1'', CRITICAL),
      (''/proc/1/cmdline'', ''host cmdline via PID 1'', MEDIUM),
      (''/var/run/docker.sock'', ''Docker socket access'', CRITICAL),
      (''/run/docker.sock'', ''Docker socket access'', CRITICAL),
      (''/.dockerenv'', ''Docker environment detection'', INFO),
      (''/etc/hosts'', ''hosts file modification '' @ em_dash @ '' container escape'', HIGH),
      (''/etc/resolv.conf'', ''DNS configuration modification'', MEDIUM),
      (''/etc/hostname'', ''hostname modification'', MEDIUM),
      (''/sys/fs/cgroup/'', ''cgroup filesystem manipulation'', HIGH),
      (''/var/run/containerd/'', ''containerd socket access'', CRITICAL),
      (''/run/containerd/'', ''containerd socket access'', CRITICAL),
      (''/var/run/crio/'', ''CRI-O socket access'', CRITICAL),
      (''/run/crio/'', ''CRI-O socket access'', CRITICAL),
      (''/var/run/secrets/kubernetes.io/'', ''Kubernetes service account token access'', HIGH),
      (''/meta-data'', ''cloud metadata access attempt'', MEDIUM)]"

definition ESCAPE_BINARIES :: "string list" where
  "ESCAPE_BINARIES = [''docker'', ''podman'', ''ctr'', ''crictl'', ''kubectl'', ''runc'', ''nsenter'', ''unshare'', ''chroot'']"

text \<open>The severities are compared as the strings they are.\<close>

definition escape_severity :: "string \<Rightarrow> string \<Rightarrow> severity \<Rightarrow> severity" where
  "escape_severity operation esc_path severity =
     (if operation = ''read'' \<and> esc_path = ''/.dockerenv'' then INFO
      else if operation \<in> {''write'', ''create'', ''delete'', ''chmod'', ''chown''}
            \<and> severity_value severity < severity_value HIGH then HIGH
      else severity)"

definition escape_path_findings :: "file_operation \<Rightarrow> sandbox_finding list" where
  "escape_path_findings op =
     map (\<lambda>(esc_path, description, severity).
         new_finding ''L4-CONTAINER-001'' (escape_severity (fo_operation op) esc_path severity)
           (''Container escape path access ('' @ fo_operation op @ ''): '' @ fo_path op @ '' '' @ em_dash @ '' '' @ description)
           (fo_path op) (op_evidence op @ [(''description'', JStr description)]))
       (filter (\<lambda>(esc_path, _, _). fo_path op = esc_path \<or> starts_with esc_path (fo_path op)) ESCAPE_PATHS)"

definition escape_binary_findings :: "process_spawn list \<Rightarrow> sandbox_finding list" where
  "escape_binary_findings spawns =
     map (\<lambda>sp. new_finding ''L4-CONTAINER-002'' CRITICAL (''Container escape binary spawned: '' @ ps_executable sp)
         (ps_executable sp) (spawn_evidence sp))
       (filter (\<lambda>sp. exe_base (ps_executable sp) \<in> set ESCAPE_BINARIES) spawns)"

definition metadata_call_findings :: "network_call list \<Rightarrow> sandbox_finding list" where
  "metadata_call_findings calls =
     map (\<lambda>c. new_finding ''L4-CONTAINER-003'' CRITICAL (''Cloud metadata endpoint access: '' @ endpoint c)
         (endpoint c) (call_evidence c @ [(''protocol'', JStr (nc_protocol c))]))
       (filter (\<lambda>c. nc_address c \<in> {''169.254.169.254'', ''100.100.100.200'', ''fd00:ec2::254''}) calls)"

definition fingerprint_findings :: "file_operation list \<Rightarrow> sandbox_finding list" where
  "fingerprint_findings ops =
     map (\<lambda>op. new_finding ''L4-CONTAINER-004'' MEDIUM (''Container fingerprinting via /proc/self: '' @ fo_path op)
         (fo_path op) (op_evidence op))
       (filter (\<lambda>op. contains ''/proc/self/mountinfo'' (lower (fo_path op)) \<or> contains ''/proc/self/cgroup'' (lower (fo_path op))) ops)"

definition namespace_findings :: "process_spawn \<Rightarrow> sandbox_finding list" where
  "namespace_findings sp =
     map (\<lambda>kw. new_finding ''L4-CONTAINER-005'' HIGH (''Namespace manipulation command: '' @ command_line sp)
         (ps_executable sp) (spawn_evidence sp @ [(''keyword'', JStr kw)]))
       (filter (\<lambda>kw. contains kw (lower (ps_executable sp)) \<or> contains kw (args_lower sp))
         [''nsenter'', ''unshare'', ''ip netns'', ''pivot_root''])"

definition metadata_dns_findings :: "dns_query \<Rightarrow> sandbox_finding list" where
  "metadata_dns_findings q =
     map (\<lambda>pattern. new_finding ''L4-CONTAINER-006'' HIGH (''DNS query to cloud metadata hostname: '' @ dq_hostname q)
         (dq_hostname q) [(''hostname'', JStr (dq_hostname q)), (''pattern'', JStr pattern)])
       (filter (\<lambda>pattern. contains pattern (lower (dq_hostname q))) [''metadata.google'', ''metadata.azure'', ''169.254.169.254''])"

definition detect_container_escape :: "behavioral_profile \<Rightarrow> sandbox_finding list" where
  "detect_container_escape p =
     concat (map escape_path_findings (bp_fs_ops p)) @
     escape_binary_findings (bp_spawns p) @
     metadata_call_findings (bp_network_calls p) @
     fingerprint_findings (bp_fs_ops p) @
     concat (map namespace_findings (bp_spawns p)) @
     concat (map metadata_dns_findings (bp_dns_queries p))"

section \<open>Baseline drift and timing\<close>

text \<open>\<open>f"{score:.0%}"\<close> of a multiple of 1/5.\<close>

definition percent :: "pyfloat \<Rightarrow> string" where
  "percent x = show_int (round (100 * x)) @ ''%''"

definition drift_message :: "string \<Rightarrow> l4_baseline \<Rightarrow> drift_result \<Rightarrow> string" where
  "drift_message level b d =
     level @ '' baseline drift ('' @ percent (dr_score d) @ '') from '' @ quoted (bl_name b) @ '': '' @ dr_details d"

definition drift_evidence :: "l4_baseline \<Rightarrow> drift_result \<Rightarrow> (string \<times> json) list" where
  "drift_evidence b d = [(''baseline'', JStr (bl_name b)), (''drift_score'', JFloat (dr_score d)), (''details'', JStr (dr_details d))]"

definition detect_baseline_drift :: "behavioral_profile \<Rightarrow> (string, l4_baseline) pydict \<Rightarrow> sandbox_finding list py_result" where
  "detect_baseline_drift p baselines =
     (if baselines = [] then Inr []
      else bindE (find_best_baseline p baselines) (\<lambda>best. Inr
        (case best of
           None \<Rightarrow> [new_finding ''L4-BASE-001'' INFO (''No baseline match found for package '' @ quoted (bp_package p))
                     (bp_package p) [(''package'', JStr (bp_package p))]]
         | Some (b, d) \<Rightarrow>
             if dr_score d \<ge> 8 / 10 then
               [new_finding ''L4-BASE-002'' CRITICAL (drift_message ''Severe'' b d) (bp_package p) (drift_evidence b d)]
             else if dr_score d \<ge> 4 / 10 then
               [new_finding ''L4-BASE-003'' MEDIUM (drift_message ''Moderate'' b d) (bp_package p) (drift_evidence b d)]
             else [])))"

definition fast_exit :: "behavioral_profile \<Rightarrow> sandbox_finding list" where
  "fast_exit p =
     (if bp_total_runtime_ms p < 5 \<and> bp_exit_code p = 0 then
        [new_finding ''L4-TIME-001'' LOW (''Execution completed in '' @ show_int (bp_total_runtime_ms p) @ ''ms '' @ em_dash @
           '' unusually fast, possible no-op'') (bp_package p) [(''runtime_ms'', JInt (bp_total_runtime_ms p))]]
      else [])"

definition slow_points :: "timing_point list \<Rightarrow> sandbox_finding list" where
  "slow_points tps =
     map (\<lambda>tp. new_finding ''L4-TIME-002'' MEDIUM (''Timing point '' @ quoted (tp_label tp) @ '' took '' @
         show_int (tp_elapsed_ms tp) @ ''ms '' @ em_dash @ '' potential busy-wait or sleep'') (tp_label tp)
         [(''label'', JStr (tp_label tp)), (''elapsed_ms'', JInt (tp_elapsed_ms tp))])
       (filter (\<lambda>tp. tp_elapsed_ms tp > 60000) tps)"

definition detect_timing_anomalies :: "behavioral_profile \<Rightarrow> (string, l4_baseline) pydict \<Rightarrow> sandbox_finding list py_result" where
  "detect_timing_anomalies p baselines =
     bindE (best_of p baselines) (\<lambda>best. Inr
       (fast_exit p @ slow_points (bp_timing_points p) @
        (case best of
           None \<Rightarrow> []
         | Some (_, d) \<Rightarrow>
             if dr_timing_drift d then
               [new_finding ''L4-TIME-003'' HIGH
                  (''Timing drift from baseline '' @ quoted (dr_baseline_name d) @ '': '' @ dr_details d) (bp_package p)
                  [(''drift_score'', JFloat (dr_score d)), (''details'', JStr (dr_details d))]]
             else [])))"

section \<open>Crypto mining\<close>

definition MINING_PORTS :: "int list" where
  "MINING_PORTS = [3333, 4444, 45558, 45700, 5555, 8888, 14433, 14444, 34444]"

definition MINING_BINARIES :: "string list" where
  "MINING_BINARIES = [''xmrig'', ''minerd'', ''cgminer'', ''bfgminer'', ''cpuminer'', ''ccminer'', ''claymore'', ''ethminer'',
     ''phoenixminer'', ''nbminer'', ''t-rex'', ''trex'', ''cryptonight'', ''xmr-stak'', ''wildrig'', ''nanominer'', ''gminer'',
     ''lolminer'', ''teamredminer'', ''progpowminer'']"

definition MINING_DNS_PATTERNS :: "string list" where
  "MINING_DNS_PATTERNS = [''pool.'', ''stratum.'', ''mining.'', ''miner.'', ''xmr.'', ''eth.'', ''monero.'', ''nicehash.'']"

definition mining_port_findings :: "network_call list \<Rightarrow> sandbox_finding list" where
  "mining_port_findings calls =
     map (\<lambda>c. new_finding ''L4-CRYPTO-001'' CRITICAL
         (''Connection to known mining pool port '' @ show_int (nc_port c) @ '': '' @ endpoint c)
         (endpoint c) (call_evidence c @ [(''protocol'', JStr (nc_protocol c))]))
       (filter (\<lambda>c. nc_port c \<in> set MINING_PORTS) calls)"

definition mining_binary_findings :: "process_spawn list \<Rightarrow> sandbox_finding list" where
  "mining_binary_findings spawns =
     map (\<lambda>sp. new_finding ''L4-CRYPTO-002'' CRITICAL (''Crypto mining binary spawned: '' @ ps_executable sp)
         (ps_executable sp) (spawn_evidence sp))
       (filter (\<lambda>sp. exe_base (ps_executable sp) \<in> set MINING_BINARIES) spawns)"

definition mining_dns_findings :: "dns_query \<Rightarrow> sandbox_finding list" where
  "mining_dns_findings q =
     map (\<lambda>pattern. new_finding ''L4-CRYPTO-003'' HIGH (''DNS query to mining-related domain: '' @ dq_hostname q)
         (dq_hostname q) [(''hostname'', JStr (dq_hostname q)), (''pattern'', JStr pattern)])
       (filter (\<lambda>pattern. contains pattern (lower (dq_hostname q))) MINING_DNS_PATTERNS)"

definition long_run_findings :: "behavioral_profile \<Rightarrow> sandbox_finding list" where
  "long_run_findings p =
     (if bp_total_runtime_ms p > 60000 \<and> length (bp_network_calls p) > 0
          \<and> \<not> list_ex (\<lambda>c. nc_port c \<in> set MINING_PORTS) (bp_network_calls p) then
        [new_finding ''L4-CRYPTO-004'' MEDIUM
           (''Suspiciously long execution ('' @ show_int (bp_total_runtime_ms p) @ ''ms) with network activity'') (bp_package p)
           [(''runtime_ms'', JInt (bp_total_runtime_ms p)), (''network_calls'', JInt (int (length (bp_network_calls p))))]]
      else [])"

definition mining_config_findings :: "file_operation \<Rightarrow> sandbox_finding list" where
  "mining_config_findings op =
     (if list_ex (\<lambda>d. contains d (lower (fo_path op))) [''.xmrig'', ''.minerd'', ''.cgminer'', ''.bfgminer''] then
        map (\<lambda>_. new_finding ''L4-CRYPTO-005'' HIGH (''Mining configuration file access: '' @ fo_path op) (fo_path op) (op_evidence op))
          (filter (\<lambda>pattern. contains pattern (lower (fo_path op))) [''config.json'', ''pools.txt'', ''pool.conf''])
      else [])"

definition mining_argument_findings :: "process_spawn \<Rightarrow> sandbox_finding list" where
  "mining_argument_findings sp =
     map (\<lambda>pattern. new_finding ''L4-CRYPTO-006'' HIGH (''Process spawned with mining arguments: '' @ ps_executable sp)
         (ps_executable sp) (spawn_evidence sp @ [(''pattern'', JStr pattern)]))
       (filter (\<lambda>pattern. contains pattern (args_lower sp))
         [''--url=stratum'', ''--pool'', ''--algo=cryptonight'', ''--coin'', ''--donate-level''])"

definition detect_crypto_mining :: "behavioral_profile \<Rightarrow> sandbox_finding list" where
  "detect_crypto_mining p =
     mining_port_findings (bp_network_calls p) @
     mining_binary_findings (bp_spawns p) @
     concat (map mining_dns_findings (bp_dns_queries p)) @
     long_run_findings p @
     concat (map mining_config_findings (bp_fs_ops p)) @
     concat (map mining_argument_findings (bp_spawns p))"

section \<open>Environment and exfiltration\<close>

definition detect_env_leak :: "behavioral_profile \<Rightarrow> sandbox_finding list" where
  "detect_env_leak p =
     map (\<lambda>op. new_finding ''L4-ENV-001'' HIGH (''Access to .env file ('' @ fo_operation op @ ''): '' @ fo_path op)
         (fo_path op) (op_evidence op))
       (filter (\<lambda>op. list_ex (\<lambda>suffix. ends_with suffix (lower (fo_path op))) [''.env'', ''.env.local'', ''.env.production''])
         (bp_fs_ops p)) @
     map (\<lambda>sp. new_finding ''L4-ENV-003'' HIGH (''Environment dumping command spawned: '' @ ps_executable sp) (ps_executable sp)
         [(''executable'', JStr (ps_executable sp)), (''args'', str_args (ps_args sp))])
       (filter (\<lambda>sp. lower (last (split_on CHR ''/'' (ps_executable sp))) \<in> {''env'', ''printenv'', ''set'', ''export''})
         (bp_spawns p))"

definition private_ips :: regex where
  "private_ips = alts
     [lit ''10.'',
      seqs [lit ''172.'',
        alts [Seq (lit ''1'') (Cls (\<lambda>c. c \<in> {CHR ''6'', CHR ''7'', CHR ''8'', CHR ''9''})),
              Seq (lit ''2'') (Cls digit),
              Seq (lit ''3'') (Cls (\<lambda>c. c \<in> {CHR ''0'', CHR ''1''}))],
        lit ''.''],
      lit ''192.168.'']"

definition suspicious_tlds :: "string list" where
  "suspicious_tlds = [''.xyz'', ''.tk'', ''.ml'', ''.cf'', ''.ga'', ''.gq'', ''.top'', ''.pw'', ''.cc'']"

definition exfil_call :: "network_call \<Rightarrow> sandbox_finding list" where
  "exfil_call c =
     map (\<lambda>tld. new_finding ''L4-EXFIL-001'' HIGH (''Network call to suspicious TLD: '' @ nc_address c) (nc_address c)
         (call_evidence c @ [(''tld'', JStr tld)]))
       (filter (\<lambda>tld. ends_with tld (nc_address c)) suspicious_tlds) @
     (if nc_port c \<notin> {0, 80, 443, 8080, 8443} \<and> \<not> re_match private_ips (nc_address c) then
        [new_finding ''L4-EXFIL-002'' MEDIUM (''Network call to non-standard port: '' @ endpoint c) (endpoint c) (call_evidence c)]
      else [])"

definition sensitive_patterns :: "string list" where
  "sensitive_patterns = [''.env'', ''.npmrc'', ''credentials'', ''secrets'', ''tokens'', ''.aws/'', ''.ssh/'', ''id_rsa'', ''id_ed25519'']"

definition sensitive_reads :: "file_operation list \<Rightarrow> string list" where
  "sensitive_reads ops =
     map fo_path (filter (\<lambda>op. fo_operation op = ''read'' \<and> list_ex (\<lambda>pat. contains pat (fo_path op)) sensitive_patterns) ops)"

definition detect_exfiltration :: "behavioral_profile \<Rightarrow> sandbox_finding list" where
  "detect_exfiltration p =
     (let total_sent = sum_list (map nc_bytes_sent (bp_network_calls p));
          reads = sensitive_reads (bp_fs_ops p);
          calls = length (bp_network_calls p)
      in concat (map exfil_call (bp_network_calls p)) @
         (if total_sent > 1000000 then
            [new_finding ''L4-EXFIL-003'' HIGH (''Large outbound data transfer: '' @ show_int total_sent @ '' bytes sent'')
               (bp_package p) [(''bytes_sent'', JInt total_sent)]]
          else []) @
         concat (map (\<lambda>q. map (\<lambda>_. new_finding ''L4-EXFIL-004'' MEDIUM (''DNS query to suspicious domain: '' @ dq_hostname q)
               (dq_hostname q) [(''hostname'', JStr (dq_hostname q))])
             (filter (\<lambda>tld. ends_with tld (dq_hostname q)) suspicious_tlds)) (bp_dns_queries p)) @
         (if reads \<noteq> [] \<and> calls > 0 then
            [new_finding ''L4-EXFIL-005'' CRITICAL
               (''Sensitive files read ('' @ show_int (int (length reads)) @ '' files) followed by '' @ show_int (int calls) @
                '' network calls '' @ em_dash @ '' possible credential exfiltration'')
               (join_with '', '' (take 3 reads))
               [(''sensitive_files'', str_args (take 5 reads)), (''network_calls'', JInt (int calls))]]
          else []))"

section \<open>File system and honeypots\<close>

definition PROTECTED_WRITE_PATHS :: "string list" where
  "PROTECTED_WRITE_PATHS = [''/etc/passwd'', ''/etc/shadow'', ''/etc/sudoers'', ''/etc/hosts'', ''/etc/ssh/sshd_config'', ''/etc/crontab'',
     ''/boot'', ''/sys'', ''/proc'', ''/dev'', ''/root/.ssh'', ''/root/.bashrc'', ''/root/.profile'']"

definition SUSPICIOUS_WRITE_EXTENSIONS :: "string list" where
  "SUSPICIOUS_WRITE_EXTENSIONS = [''.sh'', ''.bat'', ''.cmd'', ''.ps1'', ''.vbs'', ''.dll'', ''.so'', ''.dylib'', ''.exe'', ''.msi'', ''.deb'', ''.rpm'']"

definition CRITICAL_DELETE_PATHS :: "string list" where
  "CRITICAL_DELETE_PATHS = [''/etc/passwd'', ''/etc/shadow'', ''/etc/sudoers'', ''/bin/sh'', ''/bin/bash'', ''/usr/bin/sudo'',
     ''/usr/bin/passwd'', ''/etc/hosts'']"

definition is_write :: "file_operation \<Rightarrow> bool" where
  "is_write op \<longleftrightarrow> fo_operation op \<in> {''write'', ''create''}"

definition written_extension :: "string \<Rightarrow> string option" where
  "written_extension path =
     find (\<lambda>ext. ends_with ext (lower path) \<and> starts_with ''/'' path \<and> \<not> starts_with ''/tmp/'' path) SUSPICIOUS_WRITE_EXTENSIONS"

definition filesystem_op :: "file_operation \<Rightarrow> sandbox_finding list" where
  "filesystem_op op =
     (let path = fo_path op in
      (if is_write op then
         map (\<lambda>_. new_finding ''L4-FS-001'' CRITICAL (''Write to protected system path: '' @ path) path (op_evidence op))
           (filter (\<lambda>protected. starts_with protected path \<or> path = protected) PROTECTED_WRITE_PATHS)
       else []) @
      (if is_write op then
         (case written_extension path of
            None \<Rightarrow> []
          | Some ext \<Rightarrow> [new_finding ''L4-FS-002'' MEDIUM (''Executable/shared library written outside /tmp: '' @ path) path
                         (op_evidence op @ [(''extension'', JStr ext)])])
       else []) @
      (if fo_operation op = ''delete'' then
         map (\<lambda>_. new_finding ''L4-FS-003'' CRITICAL (''Deletion of critical system file: '' @ path) path (op_evidence op))
           (filter (\<lambda>critical. path = critical \<or> starts_with (critical @ ''/'') path) CRITICAL_DELETE_PATHS)
       else []) @
      (if contains ''../'' path \<or> contains (''..'' @ [CHR 0x5C]) path then
         [new_finding ''L4-FS-004'' HIGH (''Path traversal detected: '' @ path) path (op_evidence op)]
       else []))"

definition detect_filesystem_anomalies :: "behavioral_profile \<Rightarrow> sandbox_finding list" where
  "detect_filesystem_anomalies p =
     concat (map filesystem_op (bp_fs_ops p)) @
     (let writes = int (length (filter is_write (bp_fs_ops p))) in
      if writes > 100 then
        [new_finding ''L4-FS-006'' MEDIUM (''Excessive filesystem writes: '' @ show_int writes @ '' write operations'')
           (bp_package p) [(''write_count'', JInt writes)]]
      else [])"

definition HONEYPOT_PATHS :: "string list" where
  "HONEYPOT_PATHS = [''/etc/passwd'', ''/etc/shadow'', ''/etc/sudoers'', ''/root/.ssh'', ''/root/.bashrc'', ''/home/*/.ssh/id_rsa'',
     ''/home/*/.ssh/id_ed25519'', ''/proc/sys/kernel'', ''/sys/kernel'', ''/boot'', ''/etc/ssl/private'', ''/var/log/auth.log'', ''/var/log/secure'']"

definition honeypot_op :: "file_operation \<Rightarrow> sandbox_finding list" where
  "honeypot_op op =
     (case find (\<lambda>honeypot. fnmatch honeypot (fo_path op)) HONEYPOT_PATHS of
        None \<Rightarrow> []
      | Some honeypot \<Rightarrow>
          [new_finding ''L4-HONEY-001'' CRITICAL (''Honeypot path accessed ('' @ fo_operation op @ ''): '' @ fo_path op) (fo_path op)
             (op_evidence op @ [(''honeypot_rule'', JStr honeypot)])])"

definition honeypot_spawn :: "process_spawn \<Rightarrow> sandbox_finding list" where
  "honeypot_spawn sp =
     (let base = last (split_on CHR ''/'' (ps_executable sp));
          ev = [(''executable'', JStr (ps_executable sp)), (''args'', str_args (ps_args sp))]
      in if base \<in> {''sudo'', ''su'', ''pkexec'', ''doas''} then
           [new_finding ''L4-HONEY-002'' CRITICAL (''Privilege escalation binary spawned: '' @ ps_executable sp) (ps_executable sp) ev]
         else if base \<in> {''chmod'', ''chown'', ''chgrp''} then
           [new_finding ''L4-HONEY-003'' LOW (''File ownership/permission tool spawned: '' @ ps_executable sp) (ps_executable sp) ev]
         else [])"

definition detect_honeypot_touches :: "behavioral_profile \<Rightarrow> sandbox_finding list" where
  "detect_honeypot_touches p = concat (map honeypot_op (bp_fs_ops p)) @ concat (map honeypot_spawn (bp_spawns p))"

section \<open>Network\<close>

definition ip_number :: regex where
  "ip_number = one_or_more (Cls digit)"

definition PRIVATE_IP_RE :: regex where
  "PRIVATE_IP_RE = alts
     [seqs [lit ''10.'', ip_number, lit ''.'', ip_number, lit ''.'', ip_number],
      seqs [lit ''172.'',
        alts [Seq (lit ''1'') (Cls (\<lambda>c. c \<in> {CHR ''6'', CHR ''7'', CHR ''8'', CHR ''9''})),
              Seq (lit ''2'') (Cls digit),
              Seq (lit ''3'') (Cls (\<lambda>c. c \<in> {CHR ''0'', CHR ''1''}))],
        lit ''.'', ip_number, lit ''.'', ip_number],
      seqs [lit ''192.168.'', ip_number, lit ''.'', ip_number],
      seqs [lit ''127.'', ip_number, lit ''.'', ip_number, lit ''.'', ip_number],
      lit ''0.0.0.0'']"

definition SUSPICIOUS_PORTS :: "int list" where
  "SUSPICIOUS_PORTS = [4444, 5555, 6666, 6667, 8888, 31337, 12345, 4443, 1337]"

definition SUSPICIOUS_TLDS :: "string list" where
  "SUSPICIOUS_TLDS = [''.xyz'', ''.tk'', ''.ml'', ''.cf'', ''.ga'', ''.gq'', ''.top'', ''.pw'', ''.cc'', ''.buzz'']"

definition tunnel_label :: "string \<Rightarrow> bool" where
  "tunnel_label part \<longleftrightarrow> length part > 30 \<and> re_match_end (one_or_more (Cls (\<lambda>c. is_alpha c \<or> digit c))) part"

definition network_dns :: "dns_query \<Rightarrow> sandbox_finding list" where
  "network_dns q =
     (case find tunnel_label (split_on CHR ''.'' (dq_hostname q)) of
        None \<Rightarrow> []
      | Some part \<Rightarrow>
          [new_finding ''L4-NET-002'' HIGH (''DNS tunneling indicator '' @ em_dash @ '' long encoded subdomain: '' @ dq_hostname q)
             (dq_hostname q) [(''hostname'', JStr (dq_hostname q)), (''label_length'', JInt (int (length part)))]]) @
     map (\<lambda>tld. new_finding ''L4-NET-003'' MEDIUM (''DNS query to suspicious TLD: '' @ dq_hostname q) (dq_hostname q)
         [(''hostname'', JStr (dq_hostname q)), (''tld'', JStr tld)])
       (filter (\<lambda>tld. ends_with tld (dq_hostname q)) SUSPICIOUS_TLDS)"

definition private_calls :: "network_call list \<Rightarrow> network_call list" where
  "private_calls calls =
     filter (\<lambda>c. re_match_end PRIVATE_IP_RE (nc_address c) \<and> nc_address c \<notin> {''127.0.0.1'', ''0.0.0.0''}) calls"

definition detect_network_anomalies :: "behavioral_profile \<Rightarrow> (string, l4_baseline) pydict \<Rightarrow> sandbox_finding list py_result" where
  "detect_network_anomalies p baselines =
     (let calls = bp_network_calls p; n = int (length (bp_network_calls p)) in
      bindE (best_of p baselines) (\<lambda>best. Inr
        (map (\<lambda>c. new_finding ''L4-NET-001'' HIGH (''Connection to suspicious port: '' @ endpoint c) (endpoint c) (call_evidence c))
           (filter (\<lambda>c. nc_port c \<in> set SUSPICIOUS_PORTS) calls) @
         concat (map network_dns (bp_dns_queries p)) @
         (if n > 20 then
            [new_finding ''L4-NET-004'' MEDIUM (''High volume of network connections: '' @ show_int n) (bp_package p)
               [(''network_call_count'', JInt n), (''addresses'', str_args (take 10 (map nc_address calls)))]]
          else []) @
         (case best of
            None \<Rightarrow> []
          | Some (b, _) \<Rightarrow>
              if bl_expected_network_calls b = 0 then
                map (\<lambda>c. new_finding ''L4-NET-005'' MEDIUM (''Connection to private IP in zero-network baseline: '' @ nc_address c)
                    (nc_address c) (call_evidence c)) (private_calls calls)
              else []))))"

section \<open>Persistence\<close>

definition PERSISTENCE_PATHS :: "(string \<times> string \<times> severity) list" where
  "PERSISTENCE_PATHS =
     [(''/etc/profile'', ''shell profile modification'', HIGH),
      (''/etc/profile.d/'', ''shell profile.d drop-in'', HIGH),
      (''/etc/bash.bashrc'', ''system-wide bashrc modification'', HIGH),
      (''/etc/zsh/zshrc'', ''system-wide zshrc modification'', HIGH),
      (''/.ssh/authorized_keys'', ''SSH authorized_keys write'', CRITICAL),
      (''/.ssh/config'', ''SSH config modification'', HIGH),
      (''/root/.ssh/'', ''root SSH directory write'', CRITICAL),
      (''/etc/systemd/system/'', ''systemd unit creation'', HIGH),
      (''/etc/systemd/user/'', ''systemd user unit creation'', HIGH),
      (''/lib/systemd/system/'', ''systemd library unit write'', MEDIUM),
      (''/etc/init.d/'', ''init.d script creation'', HIGH),
      (''/etc/rc.local'', ''rc.local modification'', HIGH),
      (''/Library/LaunchAgents/'', ''macOS LaunchAgent creation'', HIGH),
      (''/Library/LaunchDaemons/'', ''macOS LaunchDaemon creation'', HIGH),
      (''~/Library/LaunchAgents/'', ''user LaunchAgent creation'', HIGH),
      (''/etc/login.defs'', ''login.defs modification'', MEDIUM),
      (''/etc/pam.d/'', ''PAM configuration modification'', HIGH),
      (''/var/spool/at/'', ''at job creation'', MEDIUM)]"

definition persistence_match :: "string \<Rightarrow> string \<Rightarrow> bool" where
  "persistence_match path_prefix path =
     (if starts_with ''~'' path_prefix then ends_with (drop 1 path_prefix) path
      else if starts_with ''/.'' path_prefix then ends_with path_prefix path
      else path = path_prefix \<or> starts_with path_prefix path)"

definition persistence_op :: "file_operation \<Rightarrow> sandbox_finding list" where
  "persistence_op op =
     (if fo_operation op \<in> {''write'', ''create'', ''chmod'', ''chown''} then
        map (\<lambda>(path_prefix, description, severity).
            new_finding ''L4-PERSIST-001'' severity
              (''Persistence path written ('' @ fo_operation op @ ''): '' @ fo_path op @ '' '' @ em_dash @ '' '' @ description)
              (fo_path op) (op_evidence op @ [(''mechanism'', JStr description)]))
          (filter (\<lambda>(path_prefix, _, _). persistence_match path_prefix (fo_path op)) PERSISTENCE_PATHS)
      else [])"

definition spawn_findings :: "string \<Rightarrow> severity \<Rightarrow> (process_spawn \<Rightarrow> bool) \<Rightarrow> (process_spawn \<Rightarrow> string) \<Rightarrow>
  process_spawn list \<Rightarrow> sandbox_finding list" where
  "spawn_findings rule severity cond msg spawns =
     map (\<lambda>sp. new_finding rule severity (msg sp) (ps_executable sp) (spawn_evidence sp)) (filter cond spawns)"

definition detect_persistence :: "behavioral_profile \<Rightarrow> sandbox_finding list" where
  "detect_persistence p =
     concat (map persistence_op (bp_fs_ops p)) @
     spawn_findings ''L4-PERSIST-002'' HIGH
       (\<lambda>sp. exe_base (ps_executable sp) \<in> {''crontab'', ''at'', ''atq'', ''atrm'', ''batch''})
       (\<lambda>sp. ''Persistence command spawned: '' @ ps_executable sp) (bp_spawns p) @
     spawn_findings ''L4-PERSIST-003'' HIGH
       (\<lambda>sp. exe_base (ps_executable sp) = ''systemctl'' \<and> list_ex (\<lambda>kw. contains kw (args_lower sp)) [''enable'', ''start'', ''mask''])
       (\<lambda>sp. ''systemctl persistence command: '' @ command_line sp) (bp_spawns p) @
     spawn_findings ''L4-PERSIST-004'' MEDIUM
       (\<lambda>sp. exe_base (ps_executable sp) \<in> {''chsh'', ''chfn'', ''usermod'', ''passwd''})
       (\<lambda>sp. ''User/profile modification command: '' @ ps_executable sp) (bp_spawns p) @
     spawn_findings ''L4-PERSIST-005'' HIGH
       (\<lambda>sp. exe_base (ps_executable sp) = ''launchctl'' \<and> list_ex (\<lambda>kw. contains kw (args_lower sp)) [''load'', ''enable''])
       (\<lambda>sp. ''macOS launchctl persistence: '' @ command_line sp) (bp_spawns p)"

section \<open>Privilege escalation\<close>

definition PRIV_ESC_PATHS :: "(string, severity) pydict" where
  "PRIV_ESC_PATHS = [(''/etc/sudoers'', CRITICAL), (''/etc/sudoers.d/'', CRITICAL), (''/etc/shadow'', CRITICAL), (''/etc/gshadow'', CRITICAL),
     (''/etc/passwd'', CRITICAL), (''/etc/group'', HIGH), (''/etc/pam.d/'', CRITICAL), (''/etc/polkit-1/'', HIGH), (''/etc/sudo.conf'', HIGH),
     (''/etc/security/'', HIGH), (''/etc/ssh/sshd_config'', HIGH)]"

definition PRIV_ESC_BINARIES :: "string list" where
  "PRIV_ESC_BINARIES = [''sudo'', ''su'', ''pkexec'', ''chroot'', ''chfn'', ''chsh'', ''passwd'', ''newgrp'', ''gpasswd'', ''chage'']"

definition SETUID_BIT :: nat where "SETUID_BIT = 2048"
definition SETGID_BIT :: nat where "SETGID_BIT = 1024"

text \<open>\<open>int(mode, 8)\<close> of a string of digits; \<open>None\<close> when it raises \<open>ValueError\<close>.\<close>

definition octal_step :: "nat option \<Rightarrow> char \<Rightarrow> nat option" where
  "octal_step acc c =
     (case acc of None \<Rightarrow> None
      | Some v \<Rightarrow> if 48 \<le> (of_char c :: nat) \<and> of_char c < (56 :: nat) then Some (8 * v + (of_char c - 48)) else None)"

definition octal_value :: "string \<Rightarrow> nat option" where
  "octal_value s = foldl octal_step (Some 0) s"

definition is_setuid_mode :: "string \<Rightarrow> bool" where
  "is_setuid_mode mode0 =
     (let mode = strip mode0 in
      if mode = '''' \<or> \<not> isdigit mode then False
      else case octal_value mode of None \<Rightarrow> False | Some value \<Rightarrow> value AND (SETUID_BIT OR SETGID_BIT) \<noteq> 0)"

definition privileged_path_op :: "file_operation \<Rightarrow> sandbox_finding list" where
  "privileged_path_op op =
     (if fo_operation op \<in> {''write'', ''create'', ''chmod'', ''chown'', ''delete''} then
        map (\<lambda>(_, severity). new_finding ''L4-PRIVESC-001'' severity
            (''Write to privilege-critical path ('' @ fo_operation op @ ''): '' @ fo_path op) (fo_path op) (op_evidence op))
          (filter (\<lambda>(priv_path, _). fo_path op = priv_path \<or> starts_with priv_path (fo_path op)) PRIV_ESC_PATHS)
      else [])"

definition setuid_findings :: "file_operation list \<Rightarrow> sandbox_finding list" where
  "setuid_findings ops =
     map (\<lambda>op. new_finding ''L4-PRIVESC-003'' CRITICAL (''setuid/setgid chmod attempt: chmod '' @ fo_mode op @ '' '' @ fo_path op)
         (fo_path op) [(''operation'', JStr ''chmod''), (''path'', JStr (fo_path op)), (''mode'', JStr (fo_mode op))])
       (filter (\<lambda>op. fo_operation op = ''chmod'' \<and> is_setuid_mode (fo_mode op)) ops)"

definition cap_keywords :: "string list" where
  "cap_keywords = [''setcap'', ''getcap'', ''cap_setuid'', ''cap_net_raw'', ''cap_sys_admin'', ''cap_dac_override'']"

definition cron_findings :: "file_operation list \<Rightarrow> sandbox_finding list" where
  "cron_findings ops =
     map (\<lambda>op. new_finding ''L4-PRIVESC-005'' HIGH (''Cron job manipulation ('' @ fo_operation op @ ''): '' @ fo_path op)
         (fo_path op) (op_evidence op))
       (filter (\<lambda>op. is_write op \<and>
           (contains ''/etc/cron'' (lower (fo_path op))
            \<or> list_ex (\<lambda>pre. starts_with pre (lower (fo_path op))) [''/var/spool/cron'', ''/var/cron''])) ops)"

definition detect_privilege_escalation :: "behavioral_profile \<Rightarrow> sandbox_finding list" where
  "detect_privilege_escalation p =
     concat (map privileged_path_op (bp_fs_ops p)) @
     spawn_findings ''L4-PRIVESC-002'' HIGH (\<lambda>sp. exe_base (ps_executable sp) \<in> set PRIV_ESC_BINARIES)
       (\<lambda>sp. ''Privilege escalation binary spawned: '' @ ps_executable sp) (bp_spawns p) @
     setuid_findings (bp_fs_ops p) @
     spawn_findings ''L4-PRIVESC-004'' HIGH
       (\<lambda>sp. list_ex (\<lambda>kw. contains kw (lower (ps_executable sp)) \<or> contains kw (args_lower sp)) cap_keywords)
       (\<lambda>sp. ''Linux capabilities manipulation: '' @ ps_executable sp @ '' '' @ repr_list (take 3 (ps_args sp))) (bp_spawns p) @
     cron_findings (bp_fs_ops p)"

section \<open>Processes\<close>

definition FORBIDDEN_SHELL_COMMANDS :: "string list" where
  "FORBIDDEN_SHELL_COMMANDS = [''bash'', ''sh'', ''zsh'', ''fish'', ''dash'', ''ksh'', ''csh'', ''tcsh'', ''cmd.exe'', ''powershell.exe'', ''pwsh.exe'']"

definition REVERSE_SHELL_INDICATORS :: "string list" where
  "REVERSE_SHELL_INDICATORS = [''nc'', ''ncat'', ''netcat'', ''socat'', ''nmap'', ''telnet'', ''cryptcat'', ''sbd'']"

definition process_spawn_findings :: "process_spawn \<Rightarrow> sandbox_finding list" where
  "process_spawn_findings sp =
     (let exe = ps_executable sp; ev = [(''executable'', JStr exe), (''args'', str_args (ps_args sp))] in
      (if exe_base exe \<in> set FORBIDDEN_SHELL_COMMANDS then
         [new_finding ''L4-PROC-001'' HIGH (''Shell spawned during execution: '' @ exe) exe ev] else []) @
      (if exe_base exe \<in> set REVERSE_SHELL_INDICATORS then
         [new_finding ''L4-PROC-002'' CRITICAL (''Reverse shell / C2 tool spawned: '' @ exe) exe ev] else []))"

definition detect_process_anomalies :: "behavioral_profile \<Rightarrow> (string, l4_baseline) pydict \<Rightarrow> sandbox_finding list py_result" where
  "detect_process_anomalies p baselines =
     (let n = int (length (bp_spawns p)) in
      bindE (best_of p baselines) (\<lambda>best. Inr
        (concat (map process_spawn_findings (bp_spawns p)) @
         (if n > 10 then
            [new_finding ''L4-PROC-003'' MEDIUM (''Excessive process spawning: '' @ show_int n @ '' processes spawned'') (bp_package p)
               [(''spawn_count'', JInt n), (''executables'', str_args (take 10 (map ps_executable (bp_spawns p))))]]
          else []) @
         (case best of
            None \<Rightarrow> []
          | Some (b, d) \<Rightarrow>
              let extras = n - max (bl_expected_spawns b) 0 in
              if dr_spawn_drift d \<and> extras > 3 then
                [new_finding ''L4-PROC-004'' MEDIUM (''Process spawn count exceeds baseline by '' @ show_int extras) (bp_package p)
                   [(''spawn_count'', JInt n), (''baseline_expected'', JInt (bl_expected_spawns b))]]
              else []))))"

section \<open>Entropy\<close>

definition shannon_entropy :: "(pyfloat \<Rightarrow> pyfloat) \<Rightarrow> string \<Rightarrow> pyfloat" where
  "shannon_entropy log2 data =
     (if data = '''' then 0
      else let counts = foldl (\<lambda>d c. count_key c d) [] data; n = of_nat (length data)
           in foldl (\<lambda>entropy count. let q = of_int count / n in entropy - q * log2 q) 0 (dvals counts))"

definition entropy_op :: "(pyfloat \<Rightarrow> pyfloat) \<Rightarrow> (pyfloat \<Rightarrow> string) \<Rightarrow> (pyfloat \<Rightarrow> pyfloat) \<Rightarrow> file_operation \<Rightarrow> sandbox_finding list" where
  "entropy_op log2 fixed1 round2 op =
     (let name = (if CHR ''/'' \<in> set (fo_path op) then last (split_on CHR ''/'' (fo_path op)) else fo_path op);
          ent = shannon_entropy log2 name
      in if ent > 45 / 10 \<and> length name > 10 then
           [new_finding ''L4-ENTROPY-001'' MEDIUM (''High-entropy filename ('' @ fixed1 ent @ '' bits): '' @ name) (fo_path op)
              [(''entropy'', JFloat (round2 ent)), (''path'', JStr (fo_path op))]]
         else [])"

definition entropy_dns :: "(pyfloat \<Rightarrow> pyfloat) \<Rightarrow> (pyfloat \<Rightarrow> string) \<Rightarrow> (pyfloat \<Rightarrow> pyfloat) \<Rightarrow> dns_query \<Rightarrow> sandbox_finding list" where
  "entropy_dns log2 fixed1 round2 q =
     (let host_part = hd (split_on CHR ''.'' (dq_hostname q)); ent = shannon_entropy log2 host_part
      in if length host_part > 20 \<and> ent > 35 / 10 then
           [new_finding ''L4-ENTROPY-002'' HIGH
              (''High-entropy DNS query ('' @ fixed1 ent @ '' bits): '' @ dq_hostname q @ '' '' @ em_dash @ '' possible DGA or encoded C2'')
              (dq_hostname q) [(''entropy'', JFloat (round2 ent)), (''hostname'', JStr (dq_hostname q))]]
         else [])"

definition detect_entropy_anomalies ::
  "(pyfloat \<Rightarrow> pyfloat) \<Rightarrow> (pyfloat \<Rightarrow> string) \<Rightarrow> (pyfloat \<Rightarrow> pyfloat) \<Rightarrow> behavioral_profile \<Rightarrow> sandbox_finding list" where
  "detect_entropy_anomalies log2 fixed1 round2 p =
     concat (map (entropy_op log2 fixed1 round2) (bp_fs_ops p)) @ concat (map (entropy_dns log2 fixed1 round2) (bp_dns_queries p))"

section \<open>Supply chain\<close>

definition hex_escape :: regex where
  "hex_escape = seqs [lit [CHR 0x5C, CHR ''x''], Cls hex_lower, Cls hex_lower]"

definition OBFUSCATION_PATTERNS :: "(regex \<times> string) list" where
  "OBFUSCATION_PATTERNS =
     [(hex_escape, ''hex-escape sequence''),
      (Seq (lit [CHR 0x5C, CHR ''u'']) (copies 4 (Cls hex_lower)), ''unicode-escape sequence''),
      (lit ''atob('', ''base64 decode (browser)''),
      (seqs [lit ''Buffer.from('', one_or_more dot, lit '','', Star space, quote_mark, lit ''base64'', quote_mark], ''Node.js base64 decode''),
      (lit ''eval(atob('', ''eval of base64-decoded string''),
      (seqs [lit ''Function('', at_least 20 dot, lit '')''], ''Function constructor with long body''),
      (seqs [hex_escape, one_or_more dot, hex_escape, one_or_more dot, hex_escape], ''multiple hex escapes'')]"

definition INSTALL_EXEC_PATTERNS :: "(regex \<times> string) list" where
  "INSTALL_EXEC_PATTERNS =
     [(seqs [lit ''curl'', one_or_more space, one_or_more nonspace, Star space, lit ''|'', Star space, alts [lit ''sh'', lit ''bash'', lit ''zsh'']],
         ''pipelined remote script execution''),
      (seqs [lit ''wget'', one_or_more space, one_or_more nonspace, Star space, lit ''-O'', Star space, one_or_more nonspace, Star space,
             lit ''&&'', Star space, alts [lit ''sh'', lit ''bash'']], ''download-and-execute''),
      (seqs [lit ''python'', one_or_more space, lit ''-c'', one_or_more space, quote_mark, lit ''import'', one_or_more space, lit ''urllib''],
         ''inline Python HTTP fetch''),
      (seqs [lit ''node'', one_or_more space, lit ''-e'', one_or_more space, quote_mark, lit ''require('', quote_mark, lit ''http'',
             maybe (lit ''s''), quote_mark], ''inline Node.js HTTP fetch''),
      (seqs [lit ''npm'', one_or_more space, lit ''publish''], ''npm publish from sandbox''),
      (seqs [lit ''pip'', one_or_more space, lit ''upload''], ''pip upload from sandbox''),
      (seqs [lit ''git'', one_or_more space, lit ''push''], ''git push from sandbox'')]"

definition supply_chain_spawn :: "process_spawn \<Rightarrow> sandbox_finding list" where
  "supply_chain_spawn sp =
     (let args_str = join_with '' '' (ps_args sp) in
      (case find (\<lambda>(pattern, _). re_search pattern args_str) OBFUSCATION_PATTERNS of
         None \<Rightarrow> []
       | Some (_, description) \<Rightarrow>
           [new_finding ''L4-SC-001'' HIGH (''Obfuscated payload in spawn args ('' @ description @ ''): '' @ ps_executable sp)
              (ps_executable sp) (spawn_evidence sp @ [(''pattern'', JStr description)])]) @
      map (\<lambda>(_, description). new_finding ''L4-SC-002'' CRITICAL (''Remote code execution pattern: '' @ description)
          (ps_executable sp) (spawn_evidence sp @ [(''pattern'', JStr description)]))
        (filter (\<lambda>(pattern, _). re_search pattern args_str) INSTALL_EXEC_PATTERNS))"

definition zero_baseline :: "behavioral_profile \<Rightarrow> l4_baseline \<Rightarrow> sandbox_finding list" where
  "zero_baseline p b =
     (let calls = int (length (bp_network_calls p)); spawns = int (length (bp_spawns p)) in
      (if bl_expected_network_calls b = 0 \<and> calls > 0 then
         [new_finding ''L4-SC-003'' HIGH (''Network activity in zero-network baseline: '' @ show_int calls @ '' connections detected'')
            (bp_package p) [(''network_call_count'', JInt calls), (''baseline'', JStr (bl_name b)), (''baseline_expected_network_calls'', JInt 0)]]
       else []) @
      (if bl_expected_spawns b = 0 \<and> spawns > 0 then
         [new_finding ''L4-SC-004'' HIGH (''Process spawning in zero-spawn baseline: '' @ show_int spawns @ '' spawns detected'')
            (bp_package p) [(''spawn_count'', JInt spawns), (''baseline'', JStr (bl_name b)), (''baseline_expected_spawns'', JInt 0)]]
       else []))"

definition suspicious_keywords :: "string list" where
  "suspicious_keywords = [''pastebin'', ''webhook'', ''ipify'', ''ifconfig'', ''whatismyip'', ''checkip'']"

definition detect_supply_chain_patterns :: "behavioral_profile \<Rightarrow> (string, l4_baseline) pydict \<Rightarrow> sandbox_finding list py_result" where
  "detect_supply_chain_patterns p baselines =
     bindE (best_of p baselines) (\<lambda>best. Inr
       (concat (map supply_chain_spawn (bp_spawns p)) @
        (case best of None \<Rightarrow> [] | Some (b, _) \<Rightarrow> zero_baseline p b) @
        concat (map (\<lambda>q. map (\<lambda>keyword. new_finding ''L4-SC-005'' HIGH (''Suspicious DNS query during execution: '' @ dq_hostname q)
              (dq_hostname q) [(''hostname'', JStr (dq_hostname q)), (''keyword'', JStr keyword)])
            (filter (\<lambda>keyword. contains keyword (lower (dq_hostname q))) suspicious_keywords)) (bp_dns_queries p))))"

section \<open>Dependency confusion\<close>

definition SUSPICIOUS_REGISTRY_HOSTS :: "string list" where
  "SUSPICIOUS_REGISTRY_HOSTS = [''npm.company'', ''npm.internal'', ''npm.local'', ''pypi.company'', ''pypi.internal'', ''pypi.local'',
     ''artifactory.internal'', ''nexus.internal'', ''gems.internal'']"

definition SUSPICIOUS_REGISTRY_ARG_PATTERNS :: "string list" where
  "SUSPICIOUS_REGISTRY_ARG_PATTERNS = [''--registry='', ''--registry '', ''--index-url='', ''--index-url '', ''--extra-index-url='',
     ''--extra-index-url '', ''npm_config_registry'', ''PYPI_INDEX_URL'', ''pip.conf'']"

definition SUSPICIOUS_INSTALL_PATTERNS :: "string list" where
  "SUSPICIOUS_INSTALL_PATTERNS = [''git+http://'', ''git+https://github.com/'', ''http://'', ''ftp://'', ''file:///'', ''/tmp/'', ''dev/null'']"

definition registry_dns :: "dns_query \<Rightarrow> sandbox_finding list" where
  "registry_dns q =
     (let host = dq_hostname q in
      map (\<lambda>pattern. new_finding ''L4-DEP-001'' HIGH (''DNS query to suspicious registry: '' @ host) host
          [(''hostname'', JStr host), (''pattern'', JStr pattern)])
        (filter (\<lambda>pattern. contains pattern (lower host)) SUSPICIOUS_REGISTRY_HOSTS) @
      (if list_ex (\<lambda>suffix. ends_with suffix (lower host)) [''.local'', ''.internal''] then
         [new_finding ''L4-DEP-001'' HIGH (''DNS query to internal TLD: '' @ host) host [(''hostname'', JStr host)]]
       else []))"

definition publish_findings :: "process_spawn \<Rightarrow> sandbox_finding list" where
  "publish_findings sp =
     (let base = exe_base (ps_executable sp) in
      (if base \<in> {''twine'', ''gem'', ''cargo''} \<and> (contains ''upload'' (args_lower sp) \<or> contains ''publish'' (args_lower sp)) then
         [new_finding ''L4-DEP-002'' CRITICAL (''Package publish command during install: '' @ command_line sp)
            (ps_executable sp) (spawn_evidence sp)]
       else []) @
      (if base = ''npm'' \<and> contains ''publish'' (args_lower sp) then
         [new_finding ''L4-DEP-002'' CRITICAL (''npm publish command during install: '' @ command_line sp)
            (ps_executable sp) (spawn_evidence sp)]
       else []))"

definition install_url_findings :: "process_spawn \<Rightarrow> sandbox_finding list" where
  "install_url_findings sp =
     (let base = exe_base (ps_executable sp); all_args = join_with '' '' (ps_args sp) in
      (if base \<in> {''pip'', ''pip3'', ''python'', ''python3''} then
         (case find (\<lambda>pattern. contains pattern all_args) SUSPICIOUS_INSTALL_PATTERNS of
            None \<Rightarrow> []
          | Some pattern \<Rightarrow>
              [new_finding ''L4-DEP-003'' HIGH
                 (''Suspicious package install URL: '' @ rstrip_by (\<lambda>c. c = CHR ''='') pattern @ '' in '' @ ps_executable sp)
                 (ps_executable sp) (spawn_evidence sp @ [(''pattern'', JStr pattern)])])
       else []) @
      (if base = ''npm'' \<and> contains ''http://'' all_args then
         [new_finding ''L4-DEP-003'' MEDIUM (''npm install over HTTP (insecure): '' @ ps_executable sp) (ps_executable sp) (spawn_evidence sp)]
       else []))"

definition registry_override_findings :: "process_spawn \<Rightarrow> sandbox_finding list" where
  "registry_override_findings sp =
     map (\<lambda>pattern. new_finding ''L4-DEP-004''
         (if list_ex (\<lambda>hint. contains hint (args_lower sp)) [''.internal'', ''.local'', ''company'', ''http://''] then HIGH else MEDIUM)
         (''Registry override attempt: '' @ pattern @ '' in '' @ ps_executable sp) (ps_executable sp)
         (spawn_evidence sp @ [(''pattern'', JStr pattern)]))
       (filter (\<lambda>pattern. contains (lower pattern) (args_lower sp)) SUSPICIOUS_REGISTRY_ARG_PATTERNS)"

definition registry_keywords :: "string list" where
  "registry_keywords = [''pypi'', ''npmjs'', ''npm'', ''registry'', ''rubygems'', ''crates'', ''maven'', ''nuget'', ''packagist'']"

definition registry_port_findings :: "network_call list \<Rightarrow> sandbox_finding list" where
  "registry_port_findings calls =
     map (\<lambda>c. new_finding ''L4-DEP-005'' MEDIUM (''Registry connection on non-standard port: '' @ endpoint c) (endpoint c) (call_evidence c))
       (filter (\<lambda>c. nc_port c \<notin> {0, 22, 80, 443} \<and> nc_port c > 0
           \<and> list_ex (\<lambda>kw. contains kw (lower (nc_address c))) registry_keywords) calls)"

definition is_config_path :: "string \<Rightarrow> bool" where
  "is_config_path path \<longleftrightarrow>
     list_ex (\<lambda>suffix. ends_with suffix (lower path)) [''.npmrc'', ''pip.conf''] \<or> contains ''pip.ini'' (lower path)"

definition config_op :: "file_operation \<Rightarrow> sandbox_finding list" where
  "config_op op =
     (if is_write op \<and> is_config_path (fo_path op) then
        [new_finding ''L4-DEP-006'' HIGH (''Package registry config modification ('' @ fo_operation op @ ''): '' @ fo_path op)
           (fo_path op) (op_evidence op)]
      else if fo_operation op = ''read'' \<and> is_config_path (fo_path op) then
        [new_finding ''L4-DEP-006'' LOW (''Package registry config read: '' @ fo_path op) (fo_path op) (op_evidence op)]
      else [])"

definition detect_dependency_confusion :: "behavioral_profile \<Rightarrow> sandbox_finding list" where
  "detect_dependency_confusion p =
     concat (map registry_dns (bp_dns_queries p)) @
     concat (map publish_findings (bp_spawns p)) @
     concat (map install_url_findings (bp_spawns p)) @
     concat (map registry_override_findings (bp_spawns p)) @
     registry_port_findings (bp_network_calls p) @
     concat (map config_op (bp_fs_ops p))"

section \<open>Severity of a container escape\<close>

text \<open>
  On an operation that modifies a path of the container escape table, the rule never reports
  CRITICAL: an entry the table calls CRITICAL is reported HIGH, and one it calls MEDIUM or INFO keeps its
  severity. Reading the same path reports the severity of the table. The comparison of the severities'
  names orders CRITICAL below HIGH below MEDIUM.
\<close>

lemma escape_write_severity:
  assumes "fo_operation op \<in> {''write'', ''create'', ''delete'', ''chmod'', ''chown''}"
  shows "map sf_severity (escape_path_findings op) =
      map (\<lambda>(_, _, severity). if severity = CRITICAL then HIGH else severity)
        (filter (\<lambda>(esc_path, _, _). starts_with esc_path (fo_path op)) ESCAPE_PATHS)
    \<and> map sf_severity (escape_path_findings (op\<lparr>fo_operation := ''read''\<rparr>)) =
      map (\<lambda>(_, _, severity). severity) (filter (\<lambda>(esc_path, _, _). starts_with esc_path (fo_path op)) ESCAPE_PATHS)"
proof -
  have self: "starts_with s s" for s by (simp add: starts_with_def)
  have hit: "(fo_path op = esc_path \<or> starts_with esc_path (fo_path op)) = starts_with esc_path (fo_path op)" for esc_path
    using self by auto
  have lowered: "escape_severity (fo_operation op) esc_path sev = (if sev = CRITICAL then HIGH else sev)" for esc_path sev
    using assms by (cases sev) (auto simp: escape_severity_def less_char_def)
  have reading: "escape_severity ''read'' esc_path sev = sev" if "(esc_path, d, sev) \<in> set ESCAPE_PATHS" for esc_path d sev
    using that by (auto simp: escape_severity_def ESCAPE_PATHS_def)
  show ?thesis using reading
    by (auto simp: escape_path_findings_def hit lowered new_finding_def case_prod_unfold comp_def)
qed

lemma escape_write_severity_witness:
  "map sf_severity (escape_path_findings \<lparr>fo_path = ''/run/docker.sock'', fo_operation = ''write'', fo_success = True,
       fo_bytes_transferred = 0, fo_timestamp_ms = 0, fo_mode = ''''\<rparr>) = [HIGH]
   \<and> map sf_severity (escape_path_findings \<lparr>fo_path = ''/run/docker.sock'', fo_operation = ''read'', fo_success = True,
       fo_bytes_transferred = 0, fo_timestamp_ms = 0, fo_mode = ''''\<rparr>) = [CRITICAL]"
  using escape_write_severity [of "\<lparr>fo_path = ''/run/docker.sock'', fo_operation = ''write'', fo_success = True,
       fo_bytes_transferred = 0, fo_timestamp_ms = 0, fo_mode = ''''\<rparr>"]
  by (simp add: ESCAPE_PATHS_def)

section \<open>Setuid modes\<close>

definition octal_char :: "char \<Rightarrow> bool" where
  "octal_char c \<longleftrightarrow> 48 \<le> (of_char c :: nat) \<and> of_char c < (56 :: nat)"

definition octal_nat :: "string \<Rightarrow> nat" where
  "octal_nat s = foldl (\<lambda>v c. 8 * v + (of_char c - 48)) 0 s"

lemma octal_foldl_None: "foldl octal_step None s = None"
  by (induction s) (simp_all add: octal_step_def)

lemma octal_foldl:
  "foldl octal_step (Some v) s = (if list_all octal_char s then Some (foldl (\<lambda>v c. 8 * v + (of_char c - 48)) v s) else None)"
  by (induction s arbitrary: v) (simp_all add: octal_step_def octal_char_def octal_foldl_None)

lemma octal_value_eq: "octal_value s = (if list_all octal_char s then Some (octal_nat s) else None)"
  by (simp add: octal_value_def octal_foldl octal_nat_def)

lemma octal_nat_snoc: "octal_nat (s @ [c]) = 8 * octal_nat s + (of_char c - 48)"
  by (simp add: octal_nat_def)

lemma octal_nat_bound: "list_all octal_char s \<Longrightarrow> octal_nat s < 8 ^ length s"
proof (induction s rule: rev_induct)
  case (snoc c s)
  then have "octal_nat s < 8 ^ length s" "(of_char c :: nat) - 48 < 8" by (auto simp: octal_char_def)
  then show ?case by (simp add: octal_nat_snoc)
qed (simp add: octal_nat_def)

lemma octal_isdigit: "list_all octal_char s \<Longrightarrow> s \<noteq> [] \<Longrightarrow> isdigit s"
  by (auto simp: isdigit_def octal_char_def list_all_iff)

lemma length_4: "length xs = 4 \<Longrightarrow> \<exists>a b c d. xs = [a, b, c, d]"
  by (auto simp: numeral_eq_Suc length_Suc_conv)

lemma setuid_mask: "(v :: nat) AND (SETUID_BIT OR SETGID_BIT) \<noteq> 0 \<longleftrightarrow> odd (v div 1024) \<or> odd (v div 2048)"
proof -
  have eqs: "SETUID_BIT = 2 ^ 11" "SETGID_BIT = 2 ^ 10" by (simp_all add: SETUID_BIT_def SETGID_BIT_def)
  have pow: "bit (2 ^ m :: nat) n \<longleftrightarrow> m = n" for m n by (auto simp: bit_exp_iff)
  have "bit (v AND (SETUID_BIT OR SETGID_BIT)) n \<longleftrightarrow> bit v n \<and> (11 = n \<or> 10 = n)" for n
    by (simp only: eqs bit_and_iff bit_or_iff pow)
  then have "v AND (SETUID_BIT OR SETGID_BIT) \<noteq> 0 \<longleftrightarrow> bit v 10 \<or> bit v 11"
    by (metis bit_0_eq bit_eqI bot_apply bot_bool_def)
  then show ?thesis by (simp add: bit_iff_odd)
qed

lemma setuid_digit:
  assumes "list_all octal_char (s @ [d, x, y, z])"
  shows "octal_nat (s @ [d, x, y, z]) AND (SETUID_BIT OR SETGID_BIT) \<noteq> 0 \<longleftrightarrow> d \<notin> {CHR ''0'', CHR ''1''}"
proof -
  define k where "k = (of_char d :: nat) - 48"
  have d: "k < 8" "(of_char x :: nat) - 48 < 8" "(of_char y :: nat) - 48 < 8" "(of_char z :: nat) - 48 < 8"
    using assms by (auto simp: octal_char_def k_def)
  define low where "low = 64 * ((of_char x :: nat) - 48) + 8 * (of_char y - 48) + (of_char z - 48)"
  have "octal_nat (s @ [d, x, y, z]) = 512 * (8 * octal_nat s + k) + low"
    by (simp add: octal_nat_def k_def low_def)
  moreover have "low < 512" using d by (simp add: low_def)
  ultimately have top: "octal_nat (s @ [d, x, y, z]) div 512 = 8 * octal_nat s + k" by simp
  have "octal_nat (s @ [d, x, y, z]) div 1024 = (8 * octal_nat s + k) div 2"
    "octal_nat (s @ [d, x, y, z]) div 2048 = (8 * octal_nat s + k) div 4"
    using div_mult2_eq [of "octal_nat (s @ [d, x, y, z])" 512 2] div_mult2_eq [of "octal_nat (s @ [d, x, y, z])" 512 4] top
    by simp_all
  moreover have "(8 * w + k) div 2 = 4 * w + k div 2" "(8 * w + k) div 4 = 2 * w + k div 4" for w by presburger+
  ultimately have "octal_nat (s @ [d, x, y, z]) div 1024 = 4 * octal_nat s + k div 2"
    "octal_nat (s @ [d, x, y, z]) div 2048 = 2 * octal_nat s + k div 4" by simp_all
  then have "octal_nat (s @ [d, x, y, z]) AND (SETUID_BIT OR SETGID_BIT) \<noteq> 0 \<longleftrightarrow> odd (k div 2) \<or> odd (k div 4)"
    unfolding setuid_mask by simp
  also have "\<dots> \<longleftrightarrow> 2 \<le> k" using d(1) by presburger
  also have "\<dots> \<longleftrightarrow> 50 \<le> (of_char d :: nat)" by (auto simp: k_def)
  also have "\<dots> \<longleftrightarrow> (of_char d :: nat) \<notin> {of_char CHR ''0'', of_char CHR ''1''}"
    using assms by (auto simp: octal_char_def)
  also have "\<dots> \<longleftrightarrow> d \<notin> {CHR ''0'', CHR ''1''}" using of_char_eq_iff by blast
  finally show ?thesis .
qed

text \<open>
  \<open>_is_setuid_mode\<close> is true exactly of the numeric modes, surrounded by white space or not, that
  consist of octal digits and whose fourth digit from the right carries the setuid or setgid bit, that
  is, is 2 or more; symbolic modes and strings with an 8 or 9 are refused without an error.
\<close>

lemma is_setuid_mode_exact:
  "is_setuid_mode mode \<longleftrightarrow>
     (let m = strip mode in list_all octal_char m \<and> 4 \<le> length m \<and> m ! (length m - 4) \<notin> {CHR ''0'', CHR ''1''})"
proof (cases "list_all octal_char (strip mode)")
  case oct: True
  let ?m = "strip mode"
  show ?thesis
  proof (cases "4 \<le> length ?m")
    case True
    then have "length (drop (length ?m - 4) ?m) = 4" by simp
    then obtain d x y z where last4: "drop (length ?m - 4) ?m = [d, x, y, z]"
      using length_4 by blast
    then have m: "?m = take (length ?m - 4) ?m @ [d, x, y, z]" by (metis append_take_drop_id)
    have "?m ! (length ?m - 4) = d" using last4 True hd_drop_conv_nth [of "length ?m - 4" ?m] by simp
    moreover have "octal_nat ?m AND (SETUID_BIT OR SETGID_BIT) \<noteq> 0 \<longleftrightarrow> d \<notin> {CHR ''0'', CHR ''1''}"
      using setuid_digit oct m by metis
    moreover have "?m \<noteq> []" using True by auto
    ultimately show ?thesis
      using oct True octal_isdigit [OF oct] by (auto simp: is_setuid_mode_def octal_value_eq Let_def)
  next
    case False
    then have "(8 :: nat) ^ length ?m \<le> 8 ^ 3" by (intro power_increasing) simp_all
    with octal_nat_bound [OF oct] have "octal_nat ?m < 512" by simp
    then have "\<not> octal_nat ?m AND (SETUID_BIT OR SETGID_BIT) \<noteq> 0" unfolding setuid_mask by simp
    with False oct show ?thesis by (simp add: is_setuid_mode_def octal_value_eq Let_def)
  qed
qed (simp add: is_setuid_mode_def octal_value_eq Let_def)


section \<open>Severity of a drift\<close>

definition drift_counts :: "behavioral_profile \<Rightarrow> l4_baseline list \<Rightarrow> int set" where
  "drift_counts p bs = {count_true (drift_flags d) |b d. b \<in> set bs \<and> applies_to p b \<and> compare_profile_to_baseline p b = Inr d}"

lemma drift_flags_length [simp]: "length (drift_flags d) = 5"
  by (simp add: drift_flags_def)

lemma drift_count_range: "0 \<le> count_true (drift_flags d) \<and> count_true (drift_flags d) \<le> 5"
  using count_true_bounds [of "drift_flags d"] by simp

lemma all_five: "(\<forall>x \<in> set (drift_flags d). x) \<longleftrightarrow> count_true (drift_flags d) = 5"
  using count_true_all [of "drift_flags d"] by simp

lemma score_thresholds:
  assumes "dr_score d = of_int (count_true (drift_flags d)) / 5"
  shows "dr_score d \<ge> 8 / 10 \<longleftrightarrow> count_true (drift_flags d) \<ge> 4" "dr_score d \<ge> 4 / 10 \<longleftrightarrow> count_true (drift_flags d) \<ge> 2"
proof -
  have "(8 / 10 :: pyfloat) = of_int 4 / 5" "(4 / 10 :: pyfloat) = of_int 2 / 5" by simp_all
  then show "dr_score d \<ge> 8 / 10 \<longleftrightarrow> count_true (drift_flags d) \<ge> 4" "dr_score d \<ge> 4 / 10 \<longleftrightarrow> count_true (drift_flags d) \<ge> 2"
    unfolding assms by (simp_all add: divide_le_cancel)
qed

text \<open>
  The severity the drift rule reports, in terms of the number of counts (network, DNS, files,
  processes, time) on which the run misses the closest of the baselines that apply: nothing for one or
  none, MEDIUM for two or three, CRITICAL for four, but INFO, as if no baseline applied, for all five.
\<close>

lemma drift_rule_severity:
  assumes "detect_baseline_drift p baselines = Inr fs" and "baselines \<noteq> []"
  shows "map sf_severity fs =
    (let k = Min (insert 5 (drift_counts p (dvals baselines)))
     in if k = 5 then [INFO] else if k = 4 then [CRITICAL] else if 2 \<le> k then [MEDIUM] else [])"
proof -
  let ?D = "drift_counts p (dvals baselines)"
  obtain r where r: "find_best_baseline p baselines = Inr r"
    using assms by (auto simp: detect_baseline_drift_def bindE_eq_Inr)
  have "?D \<subseteq> {0..5}" using drift_count_range by (auto simp: drift_counts_def)
  then have fin: "finite ?D" by (rule finite_subset) simp
  show ?thesis
  proof (cases r)
    case None
    then have "?D \<subseteq> {5}" using best_baseline_closest [OF r] unfolding drift_counts_def by (fastforce simp: all_five)
    then have "insert 5 ?D = {5}" by blast
    moreover have "map sf_severity fs = [INFO]"
      using assms unfolding detect_baseline_drift_def r None by (auto simp: bindE_def new_finding_def)
    ultimately show ?thesis by (simp only: Min_singleton Let_def if_True refl)
  next
    case (Some bd)
    obtain b d where bd: "bd = (b, d)" by (cases bd)
    let ?k = "count_true (drift_flags d)"
    have best: "b \<in> set (dvals baselines)" "applies_to p b" "compare_profile_to_baseline p b = Inr d"
      and score: "dr_score d = of_int ?k / 5" and less: "dr_score d < 1"
      and least: "\<And>b' d'. b' \<in> set (dvals baselines) \<Longrightarrow> applies_to p b' \<Longrightarrow> compare_profile_to_baseline p b' = Inr d'
        \<Longrightarrow> dr_score d \<le> dr_score d'"
      using best_baseline_closest [OF r, unfolded Some bd option.case prod.case] by (blast, blast, blast, blast, blast, metis Inr_inject)
    have "?k \<le> count_true (drift_flags d')"
      if "b' \<in> set (dvals baselines)" "applies_to p b'" "compare_profile_to_baseline p b' = Inr d'" for b' d'
      using least [OF that] score compare_score(1) [OF that(3)] by (simp add: divide_le_cancel)
    moreover have "?k < 5" using score less by simp
    ultimately have "Min (insert 5 ?D) = ?k"
      using fin best by (intro Min_eqI) (auto simp: drift_counts_def)
    moreover have "fs = (if ?k \<ge> 4 then [new_finding ''L4-BASE-002'' CRITICAL (drift_message ''Severe'' b d) (bp_package p) (drift_evidence b d)]
        else if ?k \<ge> 2 then [new_finding ''L4-BASE-003'' MEDIUM (drift_message ''Moderate'' b d) (bp_package p) (drift_evidence b d)] else [])"
      using assms(1) unfolding detect_baseline_drift_def r Some bd
      by (simp only: assms(2) if_False bindE_def sum.case option.case prod.case sum.inject score_thresholds [OF score])
    ultimately show ?thesis using \<open>?k < 5\<close> by (simp add: Let_def new_finding_def)
  qed
qed

definition drifting_profile :: "int \<Rightarrow> behavioral_profile" where
  "drifting_profile ms = (idle_profile ''x'' ms)\<lparr>
     bp_network_calls := [\<lparr>nc_address = ''198.51.100.7'', nc_port = 443, nc_protocol = ''tcp'', nc_bytes_sent = 0, nc_bytes_received = 0, nc_timestamp_ms = 0\<rparr>],
     bp_dns_queries := [\<lparr>dq_hostname = ''example.org'', dq_resolved_ips = [], dq_timestamp_ms = 0\<rparr>],
     bp_fs_ops := [\<lparr>fo_path = ''/data/a'', fo_operation = ''read'', fo_success = True, fo_bytes_transferred = 0, fo_timestamp_ms = 0, fo_mode = ''''\<rparr>],
     bp_spawns := [\<lparr>ps_executable = ''ls'', ps_args = [], ps_pid = 1, ps_exit_code = None, ps_timestamp_ms = 0\<rparr>]\<rparr>"

definition strict_baseline :: l4_baseline where
  "strict_baseline = \<lparr>bl_name = ''s'', bl_package = ''x'', bl_version = '''', bl_expected_network_calls = 0, bl_expected_dns_queries = 0,
     bl_expected_fs_ops = 0, bl_expected_spawns = 0, bl_expected_runtime_ms_range = [10, 100], bl_allowed_domains = [],
     bl_allowed_paths = [], bl_notes = ''''\<rparr>"

lemma drifting_compare:
  "compare_profile_to_baseline (drifting_profile ms) strict_baseline = Inr (drift_of (drifting_profile ms) strict_baseline 10 100 None)"
  by (simp add: compare_profile_to_baseline_def strict_baseline_def stray_domain_def bindE_def)

lemma drifting_flags:
  "drift_flags (drift_of (drifting_profile ms) strict_baseline 10 100 None) = [True, True, True, True, ms < 10 \<or> 100 < ms]"
  by (simp add: drift_flags_def drift_of_def exceeds_def timing_out_def Let_def strict_baseline_def drifting_profile_def idle_profile_def)

lemma drifting_counts:
  "drift_counts (drifting_profile ms) (dvals [(''s'', strict_baseline)]) = {if ms < 10 \<or> 100 < ms then 5 else 4}"
proof -
  have "applies_to (drifting_profile ms) strict_baseline"
    by (simp add: applies_to_def strict_baseline_def drifting_profile_def idle_profile_def)
  then show ?thesis by (auto simp: drift_counts_def drifting_compare drifting_flags count_true_def)
qed

lemma drifting_returns: "\<exists>fs. detect_baseline_drift (drifting_profile ms) [(''s'', strict_baseline)] = Inr fs"
  by (simp add: detect_baseline_drift_def find_best_baseline_def drifting_compare bindE_def)

lemma drift_rule_severity_witness:
  "(\<exists>fs. detect_baseline_drift (drifting_profile 50) [(''s'', strict_baseline)] = Inr fs \<and> map sf_severity fs = [CRITICAL]) \<and>
   (\<exists>fs. detect_baseline_drift (drifting_profile 500) [(''s'', strict_baseline)] = Inr fs \<and> map sf_severity fs = [INFO])"
proof -
  obtain fs fs' where fs: "detect_baseline_drift (drifting_profile 50) [(''s'', strict_baseline)] = Inr fs"
    "detect_baseline_drift (drifting_profile 500) [(''s'', strict_baseline)] = Inr fs'"
    using drifting_returns by blast
  show ?thesis using drift_rule_severity [OF fs(1)] drift_rule_severity [OF fs(2)] fs
    by (simp add: drifting_counts del: list.map)
qed

end
