(* ===== verification/L4_Engine.thy ===== *)
theory L4_Engine
  imports L4_Rules
begin

text \<open>
  The engine of the behavioural layer (\<open>src/picosentry/sandbox/l4/engine.py\<close>): a registry of detectors, the
  run of the selected ones with each detector's exceptions contained, the counts and the verdict. A
  detector takes the profile, and the baselines too when its signature has a second parameter.
\<close>

section \<open>Definitions\<close>

datatype detector =
    Unary "behavioral_profile \<Rightarrow> sandbox_finding list py_result"
  | Binary "behavioral_profile \<Rightarrow> (string, l4_baseline) pydict \<Rightarrow> sandbox_finding list py_result"

type_synonym l4_engine = "(string, detector) pydict"

record analysis_result =
  ar_target :: string
  ar_findings :: "sandbox_finding list"
  ar_profile :: "behavioral_profile option"
  ar_drift_results :: "drift_result list"
  ar_overall_verdict :: behavioral_verdict
  ar_stats :: scan_stats


definition unregister_rule :: "string \<Rightarrow> l4_engine \<Rightarrow> l4_engine" where
  "unregister_rule rule_id engine = dpop rule_id engine"

definition list_rules :: "l4_engine \<Rightarrow> string list" where
  "list_rules engine = sort (map fst engine)"

definition selected_rules :: "l4_engine \<Rightarrow> string list option \<Rightarrow> l4_engine" where
  "selected_rules engine rules =
     (case rules of
        None \<Rightarrow> engine
      | Some ids \<Rightarrow> if ids = [] then engine else filter (\<lambda>(k, _). k \<in> set ids) engine)"

fun run_rule :: "behavioral_profile \<Rightarrow> (string, l4_baseline) pydict \<Rightarrow> detector \<Rightarrow> sandbox_finding list py_result" where
  "run_rule p baselines (Unary f) = f p"
| "run_rule p baselines (Binary f) = f p baselines"

text \<open>A detector that raises is logged and contributes nothing.\<close>

definition run_contained :: "behavioral_profile \<Rightarrow> (string, l4_baseline) pydict \<Rightarrow> detector \<Rightarrow> sandbox_finding list" where
  "run_contained p baselines rule = (case run_rule p baselines rule of Inl _ \<Rightarrow> [] | Inr fs \<Rightarrow> fs)"

text \<open>In the non-deterministic form every finding without an identifier gets the next fresh one.\<close>

fun fill_ids :: "string list \<Rightarrow> sandbox_finding list \<Rightarrow> sandbox_finding list" where
  "fill_ids ids [] = []"
| "fill_ids ids (f # fs) =
     (if sf_finding_id f = '''' then f\<lparr>sf_finding_id := hd ids\<rparr> # fill_ids (tl ids) fs else f # fill_ids ids fs)"

definition compute_verdict :: "sandbox_finding list \<Rightarrow> behavioral_verdict" where
  "compute_verdict fs =
     (if fs = [] then CLEAN
      else if list_ex (\<lambda>f. sf_severity f \<in> {CRITICAL, HIGH}) fs then MALICIOUS
      else if list_ex (\<lambda>f. sf_severity f = MEDIUM) fs then SUSPICIOUS
      else CLEAN)"

definition empty_stats :: scan_stats where
  "empty_stats = \<lparr>packages_scanned = 0, files_scanned = 0, duration_ms = 0, by_severity = [], by_rule = [], rule_timings = []\<rparr>"

definition finding_stats :: "int \<Rightarrow> sandbox_finding list \<Rightarrow> scan_stats" where
  "finding_stats duration fs = empty_stats\<lparr>duration_ms := duration,
     by_severity := foldl (\<lambda>d f. count_key (severity_value (sf_severity f)) d) [] fs,
     by_rule := foldl (\<lambda>d f. count_key (sf_rule_id f) d) [] fs\<rparr>"

text \<open>
  \<open>analyze\<close>: the registry of baselines, the two readings of the clock and the supply of fresh
  identifiers are arguments.
\<close>

definition engine_analyze :: "(string, l4_baseline) pydict \<Rightarrow> pyfloat \<Rightarrow> pyfloat \<Rightarrow> string list \<Rightarrow> l4_engine \<Rightarrow> behavioral_profile \<Rightarrow>
  (string, l4_baseline) pydict option \<Rightarrow> string list option \<Rightarrow> bool \<Rightarrow> analysis_result py_result" where
  "engine_analyze registry start_ms end_ms ids engine p baselines0 rules deterministic =
     (let baselines = (case baselines0 of None \<Rightarrow> load_all_baselines registry | Some bs \<Rightarrow> bs);
          selected = selected_rules engine rules
      in if selected = [] then
           Inr \<lparr>ar_target = bp_package p, ar_findings = [], ar_profile = Some p, ar_drift_results = [],
                ar_overall_verdict = CLEAN, ar_stats = empty_stats\<rparr>
         else
           (let found = concat (map (run_contained p baselines) (dvals selected));
                all_findings = (if deterministic then found else fill_ids ids found)
            in bindE (find_best_baseline p baselines) (\<lambda>best_match.
              Inr \<lparr>ar_target = bp_package p, ar_findings = all_findings, ar_profile = Some p,
                   ar_drift_results = (case best_match of None \<Rightarrow> [] | Some (_, drift) \<Rightarrow> [drift]),
                   ar_overall_verdict = compute_verdict all_findings,
                   ar_stats = finding_stats (py_int (end_ms - start_ms)) all_findings\<rparr>)))"



fun verdict_value :: "behavioral_verdict \<Rightarrow> string" where
  "verdict_value CLEAN = ''CLEAN''"
| "verdict_value SUSPICIOUS = ''SUSPICIOUS''"
| "verdict_value MALICIOUS = ''MALICIOUS''"

definition analysis_to_dict :: "bool \<Rightarrow> analysis_result \<Rightarrow> (string \<times> json) list" where
  "analysis_to_dict deterministic r =
     [(''drift_results'', JList (map (JObj \<circ> drift_to_dict) (ar_drift_results r))),
      (''findings'', JList (map (JObj \<circ> finding_dict deterministic) (ar_findings r))),
      (''overall_verdict'', JStr (verdict_value (ar_overall_verdict r))),
      (''profile'', opt_json (JObj \<circ> profile_to_dict deterministic) (ar_profile r)),
      (''stats'', stats_to_dict deterministic (ar_stats r)),
      (''target'', JStr (ar_target r))]"

section \<open>What an analysis reports\<close>

lemma fill_ids_keeps:
  "map sf_severity (fill_ids ids fs) = map sf_severity fs" "map sf_rule_id (fill_ids ids fs) = map sf_rule_id fs"
  by (induction ids fs rule: fill_ids.induct) simp_all

lemma compute_verdict_exact:
  "compute_verdict fs = (if \<exists>f \<in> set fs. sf_severity f \<in> {HIGH, CRITICAL} then MALICIOUS
     else if \<exists>f \<in> set fs. sf_severity f \<in> {MEDIUM} then SUSPICIOUS else CLEAN)"
  by (auto simp: compute_verdict_def list_ex_iff)

lemma compute_verdict_cong:
  assumes "map sf_severity fs = map sf_severity gs"
  shows "compute_verdict fs = compute_verdict gs"
proof -
  have ex: "(\<exists>f \<in> set hs. sf_severity f \<in> S) \<longleftrightarrow> (\<exists>s \<in> set (map sf_severity hs). s \<in> S)"
    for S and hs :: "sandbox_finding list" by simp
  show ?thesis unfolding compute_verdict_exact ex assms by (rule refl)
qed

lemma contained_findings:
  "f \<in> set (concat (map (run_contained p bs) rules)) \<longleftrightarrow> (\<exists>rule \<in> set rules. \<exists>fs. run_rule p bs rule = Inr fs \<and> f \<in> set fs)"
proof -
  have "f \<in> set (run_contained p bs rule) \<longleftrightarrow> (\<exists>fs. run_rule p bs rule = Inr fs \<and> f \<in> set fs)" for rule
    by (cases "run_rule p bs rule") (simp_all add: run_contained_def)
  then show ?thesis by simp
qed

lemma engine_analyze_eq:
  "engine_analyze registry t0 t1 ids engine p bs rules det =
     (let baselines = (case bs of None \<Rightarrow> registry | Some b \<Rightarrow> b); selected = selected_rules engine rules;
          found = concat (map (run_contained p baselines) (dvals selected)); fs = (if det then found else fill_ids ids found)
      in if selected = [] then Inr \<lparr>ar_target = bp_package p, ar_findings = [], ar_profile = Some p, ar_drift_results = [],
              ar_overall_verdict = CLEAN, ar_stats = empty_stats\<rparr>
         else case find_best_baseline p baselines of
             Inl e \<Rightarrow> Inl e
           | Inr best \<Rightarrow> Inr \<lparr>ar_target = bp_package p, ar_findings = fs, ar_profile = Some p,
               ar_drift_results = (case best of None \<Rightarrow> [] | Some (_, drift) \<Rightarrow> [drift]),
               ar_overall_verdict = compute_verdict fs, ar_stats = finding_stats (py_int (t1 - t0)) fs\<rparr>)"
  by (auto simp: engine_analyze_def load_all_baselines_def Let_def bindE_def split: sum.splits option.splits)

definition reported :: "behavioral_profile \<Rightarrow> (string, l4_baseline) pydict \<Rightarrow> detector list \<Rightarrow> severity set \<Rightarrow> bool" where
  "reported p bs rules S \<longleftrightarrow>
     (\<exists>rule \<in> set rules. \<exists>fs. run_rule p bs rule = Inr fs \<and> (\<exists>f \<in> set fs. sf_severity f \<in> S))"

lemma contained_reported:
  "reported p bs rules S \<longleftrightarrow> (\<exists>f \<in> set (concat (map (run_contained p bs) rules)). sf_severity f \<in> S)"
  unfolding reported_def Bex_def contained_findings [unfolded Bex_def] by blast

lemma engine_verdict:
  assumes "engine_analyze registry t0 t1 ids engine p (Some bs) rules det = Inr r"
  shows "ar_overall_verdict r =
    (if reported p bs (dvals (selected_rules engine rules)) {HIGH, CRITICAL} then MALICIOUS
     else if reported p bs (dvals (selected_rules engine rules)) {MEDIUM} then SUSPICIOUS else CLEAN)"
proof (cases "selected_rules engine rules = []")
  case True
  with assms show ?thesis by (auto simp: engine_analyze_eq Let_def reported_def)
next
  case False
  let ?found = "concat (map (run_contained p bs) (dvals (selected_rules engine rules)))"
  have "ar_overall_verdict r = compute_verdict (if det then ?found else fill_ids ids ?found)"
    using assms False by (auto simp: engine_analyze_eq Let_def split: sum.splits)
  also have "\<dots> = compute_verdict ?found" by (rule compute_verdict_cong) (simp add: fill_ids_keeps)
  finally show ?thesis unfolding compute_verdict_exact contained_reported .
qed

lemma run_contained_ids:
  "map sf_rule_id (run_contained p bs rule) = (case run_rule p bs rule of Inl _ \<Rightarrow> [] | Inr fs \<Rightarrow> map sf_rule_id fs)"
  by (cases "run_rule p bs rule") (simp_all add: run_contained_def)

lemma engine_rule_ids:
  assumes "engine_analyze registry t0 t1 ids engine p (Some bs) rules det = Inr r"
  shows "map sf_rule_id (ar_findings r) =
    concat (map (\<lambda>rule. case run_rule p bs rule of Inl _ \<Rightarrow> [] | Inr fs \<Rightarrow> map sf_rule_id fs) (dvals (selected_rules engine rules)))"
proof (cases "selected_rules engine rules = []")
  case True
  with assms show ?thesis by (auto simp: engine_analyze_eq Let_def)
next
  case False
  let ?found = "concat (map (run_contained p bs) (dvals (selected_rules engine rules)))"
  have "ar_findings r = (if det then ?found else fill_ids ids ?found)"
    using assms False by (auto simp: engine_analyze_eq Let_def split: sum.splits)
  then show ?thesis by (simp add: fill_ids_keeps map_concat comp_def run_contained_ids)
qed

lemma engine_error:
  assumes "engine_analyze registry t0 t1 ids engine p (Some bs) rules det = Inl e"
  shows "find_best_baseline p bs = Inl e"
  using assms by (auto simp: engine_analyze_eq Let_def split: if_splits sum.splits)

text \<open>
  C16. An analysis fails only when the search for the closest baseline fails, never because of a detector:
  one that raises contributes nothing and the others are unaffected. The verdict is MALICIOUS exactly
  when a selected detector that returns reports a HIGH or CRITICAL finding, SUSPICIOUS exactly when none
  does but one reports a MEDIUM finding, and CLEAN otherwise, in the deterministic form and with fresh
  identifiers alike; and the rule ids are those reported, in the order of registration.
\<close>

theorem engine_analyze_exact:
  "case engine_analyze registry t0 t1 ids engine p (Some bs) rules det of
      Inl e \<Rightarrow> find_best_baseline p bs = Inl e
    | Inr r \<Rightarrow>
        ar_overall_verdict r =
          (if reported p bs (dvals (selected_rules engine rules)) {HIGH, CRITICAL} then MALICIOUS
           else if reported p bs (dvals (selected_rules engine rules)) {MEDIUM} then SUSPICIOUS else CLEAN)
        \<and> map sf_rule_id (ar_findings r) =
          concat (map (\<lambda>rule. case run_rule p bs rule of Inl _ \<Rightarrow> [] | Inr fs \<Rightarrow> map sf_rule_id fs) (dvals (selected_rules engine rules)))"
  using engine_verdict engine_rule_ids engine_error by (fastforce split: sum.split)





lemma severity_new_finding [simp]: "sf_severity (new_finding r s m l e) = s"
  by (simp add: new_finding_def)















section \<open>Evidence summary\<close>

definition evidence_item :: "string \<Rightarrow> string \<Rightarrow> string \<Rightarrow> json" where
  "evidence_item kind detail trigger = JObj [(''type'', JStr kind), (''detail'', JStr detail), (''trigger'', JStr trigger)]"

definition evidence_items :: "behavioral_profile \<Rightarrow> json list" where
  "evidence_items p =
     map (\<lambda>c. evidence_item ''network'' (endpoint c) (nc_protocol c)) (bp_network_calls p) @
     map (\<lambda>q. evidence_item ''dns'' (dq_hostname q) '''') (bp_dns_queries p) @
     map (\<lambda>op. evidence_item ''filesystem'' (fo_path op) (fo_operation op)) (bp_fs_ops p) @
     map (\<lambda>sp. evidence_item ''process''
         (if ps_args sp \<noteq> [] then rstrip_by is_space (ps_executable sp @ '' '' @ join_with '' '' (ps_args sp)) else ps_executable sp) '''')
       (bp_spawns p) @
     map (\<lambda>tp. evidence_item ''timing'' (tp_label tp @ ''='' @ show_int (tp_elapsed_ms tp) @ ''ms'') '''') (bp_timing_points p)"

definition to_evidence_summary :: "analysis_result \<Rightarrow> (string \<times> json) list" where
  "to_evidence_summary r =
     [(''verdict'', JStr (lower (verdict_value (ar_overall_verdict r)))),
      (''evidence'', JList (case ar_profile r of None \<Rightarrow> [] | Some p \<Rightarrow> evidence_items p))] @
     (case ar_profile r of
        None \<Rightarrow> []
      | Some p \<Rightarrow>
          [(''network_calls'', JList (map (JObj \<circ> network_call_to_dict False) (bp_network_calls p))),
           (''dns_queries'', JList (map (JObj \<circ> dns_query_to_dict False) (bp_dns_queries p))),
           (''filesystem_ops'', JList (map (JObj \<circ> file_operation_to_dict False) (bp_fs_ops p))),
           (''process_spawns'', JList (map (JObj \<circ> process_spawn_to_dict False) (bp_spawns p))),
           (''timing_points'', JList (map (JObj \<circ> timing_point_to_dict False) (bp_timing_points p))),
           (''total_runtime_ms'', JInt (bp_total_runtime_ms p)),
           (''exit_code'', JInt (bp_exit_code p))]) @
     (case ar_drift_results r of [] \<Rightarrow> [] | d # _ \<Rightarrow> [(''drift_score'', JFloat (dr_score d))])"

end
