(* ===== verification/Scheduler.thy ===== *)
theory Scheduler
  imports Py_Strings "HOL-Library.Product_Lexorder"
begin

text \<open>
  The server's job scheduler (\<open>src/picosentry/serve/services/scheduler.py\<close>): jobs stored in the shared
  database, a queue of timed events per worker (Python's \<open>sched\<close>), and a lease that makes one worker the
  leader. The database is a record of its two tables; the cron library, the commands a job runs and
  the lookup of a project's organisation are arguments. A method that holds the lock is one step with
  one reading of the clock; a slow job is a step of its own, started by the dispatch and finished later.
\<close>

section \<open>State\<close>

record sched_job =
  j_id :: nat
  j_name :: string
  j_cron :: string
  j_command :: string
  j_params :: "(string \<times> json) list"
  j_enabled :: bool
  j_next_run :: "pyfloat option"
  j_last_run :: "pyfloat option"
  j_last_status :: "string option"
  j_org :: "int option"

text \<open>The tables: jobs by their identifier, with the next automatic one, and the row of the lease.\<close>

record sched_db =
  t_jobs :: "(nat, sched_job) pydict"
  t_next_id :: nat
  t_holder :: "string option"
  t_expires :: pyfloat

text \<open>An event of \<open>sched\<close>: due time, sequence number, job.\<close>

record sched_event =
  ev_time :: pyfloat
  ev_seq :: nat
  ev_job :: nat

record job_scheduler =
  sc_jobs :: "(nat, sched_job) pydict"
  sc_running :: bool
  sc_events :: "sched_event list"
  sc_seq :: nat
  sc_queued :: "(nat, sched_event list) pydict"
  sc_slow :: "nat list"
  sc_worker :: string
  sc_lease_ttl :: int
  sc_leader :: bool
  sc_last_reload :: pyfloat

type_synonym sched_state = "sched_db \<times> job_scheduler"

text \<open>The outside world: the cron library, the commands and the conversions they use.\<close>

record sched_env =
  env_next :: "string \<Rightarrow> pyfloat \<Rightarrow> pyfloat option"
  env_str :: "json \<Rightarrow> string"
  env_int :: "json \<Rightarrow> int py_result"
  env_script_exists :: bool
  env_script :: "string \<Rightarrow> int py_result"
  env_project_org :: "string \<Rightarrow> int option"
  env_run_project :: "string \<Rightarrow> int \<Rightarrow> int option \<Rightarrow> bool py_result"
  env_report :: "int option \<Rightarrow> unit py_result"
  env_health :: "nat py_result"
  env_backup :: "bool py_result"
  env_cleanup :: "unit py_result"

definition ALLOWED_COMMANDS :: "string list" where
  "ALLOWED_COMMANDS = [''batch'', ''run'', ''report'', ''backup'', ''cleanup'', ''health_check'']"

definition ALLOWED_CATEGORIES :: "string list" where
  "ALLOWED_CATEGORIES = [''monitoring'', ''audit'', ''security'', ''maintenance'', ''health'', ''backup'', ''report'']"

section \<open>The event queue\<close>

definition load_jobs :: "sched_db \<Rightarrow> job_scheduler \<Rightarrow> job_scheduler" where
  "load_jobs db s = s\<lparr>sc_jobs := foldl (\<lambda>m j. dset (j_id j) j m) (sc_jobs s) (dvals (t_jobs db))\<rparr>"

definition new_scheduler :: "string \<Rightarrow> int \<Rightarrow> pyfloat \<Rightarrow> sched_db \<Rightarrow> job_scheduler" where
  "new_scheduler worker ttl mono_now db = load_jobs db
     \<lparr>sc_jobs = [], sc_running = False, sc_events = [], sc_seq = 0, sc_queued = [], sc_slow = [], sc_worker = worker,
      sc_lease_ttl = ttl, sc_leader = False, sc_last_reload = mono_now\<rparr>"

text \<open>\<open>cancel\<close> raises \<open>ValueError\<close> on an event that has fired, which ends the loop of \<open>_cancel_queued\<close>.\<close>

fun cancel_events :: "sched_event list \<Rightarrow> sched_event list \<Rightarrow> sched_event list" where
  "cancel_events [] q = q"
| "cancel_events (e # es) q = (if e \<in> set q then cancel_events es (remove1 e q) else q)"

definition cancel_queued :: "nat \<Rightarrow> job_scheduler \<Rightarrow> job_scheduler" where
  "cancel_queued i s =
     s\<lparr>sc_events := cancel_events (case dget (sc_queued s) i of None \<Rightarrow> [] | Some es \<Rightarrow> es) (sc_events s),
       sc_queued := dpop i (sc_queued s)\<rparr>"

definition set_job :: "(sched_job \<Rightarrow> sched_job) \<Rightarrow> nat \<Rightarrow> (nat, sched_job) pydict \<Rightarrow> (nat, sched_job) pydict" where
  "set_job f i m = (case dget m i of None \<Rightarrow> m | Some j \<Rightarrow> dset i (f j) m)"

definition schedule_job :: "sched_env \<Rightarrow> pyfloat \<Rightarrow> nat \<Rightarrow> sched_state \<Rightarrow> sched_state" where
  "schedule_job env now i = (\<lambda>(db, s).
     case dget (sc_jobs s) i of
       None \<Rightarrow> (db, s)
     | Some job \<Rightarrow>
         if \<not> j_enabled job then (db, s)
         else case env_next env (j_cron job) now of
           None \<Rightarrow> (db, s)
         | Some next_run \<Rightarrow>
             let s1 = cancel_queued i s;
                 s2 = s1\<lparr>sc_jobs := set_job (\<lambda>j. j\<lparr>j_next_run := Some next_run\<rparr>) i (sc_jobs s1)\<rparr>;
                 delay = next_run - now
             in if delay > 0 then
                  let e = \<lparr>ev_time = now + delay, ev_seq = sc_seq s2, ev_job = i\<rparr>
                  in (db\<lparr>t_jobs := set_job (\<lambda>j. j\<lparr>j_next_run := Some next_run\<rparr>) i (t_jobs db)\<rparr>,
                      s2\<lparr>sc_events := sc_events s2 @ [e], sc_seq := Suc (sc_seq s2), sc_queued := dset i [e] (sc_queued s2)\<rparr>)
                else (db, s2))"

fun schedule_all :: "sched_env \<Rightarrow> pyfloat \<Rightarrow> nat list \<Rightarrow> sched_state \<Rightarrow> sched_state" where
  "schedule_all env now [] st = st"
| "schedule_all env now (i # is) st = schedule_all env now is (schedule_job env now i st)"

section \<open>Jobs\<close>

definition scalar :: "json \<Rightarrow> bool" where
  "scalar v = (case v of JList _ \<Rightarrow> False | JObj _ \<Rightarrow> False | _ \<Rightarrow> True)"

definition invalid_param :: "(string \<times> json) list \<Rightarrow> (string \<times> json) option" where
  "invalid_param params = find (\<lambda>(_, v). \<not> scalar v) params"

definition job_named :: "string \<Rightarrow> sched_db \<Rightarrow> sched_job option" where
  "job_named name db = find (\<lambda>j. j_name j = name) (dvals (t_jobs db))"

definition raise_if_cross_org :: "string \<Rightarrow> int option \<Rightarrow> int option \<Rightarrow> unit py_result" where
  "raise_if_cross_org name existing requested =
     (if existing \<noteq> requested then Inl (ValueError (''Job name already in use by another organization: '' @ name)) else Inr ())"

definition insert_job_atomic :: "string \<Rightarrow> string \<Rightarrow> string \<Rightarrow> (string \<times> json) list \<Rightarrow> bool \<Rightarrow> int option \<Rightarrow> sched_db \<Rightarrow> (nat \<times> sched_db) py_result" where
  "insert_job_atomic name cron command params enabled org db =
     (case job_named name db of
        Some j \<Rightarrow> bindE (raise_if_cross_org name (j_org j) org) (\<lambda>_. Inr (j_id j, db))
      | None \<Rightarrow>
          let i = t_next_id db;
              j = \<lparr>j_id = i, j_name = name, j_cron = cron, j_command = command, j_params = params, j_enabled = enabled,
                   j_next_run = None, j_last_run = None, j_last_status = None, j_org = org\<rparr>
          in Inr (i, db\<lparr>t_jobs := dset i j (t_jobs db), t_next_id := Suc i\<rparr>))"

definition reload :: "sched_env \<Rightarrow> pyfloat \<Rightarrow> nat \<Rightarrow> sched_state \<Rightarrow> sched_state" where
  "reload env now i = (\<lambda>(db, s).
     let s1 = load_jobs db s in if sc_running s1 then schedule_job env now i (db, s1) else (db, s1))"

definition add_job :: "sched_env \<Rightarrow> pyfloat \<Rightarrow> string \<Rightarrow> string \<Rightarrow> string \<Rightarrow> (string \<times> json) list \<Rightarrow> bool \<Rightarrow> int option \<Rightarrow>
  sched_state \<Rightarrow> (nat \<times> sched_state) py_result" where
  "add_job env now name cron command params enabled org = (\<lambda>(db, s).
     if command \<notin> set ALLOWED_COMMANDS then Inl (ValueError (''Invalid command: '' @ command))
     else case invalid_param params of
       Some (key, _) \<Rightarrow> Inl (ValueError (''Invalid param '' @ key))
     | None \<Rightarrow>
         bindE (case job_named name db of
             Some j \<Rightarrow>
               if j_org j \<noteq> org then Inl (ValueError (''Job name already in use by another organization: '' @ name))
               else if j_cron j \<noteq> cron \<or> j_command j \<noteq> command \<or> set (j_params j) \<noteq> set params
                 then Inl (ValueError (''Job already exists with a different config: '' @ name))
               else Inr (j_id j, db)
           | None \<Rightarrow>
               if env_next env cron now = None then Inl (ValueError (''Invalid cron expression: '' @ cron))
               else insert_job_atomic name cron command params enabled org db)
           (\<lambda>(i, db1). Inr (i, reload env now i (db1, s))))"

definition remove_job :: "nat \<Rightarrow> sched_state \<Rightarrow> bool \<times> sched_state" where
  "remove_job i = (\<lambda>(db, s).
     if dget (sc_jobs s) i = None then (False, db, s)
     else (True, db\<lparr>t_jobs := dpop i (t_jobs db)\<rparr>, cancel_queued i (s\<lparr>sc_jobs := dpop i (sc_jobs s)\<rparr>)))"

definition enable_job :: "sched_env \<Rightarrow> pyfloat \<Rightarrow> nat \<Rightarrow> sched_state \<Rightarrow> bool \<times> sched_state" where
  "enable_job env now i = (\<lambda>(db, s).
     if dget (sc_jobs s) i = None then (False, db, s)
     else let s1 = s\<lparr>sc_jobs := set_job (\<lambda>j. j\<lparr>j_enabled := True\<rparr>) i (sc_jobs s)\<rparr>;
              (db2, s2) = (if sc_running s1 then schedule_job env now i (db, s1) else (db, s1))
          in (True, db2\<lparr>t_jobs := set_job (\<lambda>j. j\<lparr>j_enabled := True\<rparr>) i (t_jobs db2)\<rparr>, s2))"

definition disable_job :: "nat \<Rightarrow> sched_state \<Rightarrow> bool \<times> sched_state" where
  "disable_job i = (\<lambda>(db, s).
     if dget (sc_jobs s) i = None then (False, db, s)
     else (True, db\<lparr>t_jobs := set_job (\<lambda>j. j\<lparr>j_enabled := False\<rparr>) i (t_jobs db)\<rparr>,
           cancel_queued i (s\<lparr>sc_jobs := set_job (\<lambda>j. j\<lparr>j_enabled := False\<rparr>) i (sc_jobs s)\<rparr>)))"

definition update_job :: "sched_env \<Rightarrow> pyfloat \<Rightarrow> nat \<Rightarrow> string option \<Rightarrow> (string \<times> json) list option \<Rightarrow> sched_state \<Rightarrow>
  bool py_result \<times> sched_state" where
  "update_job env now i cron params = (\<lambda>(db, s).
     if dget (sc_jobs s) i = None then (Inr False, db, s)
     else if (case cron of None \<Rightarrow> False | Some c \<Rightarrow> env_next env c now = None) then (Inl (ValueError ''Invalid cron expression''), db, s)
     else let db1 = (case cron of None \<Rightarrow> db | Some c \<Rightarrow> db\<lparr>t_jobs := set_job (\<lambda>j. j\<lparr>j_cron := c\<rparr>) i (t_jobs db)\<rparr>)
          in if (case params of None \<Rightarrow> False | Some ps \<Rightarrow> invalid_param ps \<noteq> None) then (Inl (ValueError ''Invalid param''), db1, s)
             else let db2 = (case params of None \<Rightarrow> db1 | Some ps \<Rightarrow> db1\<lparr>t_jobs := set_job (\<lambda>j. j\<lparr>j_params := ps\<rparr>) i (t_jobs db1)\<rparr>)
                  in (Inr True, reload env now i (db2, s)))"

section \<open>Execution\<close>

definition param_or :: "(string \<times> json) list \<Rightarrow> string \<Rightarrow> json \<Rightarrow> json" where
  "param_or params k dflt = (case dget params k of None \<Rightarrow> dflt | Some v \<Rightarrow> v)"

definition org_for_run :: "sched_env \<Rightarrow> nat \<Rightarrow> string \<Rightarrow> job_scheduler \<Rightarrow> int option" where
  "org_for_run env i project s =
     (case Option.bind (dget (sc_jobs s) i) j_org of Some org \<Rightarrow> Some org | None \<Rightarrow> env_project_org env project)"

text \<open>The status of one execution; an exception of a command is its error.\<close>

definition run_command :: "sched_env \<Rightarrow> nat \<Rightarrow> sched_job \<Rightarrow> job_scheduler \<Rightarrow> string py_result" where
  "run_command env i job s =
     (let done = (\<lambda>ok. if ok then ''completed'' else ''failed''); c = j_command job; params = j_params job in
      if c \<notin> set ALLOWED_COMMANDS then Inr ''rejected''
      else if c = ''batch'' then
        let category = env_str env (param_or params ''category'' (JStr ''monitoring'')) in
        if category \<notin> set ALLOWED_CATEGORIES then Inr ''rejected''
        else if \<not> env_script_exists env then Inr ''failed''
        else bindE (env_script env category) (\<lambda>code. Inr (done (code = 0)))
      else if c = ''run'' then
        let v = param_or params ''project_id'' JNull; project = (if json_truthy v then env_str env v else '''') in
        bindE (env_int env (param_or params ''timeout'' (JInt 300))) (\<lambda>timeout.
        bindE (env_run_project env project timeout (org_for_run env i project s)) (\<lambda>ok. Inr (done ok)))
      else if c = ''report'' then bindE (env_report env (j_org job)) (\<lambda>_. Inr ''completed'')
      else if c = ''health_check'' then bindE (env_health env) (\<lambda>n. Inr (done (n \<noteq> 0)))
      else if c = ''backup'' then bindE (env_backup env) (\<lambda>ok. Inr (done ok))
      else bindE (env_cleanup env) (\<lambda>_. Inr ''completed''))"

text \<open>\<open>_JOB_EXECUTE_ERRORS\<close>: neither \<open>KeyError\<close> nor \<open>IndexError\<close> is caught.\<close>

definition execute_caught :: "py_error \<Rightarrow> bool" where
  "execute_caught e = (case e of KeyError _ \<Rightarrow> False | IndexError \<Rightarrow> False | _ \<Rightarrow> True)"

definition record_run :: "pyfloat \<Rightarrow> string \<Rightarrow> nat \<Rightarrow> sched_state \<Rightarrow> sched_state" where
  "record_run now status i = (\<lambda>(db, s).
     let f = (\<lambda>j. j\<lparr>j_last_run := Some now, j_last_status := Some status\<rparr>)
     in (db\<lparr>t_jobs := set_job f i (t_jobs db)\<rparr>, s\<lparr>sc_jobs := set_job f i (sc_jobs s)\<rparr>))"

definition finish_run :: "sched_env \<Rightarrow> pyfloat \<Rightarrow> nat \<Rightarrow> sched_state \<Rightarrow> sched_state" where
  "finish_run env now i = (\<lambda>(db, s).
     if sc_running s \<and> (case dget (sc_jobs s) i of None \<Rightarrow> False | Some j \<Rightarrow> j_enabled j)
     then schedule_job env now i (db, s) else (db, s))"

definition execute_job :: "sched_env \<Rightarrow> pyfloat \<Rightarrow> nat \<Rightarrow> sched_state \<Rightarrow> py_error option \<times> sched_state" where
  "execute_job env now i = (\<lambda>(db, s).
     case dget (sc_jobs s) i of
       None \<Rightarrow> (None, db, s)
     | Some job \<Rightarrow>
         (case run_command env i job s of
            Inr status \<Rightarrow> (None, finish_run env now i (record_run now status i (db, s)))
          | Inl e \<Rightarrow> if execute_caught e then (None, finish_run env now i (record_run now ''failed'' i (db, s)))
                     else (Some e, db, s)))"

text \<open>A slow job is started on its own thread, which \<open>run_slow_job\<close> completes; a running one is skipped.\<close>

definition is_slow :: "sched_job \<Rightarrow> bool" where
  "is_slow job \<longleftrightarrow> j_command job \<in> {''batch'', ''health_check''}"

definition dispatch_job :: "sched_env \<Rightarrow> pyfloat \<Rightarrow> nat \<Rightarrow> sched_state \<Rightarrow> py_error option \<times> sched_state" where
  "dispatch_job env now i = (\<lambda>(db, s).
     case dget (sc_jobs s) i of
       None \<Rightarrow> (None, db, s)
     | Some job \<Rightarrow>
         if is_slow job then
           (if i \<in> set (sc_slow s) then (None, db, s) else (None, db, s\<lparr>sc_slow := i # sc_slow s\<rparr>))
         else execute_job env now i (db, s))"

definition run_slow_job :: "sched_env \<Rightarrow> pyfloat \<Rightarrow> nat \<Rightarrow> sched_state \<Rightarrow> sched_state" where
  "run_slow_job env now i st =
     (case execute_job env now i st of (_, db, s) \<Rightarrow> (db, s\<lparr>sc_slow := removeAll i (sc_slow s)\<rparr>))"

definition trigger_job :: "sched_env \<Rightarrow> pyfloat \<Rightarrow> nat \<Rightarrow> sched_state \<Rightarrow> bool \<times> py_error option \<times> sched_state" where
  "trigger_job env now i = (\<lambda>(db, s).
     case dget (sc_jobs s) i of
       None \<Rightarrow> (False, None, db, s)
     | Some job \<Rightarrow> if j_enabled job then (True, dispatch_job env now i (db, s)) else (False, None, db, s))"

section \<open>The loop\<close>

text \<open>
  \<open>sched.run(blocking=False)\<close> at one reading of the clock: the earliest event that is due is taken off
  the queue and dispatched, until none is due or an exception leaves the loop.
\<close>

definition event_key :: "sched_event \<Rightarrow> pyfloat \<times> nat" where
  "event_key e = (ev_time e, ev_seq e)"

definition next_due :: "pyfloat \<Rightarrow> sched_event list \<Rightarrow> sched_event option" where
  "next_due now q = (case sort_key event_key q of [] \<Rightarrow> None | e # _ \<Rightarrow> if ev_time e > now then None else Some e)"

definition due_count :: "pyfloat \<Rightarrow> sched_event list \<Rightarrow> nat" where
  "due_count now q = length (filter (\<lambda>e. ev_time e \<le> now) q)"

lemma next_due_Some: "next_due now q = Some e \<Longrightarrow> e \<in> set q \<and> ev_time e \<le> now"
  by (auto simp: next_due_def split: list.splits if_splits dest: arg_cong [where f = set])


lemma cancel_events_mset: "mset (cancel_events es q) \<subseteq># mset q"
  by (induction es q rule: cancel_events.induct) (auto intro: subset_mset.order_trans)

lemma due_count_mset: "mset p \<subseteq># mset q \<Longrightarrow> due_count now p \<le> due_count now q"
  unfolding due_count_def by (metis mset_filter multiset_filter_mono size_mset size_mset_mono)

lemma cancel_queued_due: "due_count now (sc_events (cancel_queued i s)) \<le> due_count now (sc_events s)"
  by (simp add: cancel_queued_def due_count_mset cancel_events_mset)

lemma schedule_job_due: "due_count now (sc_events (snd (schedule_job env now i (db, s)))) \<le> due_count now (sc_events s)"
  using cancel_queued_due [of now i s]
  by (auto simp: schedule_job_def Let_def due_count_def split: option.splits)

lemma finish_run_due: "due_count now (sc_events (snd (finish_run env now i st))) \<le> due_count now (sc_events (snd st))"
  by (cases st) (simp add: finish_run_def schedule_job_due)

lemma record_run_events [simp]: "sc_events (snd (record_run now status i st)) = sc_events (snd st)"
  by (cases st) (simp add: record_run_def Let_def)

lemma execute_job_due: "due_count now (sc_events (snd (snd (execute_job env now i st)))) \<le> due_count now (sc_events (snd st))"
  using finish_run_due [of now env i "record_run now status i st" for status]
  by (cases st) (auto simp: execute_job_def split: option.splits sum.splits)

lemma dispatch_job_due: "due_count now (sc_events (snd (snd (dispatch_job env now i st)))) \<le> due_count now (sc_events (snd st))"
  using execute_job_due [of now env i st] by (cases st) (auto simp: dispatch_job_def split: option.splits)

lemma due_count_remove1: "e \<in> set q \<Longrightarrow> ev_time e \<le> now \<Longrightarrow> due_count now (remove1 e q) < due_count now q"
  by (induction q) (auto simp: due_count_def)

function run_due :: "sched_env \<Rightarrow> pyfloat \<Rightarrow> sched_state \<Rightarrow> py_error option \<times> sched_state" where
  "run_due env now (db, s) =
     (case next_due now (sc_events s) of
        None \<Rightarrow> (None, db, s)
      | Some e \<Rightarrow>
          (case dispatch_job env now (ev_job e) (db, s\<lparr>sc_events := remove1 e (sc_events s)\<rparr>) of
             (None, st) \<Rightarrow> run_due env now st
           | (Some err, st) \<Rightarrow> (Some err, st)))"
  by pat_completeness auto

termination
proof (relation "measure (\<lambda>(env, now, db, s). due_count now (sc_events s))", goal_cases)
  case (2 env now db s e r st)
  then have "due_count now (sc_events (snd st)) \<le> due_count now (remove1 e (sc_events s))"
    using dispatch_job_due [of now env "ev_job e" "(db, s\<lparr>sc_events := remove1 e (sc_events s)\<rparr>)"]
    by (metis snd_conv sched_event.select_convs job_scheduler.select_convs job_scheduler.update_convs job_scheduler.surjective)
  with due_count_remove1 next_due_Some [OF 2(1)] have "due_count now (sc_events (snd st)) < due_count now (sc_events s)"
    by (meson order_le_less_trans)
  then show ?case by (cases st) simp
qed simp

declare run_due.simps [simp del]

subsection \<open>Leadership\<close>

text \<open>One conditional \<open>UPDATE\<close>: it succeeds for the holder, and for anyone once the expiry has passed.\<close>

definition try_acquire_lease :: "pyfloat \<Rightarrow> string \<Rightarrow> int \<Rightarrow> sched_db \<Rightarrow> bool \<times> sched_db" where
  "try_acquire_lease now worker ttl db =
     (if t_holder db = Some worker \<or> t_expires db < now
      then (True, db\<lparr>t_holder := Some worker, t_expires := now + of_int ttl\<rparr>) else (False, db))"

definition release_lease :: "pyfloat \<Rightarrow> string \<Rightarrow> sched_db \<Rightarrow> sched_db" where
  "release_lease now worker db =
     (if t_holder db = Some worker then db\<lparr>t_holder := None, t_expires := now - 1\<rparr> else db)"

definition cancel_all :: "nat list \<Rightarrow> job_scheduler \<Rightarrow> job_scheduler" where
  "cancel_all is s = foldl (\<lambda>s i. cancel_queued i s) s is"

definition enabled_ids :: "job_scheduler \<Rightarrow> nat list" where
  "enabled_ids s = filter (\<lambda>i. case dget (sc_jobs s) i of None \<Rightarrow> False | Some j \<Rightarrow> j_enabled j) (dkeys (sc_jobs s))"

definition reschedule_all :: "sched_env \<Rightarrow> pyfloat \<Rightarrow> sched_state \<Rightarrow> sched_state" where
  "reschedule_all env now = (\<lambda>(db, s).
     let s1 = load_jobs db s; s2 = cancel_all (dkeys (sc_queued s1)) s1
     in schedule_all env now (enabled_ids s2) (db, s2))"

definition converge_jobs :: "sched_env \<Rightarrow> pyfloat \<Rightarrow> sched_state \<Rightarrow> sched_state" where
  "converge_jobs env now = (\<lambda>(db, s).
     let s1 = load_jobs db s;
         gone = filter (\<lambda>i. case dget (sc_jobs s1) i of None \<Rightarrow> True | Some j \<Rightarrow> \<not> j_enabled j) (dkeys (sc_queued s1));
         s2 = cancel_all gone s1
     in schedule_all env now (filter (\<lambda>i. dget (sc_queued s2) i = None) (enabled_ids s2)) (db, s2))"

text \<open>
  One turn of the loop of \<open>_run\<close>. \<open>db_up\<close> is false when the lease statement raises one of the tolerated
  database errors; \<open>mono_now\<close> is the monotonic clock.
\<close>

definition lead :: "sched_env \<Rightarrow> pyfloat \<Rightarrow> pyfloat \<Rightarrow> bool \<Rightarrow> sched_state \<Rightarrow> sched_state" where
  "lead env now mono_now leader = (\<lambda>(db, s).
     if leader = sc_leader s then (db, s)
     else if leader then
       (case reschedule_all env now (db, s) of (db1, s1) \<Rightarrow> (db1, s1\<lparr>sc_last_reload := mono_now, sc_leader := True\<rparr>))
     else (db, (cancel_all (dkeys (sc_queued s)) s)\<lparr>sc_leader := False\<rparr>))"

definition tick :: "sched_env \<Rightarrow> pyfloat \<Rightarrow> pyfloat \<Rightarrow> bool \<Rightarrow> sched_state \<Rightarrow> py_error option \<times> sched_state" where
  "tick env now mono_now db_up = (\<lambda>(db, s).
     if \<not> sc_running s then (None, db, s)
     else
       let (leader, db1) = (if db_up then try_acquire_lease now (sc_worker s) (sc_lease_ttl s) db else (False, db));
           st = lead env now mono_now leader (db1, s)
       in if \<not> leader then (None, st)
          else (case run_due env now st of
                  (Some err, st1) \<Rightarrow> (Some err, st1)
                | (None, db2, s2) \<Rightarrow>
                    if mono_now - sc_last_reload s2 > of_int (max 15 (sc_lease_ttl s2 * 2))
                    then (None, converge_jobs env now (db2, s2\<lparr>sc_last_reload := mono_now\<rparr>)) else (None, db2, s2)))"

definition start_scheduler :: "sched_env \<Rightarrow> pyfloat \<Rightarrow> pyfloat \<Rightarrow> sched_state \<Rightarrow> sched_state" where
  "start_scheduler env now mono_now = (\<lambda>(db, s).
     if sc_running s then (db, s)
     else let s1 = s\<lparr>sc_running := True, sc_last_reload := mono_now\<rparr>
          in schedule_all env now (enabled_ids s1) (db, s1))"

definition stop_scheduler :: "pyfloat \<Rightarrow> sched_state \<Rightarrow> sched_state" where
  "stop_scheduler now = (\<lambda>(db, s). (release_lease now (sc_worker s) db, s\<lparr>sc_running := False, sc_leader := False\<rparr>))"

definition sched_status :: "job_scheduler \<Rightarrow> (sched_job \<times> bool) list" where
  "sched_status s = map (\<lambda>j. (j, sc_leader s)) (dvals (sc_jobs s))"

section \<open>No job is queued twice\<close>

text \<open>
  Every event of the queue is the one recorded for its job, and sequence numbers are used once. So a
  job has at most one event.
\<close>

definition queue_ok :: "job_scheduler \<Rightarrow> bool" where
  "queue_ok s \<longleftrightarrow> distinct (sc_events s) \<and>
     (\<forall>e \<in> set (sc_events s). ev_seq e < sc_seq s \<and> dget (sc_queued s) (ev_job e) = Some [e]) \<and>
     (\<forall>i es. dget (sc_queued s) i = Some es \<longrightarrow> (\<exists>e. es = [e] \<and> ev_job e = i \<and> ev_seq e < sc_seq s))"

lemma cancel_queued_events:
  assumes "queue_ok s"
  shows "set (sc_events (cancel_queued i s)) = {e \<in> set (sc_events s). ev_job e \<noteq> i}"
proof (cases "dget (sc_queued s) i")
  case None
  then have "ev_job e \<noteq> i" if "e \<in> set (sc_events s)" for e using that assms by (metis queue_ok_def option.distinct(1))
  with None show ?thesis by (auto simp: cancel_queued_def)
next
  case (Some es)
  then obtain e where e: "es = [e]" "ev_job e = i" using assms unfolding queue_ok_def by blast
  have only: "f = e" if "f \<in> set (sc_events s)" "ev_job f = i" for f
  proof -
    have "dget (sc_queued s) i = Some [f]" using that assms by (auto simp: queue_ok_def)
    with Some e(1) show ?thesis by simp
  qed
  have "distinct (sc_events s)" using assms by (simp add: queue_ok_def)
  then have "set (sc_events (cancel_queued i s)) = set (sc_events s) - {e}"
    using Some e(1) by (simp add: cancel_queued_def)
  also have "\<dots> = {f \<in> set (sc_events s). ev_job f \<noteq> i}" using only e(2) by blast
  finally show ?thesis .
qed

lemma cancel_events_distinct: "distinct q \<Longrightarrow> distinct (cancel_events es q)"
  by (induction es q rule: cancel_events.induct) simp_all

lemma cancel_queued_ok:
  assumes "queue_ok s"
  shows "queue_ok (cancel_queued i s)"
proof -
  have "distinct (sc_events (cancel_queued i s))"
    using assms by (simp add: cancel_queued_def queue_ok_def cancel_events_distinct)
  then show ?thesis using assms cancel_queued_events [OF assms, of i]
    by (auto simp: queue_ok_def) (auto simp: cancel_queued_def split: if_splits)
qed

lemma queue_ok_cong:
  "sc_events s = sc_events t \<Longrightarrow> sc_seq s = sc_seq t \<Longrightarrow> sc_queued s = sc_queued t \<Longrightarrow> queue_ok s = queue_ok t"
  by (simp add: queue_ok_def)

lemma schedule_job_ok:
  assumes "queue_ok s"
  shows "queue_ok (snd (schedule_job env now i (db, s)))"
proof -
  let ?c = "cancel_queued i s"
  have c: "queue_ok ?c" "\<forall>e \<in> set (sc_events ?c). ev_job e \<noteq> i"
    using cancel_queued_ok [OF assms] cancel_queued_events [OF assms, of i] by auto
  have "queue_ok (?c\<lparr>sc_jobs := m, sc_events := sc_events ?c @ [e], sc_seq := Suc (sc_seq ?c), sc_queued := dset i [e] (sc_queued ?c)\<rparr>)"
    if "ev_seq e = sc_seq ?c" "ev_job e = i" for e m
    using c that by (fastforce simp: queue_ok_def distinct_update less_Suc_eq split: if_splits)
  moreover have "queue_ok (?c\<lparr>sc_jobs := m\<rparr>)" for m using c(1) by (simp add: queue_ok_def)
  ultimately show ?thesis using assms by (auto simp: schedule_job_def Let_def split: option.splits)
qed

lemma schedule_all_ok: "queue_ok (snd st) \<Longrightarrow> queue_ok (snd (schedule_all env now is st))"
proof (induction "is" arbitrary: st)
  case (Cons i "is")
  have "queue_ok (snd (schedule_job env now i st))" using schedule_job_ok [of "snd st" env now i "fst st"] Cons.prems by simp
  from Cons.IH [OF this] show ?case by simp
qed simp

lemma cancel_all_ok: "queue_ok s \<Longrightarrow> queue_ok (cancel_all is s)"
  unfolding cancel_all_def by (induction "is" arbitrary: s) (simp_all add: cancel_queued_ok)

lemma queue_ok_fields [simp]:
  "queue_ok (s\<lparr>sc_jobs := m\<rparr>) = queue_ok s" "queue_ok (s\<lparr>sc_running := r\<rparr>) = queue_ok s" "queue_ok (s\<lparr>sc_slow := l\<rparr>) = queue_ok s"
  "queue_ok (s\<lparr>sc_leader := b\<rparr>) = queue_ok s" "queue_ok (s\<lparr>sc_last_reload := t\<rparr>) = queue_ok s"
  by (simp_all add: queue_ok_def)

lemma load_jobs_ok [simp]: "queue_ok (load_jobs db s) = queue_ok s"
  by (simp add: load_jobs_def)

lemma reload_ok: "queue_ok (snd st) \<Longrightarrow> queue_ok (snd (reload env now i st))"
  by (cases st) (simp add: reload_def Let_def schedule_job_ok)

lemma add_job_ok: "add_job env now name cron command params enabled org st = Inr (i, st') \<Longrightarrow> queue_ok (snd st) \<Longrightarrow> queue_ok (snd st')"
  by (cases st) (auto simp: add_job_def bindE_eq_Inr reload_ok split: if_splits option.splits)

lemma remove_job_ok: "queue_ok (snd st) \<Longrightarrow> queue_ok (snd (snd (remove_job i st)))"
  by (cases st) (simp add: remove_job_def cancel_queued_ok)

lemma enable_job_ok: "queue_ok (snd st) \<Longrightarrow> queue_ok (snd (snd (enable_job env now i st)))"
  by (cases st) (auto simp: enable_job_def Let_def split_def schedule_job_ok)

lemma disable_job_ok: "queue_ok (snd st) \<Longrightarrow> queue_ok (snd (snd (disable_job i st)))"
  by (cases st) (simp add: disable_job_def cancel_queued_ok)

lemma update_job_ok: "queue_ok (snd st) \<Longrightarrow> queue_ok (snd (snd (update_job env now i cron params st)))"
  by (cases st) (simp add: update_job_def Let_def reload_ok)

lemma finish_run_ok: "queue_ok (snd st) \<Longrightarrow> queue_ok (snd (finish_run env now i st))"
  by (cases st) (simp add: finish_run_def schedule_job_ok)

lemma record_run_ok [simp]: "queue_ok (snd (record_run now status i st)) = queue_ok (snd st)"
  by (cases st) (simp add: record_run_def Let_def)

lemma execute_job_ok: "queue_ok (snd st) \<Longrightarrow> queue_ok (snd (snd (execute_job env now i st)))"
  using finish_run_ok [of "record_run now status i st" env now i for status]
  by (cases st) (auto simp: execute_job_def split: option.splits sum.splits)

lemma dispatch_job_ok: "queue_ok (snd st) \<Longrightarrow> queue_ok (snd (snd (dispatch_job env now i st)))"
  using execute_job_ok [of st env now i] by (cases st) (auto simp: dispatch_job_def split: option.splits)

lemma run_slow_job_ok: "queue_ok (snd st) \<Longrightarrow> queue_ok (snd (run_slow_job env now i st))"
  using execute_job_ok [of st env now i] by (auto simp: run_slow_job_def split: prod.splits)

lemma trigger_job_ok: "queue_ok (snd st) \<Longrightarrow> queue_ok (snd (snd (snd (trigger_job env now i st))))"
  using dispatch_job_ok [of st env now i] by (cases st) (auto simp: trigger_job_def split: option.splits)

lemma pop_event_ok: "queue_ok s \<Longrightarrow> queue_ok (s\<lparr>sc_events := remove1 e (sc_events s)\<rparr>)"
  by (auto simp: queue_ok_def)

lemma run_due_ok: "queue_ok (snd st) \<Longrightarrow> queue_ok (snd (snd (run_due env now st)))"
proof (induction env now st rule: run_due.induct)
  case (1 env now db s)
  show ?case
  proof (cases "next_due now (sc_events s)")
    case (Some e)
    let ?st = "(db, s\<lparr>sc_events := remove1 e (sc_events s)\<rparr>)"
    obtain r st' where d: "dispatch_job env now (ev_job e) ?st = (r, st')" by (rule prod.exhaust)
    have ok: "queue_ok (snd st')" using dispatch_job_ok [of ?st env now "ev_job e"] 1(2) d by (simp add: pop_event_ok)
    show ?thesis using 1(1) [OF Some d [symmetric]] ok Some d by (cases r) (simp_all add: run_due.simps [of env now db s])
  qed (use 1(2) in \<open>simp add: run_due.simps\<close>)
qed

lemma reschedule_all_ok: "queue_ok (snd st) \<Longrightarrow> queue_ok (snd (reschedule_all env now st))"
  by (cases st) (simp add: reschedule_all_def Let_def schedule_all_ok cancel_all_ok)

lemma converge_jobs_ok: "queue_ok (snd st) \<Longrightarrow> queue_ok (snd (converge_jobs env now st))"
  by (cases st) (simp add: converge_jobs_def Let_def schedule_all_ok cancel_all_ok)

lemma lead_ok: "queue_ok (snd st) \<Longrightarrow> queue_ok (snd (lead env now t leader st))"
  using reschedule_all_ok [of st env now] by (cases st) (auto simp: lead_def cancel_all_ok split: prod.splits)

lemma tick_ok: "queue_ok (snd st) \<Longrightarrow> queue_ok (snd (snd (tick env now t up st)))"
proof -
  assume ok: "queue_ok (snd st)"
  obtain db s where st: "st = (db, s)" by fastforce
  obtain leader db1 where l: "(if up then try_acquire_lease now (sc_worker s) (sc_lease_ttl s) db else (False, db)) = (leader, db1)"
    by fastforce
  have lead: "queue_ok (snd (lead env now t leader (db1, s)))" using lead_ok [of "(db1, s)"] ok st by simp
  obtain r db2 s2 where r: "run_due env now (lead env now t leader (db1, s)) = (r, db2, s2)" by (metis prod_cases3)
  have "queue_ok s2" using run_due_ok [OF lead, of env now] r by simp
  then show ?thesis using lead l r ok st converge_jobs_ok [of "(db2, s2\<lparr>sc_last_reload := t\<rparr>)" env now]
    by (cases r; cases leader) (simp_all add: tick_def Let_def)
qed

lemma start_ok: "queue_ok (snd st) \<Longrightarrow> queue_ok (snd (start_scheduler env now t st))"
  by (cases st) (simp add: start_scheduler_def Let_def schedule_all_ok)


text \<open>
  The states of one worker, with the shared database written by the others in any way between its
  steps.
\<close>

inductive sched_reachable :: "sched_env \<Rightarrow> sched_state \<Rightarrow> bool" for env :: sched_env where
  sched_new: "sched_reachable env (db, new_scheduler worker ttl t db)"
| sched_other: "sched_reachable env (db, s) \<Longrightarrow> sched_reachable env (db', s)"
| sched_add: "sched_reachable env st \<Longrightarrow> add_job env now name cron command params enabled org st = Inr (i, st') \<Longrightarrow> sched_reachable env st'"
| sched_remove: "sched_reachable env st \<Longrightarrow> sched_reachable env (snd (remove_job i st))"
| sched_enable: "sched_reachable env st \<Longrightarrow> sched_reachable env (snd (enable_job env now i st))"
| sched_disable: "sched_reachable env st \<Longrightarrow> sched_reachable env (snd (disable_job i st))"
| sched_update: "sched_reachable env st \<Longrightarrow> sched_reachable env (snd (update_job env now i cron' params' st))"
| sched_trigger: "sched_reachable env st \<Longrightarrow> sched_reachable env (snd (snd (trigger_job env now i st)))"
| sched_slow: "sched_reachable env st \<Longrightarrow> sched_reachable env (run_slow_job env now i st)"
| sched_start: "sched_reachable env st \<Longrightarrow> sched_reachable env (start_scheduler env now t st)"
| sched_tick: "sched_reachable env st \<Longrightarrow> sched_reachable env (snd (tick env now t up st))"
| sched_stop: "sched_reachable env st \<Longrightarrow> sched_reachable env (stop_scheduler now st)"

lemma reachable_queue_ok: "sched_reachable env st \<Longrightarrow> queue_ok (snd st)"
proof (induction rule: sched_reachable.induct)
  case (sched_new db worker ttl t)
  then show ?case by (simp add: new_scheduler_def) (simp add: queue_ok_def)
next
  case (sched_stop st now)
  then show ?case by (cases st) (simp add: stop_scheduler_def)
qed (simp_all add: add_job_ok remove_job_ok enable_job_ok disable_job_ok update_job_ok trigger_job_ok run_slow_job_ok start_ok tick_ok)

text \<open>
  C19. In every state a worker can reach, through any history of job edits, triggers, ticks and slow
  runs and with any writes of other workers to the shared tables in between, each job has at most one
  event in the worker's queue: no boot, toggle or takeover makes a job fire twice.
\<close>

theorem no_job_queued_twice:
  assumes "sched_reachable env (db, s)"
  shows "length (filter (\<lambda>e. ev_job e = i) (sc_events s)) \<le> 1"
proof -
  let ?es = "filter (\<lambda>e. ev_job e = i) (sc_events s)"
  have ok: "queue_ok s" using reachable_queue_ok [OF assms] by simp
  have "\<exists>e. set ?es \<subseteq> {e}"
  proof (cases "dget (sc_queued s) i")
    case None
    then have "set ?es = {}" using ok by (auto simp: queue_ok_def)
    then show ?thesis by simp
  next
    case (Some es)
    have "es = [f]" if "f \<in> set ?es" for f using that ok Some by (auto simp: queue_ok_def)
    then have "set ?es \<subseteq> {hd es}" by (metis insertI1 list.sel(1) subsetI)
    then show ?thesis ..
  qed
  then obtain e where "set ?es \<subseteq> {e}" ..
  moreover have "distinct ?es" using ok by (simp add: queue_ok_def)
  ultimately have "length ?es \<le> card {e}" by (metis card_mono distinct_card finite.emptyI finite.insertI)
  then show ?thesis by simp
qed



subsection \<open>The lease\<close>

text \<open>
  The history of the lease's row: requests of any workers, each at its time, in the order in which
  the database serialises them.
\<close>

datatype lease_op = Acquire string | Release string

fun lease_worker :: "lease_op \<Rightarrow> string" where
  "lease_worker (Acquire w) = w"
| "lease_worker (Release w) = w"

fun lease_step :: "int \<Rightarrow> pyfloat \<times> lease_op \<Rightarrow> sched_db \<Rightarrow> sched_db" where
  "lease_step ttl (t, Acquire w) db = snd (try_acquire_lease t w ttl db)"
| "lease_step ttl (t, Release w) db = release_lease t w db"

definition lease_run :: "int \<Rightarrow> (pyfloat \<times> lease_op) list \<Rightarrow> sched_db \<Rightarrow> sched_db" where
  "lease_run ttl ops db = foldl (\<lambda>db op. lease_step ttl op db) db ops"

lemma lease_step_held:
  assumes "t_holder db = Some w" "t \<le> t_expires db" "0 \<le> ttl" "op \<noteq> Release w"
  shows "t_holder (lease_step ttl (t, op) db) = Some w \<and> t_expires db \<le> t_expires (lease_step ttl (t, op) db) \<or>
    op = Acquire w \<and> t_holder (lease_step ttl (t, op) db) = Some w \<and> t_expires (lease_step ttl (t, op) db) = t + of_int ttl"
  using assms by (cases op) (auto simp: try_acquire_lease_def release_lease_def)

lemma lease_run_held:
  assumes "t_holder db = Some w" "t0 + of_int ttl \<le> t_expires db" "0 \<le> ttl"
    and "\<forall>(t, op) \<in> set ops. t0 \<le> t \<and> t \<le> t0 + of_int ttl \<and> op \<noteq> Release w"
  shows "t_holder (lease_run ttl ops db) = Some w \<and> t0 + of_int ttl \<le> t_expires (lease_run ttl ops db)"
  using assms
proof (induction ops arbitrary: db)
  case (Cons p ops)
  obtain t op where p: "p = (t, op)" by (rule prod.exhaust)
  have held: "t_holder (lease_step ttl p db) = Some w" and ex: "t0 + of_int ttl \<le> t_expires (lease_step ttl p db)"
    using lease_step_held [of db w t ttl op] Cons.prems p by force+
  from Cons.IH [OF held ex Cons.prems(3)] Cons.prems(4) show ?case by (simp add: lease_run_def)
qed (simp add: lease_run_def)

text \<open>
  C18. There is one leader at a time: once a worker holds the lease, every request of another worker is
  refused until the time to live has passed, whatever requests of other workers, renewals included,
  come in between; only the holder's own release lets another worker in earlier.
\<close>

theorem lease_is_exclusive:
  assumes "try_acquire_lease t0 w ttl db = (True, db1)" "0 \<le> ttl" "w' \<noteq> w"
    and "\<forall>(t, op) \<in> set ops. t0 \<le> t \<and> t \<le> t0 + of_int ttl \<and> op \<noteq> Release w"
    and "t' \<le> t0 + of_int ttl"
  shows "\<not> fst (try_acquire_lease t' w' ttl (lease_run ttl ops db1))"
proof -
  have "t_holder db1 = Some w" "t_expires db1 = t0 + of_int ttl" using assms(1) by (auto simp: try_acquire_lease_def split: if_splits)
  then have "t_holder (lease_run ttl ops db1) = Some w" "t0 + of_int ttl \<le> t_expires (lease_run ttl ops db1)"
    using lease_run_held [of db1 w t0 ttl ops] assms(2,4) by auto
  then show ?thesis using assms(3,5) by (simp add: try_acquire_lease_def)
qed

definition free_lease :: sched_db where
  "free_lease = \<lparr>t_jobs = [], t_next_id = 1, t_holder = None, t_expires = 0\<rparr>"

theorem lease_is_exclusive_witness:
  "\<not> fst (try_acquire_lease 38 ''worker-b'' 30 (lease_run 30 [(15, Acquire ''worker-b''), (20, Acquire ''worker-a'')]
     (snd (try_acquire_lease 10 ''worker-a'' 30 free_lease))))"
  by (rule lease_is_exclusive [of 10 "''worker-a''" 30 free_lease])
    (simp_all add: free_lease_def try_acquire_lease_def)


subsection \<open>Following the table\<close>

text \<open>The rows of the table carry their own identifiers, once each.\<close>

abbreviation table_ok :: "sched_db \<Rightarrow> bool" where
  "table_ok db \<equiv> keyed j_id (t_jobs db)"

lemma load_rows:
  "keyed j_id rows \<Longrightarrow>
     dget (foldl (\<lambda>m j. dset (j_id j) j m) m (dvals rows)) i = (case dget rows i of None \<Rightarrow> dget m i | Some j \<Rightarrow> Some j)"
proof (induction rows arbitrary: m)
  case (Cons r rows)
  obtain k j where r: "r = (k, j)" by (rule prod.exhaust)
  then have j: "j_id j = k" "k \<notin> fst ` set rows" "keyed j_id rows" using Cons.prems by (auto simp: keyed_def)
  then have "dget rows k = None" by (simp add: dget_None_iff)
  with Cons.IH [OF j(3)] j(1) r show ?case by (simp split: option.splits)
qed simp

lemma dget_load_jobs:
  "table_ok db \<Longrightarrow> dget (sc_jobs (load_jobs db s)) i = (case dget (t_jobs db) i of None \<Rightarrow> dget (sc_jobs s) i | Some j \<Rightarrow> Some j)"
  by (simp add: load_jobs_def load_rows)

lemma cancel_all_events:
  "queue_ok s \<Longrightarrow> set (sc_events (cancel_all is s)) = {e \<in> set (sc_events s). ev_job e \<notin> set is}"
  unfolding cancel_all_def
proof (induction "is" arbitrary: s)
  case (Cons i "is")
  then show ?case using cancel_queued_ok [OF Cons.prems, of i] cancel_queued_events [OF Cons.prems, of i] by auto
qed simp

lemma schedule_job_events:
  assumes "queue_ok s" "ev_job e \<noteq> i" "ev_seq e < sc_seq s"
  shows "e \<in> set (sc_events (snd (schedule_job env now i (db, s)))) \<longleftrightarrow> e \<in> set (sc_events s)"
proof -
  have old: "e \<in> set (sc_events (cancel_queued i s)) \<longleftrightarrow> e \<in> set (sc_events s)"
    using cancel_queued_events [OF assms(1), of i] assms(2) by simp
  have new: "f \<noteq> e" if "ev_job f = i" for f using that assms(2) by auto
  have "e \<noteq> \<lparr>ev_time = t, ev_seq = n, ev_job = i\<rparr>" for t n using new [of "\<lparr>ev_time = t, ev_seq = n, ev_job = i\<rparr>"] by simp
  then show ?thesis by (simp add: schedule_job_def Let_def old split: option.splits)
qed

lemma cancel_queued_seq [simp]: "sc_seq (cancel_queued i s) = sc_seq s"
  by (simp add: cancel_queued_def)

lemma schedule_job_seq: "sc_seq s \<le> sc_seq (snd (schedule_job env now i (db, s)))"
  by (simp add: schedule_job_def Let_def split: option.splits)

lemma schedule_all_events:
  assumes "queue_ok (snd st)" "ev_seq e < sc_seq (snd st)" "ev_job e \<notin> set is"
  shows "e \<in> set (sc_events (snd (schedule_all env now is st))) \<longleftrightarrow> e \<in> set (sc_events (snd st))"
  using assms
proof (induction "is" arbitrary: st)
  case (Cons i "is")
  obtain db s where st: "st = (db, s)" by (rule prod.exhaust)
  have "queue_ok (snd (schedule_job env now i st))" "ev_seq e < sc_seq (snd (schedule_job env now i st))"
    using schedule_job_ok [of s env now i db] schedule_job_seq [of s env now i db] Cons.prems st by auto
  from Cons.IH [OF this] show ?case using schedule_job_events [of s e i env now db] Cons.prems st by simp
qed simp


lemma cancel_all_seq [simp]: "sc_seq (cancel_all is s) = sc_seq s" and cancel_all_jobs [simp]: "sc_jobs (cancel_all is s) = sc_jobs s"
  by (induction "is" arbitrary: s) (simp_all add: cancel_all_def cancel_queued_def)

lemma load_jobs_queue [simp]:
  "sc_events (load_jobs db s) = sc_events s" "sc_seq (load_jobs db s) = sc_seq s" "sc_queued (load_jobs db s) = sc_queued s"
  by (simp_all add: load_jobs_def)

text \<open>
  What the leader's periodic refresh does to a queued run: it survives exactly when the job is
  enabled in its row of the table or, if the job has no row there, enabled in the leader's memory.
  So a job disabled through another worker is cancelled, but a job deleted through another worker,
  whose row is gone, stays queued.
\<close>

lemma converge_keeps_exactly:
  assumes "sched_reachable env (db0, s)" "table_ok db" "e \<in> set (sc_events s)"
  shows "e \<in> set (sc_events (snd (converge_jobs env now (db, s)))) \<longleftrightarrow>
    (case dget (t_jobs db) (ev_job e) of
       Some j \<Rightarrow> j_enabled j
     | None \<Rightarrow> (case dget (sc_jobs s) (ev_job e) of Some j \<Rightarrow> j_enabled j | None \<Rightarrow> False))"
proof -
  define s1 where "s1 = load_jobs db s"
  define on where "on = (\<lambda>i. case dget (sc_jobs s1) i of None \<Rightarrow> False | Some j \<Rightarrow> j_enabled j)"
  define s2 where "s2 = cancel_all (filter (\<lambda>i. \<not> on i) (dkeys (sc_queued s1))) s1"
  define new where "new = filter (\<lambda>i. dget (sc_queued s2) i = None) (enabled_ids s2)"
  have "(\<lambda>i. case dget (sc_jobs s1) i of None \<Rightarrow> True | Some j \<Rightarrow> \<not> j_enabled j) = (\<lambda>i. \<not> on i)"
    by (simp add: on_def fun_eq_iff split: option.splits)
  then have conv: "converge_jobs env now (db, s) = schedule_all env now new (db, s2)"
    by (simp only: converge_jobs_def Let_def prod.case new_def s2_def s1_def)
  have ok: "queue_ok s" using reachable_queue_ok [OF assms(1)] by simp
  then have ok1: "queue_ok s1" by (simp add: s1_def)
  then have ok2: "queue_ok s2" unfolding s2_def by (rule cancel_all_ok)
  have "ev_seq e < sc_seq s \<and> dget (sc_queued s) (ev_job e) = Some [e]" using ok assms(3) unfolding queue_ok_def by blast
  then have seq: "ev_seq e < sc_seq s2" and q: "dget (sc_queued s1) (ev_job e) = Some [e]" by (simp_all add: s2_def s1_def)
  have "ev_job e \<in> set (dkeys (sc_queued s1))" using map_of_SomeD [OF q] by force
  then have surv: "e \<in> set (sc_events s2) \<longleftrightarrow> on (ev_job e)"
    using cancel_all_events [OF ok1] assms(3) by (simp add: s2_def) (simp add: s1_def)
  have "ev_job e \<notin> set new"
  proof (cases "on (ev_job e)")
    case True
    then have "dget (sc_queued s2) (ev_job e) = Some [e]" using surv ok2 unfolding queue_ok_def by blast
    then show ?thesis by (simp add: new_def)
  qed (simp add: new_def enabled_ids_def on_def s2_def)
  then have "e \<in> set (sc_events (snd (converge_jobs env now (db, s)))) \<longleftrightarrow> on (ev_job e)"
    using schedule_all_events [of "(db, s2)" e new env now] ok2 seq surv unfolding conv by simp
  then show ?thesis unfolding on_def s1_def dget_load_jobs [OF assms(2)] by (simp split: option.splits)
qed

section \<open>Witnesses\<close>

definition nightly_env :: sched_env where
  "nightly_env = \<lparr>env_next = \<lambda>cron now. Some (now + 60), env_str = \<lambda>_. '''', env_int = \<lambda>_. Inr 0, env_script_exists = False,
     env_script = \<lambda>_. Inr 0, env_project_org = \<lambda>_. None, env_run_project = \<lambda>_ _ _. Inr True, env_report = \<lambda>_. Inr (),
     env_health = Inr 1, env_backup = Inr True, env_cleanup = Inr ()\<rparr>"

definition nightly_job :: sched_job where
  "nightly_job = \<lparr>j_id = 7, j_name = ''nightly'', j_cron = ''0 2 * * *'', j_command = ''backup'', j_params = [], j_enabled = True,
     j_next_run = None, j_last_run = None, j_last_status = None, j_org = None\<rparr>"

definition nightly_db :: sched_db where
  "nightly_db = free_lease\<lparr>t_jobs := [(7, nightly_job)], t_next_id := 8\<rparr>"

definition nightly_state :: sched_state where
  "nightly_state = start_scheduler nightly_env 100 0 (nightly_db, new_scheduler ''worker-a'' 30 0 nightly_db)"

lemma nightly_reachable: "sched_reachable nightly_env (nightly_db, snd nightly_state)"
proof -
  have "sched_reachable nightly_env nightly_state" unfolding nightly_state_def by (intro sched_start sched_new)
  then have "sched_reachable nightly_env (fst nightly_state, snd nightly_state)" by simp
  then show ?thesis by (rule sched_other)
qed

lemma nightly_events: "sc_events (snd nightly_state) = [\<lparr>ev_time = 160, ev_seq = 0, ev_job = 7\<rparr>]"
  by code_simp

theorem no_job_queued_twice_witness:
  "length (filter (\<lambda>e. ev_job e = 7) (sc_events (snd nightly_state))) \<le> 1 \<and> length (sc_events (snd nightly_state)) = 1"
  using no_job_queued_twice [OF nightly_reachable, of 7] by (simp add: nightly_events)

lemma converge_keeps_exactly_witness:
  "\<lparr>ev_time = 160, ev_seq = 0, ev_job = 7\<rparr> \<in> set (sc_events (snd (converge_jobs nightly_env 150 (free_lease, snd nightly_state))))"
proof -
  have job: "map_option j_enabled (dget (sc_jobs (snd nightly_state)) 7) = Some True" by code_simp
  have "keyed j_id (t_jobs free_lease)" by (simp add: free_lease_def keyed_def)
  from converge_keeps_exactly [OF nightly_reachable this, of "\<lparr>ev_time = 160, ev_seq = 0, ev_job = 7\<rparr>" 150]
  show ?thesis using job by (auto simp: nightly_events free_lease_def split: option.splits)
qed



end
