(* ===== verification/Advisory.thy ===== *)
theory Advisory
  imports Py_Regex "HOL-Library.Product_Lexorder"
begin

text \<open>
  The advisory database (\<open>src/picosentry/scan/advisory.py\<close>): OSV records, the versions they name and
  the lookup of a package. A version is the tuple the code compares; a JSON value of another type
  than the OSV schema gives it is \<open>TypeError\<close>. Python's \<open>float\<close> of a text is the argument \<open>float_text\<close>;
  the files of a directory are the list of their decoded contents, \<open>None\<close> for one that cannot be read.
\<close>

section \<open>Model\<close>

subsection \<open>Versions\<close>

text \<open>
  An identifier of a pre-release, tagged by the code with 0 or 1 so that numbers come before texts.
\<close>

datatype pre_ident = Num int | Alpha string

instantiation pre_ident :: linorder
begin

fun less_eq_pre_ident :: "pre_ident \<Rightarrow> pre_ident \<Rightarrow> bool" where
  "Num i \<le> Num j \<longleftrightarrow> i \<le> j"
| "Alpha s \<le> Alpha t \<longleftrightarrow> s \<le> t"
| "Num _ \<le> Alpha _ \<longleftrightarrow> True"
| "Alpha _ \<le> Num _ \<longleftrightarrow> False"

definition less_pre_ident :: "pre_ident \<Rightarrow> pre_ident \<Rightarrow> bool" where
  "less_pre_ident x y \<longleftrightarrow> x \<le> y \<and> \<not> y \<le> x"

instance
proof
  fix x y z :: pre_ident
  show "x < y \<longleftrightarrow> x \<le> y \<and> \<not> y \<le> x" by (rule less_pre_ident_def)
  show "x \<le> x" by (cases x) simp_all
  show "x \<le> y \<Longrightarrow> y \<le> z \<Longrightarrow> x \<le> z" by (cases x; cases y; cases z) auto
  show "x \<le> y \<Longrightarrow> y \<le> x \<Longrightarrow> x = y" by (cases x; cases y) auto
  show "x \<le> y \<or> y \<le> x" by (cases x; cases y) auto
qed

end

text \<open>Major, minor, patch, and the last tuple: 1 for a release, 0 and the identifiers for a pre-release.\<close>

type_synonym version = "nat \<times> nat \<times> nat \<times> nat \<times> pre_ident list"

text \<open>
  \<open>_SEMVER_RE\<close>, \<open>(\d+)\.(\d+)\.(\d+)(?:[-.]([a-zA-Z0-9._-]+))?\<close>: a match at the head of a text and its
  groups. A run of digits followed by a dot is taken whole, since no shorter run is followed by one.
\<close>

definition pre_char :: "char \<Rightarrow> bool" where
  "pre_char c \<longleftrightarrow> digit c \<or> (65 \<le> (of_char c :: nat) \<and> of_char c \<le> (90 :: nat)) \<or> (97 \<le> (of_char c :: nat) \<and> of_char c \<le> (122 :: nat))
     \<or> c \<in> {CHR ''.'', CHR ''_'', CHR ''-''}"

definition dotted :: "string \<Rightarrow> (string \<times> string) option" where
  "dotted s = (let d = takeWhile digit s in
     case dropWhile digit s of [] \<Rightarrow> None | c # r \<Rightarrow> if d \<noteq> [] \<and> c = CHR ''.'' then Some (d, r) else None)"

definition pre_group :: "string \<Rightarrow> string option" where
  "pre_group s = (case s of [] \<Rightarrow> None
     | c # r \<Rightarrow> if c \<in> {CHR ''-'', CHR ''.''} \<and> takeWhile pre_char r \<noteq> [] then Some (takeWhile pre_char r) else None)"

definition semver_at :: "string \<Rightarrow> (string \<times> string \<times> string \<times> string option) option" where
  "semver_at s =
     (case dotted s of None \<Rightarrow> None | Some (a, r) \<Rightarrow>
      (case dotted r of None \<Rightarrow> None | Some (b, r') \<Rightarrow>
       let c = takeWhile digit r' in if c = [] then None else Some (a, b, c, pre_group (dropWhile digit r'))))"

fun semver_search :: "string \<Rightarrow> (string \<times> string \<times> string \<times> string option) option" where
  "semver_search [] = semver_at []"
| "semver_search (x # s) = (case semver_at (x # s) of Some m \<Rightarrow> Some m | None \<Rightarrow> semver_search s)"

text \<open>\<open>^v?(\d+)(?:\.(\d+))?$\<close> on a stripped text.\<close>

definition short_version :: "string \<Rightarrow> (string \<times> string option) option" where
  "short_version s =
     (let u = (case s of [] \<Rightarrow> s | c # r \<Rightarrow> if c = CHR ''v'' then r else s); d = takeWhile digit u
      in if d = [] then None
         else case dropWhile digit u of
           [] \<Rightarrow> Some (d, None)
         | c # r \<Rightarrow> if c = CHR ''.'' \<and> r \<noteq> [] \<and> list_all digit r then Some (d, Some r) else None)"

definition parse_ident :: "string \<Rightarrow> pre_ident" where
  "parse_ident s = (case int_text s of Some i \<Rightarrow> Num i | None \<Rightarrow> Alpha s)"

definition parse_version :: "string \<Rightarrow> version option" where
  "parse_version s =
     (if s = '''' then None
      else case semver_search s of
        None \<Rightarrow>
          (case short_version (strip s) of
             None \<Rightarrow> None
           | Some (major, minor) \<Rightarrow>
               Some (digits_value major, (case minor of None \<Rightarrow> 0 | Some m \<Rightarrow> digits_value m), 0, 1, []))
      | Some (major, minor, patch, pre0) \<Rightarrow>
          let pre = takeWhile (\<lambda>c. c \<noteq> CHR ''+'') (case pre0 of None \<Rightarrow> '''' | Some p \<Rightarrow> p);
              pre_tuple = (if pre \<noteq> '''' then (0, map parse_ident (split_on CHR ''.'' pre)) else (1, []))
          in Some (digits_value major, digits_value minor, digits_value patch, pre_tuple))"

definition version_in_range :: "version \<Rightarrow> string \<Rightarrow> bool" where
  "version_in_range v range0 =
     (let range = strip range0; compare = (\<lambda>n P. case parse_version (drop n range) of None \<Rightarrow> False | Some rv \<Rightarrow> P rv)
      in if starts_with ''>='' range then compare 2 (\<lambda>rv. v \<ge> rv)
         else if starts_with ''<='' range then compare 2 (\<lambda>rv. v \<le> rv)
         else if starts_with ''>'' range then compare 1 (\<lambda>rv. v > rv)
         else if starts_with ''<'' range then compare 1 (\<lambda>rv. v < rv)
         else compare 0 (\<lambda>rv. v = rv))"

subsection \<open>Advisories\<close>

type_synonym affected_range = "string \<times> string \<times> bool"

record advisory =
  adv_id :: json
  package_name :: string
  adv_summary :: string
  adv_severity :: string
  fixed_version :: string
  affected_versions :: "string list"
  cwe_ids :: json
  adv_references :: "json list"
  published :: json
  database_specific :: "(string \<times> json) list"
  affected_ranges :: "affected_range list"

definition advisory_to_dict :: "advisory \<Rightarrow> (string \<times> json) list" where
  "advisory_to_dict a =
     [(''id'', adv_id a), (''package_name'', JStr (package_name a)), (''summary'', JStr (adv_summary a)), (''severity'', JStr (adv_severity a)),
      (''fixed_version'', JStr (fixed_version a)), (''affected_versions'', JList (map JStr (affected_versions a))), (''cwe_ids'', cwe_ids a),
      (''references'', JList (adv_references a)), (''published'', published a),
      (''affected_ranges'', JList (map (\<lambda>(i, u, b). JList [JStr i, JStr u, JBool b]) (affected_ranges a)))]"

definition KNOWN_ECOSYSTEMS :: "string list" where
  "KNOWN_ECOSYSTEMS = [''npm'', ''pypi'', ''go'', ''cargo'', ''maven'', ''rubygems'', ''nuget'']"

definition OSV_ECOSYSTEM_ALIASES :: "(string, string) pydict" where
  "OSV_ECOSYSTEM_ALIASES = [(''crates.io'', ''cargo'')]"

definition normalize_name :: "string \<Rightarrow> string" where
  "normalize_name name = lower (pep503_collapse name)"

definition cvss_score_to_severity :: "pyfloat \<Rightarrow> string" where
  "cvss_score_to_severity score =
     (if score \<ge> 9 then ''CRITICAL'' else if score \<ge> 7 then ''HIGH'' else if score \<ge> 4 then ''MEDIUM'' else ''LOW'')"

text \<open>\<open>float(str(score).strip())\<close> of a decoded value; only numbers and texts can be read as one.\<close>

definition score_value :: "(string \<Rightarrow> pyfloat option) \<Rightarrow> json \<Rightarrow> pyfloat option" where
  "score_value float_text score =
     (case score of JInt i \<Rightarrow> Some (of_int i) | JFloat x \<Rightarrow> Some x | JStr s \<Rightarrow> float_text (strip s) | _ \<Rightarrow> None)"

definition severity_from_osv_severity_list :: "(string \<Rightarrow> pyfloat option) \<Rightarrow> json \<Rightarrow> string" where
  "severity_from_osv_severity_list float_text entries =
     (case entries of
        JList es \<Rightarrow>
          let score = (\<lambda>e. case e of JObj d \<Rightarrow> score_value float_text (get_json ''score'' d) | _ \<Rightarrow> None);
              best = foldl max 0 (List.map_filter score es)
          in if best > 0 then cvss_score_to_severity best else ''MEDIUM''
      | _ \<Rightarrow> ''MEDIUM'')"

definition osv_severity :: "(string \<Rightarrow> pyfloat option) \<Rightarrow> (string \<times> json) list \<Rightarrow> json \<Rightarrow> string py_result" where
  "osv_severity float_text data db_specific =
     (case db_specific of
        JObj d \<Rightarrow> bindE (get_or as_str ''severity'' '''' d) (\<lambda>s.
          let sev = upper s in
          Inr (if sev \<in> {''CRITICAL'', ''HIGH'', ''MEDIUM'', ''LOW''} then sev
               else severity_from_osv_severity_list float_text (case dget data ''severity'' of None \<Rightarrow> JList [] | Some v \<Rightarrow> v)))
      | _ \<Rightarrow> Inr ''MEDIUM'')"

text \<open>The bounds one event of a range gives, each \<open>None\<close> when the event does not name it.\<close>

record osv_event =
  ev_introduced :: "string option"
  ev_fixed :: "string option"
  ev_last_affected :: "string option"

definition read_event :: "json \<Rightarrow> osv_event py_result" where
  "read_event j =
     bindE (as_obj j) (\<lambda>d.
     let field = (\<lambda>k. case dget d k of None \<Rightarrow> Inr None | Some v \<Rightarrow> bindE (as_str v) (\<lambda>s. Inr (Some s))) in
     bindE (field ''introduced'') (\<lambda>i. bindE (field ''fixed'') (\<lambda>f. bindE (field ''last_affected'') (\<lambda>l.
       Inr \<lparr>ev_introduced = i, ev_fixed = f, ev_last_affected = l\<rparr>))))"

definition range_bounds :: "osv_event list \<Rightarrow> string \<times> string \<times> string" where
  "range_bounds events = foldl (\<lambda>(i, f, l) e.
     ((case ev_introduced e of None \<Rightarrow> i | Some x \<Rightarrow> x), (case ev_fixed e of None \<Rightarrow> f | Some x \<Rightarrow> x),
      (case ev_last_affected e of None \<Rightarrow> l | Some x \<Rightarrow> x))) ('''', '''', '''') events"

definition range_entry :: "osv_event list \<Rightarrow> affected_range list" where
  "range_entry events =
     (case range_bounds events of (introduced, fixed, last_affected) \<Rightarrow>
        if introduced = '''' then []
        else if fixed \<noteq> '''' then [(introduced, fixed, False)]
        else if last_affected \<noteq> '''' then [(introduced, last_affected, True)]
        else [(introduced, '''', False)])"

definition first_fixed :: "osv_event list list \<Rightarrow> string" where
  "first_fixed ranges = foldl (\<lambda>fv r. case range_bounds r of (_, fixed, _) \<Rightarrow> if fixed \<noteq> '''' \<and> fv = '''' then fixed else fv) '''' ranges"

definition read_range :: "json \<Rightarrow> osv_event list py_result" where
  "read_range j = bindE (as_obj j) (\<lambda>d. bindE (get_or as_list ''events'' [] d) (mapE read_event))"

definition ecosystem_of :: "string \<Rightarrow> string" where
  "ecosystem_of eco = (case dget OSV_ECOSYSTEM_ALIASES (lower eco) of Some a \<Rightarrow> a | None \<Rightarrow> eco)"

text \<open>One entry of \<open>affected\<close>: no advisory for an unknown ecosystem or a missing name.\<close>

definition read_affected :: "advisory \<Rightarrow> json \<Rightarrow> advisory list py_result" where
  "read_affected base j =
     bindE (as_obj j) (\<lambda>affected.
     bindE (get_or as_obj ''package'' [] affected) (\<lambda>pkg.
     bindE (get_or as_str ''ecosystem'' '''' pkg) (\<lambda>eco.
     if lower (ecosystem_of eco) \<notin> set KNOWN_ECOSYSTEMS then Inr []
     else
       bindE (get_or as_str ''name'' '''' pkg) (\<lambda>name.
       if name = '''' then Inr []
       else
         bindE (bindE (get_or as_list ''ranges'' [] affected) (mapE read_range)) (\<lambda>ranges.
         bindE (bindE (get_or as_list ''versions'' [] affected) (mapE as_str)) (\<lambda>versions.
         Inr [base\<lparr>package_name := name, fixed_version := first_fixed ranges,
                affected_versions := foldl (\<lambda>vs v. if v \<in> set vs then vs else vs @ [v]) [] versions,
                affected_ranges := concat (map range_entry ranges)\<rparr>]))))))"

definition from_osv :: "(string \<Rightarrow> pyfloat option) \<Rightarrow> (string \<times> json) list \<Rightarrow> advisory list py_result" where
  "from_osv float_text data =
     (let db_specific = (case dget data ''database_specific'' of None \<Rightarrow> JObj [] | Some v \<Rightarrow> v);
          db_dict = (case db_specific of JObj d \<Rightarrow> d | _ \<Rightarrow> []) in
      bindE (get_or as_str ''summary'' '''' data) (\<lambda>summary0.
      bindE (get_or as_str ''details'' '''' data) (\<lambda>details.
      let summary = (if summary0 = '''' \<and> details \<noteq> '''' then take 200 details else summary0) in
      bindE (osv_severity float_text data db_specific) (\<lambda>severity.
      bindE (get_or as_list ''affected'' [] data) (\<lambda>affected.
      bindE (get_or as_list ''references'' [] data) (\<lambda>refs0.
      bindE (mapE (\<lambda>r. bindE (as_obj r) (\<lambda>d. Inr (case dget d ''url'' of None \<Rightarrow> JStr '''' | Some u \<Rightarrow> u))) refs0) (\<lambda>refs.
      let base = \<lparr>adv_id = (case dget data ''id'' of None \<Rightarrow> JStr '''' | Some v \<Rightarrow> v), package_name = '''', adv_summary = summary,
                  adv_severity = severity, fixed_version = '''', affected_versions = [],
                  cwe_ids = (case dget db_dict ''cwe_ids'' of None \<Rightarrow> JList [] | Some v \<Rightarrow> v), adv_references = refs,
                  published = (case dget data ''published'' of None \<Rightarrow> JStr '''' | Some v \<Rightarrow> v),
                  database_specific = db_dict, affected_ranges = []\<rparr>
      in bindE (mapE (read_affected base) affected) (\<lambda>advs. Inr (concat advs)))))))))"

subsection \<open>The database\<close>

record advisory_db =
  db_advisories :: "(string, advisory list) pydict"
  db_loaded :: bool
  db_loaded_at :: "pyfloat option"

definition add_advisory :: "(string, advisory list) pydict \<Rightarrow> advisory \<Rightarrow> (string, advisory list) pydict" where
  "add_advisory m adv =
     (let key = normalize_name (package_name adv)
      in dset key ((case dget m key of None \<Rightarrow> [] | Some advs \<Rightarrow> advs) @ [adv]) m)"

text \<open>The records of one file: a list, an envelope with a list of advisories, or one record.\<close>

definition file_entries :: "json \<Rightarrow> json list py_result" where
  "file_entries data =
     (case data of
        JList es \<Rightarrow> Inr es
      | JObj d \<Rightarrow> (case dget d ''advisories'' of Some (JList es) \<Rightarrow> Inr es | _ \<Rightarrow> Inr [data])
      | _ \<Rightarrow> Inl TypeError)"

definition file_advisories :: "(string \<Rightarrow> pyfloat option) \<Rightarrow> json option \<Rightarrow> advisory list py_result" where
  "file_advisories float_text file =
     (case file of
        None \<Rightarrow> Inr []
      | Some data \<Rightarrow>
          bindE (file_entries data) (\<lambda>entries.
          bindE (mapE (\<lambda>e. bindE (as_obj e) (from_osv float_text)) entries) (\<lambda>advs. Inr (concat advs))))"

definition load_db :: "(string \<Rightarrow> pyfloat option) \<Rightarrow> pyfloat \<Rightarrow> json option list \<Rightarrow> advisory_db \<Rightarrow> (nat \<times> advisory_db) py_result" where
  "load_db float_text now files db =
     bindE (mapE (file_advisories float_text) files) (\<lambda>per_file.
     let advs = concat per_file
     in Inr (length advs, db\<lparr>db_advisories := foldl add_advisory (db_advisories db) advs, db_loaded := True, db_loaded_at := Some now\<rparr>))"

definition empty_db :: advisory_db where
  "empty_db = \<lparr>db_advisories = [], db_loaded = False, db_loaded_at = None\<rparr>"

definition new_advisory_db :: "(string \<Rightarrow> pyfloat option) \<Rightarrow> pyfloat \<Rightarrow> json option list option \<Rightarrow> advisory_db py_result" where
  "new_advisory_db float_text now dir =
     (case dir of None \<Rightarrow> Inr empty_db | Some files \<Rightarrow> bindE (load_db float_text now files empty_db) (\<lambda>(_, db). Inr db))"

definition in_affected_range :: "version \<Rightarrow> affected_range \<Rightarrow> bool" where
  "in_affected_range v r =
     (case r of (introduced, bound, inclusive) \<Rightarrow>
        case parse_version introduced of
          None \<Rightarrow> False
        | Some iv \<Rightarrow>
            if v < iv then False
            else if bound = '''' then True
            else (case parse_version bound of
                    None \<Rightarrow> True
                  | Some uv \<Rightarrow> if inclusive then \<not> v > uv else \<not> v \<ge> uv))"

definition version_affected :: "string \<Rightarrow> advisory \<Rightarrow> bool" where
  "version_affected version adv =
     (case parse_version version of
        None \<Rightarrow> False
      | Some v \<Rightarrow>
          if list_ex (in_affected_range v) (affected_ranges adv) then True
          else if affected_ranges adv = [] \<and> (case parse_version (fixed_version adv) of None \<Rightarrow> False | Some fv \<Rightarrow> v < fv) then True
          else list_ex (version_in_range v) (affected_versions adv))"

definition check :: "advisory_db \<Rightarrow> string \<Rightarrow> string \<Rightarrow> advisory list" where
  "check db pkg_name pkg_version =
     (let advisories = (case dget (db_advisories db) (normalize_name pkg_name) of None \<Rightarrow> [] | Some a \<Rightarrow> a)
      in filter (version_affected pkg_version) advisories)"

definition package_count :: "advisory_db \<Rightarrow> nat" where
  "package_count db = length (db_advisories db)"

definition advisory_count :: "advisory_db \<Rightarrow> nat" where
  "advisory_count db = sum_list (map length (dvals (db_advisories db)))"

definition is_stale :: "pyfloat \<Rightarrow> advisory_db \<Rightarrow> bool" where
  "is_stale now db = (case db_loaded_at db of None \<Rightarrow> True | Some t \<Rightarrow> now - t > 86400)"

definition load_bundled_advisories :: "(string \<Rightarrow> pyfloat option) \<Rightarrow> pyfloat \<Rightarrow> json option list option \<Rightarrow> advisory_db py_result" where
  "load_bundled_advisories float_text now bundled = new_advisory_db float_text now bundled"


section \<open>Versions and their texts\<close>

text \<open>How a version is written, and the versions that can be written: identifiers in the form of the grammar.\<close>

fun show_ident :: "pre_ident \<Rightarrow> string" where
  "show_ident (Num i) = show_int i"
| "show_ident (Alpha s) = s"

fun show_version :: "version \<Rightarrow> string" where
  "show_version (major, minor, patch, tag, ids) =
     show_nat major @ ''.'' @ show_nat minor @ ''.'' @ show_nat patch @
     (if ids = [] then '''' else ''-'' @ join_with ''.'' (map show_ident ids))"

fun ident_ok :: "pre_ident \<Rightarrow> bool" where
  "ident_ok (Num i) \<longleftrightarrow> 0 \<le> i"
| "ident_ok (Alpha s) \<longleftrightarrow> s \<noteq> '''' \<and> list_all pre_char s \<and> CHR ''.'' \<notin> set s \<and> int_text s = None"

fun version_ok :: "version \<Rightarrow> bool" where
  "version_ok (major, minor, patch, tag, ids) \<longleftrightarrow> tag = (if ids = [] then 1 else 0) \<and> list_all ident_ok ids"

lemma digits_prefix:
  assumes "list_all digit d" "r = [] \<or> \<not> digit (hd r)"
  shows "takeWhile digit (d @ r) = d" "dropWhile digit (d @ r) = r"
  using assms by (induction d) (simp_all add: dropWhile_eq_self_iff takeWhile_eq_Nil_iff)

lemmas show_nat_prefix = digits_prefix [OF show_nat_digits]

lemma not_digit [simp]: "\<not> digit CHR ''.''" "\<not> digit CHR ''-''" "\<not> digit CHR ''_''"
  by (simp_all add: digit_def)

lemma dotted_show: "dotted (show_nat n @ CHR ''.'' # r) = Some (show_nat n, r)"
  by (simp add: dotted_def show_nat_prefix)

lemma semver_at_show:
  assumes "r = [] \<or> \<not> digit (hd r)"
  shows "semver_at (show_nat a @ ''.'' @ show_nat b @ ''.'' @ show_nat c @ r) = Some (show_nat a, show_nat b, show_nat c, pre_group r)"
  using show_nat_prefix [OF assms, of c] by (simp add: semver_at_def dotted_show)

lemma semver_search_at: "semver_at s = Some m \<Longrightarrow> semver_search s = Some m"
  by (cases s) simp_all

lemma takeWhile_all: "list_all P s \<Longrightarrow> takeWhile P s = s"
  by (induction s) simp_all

lemma parse_show_release: "parse_version (show_nat a @ ''.'' @ show_nat b @ ''.'' @ show_nat c) = Some (a, b, c, 1, [])"
proof -
  have "semver_search (show_nat a @ ''.'' @ show_nat b @ ''.'' @ show_nat c) = Some (show_nat a, show_nat b, show_nat c, None)"
    using semver_search_at [OF semver_at_show [of "[]" a b c]] by (simp add: pre_group_def)
  then show ?thesis by (simp add: parse_version_def)
qed

lemma parse_show_pre:
  assumes "sep \<in> {CHR ''-'', CHR ''.''}" "p \<noteq> []" "list_all pre_char p"
  shows "parse_version (show_nat a @ ''.'' @ show_nat b @ ''.'' @ show_nat c @ sep # p) =
    Some (a, b, c, 0, map parse_ident (split_on CHR ''.'' p))"
proof -
  have "pre_group (sep # p) = Some p" using assms by (simp add: pre_group_def takeWhile_all)
  moreover have "\<not> digit sep" using assms(1) by auto
  ultimately have "semver_search (show_nat a @ ''.'' @ show_nat b @ ''.'' @ show_nat c @ sep # p) = Some (show_nat a, show_nat b, show_nat c, Some p)"
    using semver_search_at [OF semver_at_show [of "sep # p" a b c]] by simp
  moreover have "CHR ''+'' \<notin> set p" using assms(3) by (auto simp: list_all_iff pre_char_def digit_def)
  ultimately show ?thesis using assms(2) by (simp add: parse_version_def takeWhile_neq_all)
qed


lemma int_literal_digits: "list_all digit s \<Longrightarrow> s \<noteq> [] \<Longrightarrow> int_literal s"
  by (induction s rule: int_literal.induct) (auto split: if_splits)

lemma parse_show_ident: "ident_ok x \<Longrightarrow> parse_ident (show_ident x) = x"
proof (cases x)
  case (Num i)
  assume "ident_ok x"
  obtain c r where s: "show_nat (nat i) = c # r" by (cases "show_nat (nat i)") simp_all
  have "list_all digit (c # r)" using show_nat_digits [of "nat i"] s by simp
  then have "digit c" "int_literal (c # r)" "filter digit (c # r) = c # r" by (simp_all add: int_literal_digits filter_True list_all_iff)
  moreover have "c \<noteq> CHR ''-''" "c \<noteq> CHR ''+''" using \<open>digit c\<close> by (auto simp: digit_def)
  moreover have "digits_value (c # r) = nat i" using s digits_value_show [of "nat i"] by simp
  ultimately have "int_text (c # r) = Some i" using \<open>ident_ok x\<close> Num by (simp add: int_text_def)
  then show ?thesis using Num s \<open>ident_ok x\<close> by (simp add: parse_ident_def show_int_def)
qed (simp add: parse_ident_def)

lemma show_ident_chars: "ident_ok x \<Longrightarrow> show_ident x \<noteq> [] \<and> list_all pre_char (show_ident x) \<and> CHR ''.'' \<notin> set (show_ident x)"
proof (cases x)
  case (Num i)
  have "list_all pre_char (show_nat (nat i))" "CHR ''.'' \<notin> set (show_nat (nat i))"
    using show_nat_digits [of "nat i"] not_digit(1) by (auto simp: list_all_iff pre_char_def)
  then show "ident_ok x \<Longrightarrow> ?thesis" using Num by (simp add: show_int_def)
qed simp

lemma split_on_join: "xs \<noteq> [] \<Longrightarrow> \<forall>x \<in> set xs. c \<notin> set x \<Longrightarrow> split_on c (join_with [c] xs) = xs"
  by (induction "[c]" xs rule: join_with.induct) (simp_all add: split_on_none split_on_append)

lemma pre_char_dot: "pre_char CHR ''.''"
  by (simp add: pre_char_def)

lemma join_idents: "list_all ident_ok ids \<Longrightarrow> ids \<noteq> [] \<Longrightarrow>
  join_with ''.'' (map show_ident ids) \<noteq> [] \<and> list_all pre_char (join_with ''.'' (map show_ident ids))"
proof (induction ids rule: induct_list012)
  case (3 x y ids)
  then show ?case using show_ident_chars [of x] pre_char_dot by simp
qed (simp_all add: show_ident_chars)

text \<open>
  C23. Versions survive writing and reading: the code reads the text of a version, with a pre-release of
  numeric and alphanumeric identifiers or without one, as that version.
\<close>

theorem parse_show_version:
  assumes "version_ok v"
  shows "parse_version (show_version v) = Some v"
proof -
  obtain a b c tag ids where v: "v = (a, b, c, tag, ids)" by (cases v)
  show ?thesis
  proof (cases "ids = []")
    case True
    then show ?thesis using parse_show_release [of a b c] assms v by simp
  next
    case False
    let ?p = "join_with ''.'' (map show_ident ids)"
    have ok: "list_all ident_ok ids" "tag = 0" using assms v False by auto
    have "split_on CHR ''.'' ?p = map show_ident ids"
      using split_on_join [of "map show_ident ids" "CHR ''.''"] ok False show_ident_chars by (auto simp: list_all_iff)
    moreover have "map parse_ident (map show_ident ids) = ids"
      using ok parse_show_ident by (auto simp: list_all_iff intro!: map_idI)
    ultimately show ?thesis using parse_show_pre [of "CHR ''-''" ?p a b c] join_idents [OF ok(1) False] v False ok(2) by simp
  qed
qed

theorem parse_show_version_witness:
  "parse_version ''12.0.3-rc.1'' = Some (12, 0, 3, 0, [Alpha ''rc'', Num 1])"
proof -
  have "version_ok (12, 0, 3, 0, [Alpha ''rc'', Num 1])" by code_simp
  from parse_show_version [OF this]
  have "parse_version (show_version (12, 0, 3, 0, [Alpha ''rc'', Num 1])) = Some (12, 0, 3, 0, [Alpha ''rc'', Num 1])" .
  moreover have "show_version (12, 0, 3, 0, [Alpha ''rc'', Num 1]) = ''12.0.3-rc.1''" by code_simp
  ultimately show ?thesis by simp
qed

text \<open>
  A fourth number of a version, as in the versions of gems and NuGet packages, is read as a
  pre-release: the advisory fixed in \<open>M.m.p.q\<close> is not reported for the release \<open>M.m.p\<close>, which precedes it.
\<close>

lemma fourth_number_hides_advisory:
  "\<not> version_affected (show_nat M @ ''.'' @ show_nat m @ ''.'' @ show_nat p)
     (adv\<lparr>affected_versions := [], affected_ranges := [(''0'', show_nat M @ ''.'' @ show_nat m @ ''.'' @ show_nat p @ ''.'' @ show_nat q, False)]\<rparr>)"
proof -
  have "list_all pre_char (show_nat q)" using show_nat_digits [of q] by (auto simp: list_all_iff pre_char_def)
  then have "\<exists>ids. parse_version (show_nat M @ ''.'' @ show_nat m @ ''.'' @ show_nat p @ ''.'' @ show_nat q) = Some (M, m, p, 0, ids)"
    using parse_show_pre [of "CHR ''.''" "show_nat q" M m p] by simp
  then obtain ids where "parse_version (show_nat M @ ''.'' @ show_nat m @ ''.'' @ show_nat p @ ''.'' @ show_nat q) = Some (M, m, p, 0, ids)" ..
  moreover have "(M, m, p, 0 :: nat, ids) \<le> (M, m, p, 1, [])" by (simp add: less_eq_prod_def)
  ultimately show ?thesis
    using parse_show_release [of M m p] by (simp add: version_affected_def in_affected_range_def split: option.splits)
qed


subsection \<open>The scanner and the pattern\<close>

definition SEMVER_RE :: regex where
  "SEMVER_RE = seqs [one_or_more (Cls digit), lit ''.'', one_or_more (Cls digit), lit ''.'', one_or_more (Cls digit),
     maybe (seqs [Cls (\<lambda>c. c \<in> {CHR ''-'', CHR ''.''}), one_or_more (Cls pre_char)])]"

lemma star_lang_class: "w \<in> star_lang (lang (Cls P)) \<longleftrightarrow> list_all P w"
  by (induction w) (auto simp: star_lang_Cons intro: star_Nil)

lemma lang_class_run: "lang (one_or_more (Cls P)) = {w. w \<noteq> [] \<and> list_all P w}"
proof -
  have "w \<in> lang (one_or_more (Cls P)) \<longleftrightarrow> w \<noteq> [] \<and> list_all P w" for w
  proof (cases w)
    case (Cons c r)
    then have "w \<in> lang (one_or_more (Cls P)) \<longleftrightarrow> P c \<and> r \<in> star_lang (lang (Cls P))"
      by (auto simp: one_or_more_def append_eq_Cons_conv intro: exI [of _ "[c]"])
    then show ?thesis using star_lang_class [of r P] Cons by simp
  qed (auto simp: one_or_more_def)
  then show ?thesis by blast
qed

lemma lang_Seq_I: "u \<in> lang r \<Longrightarrow> v \<in> lang s \<Longrightarrow> u @ v \<in> lang (Seq r s)"
  by auto

lemma dotted_Some: "dotted s = Some (d, r) \<longleftrightarrow> d \<noteq> [] \<and> list_all digit d \<and> s = d @ CHR ''.'' # r"
proof
  assume a: "dotted s = Some (d, r)"
  then have "d = takeWhile digit s" "d \<noteq> []" "dropWhile digit s = CHR ''.'' # r"
    by (auto simp: dotted_def Let_def split: list.splits if_splits)
  then show "d \<noteq> [] \<and> list_all digit d \<and> s = d @ CHR ''.'' # r"
    using takeWhile_dropWhile_id [of digit s] set_takeWhileD [of _ digit s] by (auto simp: list_all_iff)
qed (auto simp: dotted_def digits_prefix)

lemma semver_at_regex: "semver_at s \<noteq> None \<longleftrightarrow> (\<exists>v w. s = v @ w \<and> v \<in> lang SEMVER_RE)"
proof
  assume "semver_at s \<noteq> None"
  then obtain a r b r' where ab: "dotted s = Some (a, r)" "dotted r = Some (b, r')" "takeWhile digit r' \<noteq> []"
    by (auto simp: semver_at_def Let_def split: option.splits if_splits)
  let ?c = "takeWhile digit r'"
  have "s = (a @ ''.'' @ b @ ''.'' @ ?c @ []) @ dropWhile digit r'" using ab by (auto simp: dotted_Some)
  moreover have "list_all digit ?c" by (auto simp: list_all_iff dest: set_takeWhileD)
  then have "a @ ''.'' @ b @ ''.'' @ ?c @ [] \<in> lang SEMVER_RE"
    using ab unfolding SEMVER_RE_def seqs.simps by (intro lang_Seq_I) (simp_all add: lang_class_run maybe_def dotted_Some)
  ultimately show "\<exists>v w. s = v @ w \<and> v \<in> lang SEMVER_RE" by blast
next
  assume "\<exists>v w. s = v @ w \<and> v \<in> lang SEMVER_RE"
  then obtain a b c t where abc: "a \<noteq> []" "list_all digit a" "b \<noteq> []" "list_all digit b" "c \<noteq> []" "list_all digit c"
    and s: "s = a @ CHR ''.'' # b @ CHR ''.'' # c @ t"
    unfolding SEMVER_RE_def seqs.simps lang.simps(5) lang_class_run lang_lit mem_Collect_eq by (elim exE conjE) simp
  have "dotted s = Some (a, b @ CHR ''.'' # c @ t)" "dotted (b @ CHR ''.'' # c @ t) = Some (b, c @ t)" using abc s by (simp_all add: dotted_Some)
  moreover have "takeWhile digit (c @ t) \<noteq> []" using abc by (cases c) simp_all
  ultimately show "semver_at s \<noteq> None" by (simp add: semver_at_def Let_def)
qed

text \<open>The scanner finds a match exactly when the pattern has one.\<close>

lemma semver_search_regex: "semver_search s \<noteq> None \<longleftrightarrow> re_search SEMVER_RE s"
proof -
  have "semver_search s \<noteq> None \<longleftrightarrow> (\<exists>u t. s = u @ t \<and> semver_at t \<noteq> None)"
  proof (induction s)
    case (Cons x s)
    have "(\<exists>u t. x # s = u @ t \<and> semver_at t \<noteq> None) \<longleftrightarrow> semver_at (x # s) \<noteq> None \<or> (\<exists>u t. s = u @ t \<and> semver_at t \<noteq> None)"
      by (metis append_Cons append_Nil list.inject neq_Nil_conv)
    with Cons show ?case by (auto split: option.splits)
  qed simp
  then show ?thesis unfolding re_search_lang semver_at_regex by blast
qed

section \<open>The lookup\<close>

text \<open>
  The table of the database as an interface: a multimap keyed by the normalised name of a package.
\<close>

lemma add_advisory_get:
  "dget (add_advisory m adv) k = (if k = normalize_name (package_name adv) then Some ((case dget m k of None \<Rightarrow> [] | Some advs \<Rightarrow> advs) @ [adv]) else dget m k)"
  by (simp add: add_advisory_def Let_def)

lemma add_advisories_get:
  "(case dget (foldl add_advisory m advs) k of None \<Rightarrow> [] | Some a \<Rightarrow> a) =
     (case dget m k of None \<Rightarrow> [] | Some a \<Rightarrow> a) @ filter (\<lambda>a. normalize_name (package_name a) = k) advs"
  by (induction advs arbitrary: m) (auto simp: add_advisory_get)

text \<open>
  C21. What a lookup returns after loading a directory: exactly the advisories the files hold for a package
  whose name normalises to the same text and whose affected versions include the given one, each as
  often as the files hold it and in their order; and the load counts every advisory.
\<close>

theorem check_returns_loaded:
  assumes "new_advisory_db float_text now (Some files) = Inr db"
  shows "\<exists>per_file. mapE (file_advisories float_text) files = Inr per_file \<and>
    check db name version = filter (\<lambda>a. normalize_name (package_name a) = normalize_name name \<and> version_affected version a) (concat per_file)"
proof -
  obtain per_file where pf: "mapE (file_advisories float_text) files = Inr per_file"
    and db: "db_advisories db = foldl add_advisory [] (concat per_file)"
    using assms by (auto simp: new_advisory_db_def load_db_def bindE_eq_Inr empty_db_def Let_def)
  have "check db name version = filter (version_affected version) (filter (\<lambda>a. normalize_name (package_name a) = normalize_name name) (concat per_file))"
    using add_advisories_get [of "[]" "concat per_file" "normalize_name name"] by (simp add: check_def db)
  then show ?thesis using pf by (auto simp: conj_commute)
qed

definition lodash_record :: json where
  "lodash_record = JObj [(''id'', JStr ''GHSA-1''), (''summary'', JStr ''pollution''), (''affected'', JList [JObj
     [(''package'', JObj [(''ecosystem'', JStr ''npm''), (''name'', JStr ''Lodash.Merge'')]),
      (''ranges'', JList [JObj [(''events'', JList [JObj [(''introduced'', JStr ''0'')], JObj [(''fixed'', JStr ''4.17.21'')]])]])]])]"

definition lodash_db :: advisory_db where
  "lodash_db = (case new_advisory_db (\<lambda>_. None) 0 (Some [None, Some lodash_record]) of Inr db \<Rightarrow> db | Inl _ \<Rightarrow> empty_db)"

theorem check_returns_loaded_witness:
  "(\<exists>per_file. mapE (file_advisories (\<lambda>_. None)) [None, Some lodash_record] = Inr per_file \<and>
     check lodash_db ''lodash_merge'' ''4.17.5'' =
       filter (\<lambda>a. normalize_name (package_name a) = normalize_name ''lodash_merge'' \<and> version_affected ''4.17.5'' a) (concat per_file)) \<and>
   map package_name (check lodash_db ''lodash_merge'' ''4.17.5'') = [''Lodash.Merge'']"
proof -
  have "\<not> isl (new_advisory_db (\<lambda>_. None) 0 (Some [None, Some lodash_record]))" by code_simp
  then have "new_advisory_db (\<lambda>_. None) 0 (Some [None, Some lodash_record]) = Inr lodash_db"
    unfolding lodash_db_def by (auto simp: isl_def split: sum.splits)
  moreover have "map package_name (check lodash_db ''lodash_merge'' ''4.17.5'') = [''Lodash.Merge'']" by code_simp
  ultimately show ?thesis using check_returns_loaded [of "\<lambda>_. None" 0 "[None, Some lodash_record]" lodash_db "''lodash_merge''" "''4.17.5''"]
    by (intro conjI)
qed

section \<open>Ranges against the OSV specification\<close>

text \<open>
  The evaluation the OSV schema prescribes for the events of one range, in the order of their
  versions: an event that introduces the flaw at or below the version makes it vulnerable, one that
  fixes it at or below, or a last affected version below, makes it safe again.
\<close>

definition at_least_text :: "version \<Rightarrow> string option \<Rightarrow> bool" where
  "at_least_text v s = (case Option.bind s parse_version of None \<Rightarrow> False | Some w \<Rightarrow> w \<le> v)"

definition above_text :: "version \<Rightarrow> string option \<Rightarrow> bool" where
  "above_text v s = (case Option.bind s parse_version of None \<Rightarrow> False | Some w \<Rightarrow> w < v)"

definition osv_included :: "version \<Rightarrow> osv_event list \<Rightarrow> bool" where
  "osv_included v events = foldl (\<lambda>vulnerable e.
     if at_least_text v (ev_introduced e) then True
     else if at_least_text v (ev_fixed e) then False
     else if above_text v (ev_last_affected e) then False
     else vulnerable) False events"

definition introduced :: "string \<Rightarrow> osv_event" where
  "introduced s = \<lparr>ev_introduced = Some s, ev_fixed = None, ev_last_affected = None\<rparr>"

definition fixed_in :: "string \<Rightarrow> osv_event" where
  "fixed_in s = \<lparr>ev_introduced = None, ev_fixed = Some s, ev_last_affected = None\<rparr>"

definition last_affected :: "string \<Rightarrow> osv_event" where
  "last_affected s = \<lparr>ev_introduced = None, ev_fixed = None, ev_last_affected = Some s\<rparr>"

lemmas osv_events = introduced_def fixed_in_def last_affected_def

lemma parse_nonempty: "parse_version s = Some v \<Longrightarrow> s \<noteq> ''''"
  by (auto simp: parse_version_def)

lemma in_affected_range_parsed:
  "parse_version a = Some va \<Longrightarrow> in_affected_range v (a, '''', inc) \<longleftrightarrow> va \<le> v"
  "parse_version a = Some va \<Longrightarrow> parse_version b = Some vb \<Longrightarrow>
     in_affected_range v (a, b, inc) \<longleftrightarrow> va \<le> v \<and> (if inc then v \<le> vb else v < vb)"
  using parse_nonempty [of b vb] by (auto simp: in_affected_range_def not_less not_le)



text \<open>
  A range whose events give two intervals keeps only the second: a version of the first interval,
  which the specification counts as affected, is not reported.
\<close>

lemma first_interval_is_lost:
  assumes "parse_version a = Some va" "parse_version b = Some vb" "parse_version c = Some vc" "parse_version d = Some vd"
    and "va \<le> v" "v < vb" "vb \<le> vc" "vc \<le> vd"
  shows "osv_included v [introduced a, fixed_in b, introduced c, fixed_in d] \<and>
    \<not> list_ex (in_affected_range v) (range_entry [introduced a, fixed_in b, introduced c, fixed_in d])"
proof -
  have "v < vc" "v < vd" using assms(6-8) by auto
  then show ?thesis using assms parse_nonempty [OF assms(3)] parse_nonempty [OF assms(4)]
    by (simp add: range_entry_def range_bounds_def osv_included_def in_affected_range_parsed at_least_text_def above_text_def osv_events not_le)
qed

lemma first_interval_is_lost_witness:
  "osv_included (1, 5, 0, 1, []) [introduced ''1.0'', fixed_in ''2.0'', introduced ''3.0'', fixed_in ''4.0''] \<and>
   \<not> list_ex (in_affected_range (1, 5, 0, 1, [])) (range_entry [introduced ''1.0'', fixed_in ''2.0'', introduced ''3.0'', fixed_in ''4.0''])"
  by (rule first_interval_is_lost [of "''1.0''" "(1, 0, 0, 1, [])" "''2.0''" "(2, 0, 0, 1, [])" "''3.0''" "(3, 0, 0, 1, [])" "''4.0''" "(4, 0, 0, 1, [])"])
    code_simp+

end
