(* ===== verification/Tenant.thy ===== *)
theory Tenant
  imports Py_Strings
begin

text \<open>
  Tenants of the sandbox daemon (\<open>src/picosentry/sandbox/tenant/__init__.py\<close>): identifiers, the registry
  of tenants and of the tokens mapped to them, the tenant a request acts for, the configuration from
  environment variables and the keys of stored data. Identifiers and headers are ASCII texts.
\<close>

section \<open>Model\<close>

subsection \<open>Identifiers\<close>

text \<open>A \<open>TenantId\<close> keeps the text it was made from; equality and hashing use the normalised text.\<close>

datatype tenant_id = TenantId (tenant_value: string)

definition is_alnum :: "char \<Rightarrow> bool" where
  "is_alnum c = (let n = (of_char c :: nat) in (48 \<le> n \<and> n \<le> 57) \<or> (65 \<le> n \<and> n \<le> 90) \<or> (97 \<le> n \<and> n \<le> 122))"

definition normalized :: "tenant_id \<Rightarrow> string" where
  "normalized t = lower (strip (tenant_value t))"

definition make_tenant_id :: "string \<Rightarrow> tenant_id py_result" where
  "make_tenant_id value =
     (if value = '''' \<or> strip value = '''' then Inl (ValueError ''TenantId cannot be empty'')
      else if \<not> list_all (\<lambda>c. is_alnum c \<or> c \<in> {CHR ''-'', CHR ''_''}) (lower (strip value))
        then Inl (ValueError (''TenantId '' @ quoted value @ '' contains invalid characters. Use only alphanumeric, hyphens, and underscores.''))
      else Inr (TenantId value))"

definition tenant_eq :: "tenant_id \<Rightarrow> tenant_id \<Rightarrow> bool" where
  "tenant_eq s t \<longleftrightarrow> normalized s = normalized t"

definition DEFAULT_TENANT :: tenant_id where
  "DEFAULT_TENANT = TenantId ''default''"

record tenant_context =
  tx_id :: tenant_id
  tx_display_name :: string
  tx_metadata :: "(string \<times> json) list"

definition is_default :: "tenant_context \<Rightarrow> bool" where
  "is_default ctx = tenant_eq (tx_id ctx) DEFAULT_TENANT"

text \<open>The error of a header that names another tenant than the token's.\<close>

datatype tenant_mismatch = TenantMismatchError tenant_id tenant_id

subsection \<open>The registry\<close>

record tenant_registry =
  r_tenants :: "(string, tenant_context) pydict"
  r_token_map :: "(string, tenant_id) pydict"
  r_operators :: "string list"

definition new_registry :: tenant_registry where
  "new_registry = \<lparr>r_tenants = [], r_token_map = [], r_operators = []\<rparr>"

definition register :: "tenant_context \<Rightarrow> tenant_registry \<Rightarrow> tenant_registry" where
  "register ctx r = r\<lparr>r_tenants := dset (normalized (tx_id ctx)) ctx (r_tenants r)\<rparr>"

definition unregister :: "tenant_id \<Rightarrow> tenant_registry \<Rightarrow> tenant_registry" where
  "unregister t r = r\<lparr>r_tenants := dpop (normalized t) (r_tenants r), r_token_map := filter (\<lambda>(_, v). \<not> tenant_eq v t) (r_token_map r)\<rparr>"

definition get_tenant :: "tenant_id \<Rightarrow> tenant_registry \<Rightarrow> tenant_context option" where
  "get_tenant t r = dget (r_tenants r) (normalized t)"

definition list_tenants :: "tenant_registry \<Rightarrow> tenant_context list" where
  "list_tenants r = dvals (r_tenants r)"

definition map_token :: "string \<Rightarrow> tenant_id \<Rightarrow> tenant_registry \<Rightarrow> tenant_registry" where
  "map_token token_hash t r = r\<lparr>r_token_map := dset token_hash t (r_token_map r)\<rparr>"

definition map_operator_token :: "string \<Rightarrow> tenant_registry \<Rightarrow> tenant_registry" where
  "map_operator_token token_hash r = r\<lparr>r_operators := List.insert token_hash (r_operators r)\<rparr>"

definition is_operator_token :: "string \<Rightarrow> tenant_registry \<Rightarrow> bool" where
  "is_operator_token token_hash r \<longleftrightarrow> token_hash \<in> set (r_operators r)"

definition header_tenant :: "string option \<Rightarrow> tenant_id option" where
  "header_tenant header =
     (case header of None \<Rightarrow> None | Some h \<Rightarrow> if h = '''' then None else (case make_tenant_id h of Inl _ \<Rightarrow> None | Inr t \<Rightarrow> Some t))"

definition resolve_tenant :: "string \<Rightarrow> string option \<Rightarrow> tenant_registry \<Rightarrow> tenant_mismatch + tenant_id" where
  "resolve_tenant token_hash header r =
     (let mapped = dget (r_token_map r) token_hash;
          header_tid = header_tenant header;
          effective = (case mapped of None \<Rightarrow> DEFAULT_TENANT | Some t \<Rightarrow> t) in
      if is_operator_token token_hash r then
        (case header_tid of
           None \<Rightarrow> Inr effective
         | Some h \<Rightarrow> if get_tenant h r \<noteq> None then Inr h else Inr effective)
      else
        (case header_tid of
           None \<Rightarrow> Inr effective
         | Some h \<Rightarrow> if tenant_eq h effective then Inr effective else Inl (TenantMismatchError h effective)))"

definition tenant_count :: "tenant_registry \<Rightarrow> nat" where
  "tenant_count r = length (r_tenants r)"

subsection \<open>Configuration\<close>








definition tenant_key :: "tenant_id \<Rightarrow> string \<Rightarrow> string" where
  "tenant_key t key = ''tenant:'' @ normalized t @ '':'' @ key"

section \<open>Well-typed registries\<close>

text \<open>
  The identifiers the constructor accepts, and registries that hold only such identifiers, each tenant
  under the normalised text of its own one.
\<close>

definition tenant_ok :: "tenant_id \<Rightarrow> bool" where
  "tenant_ok t \<longleftrightarrow> make_tenant_id (tenant_value t) = Inr t"

abbreviation own_key :: "tenant_context \<Rightarrow> string" where
  "own_key ctx \<equiv> normalized (tx_id ctx)"

abbreviation context_ok :: "tenant_context \<Rightarrow> bool" where
  "context_ok ctx \<equiv> tenant_ok (tx_id ctx)"

definition registry_ok :: "tenant_registry \<Rightarrow> bool" where
  "registry_ok r \<longleftrightarrow> keyed own_key (r_tenants r) \<and> (\<forall>ctx \<in> set (dvals (r_tenants r)). context_ok ctx) \<and>
     wf_dict (r_token_map r) \<and> (\<forall>t \<in> set (dvals (r_token_map r)). tenant_ok t)"

inductive registry_reachable :: "tenant_registry \<Rightarrow> bool" where
  reg_new: "registry_reachable new_registry"
| reg_register: "registry_reachable r \<Longrightarrow> tenant_ok (tx_id ctx) \<Longrightarrow> registry_reachable (register ctx r)"
| reg_unregister: "registry_reachable r \<Longrightarrow> registry_reachable (unregister t r)"
| reg_token: "registry_reachable r \<Longrightarrow> tenant_ok t \<Longrightarrow> registry_reachable (map_token h t r)"
| reg_operator: "registry_reachable r \<Longrightarrow> registry_reachable (map_operator_token h r)"


lemma id_char_colon: "is_alnum c \<or> c \<in> {CHR ''-'', CHR ''_''} \<Longrightarrow> c \<noteq> CHR '':''"
  by (auto simp: is_alnum_def)

lemma tenant_ok_chars: "tenant_ok t \<Longrightarrow> normalized t \<noteq> '''' \<and> CHR '':'' \<notin> set (normalized t)"
  using id_char_colon unfolding tenant_ok_def make_tenant_id_def normalized_def list_all_iff
  by (metis (no_types, lifting) Inl_Inr_False Nil_is_map_conv)

lemma default_ok: "tenant_ok DEFAULT_TENANT"
  by code_simp

lemma registry_okI:
  assumes "keyed own_key (r_tenants r)" "\<forall>ctx \<in> set (dvals (r_tenants r)). context_ok ctx"
    "wf_dict (r_token_map r)" "\<forall>t \<in> set (dvals (r_token_map r)). tenant_ok t"
  shows "registry_ok r"
  using assms unfolding registry_ok_def by blast

lemma registry_okD:
  assumes "registry_ok r"
  shows "keyed own_key (r_tenants r)" "\<forall>ctx \<in> set (dvals (r_tenants r)). context_ok ctx"
    "wf_dict (r_token_map r)" "\<forall>t \<in> set (dvals (r_token_map r)). tenant_ok t"
  using assms unfolding registry_ok_def by blast+

lemma register_ok:
  assumes "registry_ok r" "context_ok ctx"
  shows "registry_ok (register ctx r)"
proof -
  note ok = registry_okD [OF assms(1)]
  have "keyed own_key (dset (own_key ctx) ctx (r_tenants r))" using ok(1) by (rule keyed_dset) (rule refl)
  moreover have "\<forall>c \<in> set (dvals (dset (own_key ctx) ctx (r_tenants r))). context_ok c" using ok(2) assms(2) by (rule dvals_dset_all)
  ultimately show ?thesis using ok(3,4) by (simp add: registry_ok_def register_def del: set_map)
qed

lemma unregister_ok:
  assumes "registry_ok r"
  shows "registry_ok (unregister t r)"
proof -
  note ok = registry_okD [OF assms]
  have "\<forall>c \<in> set (dvals (dpop (normalized t) (r_tenants r))). context_ok c" using ok(2) by (rule dvals_dpop_all)
  moreover have "\<forall>v \<in> set (dvals (filter (\<lambda>(_, v). \<not> tenant_eq v t) (r_token_map r))). tenant_ok v" using ok(4) by auto
  ultimately show ?thesis using keyed_dpop [OF ok(1)] wf_filter [OF ok(3)] by (simp add: registry_ok_def unregister_def del: set_map)
qed

lemma map_token_ok:
  assumes "registry_ok r" "tenant_ok t"
  shows "registry_ok (map_token h t r)"
proof -
  note ok = registry_okD [OF assms(1)]
  have "\<forall>v \<in> set (dvals (dset h t (r_token_map r))). tenant_ok v" using ok(4) assms(2) by (rule dvals_dset_all)
  then show ?thesis using ok(1,2) wf_dset [OF ok(3)] by (simp add: registry_ok_def map_token_def del: set_map)
qed

lemma reachable_ok: "registry_reachable r \<Longrightarrow> registry_ok r"
proof (induction rule: registry_reachable.induct)
  case reg_new
  then show ?case by (simp add: registry_ok_def new_registry_def keyed_def)
next
  case (reg_operator r h)
  then show ?case by (simp add: registry_ok_def map_operator_token_def)
qed (simp_all add: register_ok unregister_ok map_token_ok)








section \<open>Isolation\<close>

text \<open>
  Data of several owners in one dictionary: keys that carry their owner do not meet, so a write for
  one owner is not seen by another.
\<close>

locale partitioned_keys =
  fixes key_of :: "'owner \<Rightarrow> 'key \<Rightarrow> 'full"
    and valid :: "'owner \<Rightarrow> bool"
    and same :: "'owner \<Rightarrow> 'owner \<Rightarrow> bool"
  assumes key_of_inj: "valid s \<Longrightarrow> valid t \<Longrightarrow> key_of s k = key_of t l \<longleftrightarrow> same s t \<and> k = l"
begin

lemma write_frame: "valid s \<Longrightarrow> valid t \<Longrightarrow> \<not> same s t \<Longrightarrow> dget (dset (key_of s k) v m) (key_of t l) = dget m (key_of t l)"
  using key_of_inj [of s t k l] by auto

lemma delete_frame: "valid s \<Longrightarrow> valid t \<Longrightarrow> \<not> same s t \<Longrightarrow> dget (dpop (key_of s k) m) (key_of t l) = dget m (key_of t l)"
  using key_of_inj [of s t k l] by auto

lemma write_read: "valid s \<Longrightarrow> valid t \<Longrightarrow> same s t \<Longrightarrow> dget (dset (key_of s k) v m) (key_of t k) = Some v"
  using key_of_inj [of s t k k] by auto

end

lemma append_sep_inj: "(c :: char) \<notin> set p \<Longrightarrow> c \<notin> set q \<Longrightarrow> p @ c # k = q @ c # l \<longleftrightarrow> p = q \<and> k = l"
  by (metis split_first_at Pair_inject option.inject)

interpretation tenant_keys: partitioned_keys tenant_key tenant_ok tenant_eq
proof
  fix s t k l
  assume "tenant_ok s" "tenant_ok t"
  then show "tenant_key s k = tenant_key t l \<longleftrightarrow> tenant_eq s t \<and> k = l"
    using append_sep_inj [of "CHR '':''" "normalized s" "normalized t" k l] tenant_ok_chars [of s] tenant_ok_chars [of t]
    by (simp add: tenant_key_def tenant_eq_def)
qed

definition tenant_of :: "string \<Rightarrow> tenant_registry \<Rightarrow> tenant_id" where
  "tenant_of token_hash r = (case dget (r_token_map r) token_hash of None \<Rightarrow> DEFAULT_TENANT | Some t \<Rightarrow> t)"

lemma resolve_own_tenant:
  "\<not> is_operator_token h r \<Longrightarrow> resolve_tenant h header r = Inr t \<Longrightarrow> t = tenant_of h r"
  by (auto simp: resolve_tenant_def Let_def tenant_of_def split: option.splits if_splits)

lemma tenant_of_ok: "registry_ok r \<Longrightarrow> tenant_ok (tenant_of h r)"
  using dget_all [OF registry_okD(4), of r h] default_ok by (simp add: tenant_of_def split: option.splits)

text \<open>
  Tenants are isolated: in a reachable registry, two tokens that are no operators and belong to
  different tenants never meet in the stored data. Whatever tenant headers the requests carry, if
  both are served, a write of the first under any key leaves every value the second can read as it was.
\<close>

lemma tenants_isolated:
  assumes "registry_reachable r" "\<not> is_operator_token h1 r" "\<not> is_operator_token h2 r"
    and "resolve_tenant h1 header1 r = Inr t1" "resolve_tenant h2 header2 r = Inr t2"
    and "\<not> tenant_eq (tenant_of h1 r) (tenant_of h2 r)"
  shows "dget (dset (tenant_key t1 k1) v store) (tenant_key t2 k2) = dget store (tenant_key t2 k2)"
proof -
  have t: "t1 = tenant_of h1 r" "t2 = tenant_of h2 r" using resolve_own_tenant assms(2-5) by auto
  have ok: "registry_ok r" using assms(1) by (rule reachable_ok)
  show ?thesis unfolding t by (rule tenant_keys.write_frame [OF tenant_of_ok [OF ok] tenant_of_ok [OF ok] assms(6)])
qed

text \<open>
  Unregistering a tenant does not lock its tokens out: a token that was mapped to it, and is no
  operator, is from then on served as the default tenant.
\<close>

lemma unregistered_becomes_default:
  assumes "registry_reachable r" "\<not> is_operator_token h r" "dget (r_token_map r) h = Some t'" "tenant_eq t' t"
  shows "resolve_tenant h None (unregister t r) = Inr DEFAULT_TENANT"
proof -
  have "wf_dict (r_token_map r)" using registry_okD(3) [OF reachable_ok [OF assms(1)]] .
  then have "dget (filter (\<lambda>(_, v). \<not> tenant_eq v t) (r_token_map r)) h = None"
    using assms(3,4) by (simp add: dget_filter del: map_of_eq_Some_iff)
  then show ?thesis using assms(2) by (simp add: resolve_tenant_def unregister_def header_tenant_def is_operator_token_def)
qed

section \<open>Witnesses\<close>


definition two_tenants :: tenant_registry where
  "two_tenants = map_token ''h2'' (TenantId ''Globex'') (map_token ''h1'' (TenantId ''acme'') new_registry)"


lemma two_tenants_reachable: "registry_reachable two_tenants"
proof -
  have "tenant_ok (TenantId ''acme'')" "tenant_ok (TenantId ''Globex'')" by code_simp+
  then show ?thesis unfolding two_tenants_def by (intro reg_token reg_new)
qed

end
