(* ===== verification/Scan_Job_Store.thy ===== *)
theory Scan_Job_Store
  imports Py_Strings
begin

text \<open>
  The daemon's store of scan jobs (\<open>src/picosentry/sandbox/daemon/store.py\<close>, and its variant without a
  file, \<open>job_store.py\<close>): a bounded dictionary of jobs mirrored in a file of JSON lines, to which a new
  job is appended and which is rewritten from time to time. A job is a dictionary, a map from its keys
  to JSON values, which writing and reading a line keeps; the file is a list of lines. Whether the disk
  takes a write (\<open>up\<close>), the size of a file and the text of the current time are arguments.
\<close>

section \<open>Model\<close>

type_synonym job = "string \<rightharpoonup> json"

text \<open>What a line of the file holds: nothing, no JSON text, a job, or a JSON value that is no object.\<close>

datatype file_line = BlankLine | InvalidLine | JobLine job | OtherLine

text \<open>The one exception that leaves the loading: \<open>.get\<close> on a value that is no dictionary.\<close>

datatype load_error = AttributeError

record job_store =
  js_jobs :: "(string, job) pydict"
  js_max :: nat
  js_file :: "file_line list option"
  js_loaded :: bool
  js_appends :: nat

definition JOB_STORE_SCHEMA_VERSION :: int where "JOB_STORE_SCHEMA_VERSION = 2"

definition MAX_FILE_SIZE :: nat where "MAX_FILE_SIZE = 10 * 1024 * 1024"

definition new_store :: "nat \<Rightarrow> file_line list option \<Rightarrow> job_store" where
  "new_store max_jobs file = \<lparr>js_jobs = [], js_max = max_jobs, js_file = file, js_loaded = False, js_appends = 0\<rparr>"

definition job_created :: "job \<Rightarrow> string" where
  "job_created j = (case j ''created_at'' of Some (JStr s) \<Rightarrow> s | _ \<Rightarrow> '''')"

definition job_key :: "job \<Rightarrow> string" where
  "job_key j = (case j ''job_id'' of Some (JStr s) \<Rightarrow> s | _ \<Rightarrow> '''')"

subsection \<open>The file\<close>

fun read_lines :: "file_line list \<Rightarrow> (string, job) pydict \<Rightarrow> load_error + (string, job) pydict" where
  "read_lines [] jobs = Inr jobs"
| "read_lines (BlankLine # ls) jobs = read_lines ls jobs"
| "read_lines (InvalidLine # ls) jobs = read_lines ls jobs"
| "read_lines (JobLine j # ls) jobs = read_lines ls (if job_key j \<noteq> '''' then dset (job_key j) j jobs else jobs)"
| "read_lines (OtherLine # ls) jobs = Inl AttributeError"

text \<open>\<open>sorted(..., key=created_at, reverse=True)\<close>, which keeps the order of equal elements.\<close>

definition newest_first :: "job list \<Rightarrow> job list" where
  "newest_first js = rev (sort_key job_created (rev js))"

definition by_key :: "job list \<Rightarrow> (string, job) pydict" where
  "by_key js = foldl (\<lambda>m j. dset (job_key j) j m) [] js"

definition compact :: "bool \<Rightarrow> file_line list \<Rightarrow> job_store \<Rightarrow> load_error + job_store" where
  "compact up ls s =
     (case read_lines ls [] of
        Inl e \<Rightarrow> Inl e
      | Inr jobs \<Rightarrow>
          let sorted_jobs = take (js_max s) (newest_first (dvals jobs));
              s1 = (if up then s\<lparr>js_file := Some (map JobLine sorted_jobs), js_appends := 0\<rparr> else s)
          in Inr (s1\<lparr>js_jobs := by_key sorted_jobs\<rparr>))"

text \<open>\<open>readable\<close>: the file can be opened and read.\<close>

definition load_from_disk :: "(file_line list \<Rightarrow> nat) \<Rightarrow> bool \<Rightarrow> bool \<Rightarrow> job_store \<Rightarrow> load_error + job_store" where
  "load_from_disk size_of readable up s =
     (case js_file s of
        None \<Rightarrow> Inr s
      | Some ls \<Rightarrow>
          if \<not> readable then Inr s
          else if size_of ls > MAX_FILE_SIZE then compact up ls s
          else (case read_lines ls [] of
                  Inl e \<Rightarrow> Inl e
                | Inr jobs \<Rightarrow>
                    Inr (s\<lparr>js_jobs := (if length jobs > js_max s then by_key (take (js_max s) (newest_first (dvals jobs))) else jobs)\<rparr>)))"

definition ensure_loaded :: "(file_line list \<Rightarrow> nat) \<Rightarrow> bool \<Rightarrow> bool \<Rightarrow> job_store \<Rightarrow> load_error + job_store" where
  "ensure_loaded size_of readable up s =
     (if js_loaded s then Inr s
      else case load_from_disk size_of readable up s of Inl e \<Rightarrow> Inl e | Inr s1 \<Rightarrow> Inr (s1\<lparr>js_loaded := True\<rparr>))"

definition append_to_disk :: "bool \<Rightarrow> job \<Rightarrow> job_store \<Rightarrow> job_store" where
  "append_to_disk up j s =
     (if up then s\<lparr>js_file := Some ((case js_file s of None \<Rightarrow> [] | Some ls \<Rightarrow> ls) @ [JobLine j])\<rparr> else s)"

definition rewrite_disk :: "bool \<Rightarrow> job_store \<Rightarrow> job_store" where
  "rewrite_disk up s = (if up then s\<lparr>js_file := Some (map JobLine (dvals (js_jobs s))), js_appends := 0\<rparr> else s)"

subsection \<open>Operations\<close>

text \<open>The operations on a loaded store; each begins by loading, which changes nothing once it is loaded.\<close>

definition new_job :: "string \<Rightarrow> string list \<Rightarrow> string \<Rightarrow> string \<Rightarrow> job" where
  "new_job job_id command actor now = map_of
     [(''job_id'', JStr job_id), (''command'', JList (map JStr command)), (''actor'', JStr actor), (''status'', JStr ''pending''),
      (''created_at'', JStr now), (''completed_at'', JNull), (''result'', JNull), (''error'', JNull),
      (''schema_version'', JInt JOB_STORE_SCHEMA_VERSION)]"

definition evict_oldest :: "job_store \<Rightarrow> job_store" where
  "evict_oldest s =
     (let oldest = take (length (js_jobs s) - js_max s) (sort_key job_created (dvals (js_jobs s)))
      in s\<lparr>js_jobs := foldl (\<lambda>m j. dpop (job_key j) m) (js_jobs s) oldest\<rparr>)"

definition store_add :: "bool \<Rightarrow> string \<Rightarrow> string list \<Rightarrow> string \<Rightarrow> string \<Rightarrow> job_store \<Rightarrow> job \<times> job_store" where
  "store_add up job_id command actor now s =
     (let job = new_job job_id command actor now;
          s1 = s\<lparr>js_jobs := dset job_id job (js_jobs s)\<rparr>;
          s2 = (if length (js_jobs s1) > js_max s1 then evict_oldest s1 else s1);
          s3 = append_to_disk up job s2;
          s4 = s3\<lparr>js_appends := Suc (js_appends s3)\<rparr>
      in (job, if js_appends s4 > length (js_jobs s4) then rewrite_disk up s4 else s4))"

definition update_fields :: "(string \<times> json) list \<Rightarrow> string \<Rightarrow> job \<Rightarrow> job" where
  "update_fields kwargs now j =
     (let j1 = j ++ map_of kwargs
      in if dget kwargs ''status'' \<in> {Some (JStr ''completed''), Some (JStr ''failed'')} then j1(''completed_at'' \<mapsto> JStr now) else j1)"

definition store_update :: "bool \<Rightarrow> string \<Rightarrow> (string \<times> json) list \<Rightarrow> string \<Rightarrow> job_store \<Rightarrow> job option \<times> job_store" where
  "store_update up job_id kwargs now s =
     (case dget (js_jobs s) job_id of
        None \<Rightarrow> (None, s)
      | Some j \<Rightarrow>
          let j1 = update_fields kwargs now j
          in (Some j1, rewrite_disk up (s\<lparr>js_jobs := dset job_id j1 (js_jobs s)\<rparr>)))"

definition store_get :: "string \<Rightarrow> job_store \<Rightarrow> job option" where
  "store_get job_id s = dget (js_jobs s) job_id"

definition store_list_recent :: "nat \<Rightarrow> job_store \<Rightarrow> job list" where
  "store_list_recent limit s = take limit (newest_first (dvals (js_jobs s)))"

definition orphaned :: "job \<Rightarrow> bool" where
  "orphaned j \<longleftrightarrow> j ''status'' \<in> {Some (JStr ''running''), Some (JStr ''queued'')}"

definition fail_orphan :: "string \<Rightarrow> job \<Rightarrow> job" where
  "fail_orphan now j =
     (if orphaned j then j(''status'' \<mapsto> JStr ''failed'', ''error'' \<mapsto> JStr ''ORPHANED_ON_RESTART'', ''completed_at'' \<mapsto> JStr now) else j)"

definition reconcile_on_start :: "bool \<Rightarrow> string \<Rightarrow> job_store \<Rightarrow> nat \<times> job_store" where
  "reconcile_on_start up now s =
     (let count = length (filter orphaned (dvals (js_jobs s)));
          s1 = s\<lparr>js_jobs := map (\<lambda>(i, j). (i, fail_orphan now j)) (js_jobs s)\<rparr>
      in (count, if count \<noteq> 0 then rewrite_disk up s1 else s1))"

subsection \<open>The store without a file\<close>

record memory_jobs =
  mj_jobs :: "(string, job) pydict"
  mj_max :: nat

definition memory_add :: "string \<Rightarrow> string list \<Rightarrow> string \<Rightarrow> string \<Rightarrow> memory_jobs \<Rightarrow> job \<times> memory_jobs" where
  "memory_add job_id command actor now s =
     (let job = (new_job job_id command actor now)(''schema_version'' := None);
          jobs = dset job_id job (mj_jobs s)
      in (job, s\<lparr>mj_jobs := (if length jobs > mj_max s then dpop (fst (hd (sort_key (\<lambda>(_, j). job_created j) jobs))) jobs else jobs)\<rparr>))"

definition memory_update :: "string \<Rightarrow> (string \<times> json) list \<Rightarrow> memory_jobs \<Rightarrow> job option \<times> memory_jobs" where
  "memory_update job_id kwargs s =
     (case dget (mj_jobs s) job_id of
        None \<Rightarrow> (None, s)
      | Some j \<Rightarrow> (Some (j ++ map_of kwargs), s\<lparr>mj_jobs := dset job_id (j ++ map_of kwargs) (mj_jobs s)\<rparr>))"

definition memory_get :: "string \<Rightarrow> memory_jobs \<Rightarrow> job option" where
  "memory_get job_id s = dget (mj_jobs s) job_id"

definition memory_list_recent :: "nat \<Rightarrow> memory_jobs \<Rightarrow> job list" where
  "memory_list_recent limit s = take limit (newest_first (dvals (mj_jobs s)))"


section \<open>Durability\<close>

text \<open>
  The histories of a store whose disk takes every write: a new one, additions at strictly later times
  of jobs with an identifier, updates of other fields than the identifier and the creation time, the
  reconciliation, and restarts of the daemon. The first argument is the time of the last addition.
\<close>

definition restart :: "job_store \<Rightarrow> job_store" where
  "restart s = new_store (js_max s) (js_file s)"

inductive durable :: "(file_line list \<Rightarrow> nat) \<Rightarrow> string \<Rightarrow> job_store \<Rightarrow> bool" for size_of where
  durable_new: "durable size_of '''' ((new_store max_jobs None)\<lparr>js_loaded := True\<rparr>)"
| durable_add: "durable size_of t s \<Longrightarrow> t < now \<Longrightarrow> i \<noteq> '''' \<Longrightarrow> durable size_of now (snd (store_add True i command actor now s))"
| durable_update: "durable size_of t s \<Longrightarrow> dget kwargs ''job_id'' = None \<Longrightarrow> dget kwargs ''created_at'' = None \<Longrightarrow>
    durable size_of t (snd (store_update True i kwargs now s))"
| durable_reconcile: "durable size_of t s \<Longrightarrow> durable size_of t (snd (reconcile_on_start True now s))"
| durable_restart: "durable size_of t s \<Longrightarrow> ensure_loaded size_of True True (restart s) = Inr s' \<Longrightarrow> durable size_of t s'"

text \<open>The jobs of the file: the last line of every identifier.\<close>

definition file_jobs :: "job_store \<Rightarrow> (string, job) pydict" where
  "file_jobs s = (case read_lines (case js_file s of None \<Rightarrow> [] | Some ls \<Rightarrow> ls) [] of Inl _ \<Rightarrow> [] | Inr m \<Rightarrow> m)"

definition job_lines :: "file_line list \<Rightarrow> bool" where
  "job_lines ls \<longleftrightarrow> list_all (\<lambda>l. case l of JobLine j \<Rightarrow> job_key j \<noteq> '''' | _ \<Rightarrow> False) ls"

lemma read_job_lines:
  "job_lines ls \<Longrightarrow> read_lines ls m = Inr (foldl (\<lambda>m l. case l of JobLine j \<Rightarrow> dset (job_key j) j m | _ \<Rightarrow> m) m ls)"
  by (induction ls m rule: read_lines.induct) (auto simp: job_lines_def)

lemma read_job_lines_append:
  "job_lines ls \<Longrightarrow> job_key j \<noteq> '''' \<Longrightarrow> read_lines ls m = Inr m' \<Longrightarrow> read_lines (ls @ [JobLine j]) m = Inr (dset (job_key j) j m')"
  using read_job_lines [of "ls @ [JobLine j]" m] read_job_lines [of ls m] by (simp add: job_lines_def)

lemma dset_new: "k \<notin> fst ` set m \<Longrightarrow> dset k v m = m @ [(k, v)]"
  by (induction m) auto

lemma by_key_map: "distinct (map job_key js) \<Longrightarrow> by_key js = map (\<lambda>j. (job_key j, j)) js"
proof (induction js rule: rev_induct)
  case (snoc j js)
  then show ?case by (simp add: by_key_def dset_new image_image)
qed (simp add: by_key_def)

lemma by_key_get: "distinct (map job_key js) \<Longrightarrow> dget (by_key js) i = Some j \<longleftrightarrow> j \<in> set js \<and> job_key j = i"
  by (subst by_key_map) (auto simp: comp_def)

lemma keyed_by_key: "distinct (map job_key js) \<Longrightarrow> keyed job_key (by_key js)"
  by (auto simp: by_key_map keyed_def comp_def)

lemma card_dget: "wf_dict m \<Longrightarrow> card (dom (dget m)) = length m"
  by (metis distinct_card dom_map_of_conv_image_fst length_map list.set_map)

text \<open>
  The memory \<open>M\<close> and the file \<open>F\<close> as maps: the file knows every job of the memory and besides only
  jobs that are older than all of them, and those only when the memory is full.
\<close>

definition mirrors :: "nat \<Rightarrow> string \<Rightarrow> (string \<rightharpoonup> job) \<Rightarrow> (string \<rightharpoonup> job) \<Rightarrow> bool" where
  "mirrors max_jobs t M F \<longleftrightarrow> M \<subseteq>\<^sub>m F \<and> finite (dom M) \<and> card (dom M) \<le> max_jobs \<and>
     (\<forall>i j k j'. F i = Some j \<longrightarrow> M i = None \<longrightarrow> M k = Some j' \<longrightarrow> job_created j < job_created j') \<and>
     (dom F \<noteq> dom M \<longrightarrow> card (dom M) = max_jobs) \<and>
     (\<forall>i j k j'. M i = Some j \<longrightarrow> M k = Some j' \<longrightarrow> job_created j = job_created j' \<longrightarrow> i = k) \<and>
     (\<forall>i j. F i = Some j \<longrightarrow> job_created j \<le> t)"

lemma mirrors_rewrite: "mirrors n t M F \<Longrightarrow> mirrors n t M M"
  unfolding mirrors_def map_le_def by (metis domIff option.distinct(1))

lemma mirrors_update:
  assumes "mirrors n t M F" "M i = Some j" "job_created j' = job_created j"
  shows "mirrors n t (M(i \<mapsto> j')) (M(i \<mapsto> j'))"
proof -
  have M: "mirrors n t M M" using assms(1) by (rule mirrors_rewrite)
  have dom: "dom (M(i \<mapsto> j')) = dom M" using assms(2) by auto
  have old: "\<exists>a. M k = Some a \<and> job_created a = job_created b" if "(M(i \<mapsto> j')) k = Some b" for k b
    using that assms(2,3) by (auto split: if_splits)
  show ?thesis using M old unfolding mirrors_def dom by (metis map_le_refl option.distinct(1) domIff dom)
qed

lemma mirrors_fresh_inj:
  assumes "mirrors n t M F" "t < now" "job_created j = now" "(M(i \<mapsto> j)) l = Some b" "(M(i \<mapsto> j)) l' = Some b'" "job_created b = job_created b'"
  shows "l = l'"
proof -
  have "job_created c < now" if "M k = Some c" for k c
  proof -
    have "F k = Some c" using that assms(1) unfolding mirrors_def map_le_def by (metis domI)
    then show ?thesis using assms(1,2) unfolding mirrors_def by force
  qed
  then show ?thesis using assms unfolding mirrors_def by (metis fun_upd_apply less_irrefl option.inject)
qed

lemma mirrors_add:
  assumes "mirrors n t M F" "t < now" "job_created j = now" "card (dom (M(i \<mapsto> j))) \<le> n"
  shows "mirrors n now (M(i \<mapsto> j)) (F(i \<mapsto> j))"
proof -
  have le: "\<And>k b. F k = Some b \<Longrightarrow> job_created b < now" using assms(1,2) unfolding mirrors_def by force
  have sub: "\<And>k b. M k = Some b \<Longrightarrow> F k = Some b" using assms(1) unfolding mirrors_def map_le_def by (metis domI)
  have full: "card (dom (M(i \<mapsto> j))) = n" if "dom (F(i \<mapsto> j)) \<noteq> dom (M(i \<mapsto> j))"
  proof -
    have "dom F \<noteq> dom M" using that by auto
    then have "card (dom M) = n" "finite (dom M)" using assms(1) unfolding mirrors_def by auto
    then show ?thesis using assms(4) card_mono [of "insert i (dom M)" "dom M"] by (simp add: subset_insertI)
  qed
  have inj: "\<And>l l' b b'. (M(i \<mapsto> j)) l = Some b \<Longrightarrow> (M(i \<mapsto> j)) l' = Some b' \<Longrightarrow> job_created b = job_created b' \<Longrightarrow> l = l'"
    using mirrors_fresh_inj [OF assms(1-3)] .
  have older: "job_created a < job_created b"
    if "(F(i \<mapsto> j)) l = Some a" "(M(i \<mapsto> j)) l = None" "(M(i \<mapsto> j)) l' = Some b" for l a l' b
    using that assms(1,3) le unfolding mirrors_def by (auto split: if_splits)
  have "M(i \<mapsto> j) \<subseteq>\<^sub>m F(i \<mapsto> j)" using sub by (auto simp: map_le_def)
  moreover have "\<And>l b. (F(i \<mapsto> j)) l = Some b \<Longrightarrow> job_created b \<le> now" using le assms(3) by (force split: if_splits)
  moreover have "finite (dom (M(i \<mapsto> j)))" using assms(1) unfolding mirrors_def by simp
  ultimately show ?thesis using assms(4) inj older full unfolding mirrors_def by blast
qed

lemma mirrors_add_evict:
  assumes m: "mirrors n t M F" and now: "t < now" "job_created j = now" and over: "card (dom (M(i \<mapsto> j))) = Suc n"
    and k: "(M(i \<mapsto> j)) k = Some old" and least: "\<And>l b. (M(i \<mapsto> j)) l = Some b \<Longrightarrow> job_created old \<le> job_created b"
  shows "mirrors n now ((M(i \<mapsto> j))(k := None)) (F(i \<mapsto> j))"
proof -
  have le: "\<And>l b. F l = Some b \<Longrightarrow> job_created b < now" using m now unfolding mirrors_def by force
  have sub: "\<And>l b. M l = Some b \<Longrightarrow> F l = Some b" using m unfolding mirrors_def map_le_def by (metis domI)
  have fin: "finite (dom M)" "card (dom M) \<le> n" using m unfolding mirrors_def by auto
  then have "i \<notin> dom M" using over by (metis Suc_n_not_le_n dom_fun_upd insert_absorb option.distinct(1))
  have kin: "k \<in> dom (M(i \<mapsto> j))" using k by (rule domI)
  have card: "card (dom ((M(i \<mapsto> j))(k := None))) = n"
  proof -
    have "dom ((M(i \<mapsto> j))(k := None)) = dom (M(i \<mapsto> j)) - {k}" by auto
    then show ?thesis using card_Diff_singleton [OF kin] over by (simp only: diff_Suc_1)
  qed
  have inj: "\<And>l l' b b'. (M(i \<mapsto> j)) l = Some b \<Longrightarrow> (M(i \<mapsto> j)) l' = Some b' \<Longrightarrow> job_created b = job_created b' \<Longrightarrow> l = l'"
    using mirrors_fresh_inj [OF m now] .
  have strict: "job_created old < job_created b" if "(M(i \<mapsto> j)) l = Some b" "l \<noteq> k" for l b
    using least [OF that(1)] inj [OF k that(1)] that(2) by fastforce
  have older: "job_created a < job_created b"
    if "(F(i \<mapsto> j)) l = Some a" "((M(i \<mapsto> j))(k := None)) l = None" "((M(i \<mapsto> j))(k := None)) l' = Some b" for l a l' b
  proof (cases "l = k")
    case True
    then have "a = old" using that(1) k sub by (auto split: if_splits)
    then show ?thesis using strict that(3) by (auto split: if_splits)
  next
    case False
    then have "F l = Some a" "M l = None" using that(1,2) by (auto split: if_splits)
    then show ?thesis using that(3) m le now(2) unfolding mirrors_def by (auto split: if_splits)
  qed
  have "(M(i \<mapsto> j))(k := None) \<subseteq>\<^sub>m F(i \<mapsto> j)" using sub by (auto simp: map_le_def)
  moreover have "\<And>l b. (F(i \<mapsto> j)) l = Some b \<Longrightarrow> job_created b \<le> now" using le now(2) by (force split: if_splits)
  moreover have "\<And>l l' b b'. ((M(i \<mapsto> j))(k := None)) l = Some b \<Longrightarrow> ((M(i \<mapsto> j))(k := None)) l' = Some b' \<Longrightarrow> job_created b = job_created b' \<Longrightarrow> l = l'"
    using inj by (metis fun_upd_apply option.distinct(1))
  moreover have "finite (dom ((M(i \<mapsto> j))(k := None)))" using fin(1) by simp
  moreover have "card (dom ((M(i \<mapsto> j))(k := None))) \<le> n" using card by (rule eq_imp_le)
  ultimately show ?thesis using card older unfolding mirrors_def by blast
qed

text \<open>The newest jobs of the file are the jobs of the memory.\<close>

lemma take_newest:
  assumes "sorted_wrt (\<lambda>x y. f y \<le> f x) xs" "distinct xs" "A \<subseteq> set xs" "\<forall>a \<in> A. \<forall>x \<in> set xs - A. f x < (f a :: 'b :: linorder)"
  shows "set (take (card A) xs) = A"
  using assms
proof (induction xs arbitrary: A)
  case (Cons x xs)
  show ?case
  proof (cases "x \<in> A")
    case True
    have "finite A" using Cons.prems(3) finite_subset by blast
    then have card: "card A = Suc (card (A - {x}))" using True by (metis card.remove)
    have "A - {x} \<subseteq> set xs" "\<forall>a \<in> A - {x}. \<forall>y \<in> set xs - (A - {x}). f y < f a" using Cons.prems(2-4) by auto
    then have "set (take (card (A - {x})) xs) = A - {x}" using Cons.prems(1,2) Cons.IH [of "A - {x}"] by simp
    then have "set (take (card A) (x # xs)) = insert x (A - {x})" by (simp add: card)
    then show ?thesis using True by (simp add: insert_absorb)
  next
    case False
    have "A = {}"
    proof (rule ccontr)
      assume "A \<noteq> {}"
      then obtain a where a: "a \<in> A" by blast
      then have "a \<in> set xs" using Cons.prems(3) False by auto
      then have "f a \<le> f x" using Cons.prems(1) by simp
      moreover have "f x < f a" using Cons.prems(4) a False by simp
      ultimately show False by simp
    qed
    then show ?thesis by simp
  qed
qed simp

lemma newest_first_props: "set (newest_first js) = set js" "length (newest_first js) = length js" "distinct js \<Longrightarrow> distinct (newest_first js)"
  by (simp_all add: newest_first_def)

lemma newest_first_sorted: "sorted_wrt (\<lambda>x y. job_created y \<le> job_created x) (newest_first js)"
proof -
  have "sorted (map job_created (sort_key job_created (rev js)))" by simp
  then show ?thesis unfolding newest_first_def sorted_wrt_rev sorted_map .
qed

lemma map_eqI: "(\<And>i j. f i = Some j \<longleftrightarrow> g i = Some j) \<Longrightarrow> f = g"
  by (rule ext) (metis not_Some_eq)

lemma card_jobs:
  fixes M :: "string \<rightharpoonup> job"
  assumes "\<And>i j. M i = Some j \<Longrightarrow> job_key j = i"
  shows "card (dom M) = card {j. M (job_key j) = Some j}"
proof -
  let ?A = "{j. M (job_key j) = Some j}"
  have "job_key ` ?A = dom M"
  proof (intro equalityI subsetI)
    fix i assume "i \<in> job_key ` ?A"
    then obtain j where "i = job_key j" "M (job_key j) = Some j" by blast
    then show "i \<in> dom M" by blast
  next
    fix i assume "i \<in> dom M"
    then obtain j where j: "M i = Some j" by blast
    then have "i = job_key j" using assms by simp
    moreover have "j \<in> ?A" using j assms [OF j] by simp
    ultimately show "i \<in> job_key ` ?A" by (rule image_eqI)
  qed
  moreover have "inj_on job_key ?A"
  proof (rule inj_onI)
    fix x y assume "x \<in> ?A" "y \<in> ?A" "job_key x = job_key y"
    then have "Some x = Some y" by (simp only: mem_Collect_eq)
    then show "x = y" by (simp only: option.inject)
  qed
  ultimately show ?thesis using card_image by fastforce
qed

lemma newest_keys:
  assumes "keyed job_key F"
  shows "distinct (map job_key (take n (newest_first (dvals F))))"
proof -
  have "mset (map job_key (newest_first (dvals F))) = mset (map job_key (dvals F))" by (simp add: newest_first_def multiset.map_comp)
  then have "distinct (map job_key (newest_first (dvals F)))" using mset_eq_imp_distinct_iff keyed_vals(2) [OF assms] by blast
  then show ?thesis by (metis distinct_take take_map)
qed

lemma trim_get:
  assumes "keyed job_key F" "mirrors n t M (dget F)"
  shows "dget (by_key (take n (newest_first (dvals F)))) = M" "keyed job_key (by_key (take n (newest_first (dvals F))))"
proof -
  let ?xs = "newest_first (dvals F)"
  let ?A = "{j. M (job_key j) = Some j}"
  have sub: "\<And>i j. M i = Some j \<Longrightarrow> dget F i = Some j" using assms(2) unfolding mirrors_def map_le_def by (metis domI)
  have vals: "j \<in> set ?xs \<longleftrightarrow> dget F (job_key j) = Some j" for j
    using keyed_vals(1) [OF assms(1), of j] by (simp only: newest_first_props(1))
  note tk = newest_keys [OF assms(1), of n]
  have key: "job_key j = i" if "M i = Some j" for i j using keyed_get [OF assms(1) sub [OF that]] .
  have cardA: "card (dom M) = card ?A" by (rule card_jobs [of M, OF key])
  have "set (take n ?xs) = ?A"
  proof (cases "dom (dget F) = dom M")
    case True
    have "dget F i = Some j \<longleftrightarrow> M i = Some j" for i j
    proof
      assume F: "dget F i = Some j"
      then have "i \<in> dom M" using True by blast
      then obtain j' where "M i = Some j'" by blast
      with sub [OF this] F show "M i = Some j" by simp
    qed (rule sub)
    then have "dget F = M" by (rule map_eqI)
    moreover have "card (dom (dget F)) = length F" using keyed_wf [OF assms(1)] by (rule card_dget)
    moreover have "length ?xs = length F" by (simp add: newest_first_props(2))
    moreover have "card (dom M) \<le> n" using assms(2) unfolding mirrors_def by blast
    ultimately have t: "take n ?xs = ?xs" and mem: "\<And>j. j \<in> set ?xs \<longleftrightarrow> j \<in> ?A" using vals by simp_all
    show ?thesis unfolding t by (rule set_eqI) (rule mem)
  next
    case False
    then have n: "card ?A = n" using assms(2) cardA unfolding mirrors_def by auto
    have "job_created x < job_created a" if "a \<in> ?A" "x \<in> set ?xs - ?A" for a x
    proof -
      have x: "dget F (job_key x) = Some x" "M (job_key x) \<noteq> Some x" using that(2) vals [of x] by simp_all
      have "M (job_key x) = None"
      proof (cases "M (job_key x)")
        case (Some y)
        from sub [OF this] x Some show ?thesis by simp
      qed
      moreover have "M (job_key a) = Some a" using that(1) by simp
      ultimately show ?thesis using x(1) assms(2) unfolding mirrors_def by blast
    qed
    moreover have "?A \<subseteq> set ?xs"
    proof
      fix j assume "j \<in> ?A"
      then show "j \<in> set ?xs" using sub [of "job_key j" j] by (simp only: vals mem_Collect_eq)
    qed
    moreover have "distinct ?xs" using newest_keys [OF assms(1), of "length ?xs"] by (simp add: distinct_map)
    ultimately have "set (take (card ?A) ?xs) = ?A" by (intro take_newest [OF newest_first_sorted]) simp_all
    then show ?thesis unfolding n .
  qed
  then have get: "dget (by_key (take n ?xs)) i = Some j \<longleftrightarrow> M (job_key j) = Some j \<and> job_key j = i" for i j
    by (simp only: by_key_get [OF tk] mem_Collect_eq)
  have "dget (by_key (take n ?xs)) i = Some j \<longleftrightarrow> M i = Some j" for i j
    unfolding get using key [of i j] by (cases "job_key j = i") (simp, blast)
  then show "dget (by_key (take n ?xs)) = M" by (rule map_eqI)
  show "keyed job_key (by_key (take n ?xs))" using tk by (rule keyed_by_key)
qed

text \<open>The invariant of the histories.\<close>

definition file_lines :: "job_store \<Rightarrow> file_line list" where
  "file_lines s = (case js_file s of None \<Rightarrow> [] | Some ls \<Rightarrow> ls)"

definition lines_jobs :: "file_line list \<Rightarrow> (string, job) pydict" where
  "lines_jobs ls = foldl (\<lambda>m l. case l of JobLine j \<Rightarrow> dset (job_key j) j m | _ \<Rightarrow> m) [] ls"

definition durable_ok :: "string \<Rightarrow> job_store \<Rightarrow> bool" where
  "durable_ok t s \<longleftrightarrow> keyed job_key (js_jobs s) \<and> '''' \<notin> set (dkeys (js_jobs s)) \<and> job_lines (file_lines s) \<and>
     mirrors (js_max s) t (dget (js_jobs s)) (dget (lines_jobs (file_lines s)))"

lemma lines_jobs_append [simp]: "lines_jobs (ls @ [JobLine j]) = dset (job_key j) j (lines_jobs ls)"
  by (simp add: lines_jobs_def)

lemma keyed_lines_jobs: "keyed job_key (lines_jobs ls)"
proof (induction ls rule: rev_induct)
  case (snoc l ls)
  then show ?case by (cases l) (simp_all add: lines_jobs_def keyed_dset)
qed (simp add: lines_jobs_def)

lemma lines_jobs_vals:
  assumes "keyed job_key m"
  shows "dget (lines_jobs (map JobLine (dvals m))) = dget m"
proof -
  have lj: "lines_jobs (map JobLine js) = by_key js" for js
    by (simp add: lines_jobs_def by_key_def foldl_map)
  have "dget (by_key (dvals m)) i = Some j \<longleftrightarrow> dget m i = Some j" for i j
    using by_key_get [OF keyed_vals(2) [OF assms], of i j] keyed_vals(1) [OF assms, of j] keyed_get [OF assms, of i j] by blast
  then show ?thesis unfolding lj by (rule map_eqI)
qed

lemma job_lines_vals: "keyed job_key m \<Longrightarrow> '''' \<notin> set (dkeys m) \<Longrightarrow> job_lines (map JobLine (dvals m))"
  by (force simp: job_lines_def list_all_iff keyed_def)

lemma durable_ok_rewrite:
  assumes "keyed job_key (js_jobs s)" "'''' \<notin> set (dkeys (js_jobs s))" "mirrors (js_max s) t (dget (js_jobs s)) F"
  shows "durable_ok t (rewrite_disk True s)"
  using assms mirrors_rewrite [OF assms(3)]
  by (simp add: durable_ok_def rewrite_disk_def file_lines_def job_lines_vals lines_jobs_vals del: map_map)

lemma keyed_update_same:
  "keyed job_key m \<Longrightarrow> job_key j = i \<Longrightarrow> '''' \<notin> set (dkeys m) \<Longrightarrow> i \<noteq> '''' \<Longrightarrow> keyed job_key (dset i j m) \<and> '''' \<notin> set (dkeys (dset i j m))"
  unfolding dkeys_dset_set by (simp add: keyed_dset)

lemma update_fields_keeps:
  assumes "dget kwargs ''job_id'' = None" "dget kwargs ''created_at'' = None"
  shows "job_key (update_fields kwargs now j) = job_key j" "job_created (update_fields kwargs now j) = job_created j"
  using assms by (simp_all add: job_key_def job_created_def update_fields_def Let_def map_add_def)

lemma durable_ok_update:
  assumes "durable_ok t s" "dget kwargs ''job_id'' = None" "dget kwargs ''created_at'' = None"
  shows "durable_ok t (snd (store_update True i kwargs now s))"
proof (cases "dget (js_jobs s) i")
  case (Some j)
  let ?j = "update_fields kwargs now j"
  let ?s = "s\<lparr>js_jobs := dset i ?j (js_jobs s)\<rparr>"
  note keep = update_fields_keeps [OF assms(2,3), of now j]
  have ok: "keyed job_key (js_jobs s)" "'''' \<notin> set (dkeys (js_jobs s))" "mirrors (js_max s) t (dget (js_jobs s)) (dget (lines_jobs (file_lines s)))"
    using assms(1) by (auto simp: durable_ok_def)
  have i: "job_key j = i" "i \<noteq> ''''" using keyed_get [OF ok(1) Some] ok(2) map_of_SomeD [OF Some] by force+
  have "dget (dset i ?j (js_jobs s)) = (dget (js_jobs s))(i \<mapsto> ?j)" by (rule ext) simp
  then have "mirrors (js_max ?s) t (dget (js_jobs ?s)) ((dget (js_jobs s))(i \<mapsto> ?j))" using mirrors_update [OF ok(3) Some keep(2)] by simp
  then have "durable_ok t (rewrite_disk True ?s)" using keyed_update_same [OF ok(1), of ?j i] ok(2) keep(1) i by (intro durable_ok_rewrite) simp_all
  then show ?thesis using Some by (simp add: store_update_def Let_def)
qed (use assms(1) in \<open>simp add: store_update_def\<close>)


lemma new_job_fields: "job_key (new_job i command actor now) = i" "job_created (new_job i command actor now) = now"
  by (simp_all add: new_job_def job_key_def job_created_def)

lemma dget_dset_map: "dget (dset i j m) = (dget m)(i \<mapsto> j)"
  by (rule ext) simp

lemma evict_oldest_one:
  assumes "keyed job_key m" "length m = Suc n" "js_jobs s = m" "js_max s = n"
  shows "\<exists>k old. dget m k = Some old \<and> (\<forall>l b. dget m l = Some b \<longrightarrow> job_created old \<le> job_created b) \<and> js_jobs (evict_oldest s) = dpop k m"
proof -
  let ?ys = "sort_key job_created (dvals m)"
  obtain old ys where ys: "?ys = old # ys" using assms(2) by (cases ?ys) (auto dest: arg_cong [where f = length])
  have "sorted (map job_created (old # ys))" using ys sorted_sort_key [of job_created "dvals m"] by simp
  then have "job_created old \<le> job_created b" if "b \<in> set (old # ys)" for b using that by auto
  moreover have mem: "\<And>j. j \<in> set (old # ys) \<longleftrightarrow> j \<in> set (dvals m)" using ys by (metis set_sort)
  ultimately have "job_created old \<le> job_created b" if "b \<in> set (dvals m)" for b
    using that mem [of b] by blast
  moreover have "dget m (job_key old) = Some old" using mem [of old] keyed_vals(1) [OF assms(1), of old] by simp
  moreover have "js_jobs (evict_oldest s) = dpop (job_key old) m" using ys assms by (simp add: evict_oldest_def)
  ultimately show ?thesis using dget_in_dvals by metis
qed

lemma durable_ok_add:
  assumes "durable_ok t s" "t < now" "i \<noteq> ''''"
  shows "durable_ok now (snd (store_add True i command actor now s))"
proof -
  define job where "job = new_job i command actor now"
  define J where "J = dset i job (js_jobs s)"
  define J' where "J' = (if length J > js_max s then js_jobs (evict_oldest (s\<lparr>js_jobs := J\<rparr>)) else J)"
  have job: "job_key job = i" "job_created job = now" by (simp_all add: job_def new_job_fields)
  have ok: "keyed job_key (js_jobs s)" "'''' \<notin> set (dkeys (js_jobs s))" "job_lines (file_lines s)"
    "mirrors (js_max s) t (dget (js_jobs s)) (dget (lines_jobs (file_lines s)))" using assms(1) by (auto simp: durable_ok_def)
  have J: "keyed job_key J" "'''' \<notin> set (dkeys J)" unfolding J_def using keyed_update_same [OF ok(1) job(1) ok(2) assms(3)] by auto
  have len: "length J \<le> Suc (js_max s)"
  proof -
    have "length (js_jobs s) \<le> js_max s" using ok(4) card_dget [OF keyed_wf [OF ok(1)]] by (simp add: mirrors_def)
    then show ?thesis by (simp add: J_def length_dset)
  qed
  have card: "card (dom ((dget (js_jobs s))(i \<mapsto> job))) = length J" using card_dget [OF keyed_wf [OF J(1)]] by (simp only: J_def dget_dset_map)
  have J': "keyed job_key J' \<and> '''' \<notin> set (dkeys J') \<and> mirrors (js_max s) now (dget J') ((dget (lines_jobs (file_lines s)))(i \<mapsto> job))"
  proof (cases "length J > js_max s")
    case False
    then have "J' = J" by (simp add: J'_def)
    moreover have "mirrors (js_max s) now (dget J) ((dget (lines_jobs (file_lines s)))(i \<mapsto> job))"
      unfolding J_def dget_dset_map using False card by (intro mirrors_add [OF ok(4) assms(2) job(2)]) simp
    ultimately show ?thesis using J by simp
  next
    case True
    then have "length J = Suc (js_max s)" using len by simp
    then obtain k old where k: "dget J k = Some old" "\<And>l b. dget J l = Some b \<Longrightarrow> job_created old \<le> job_created b"
      and e: "js_jobs (evict_oldest (s\<lparr>js_jobs := J\<rparr>)) = dpop k J"
      using evict_oldest_one [OF J(1), of "js_max s" "s\<lparr>js_jobs := J\<rparr>"] by auto
    have "J' = dpop k J" using True e by (simp add: J'_def)
    moreover have "dget (dpop k J) = ((dget (js_jobs s))(i \<mapsto> job))(k := None)" by (rule ext) (simp add: J_def)
    moreover have "mirrors (js_max s) now (((dget (js_jobs s))(i \<mapsto> job))(k := None)) ((dget (lines_jobs (file_lines s)))(i \<mapsto> job))"
    proof (rule mirrors_add_evict [OF ok(4) assms(2) job(2)])
      show "card (dom ((dget (js_jobs s))(i \<mapsto> job))) = Suc (js_max s)" using card \<open>length J = Suc (js_max s)\<close> by (rule trans)
    qed (use k in \<open>simp_all only: J_def dget_dset_map\<close>)
    moreover have "'''' \<notin> set (dkeys (dpop k J))" using J(2) set_dpop_subset [of k J] by auto
    ultimately show ?thesis using keyed_dpop [OF J(1)] by simp
  qed
  define s3 where "s3 = s\<lparr>js_jobs := J', js_file := Some (file_lines s @ [JobLine job]), js_appends := Suc (js_appends s)\<rparr>"
  have lines: "dget (lines_jobs (file_lines s3)) = (dget (lines_jobs (file_lines s)))(i \<mapsto> job)" "job_lines (file_lines s3)"
    using ok(3) job(1) assms(3) by (simp_all add: s3_def file_lines_def dget_dset_map) (simp add: job_lines_def)
  have s3: "js_jobs s3 = J'" "js_max s3 = js_max s" by (simp_all add: s3_def)
  have "durable_ok now s3" using J' lines s3 by (simp add: durable_ok_def)
  moreover have "durable_ok now (rewrite_disk True s3)"
    using J' s3 durable_ok_rewrite [of s3 now "(dget (lines_jobs (file_lines s)))(i \<mapsto> job)"] by simp
  moreover have "snd (store_add True i command actor now s) = (if js_appends s3 > length (js_jobs s3) then rewrite_disk True s3 else s3)"
    by (simp add: store_add_def Let_def s3_def J'_def J_def job_def append_to_disk_def file_lines_def evict_oldest_def)
  ultimately show ?thesis by simp
qed

lemma keyed_map_vals:
  assumes "keyed job_key m" "\<And>j. job_key (f j) = job_key j"
  shows "keyed job_key (map (\<lambda>(i, j). (i, f j)) m)" "dkeys (map (\<lambda>(i, j). (i, f j)) m) = dkeys m"
proof -
  show keys: "dkeys (map (\<lambda>(i, j). (i, f j)) m) = dkeys m" by (induction m) auto
  have "\<forall>(k, v) \<in> set (map (\<lambda>(i, j). (i, f j)) m). job_key v = k" using assms by (auto simp: keyed_def)
  then show "keyed job_key (map (\<lambda>(i, j). (i, f j)) m)" using assms(1) unfolding keyed_def keys by blast
qed

lemma dget_map_vals: "dget (map (\<lambda>(i, j). (i, f j)) m) i = map_option f (dget m i)"
  by (induction m) auto

lemma mirrors_map:
  assumes "mirrors n t M F" "\<And>j. job_created (f j) = job_created j"
  shows "mirrors n t (map_option f \<circ> M) (map_option f \<circ> M)"
proof -
  have M: "mirrors n t M M" using assms(1) by (rule mirrors_rewrite)
  have dom: "dom (map_option f \<circ> M) = dom M" by (auto simp: dom_def)
  have old: "\<exists>a. M k = Some a \<and> job_created a = job_created b" if "(map_option f \<circ> M) k = Some b" for k b
    using that assms(2) by auto
  show ?thesis using M old unfolding mirrors_def dom by (metis map_le_refl option.distinct(1) domIff dom)
qed

lemma fail_orphan_fields: "job_key (fail_orphan now j) = job_key j" "job_created (fail_orphan now j) = job_created j"
  by (simp_all add: fail_orphan_def job_key_def job_created_def)

lemma durable_ok_reconcile:
  assumes "durable_ok t s"
  shows "durable_ok t (snd (reconcile_on_start True now s))"
proof -
  let ?J = "map (\<lambda>(i, j). (i, fail_orphan now j)) (js_jobs s)"
  have ok: "keyed job_key (js_jobs s)" "'''' \<notin> set (dkeys (js_jobs s))" "mirrors (js_max s) t (dget (js_jobs s)) (dget (lines_jobs (file_lines s)))"
    using assms by (auto simp: durable_ok_def)
  note J = keyed_map_vals [OF ok(1) fail_orphan_fields(1) [of now]]
  have "dget ?J = map_option (fail_orphan now) \<circ> dget (js_jobs s)" by (rule ext) (simp add: dget_map_vals)
  then have "mirrors (js_max s) t (dget ?J) (dget ?J)" using mirrors_map [OF ok(3) fail_orphan_fields(2)] by simp
  then have r: "durable_ok t (rewrite_disk True (s\<lparr>js_jobs := ?J\<rparr>))" using durable_ok_rewrite [of "s\<lparr>js_jobs := ?J\<rparr>" t "dget ?J"] J ok(2) by simp
  show ?thesis
  proof (cases "filter orphaned (dvals (js_jobs s)) = []")
    case True
    then have "?J = js_jobs s" by (induction "js_jobs s") (auto simp: fail_orphan_def filter_empty_conv intro!: map_idI)
    then show ?thesis using True assms by (simp add: reconcile_on_start_def Let_def)
  next
    case False
    then show ?thesis using r by (simp only: reconcile_on_start_def Let_def snd_conv length_0_conv if_False not_False_eq_True if_True simp_thms)
  qed
qed

lemma mirrors_small:
  assumes "mirrors n t M F" "finite (dom F)" "card (dom F) \<le> n"
  shows "F = M"
proof -
  have sub: "M \<subseteq>\<^sub>m F" using assms(1) by (simp add: mirrors_def)
  have "dom F = dom M"
  proof (rule ccontr)
    assume "dom F \<noteq> dom M"
    then have "card (dom M) = n" using assms(1) by (simp add: mirrors_def)
    then have "dom M = dom F" using assms(2,3) map_le_implies_dom_le [OF sub] by (metis card_seteq)
    with \<open>dom F \<noteq> dom M\<close> show False by simp
  qed
  then show ?thesis using sub by (metis map_le_antisym map_le_def)
qed

lemma durable_ok_load:
  assumes "durable_ok t s"
  shows "\<exists>s'. ensure_loaded size_of True True (restart s) = Inr s' \<and> dget (js_jobs s') = dget (js_jobs s) \<and> durable_ok t s'"
proof (cases "js_file s")
  case None
  then have "dget (js_jobs s) \<subseteq>\<^sub>m Map.empty" using assms by (simp add: durable_ok_def mirrors_def file_lines_def lines_jobs_def)
  then have "dom (dget (js_jobs s)) = {}" using map_le_implies_dom_le by fastforce
  then have "js_jobs s = []" by (simp add: dom_map_of_conv_image_fst)
  with None assms show ?thesis
    by (simp add: ensure_loaded_def load_from_disk_def restart_def new_store_def durable_ok_def file_lines_def)
next
  case (Some ls)
  let ?F = "lines_jobs ls"
  let ?T = "by_key (take (js_max s) (newest_first (dvals ?F)))"
  have ok: "keyed job_key (js_jobs s)" "'''' \<notin> set (dkeys (js_jobs s))" "job_lines ls" "mirrors (js_max s) t (dget (js_jobs s)) (dget ?F)"
    using assms Some by (auto simp: durable_ok_def file_lines_def)
  have read: "read_lines ls [] = Inr ?F" using read_job_lines [OF ok(3)] by (simp add: lines_jobs_def)
  note T = trim_get [OF keyed_lines_jobs ok(4)]
  have keys: "'''' \<notin> set (dkeys m)" if "dget m = dget (js_jobs s)" for m
    using that ok(2) by (metis dom_map_of_conv_image_fst list.set_map)
  show ?thesis
  proof (cases "size_of ls > MAX_FILE_SIZE")
    case True
    have "dvals ?T = take (js_max s) (newest_first (dvals ?F))"
      by (simp add: by_key_map [OF newest_keys [OF keyed_lines_jobs]] comp_def)
    then have "durable_ok t (rewrite_disk True (s\<lparr>js_jobs := ?T\<rparr>))"
      and "rewrite_disk True (s\<lparr>js_jobs := ?T\<rparr>) = s\<lparr>js_jobs := ?T, js_file := Some (map JobLine (take (js_max s) (newest_first (dvals ?F)))), js_appends := 0\<rparr>"
      using durable_ok_rewrite [of "s\<lparr>js_jobs := ?T\<rparr>" t "dget ?F"] T ok(4) keys [OF T(1)] by (simp_all add: rewrite_disk_def)
    then show ?thesis using True Some read T(1)
      by (simp add: ensure_loaded_def load_from_disk_def compact_def restart_def new_store_def durable_ok_def file_lines_def Let_def)
  next
    case False
    define J where "J = (if length ?F > js_max s then ?T else ?F)"
    have "dget ?F = dget (js_jobs s)" if "length ?F \<le> js_max s"
      using mirrors_small [OF ok(4)] that card_dget [OF keyed_wf [OF keyed_lines_jobs]] by (simp add: finite_dom_map_of)
    then have J: "dget J = dget (js_jobs s)" "keyed job_key J" using T keyed_lines_jobs by (auto simp: J_def)
    have "ensure_loaded size_of True True (restart s) = Inr ((restart s)\<lparr>js_jobs := J, js_loaded := True\<rparr>)"
      using False Some read by (simp add: ensure_loaded_def load_from_disk_def restart_def new_store_def J_def)
    moreover have "durable_ok t ((restart s)\<lparr>js_jobs := J, js_loaded := True\<rparr>)"
      using Some keys [OF J(1)] ok(3,4) J by (simp add: restart_def new_store_def durable_ok_def file_lines_def)
    ultimately show ?thesis using J(1) by simp
  qed
qed

lemma durable_ok_holds: "durable size_of t s \<Longrightarrow> durable_ok t s"
proof (induction rule: durable.induct)
  case (durable_new max_jobs)
  show ?case by (simp add: durable_ok_def new_store_def file_lines_def job_lines_def lines_jobs_def mirrors_def)
next
  case (durable_restart t s s')
  then show ?case using durable_ok_load [of t s size_of] by auto
qed (simp_all add: durable_ok_add durable_ok_update durable_ok_reconcile)

text \<open>
  C25. A restart loses nothing: whatever history of additions, evictions, updates, compactions and
  earlier restarts led to a store, as long as the disk takes the writes and jobs are created at
  different times, the daemon that starts on its file finds exactly the jobs the old one had.
\<close>

theorem restart_restores_jobs:
  assumes "durable size_of t s"
  shows "\<exists>s'. ensure_loaded size_of True True (restart s) = Inr s' \<and> (\<forall>i. store_get i s' = store_get i s)"
  using durable_ok_load [OF durable_ok_holds [OF assms], of size_of] by (auto simp: store_get_def)


definition same_second :: "nat \<Rightarrow> string \<Rightarrow> string list \<Rightarrow> job_store" where
  "same_second n now ids = foldl (\<lambda>s i. snd (store_add True i [''ls''] ''actor'' now s)) ((new_store n None)\<lparr>js_loaded := True\<rparr>) ids"

text \<open>
  Times of one second are not told apart: of four jobs created in the same second in a store of
  two, memory keeps the last two, but a restart brings back the second and loses the fourth.
\<close>

lemma same_second_restart_differs:
  "dkeys (js_jobs (same_second 2 now [''a'', ''b'', ''c'', ''d''])) = [''c'', ''d''] \<and>
   map_sum (\<lambda>_. ()) (\<lambda>s. dkeys (js_jobs s)) (ensure_loaded (\<lambda>_. 0) True True (restart (same_second 2 now [''a'', ''b'', ''c'', ''d'']))) =
     Inr [''b'', ''c'']"
proof -
  define job where "job i = new_job i [''ls''] ''actor'' now" for i
  have job: "job_key (job i) = i" "job_created (job i) = now" for i by (simp_all add: job_def new_job_fields)
  have st: "same_second 2 now [''a'', ''b'', ''c'', ''d''] =
    \<lparr>js_jobs = [(''c'', job ''c''), (''d'', job ''d'')], js_max = 2, js_file = Some [JobLine (job ''b''), JobLine (job ''c''), JobLine (job ''d'')],
     js_loaded = True, js_appends = 1\<rparr>"
    by (simp add: same_second_def store_add_def Let_def evict_oldest_def append_to_disk_def rewrite_disk_def new_store_def job flip: job_def)
  show ?thesis unfolding st
    by (simp add: restart_def new_store_def ensure_loaded_def load_from_disk_def MAX_FILE_SIZE_def newest_first_def by_key_def job)
qed

section \<open>Bounds\<close>

text \<open>The histories of one run of a store that started without a file.\<close>

inductive filled :: "job_store \<Rightarrow> bool" where
  filled_new: "filled ((new_store max_jobs None)\<lparr>js_loaded := True\<rparr>)"
| filled_add: "filled s \<Longrightarrow> filled (snd (store_add True i command actor now s))"
| filled_update: "filled s \<Longrightarrow> dget kwargs ''job_id'' = None \<Longrightarrow> filled (snd (store_update True i kwargs now s))"
| filled_reconcile: "filled s \<Longrightarrow> filled (snd (reconcile_on_start True now s))"

text \<open>The lines since the last rewrite are at most as many as the jobs, and so are those of the rewrite.\<close>

definition bounded_store :: "job_store \<Rightarrow> bool" where
  "bounded_store s \<longleftrightarrow> keyed job_key (js_jobs s) \<and> length (js_jobs s) \<le> js_max s \<and> js_appends s \<le> length (js_jobs s) \<and>
     length (file_lines s) \<le> length (js_jobs s) + js_appends s"

lemma bounded_rewrite: "keyed job_key (js_jobs s) \<Longrightarrow> length (js_jobs s) \<le> js_max s \<Longrightarrow> bounded_store (rewrite_disk True s)"
  by (simp add: bounded_store_def rewrite_disk_def file_lines_def)

lemma evict_oldest_length:
  assumes "keyed job_key m" "length m = Suc (js_max s)" "js_jobs s = m"
  shows "keyed job_key (js_jobs (evict_oldest s)) \<and> length (js_jobs (evict_oldest s)) = js_max s"
proof -
  obtain k old where k: "dget m k = Some old" "js_jobs (evict_oldest s) = dpop k m" using evict_oldest_one [OF assms refl] by blast
  then have "Suc (length (dpop k m)) = length m" using keyed_wf [OF assms(1)] map_of_SomeD [OF k(1)] by (intro length_dpop) force+
  then show ?thesis using k(2) assms keyed_dpop by simp
qed

lemma bounded_add:
  assumes "bounded_store s"
  shows "bounded_store (snd (store_add True i command actor now s))"
proof -
  define job where "job = new_job i command actor now"
  define J where "J = dset i job (js_jobs s)"
  define J' where "J' = (if length J > js_max s then js_jobs (evict_oldest (s\<lparr>js_jobs := J\<rparr>)) else J)"
  have ok: "keyed job_key (js_jobs s)" "length (js_jobs s) \<le> js_max s" "js_appends s \<le> length (js_jobs s)"
    "length (file_lines s) \<le> length (js_jobs s) + js_appends s" using assms by (auto simp: bounded_store_def)
  have J: "keyed job_key J" unfolding J_def by (rule keyed_dset [OF ok(1)]) (simp add: job_def new_job_fields)
  have len: "length (js_jobs s) \<le> length J" "length J \<le> Suc (js_max s)" using ok(2) by (auto simp: J_def length_dset)
  have J': "keyed job_key J'" "length J' \<le> js_max s" "length (js_jobs s) \<le> length J'"
    using evict_oldest_length [of J "s\<lparr>js_jobs := J\<rparr>"] J len ok(2) by (auto simp: J'_def)
  define s3 where "s3 = s\<lparr>js_jobs := J', js_file := Some (file_lines s @ [JobLine job]), js_appends := Suc (js_appends s)\<rparr>"
  have "snd (store_add True i command actor now s) = (if js_appends s3 > length (js_jobs s3) then rewrite_disk True s3 else s3)"
    by (simp add: store_add_def Let_def s3_def J'_def J_def job_def append_to_disk_def file_lines_def evict_oldest_def)
  moreover have "bounded_store (rewrite_disk True s3)" using J' by (intro bounded_rewrite) (simp_all add: s3_def)
  moreover have "bounded_store s3" if "js_appends s3 \<le> length (js_jobs s3)"
    using that J' ok(4) by (simp add: bounded_store_def s3_def) (simp add: file_lines_def)
  ultimately show ?thesis by simp
qed

lemma bounded_update:
  assumes "bounded_store s" "dget kwargs ''job_id'' = None"
  shows "bounded_store (snd (store_update True i kwargs now s))"
proof (cases "dget (js_jobs s) i")
  case (Some j)
  have ok: "keyed job_key (js_jobs s)" "length (js_jobs s) \<le> js_max s" using assms(1) by (auto simp: bounded_store_def)
  have "job_key (update_fields kwargs now j) = i"
    using assms(2) keyed_get [OF ok(1) Some] by (simp add: job_key_def update_fields_def Let_def map_add_def)
  then have "keyed job_key (dset i (update_fields kwargs now j) (js_jobs s))" using ok(1) by (intro keyed_dset)
  moreover have "length (dset i (update_fields kwargs now j) (js_jobs s)) = length (js_jobs s)"
    using map_of_SomeD [OF Some] by (force simp: length_dset)
  ultimately show ?thesis using Some ok(2) by (simp add: store_update_def Let_def bounded_rewrite)
qed (use assms(1) in \<open>simp add: store_update_def\<close>)

lemma bounded_reconcile:
  assumes "bounded_store s"
  shows "bounded_store (snd (reconcile_on_start True now s))"
proof -
  let ?s = "s\<lparr>js_jobs := map (\<lambda>(i, j). (i, fail_orphan now j)) (js_jobs s)\<rparr>"
  have ok: "keyed job_key (js_jobs s)" "length (js_jobs s) \<le> js_max s" using assms by (auto simp: bounded_store_def)
  have "bounded_store ?s" using assms keyed_map_vals(1) [OF ok(1) fail_orphan_fields(1) [of now]] by (simp add: bounded_store_def file_lines_def)
  moreover have "bounded_store (rewrite_disk True ?s)"
    using keyed_map_vals(1) [OF ok(1) fail_orphan_fields(1) [of now]] ok(2) by (intro bounded_rewrite) simp_all
  ultimately show ?thesis by (simp add: reconcile_on_start_def Let_def)
qed

text \<open>
  While the daemon runs, the store never holds more jobs than its limit, and its file never more
  than twice as many lines as there are jobs: additions that only append are followed by a rewrite
  in time.
\<close>

lemma store_stays_bounded:
  assumes "filled s"
  shows "length (js_jobs s) \<le> js_max s \<and> length (file_lines s) \<le> 2 * length (js_jobs s)"
proof -
  have "bounded_store s" using assms
  proof (induction rule: filled.induct)
    case (filled_new max_jobs)
    show ?case by (simp add: bounded_store_def new_store_def file_lines_def)
  qed (simp_all add: bounded_add bounded_update bounded_reconcile)
  then show ?thesis by (simp add: bounded_store_def)
qed

section \<open>Witnesses\<close>

definition two_days :: job_store where
  "two_days = snd (store_update True ''b'' [(''status'', JStr ''running'')] ''t'' (snd (store_add True ''b'' [''ls''] ''actor'' ''2026-01-02T00:00:00Z''
     (snd (store_add True ''a'' [''ls''] ''actor'' ''2026-01-01T00:00:00Z'' ((new_store 2 None)\<lparr>js_loaded := True\<rparr>))))))"

theorem restart_restores_jobs_witness:
  "\<exists>s'. ensure_loaded (\<lambda>_. 0) True True (restart two_days) = Inr s' \<and> (\<forall>i. store_get i s' = store_get i two_days)"
proof -
  let ?t1 = "''2026-01-01T00:00:00Z''" and ?t2 = "''2026-01-02T00:00:00Z''"
  have "'''' < ?t1" "?t1 < ?t2" by code_simp+
  then have "durable (\<lambda>_. 0) ?t2 (snd (store_add True ''b'' [''ls''] ''actor'' ?t2 (snd (store_add True ''a'' [''ls''] ''actor'' ?t1 ((new_store 2 None)\<lparr>js_loaded := True\<rparr>)))))"
    by (intro durable_add [OF durable_add [OF durable_new]]) simp_all
  then have "durable (\<lambda>_. 0) ?t2 two_days" unfolding two_days_def by (rule durable_update) simp_all
  then show ?thesis by (rule restart_restores_jobs)
qed

lemma store_stays_bounded_witness:
  "length (js_jobs (same_second 2 ''t'' [''a'', ''b'', ''c''])) \<le> js_max (same_second 2 ''t'' [''a'', ''b'', ''c'']) \<and>
   length (file_lines (same_second 2 ''t'' [''a'', ''b'', ''c''])) \<le> 2 * length (js_jobs (same_second 2 ''t'' [''a'', ''b'', ''c'']))"
  by (rule store_stays_bounded) (simp add: same_second_def filled_add filled_new)

end
