(* ===== verification/Tenant_Jobs.thy ===== *)
theory Tenant_Jobs
  imports Tenant Scan_Job_Store
begin

text \<open>
  Jobs of several tenants in one store (\<open>src/picosentry/sandbox/tenant/store.py\<close>) and the requests of the
  daemon that read them (\<open>sandbox/daemon/handler_mixins.py\<close>, \<open>handler_routes_get.py\<close>). The wrapped store
  is an argument: the operations it is called with. The laws it has to obey are the locale
  \<open>job_backend\<close>, which both stores of the daemon that keep jobs in memory satisfy.
\<close>

section \<open>Model\<close>

subsection \<open>The tenant-aware store\<close>

definition job_tenant :: "job \<Rightarrow> string" where
  "job_tenant j = (case j ''tenant_id'' of Some (JStr s) \<Rightarrow> if s = '''' then normalized DEFAULT_TENANT else s | _ \<Rightarrow> normalized DEFAULT_TENANT)"

definition acting_tenant :: "tenant_id option \<Rightarrow> tenant_id" where
  "acting_tenant t = (case t of None \<Rightarrow> DEFAULT_TENANT | Some x \<Rightarrow> x)"

type_synonym 's getter = "string \<Rightarrow> 's \<Rightarrow> job option"
type_synonym 's updater = "string \<Rightarrow> (string \<times> json) list \<Rightarrow> string \<Rightarrow> 's \<Rightarrow> job option \<times> 's"
type_synonym 's adder = "string \<Rightarrow> string list \<Rightarrow> string \<Rightarrow> string \<Rightarrow> 's \<Rightarrow> job \<times> 's"
type_synonym 's lister = "nat \<Rightarrow> 's \<Rightarrow> job list"

definition tenant_add :: "'s adder \<Rightarrow> 's updater \<Rightarrow> string \<Rightarrow> string list \<Rightarrow> string \<Rightarrow> tenant_id option \<Rightarrow> string \<Rightarrow> 's \<Rightarrow> job \<times> 's" where
  "tenant_add add update job_id command actor tenant now s =
     (let tid = acting_tenant tenant;
          (job, s1) = add job_id command actor now s;
          (_, s2) = update job_id [(''tenant_id'', JStr (normalized tid))] now s1
      in (job(''tenant_id'' \<mapsto> JStr (normalized tid)), s2))"

definition tenant_get :: "'s getter \<Rightarrow> string \<Rightarrow> tenant_id option \<Rightarrow> 's \<Rightarrow> job option" where
  "tenant_get get job_id tenant s =
     (case get job_id s of
        None \<Rightarrow> None
      | Some job \<Rightarrow> if job_tenant job \<noteq> normalized (acting_tenant tenant) then None else Some job)"

definition tenant_update :: "'s getter \<Rightarrow> 's updater \<Rightarrow> string \<Rightarrow> tenant_id option \<Rightarrow> (string \<times> json) list \<Rightarrow> string \<Rightarrow> 's \<Rightarrow> job option \<times> 's" where
  "tenant_update get update job_id tenant kwargs now s =
     (case tenant_get get job_id (Some (acting_tenant tenant)) s of
        None \<Rightarrow> (None, s)
      | Some _ \<Rightarrow> update job_id kwargs now s)"

definition tenant_list_recent :: "'s lister \<Rightarrow> tenant_id option \<Rightarrow> nat \<Rightarrow> 's \<Rightarrow> job list" where
  "tenant_list_recent list_recent tenant limit s =
     (let inner_limit = min 4000 (max limit 1 * 4);
          tenant_jobs = filter (\<lambda>j. job_tenant j = normalized (acting_tenant tenant)) (list_recent inner_limit s)
      in take limit tenant_jobs)"

subsection \<open>Requests\<close>

definition get_token :: "string \<Rightarrow> string option" where
  "get_token auth_header = (if starts_with ''Bearer '' auth_header then Some (strip (drop 7 auth_header)) else None)"

text \<open>\<open>sha256\<close> is the hash of a token in hexadecimal.\<close>

definition no_token :: "string option \<Rightarrow> bool" where
  "no_token token \<longleftrightarrow> token \<in> {None, Some '''', Some ''no-auth-dev-mode''}"

definition request_tenant :: "(string \<Rightarrow> string) \<Rightarrow> string option \<Rightarrow> string option \<Rightarrow> tenant_registry \<Rightarrow> tenant_mismatch + tenant_id" where
  "request_tenant sha256 token x_tenant r =
     (if no_token token then resolve_tenant '''' None r else resolve_tenant (sha256 (the token)) x_tenant r)"

definition is_tenant_operator :: "(string \<Rightarrow> string) \<Rightarrow> string option \<Rightarrow> tenant_registry \<Rightarrow> bool" where
  "is_tenant_operator sha256 token r \<longleftrightarrow> \<not> no_token token \<and> is_operator_token (sha256 (the token)) r"

definition handle_get_scan :: "(string \<Rightarrow> string) \<Rightarrow> 's getter \<Rightarrow> string \<Rightarrow> string option \<Rightarrow> string \<Rightarrow> tenant_registry \<Rightarrow> 's \<Rightarrow> tenant_mismatch + job option" where
  "handle_get_scan sha256 get auth_header x_tenant job_id r s =
     (case request_tenant sha256 (get_token auth_header) x_tenant r of
        Inl e \<Rightarrow> Inl e
      | Inr t \<Rightarrow> Inr (tenant_get get job_id (Some t) s))"

definition handle_list_scans :: "(string \<Rightarrow> string) \<Rightarrow> 's lister \<Rightarrow> string \<Rightarrow> string option \<Rightarrow> nat \<Rightarrow> tenant_registry \<Rightarrow> 's \<Rightarrow> tenant_mismatch + job list" where
  "handle_list_scans sha256 list_recent auth_header x_tenant limit r s =
     (case request_tenant sha256 (get_token auth_header) x_tenant r of
        Inl e \<Rightarrow> Inl e
      | Inr t \<Rightarrow> Inr (tenant_list_recent list_recent (Some t) limit s))"

text \<open>The tenants a request may list: all for an operator, otherwise its own.\<close>

definition handle_list_tenants :: "(string \<Rightarrow> string) \<Rightarrow> string \<Rightarrow> string option \<Rightarrow> tenant_registry \<Rightarrow> tenant_mismatch + tenant_context list" where
  "handle_list_tenants sha256 auth_header x_tenant r =
     (let token = get_token auth_header in
      if is_tenant_operator sha256 token r then Inr (list_tenants r)
      else case request_tenant sha256 token x_tenant r of
        Inl e \<Rightarrow> Inl e
      | Inr tid \<Rightarrow> Inr (case get_tenant tid r of Some own \<Rightarrow> [own] | None \<Rightarrow> [\<lparr>tx_id = tid, tx_display_name = '''', tx_metadata = []\<rparr>]))"

section \<open>The interface of a store of jobs\<close>

locale job_backend =
  fixes get :: "'s getter"
    and update :: "'s updater"
    and list_recent :: "'s lister"
  assumes update_missing: "get i s = None \<Longrightarrow> update i kwargs now s = (None, s)"
    and update_other: "k \<noteq> i \<Longrightarrow> get k (snd (update i kwargs now s)) = get k s"
begin

lemma get_own: "tenant_get get i t s = Some j \<Longrightarrow> job_tenant j = normalized (acting_tenant t) \<and> get i s = Some j"
  by (auto simp: tenant_get_def split: option.splits if_splits)

lemma list_own: "j \<in> set (tenant_list_recent list_recent t n s) \<Longrightarrow> job_tenant j = normalized (acting_tenant t)"
  by (auto simp: tenant_list_recent_def Let_def dest: in_set_takeD)

text \<open>An update for one tenant leaves the jobs of all others as they were.\<close>

lemma update_frame:
  assumes "get k s = Some j" "job_tenant j \<noteq> normalized (acting_tenant t)"
  shows "get k (snd (tenant_update get update i t kwargs now s)) = Some j"
proof (cases "tenant_get get i (Some (acting_tenant t)) s")
  case None
  then show ?thesis using assms(1) by (simp add: tenant_update_def)
next
  case (Some own)
  have "k \<noteq> i" using get_own [OF Some] assms by (auto simp: acting_tenant_def)
  then show ?thesis using Some assms(1) by (simp add: tenant_update_def update_other)
qed

lemma update_denied:
  "get k s = Some j \<Longrightarrow> job_tenant j \<noteq> normalized (acting_tenant t) \<Longrightarrow> tenant_update get update k t kwargs now s = (None, s)"
  by (simp add: tenant_update_def tenant_get_def acting_tenant_def)

end

interpretation file_backend: job_backend store_get "store_update up" store_list_recent
  by unfold_locales (auto simp: store_get_def store_update_def rewrite_disk_def Let_def split: option.splits)

interpretation memory_backend: job_backend memory_get "\<lambda>i kwargs _. memory_update i kwargs" memory_list_recent
  by unfold_locales (auto simp: memory_get_def memory_update_def split: option.splits)

text \<open>
  C24. Requests stay within their tenant: a token that is no operator reads and lists only jobs of the
  tenant it is mapped to, whatever tenant header it sends; an update it makes is refused for a job of
  another tenant and leaves every such job as it was.
\<close>

theorem requests_stay_in_tenant:
  assumes "\<not> is_tenant_operator sha256 (get_token auth) r" "request_tenant sha256 (get_token auth) x_tenant r = Inr t"
    and "own = normalized (tenant_of (if no_token (get_token auth) then '''' else sha256 (the (get_token auth))) r)"
    and "'''' \<notin> set (r_operators r)"
  shows "(\<forall>i j. handle_get_scan sha256 store_get auth x_tenant i r s = Inr (Some j) \<longrightarrow> job_tenant j = own) \<and>
    (\<forall>n js. handle_list_scans sha256 store_list_recent auth x_tenant n r s = Inr js \<longrightarrow> (\<forall>j \<in> set js. job_tenant j = own)) \<and>
    (\<forall>i k j. store_get k s = Some j \<longrightarrow> job_tenant j \<noteq> own \<longrightarrow>
       store_get k (snd (tenant_update store_get (store_update up) i (Some t) kwargs now s)) = Some j)"
proof -
  have own: "normalized (acting_tenant (Some t)) = own"
    using assms resolve_own_tenant
    by (auto simp: request_tenant_def is_tenant_operator_def acting_tenant_def is_operator_token_def split: if_splits)
  then show ?thesis
    using assms(2) file_backend.get_own [of _ "Some t" s] file_backend.list_own [of _ "Some t" _ s] file_backend.update_frame [of _ s _ "Some t" up]
    by (auto simp: handle_get_scan_def handle_list_scans_def)
qed

definition globex_jobs :: job_store where
  "globex_jobs = snd (tenant_add (store_add True) (store_update True) ''j1'' [''ls''] ''actor'' (Some (TenantId ''Globex'')) ''t'' ((new_store 5 None)\<lparr>js_loaded := True\<rparr>))"

theorem requests_stay_in_tenant_witness:
  "job_tenant (the (store_get ''j1'' globex_jobs)) = ''globex'' \<and>
   store_get ''j1'' (snd (tenant_update store_get (store_update True) ''j1'' (Some (TenantId ''acme'')) [(''status'', JStr ''failed'')] ''t'' globex_jobs)) =
     store_get ''j1'' globex_jobs \<and>
   handle_get_scan (\<lambda>t. t) store_get ''Bearer h1'' (Some ''ACME'') ''j1'' two_tenants globex_jobs = Inr None"
proof -
  have "\<not> is_tenant_operator (\<lambda>t. t) (get_token ''Bearer h1'') two_tenants"
    and "request_tenant (\<lambda>t. t) (get_token ''Bearer h1'') (Some ''ACME'') two_tenants = Inr (TenantId ''acme'')"
    and "''acme'' = normalized (tenant_of (if no_token (get_token ''Bearer h1'') then '''' else the (get_token ''Bearer h1'')) two_tenants)"
    and "'''' \<notin> set (r_operators two_tenants)"
    by code_simp+
  note all = requests_stay_in_tenant [OF this, of globex_jobs True "[(''status'', JStr ''failed'')]" "''t''"]
  have job: "map_option job_tenant (store_get ''j1'' globex_jobs) = Some ''globex''" by code_simp
  have "\<not> isl (handle_get_scan (\<lambda>t. t) store_get ''Bearer h1'' (Some ''ACME'') ''j1'' two_tenants globex_jobs)" by code_simp
  then obtain res where res: "handle_get_scan (\<lambda>t. t) store_get ''Bearer h1'' (Some ''ACME'') ''j1'' two_tenants globex_jobs = Inr res"
    by (cases "handle_get_scan (\<lambda>t. t) store_get ''Bearer h1'' (Some ''ACME'') ''j1'' two_tenants globex_jobs") simp_all
  obtain j where j: "store_get ''j1'' globex_jobs = Some j" "job_tenant j = ''globex''" using job by auto
  have "res = None"
  proof (rule ccontr)
    assume "res \<noteq> None"
    then obtain k where k: "res = Some k" by blast
    have "job_tenant k = ''acme''" using all res k by blast
    moreover have "k = j"
      using res k j(1) by (auto simp: handle_get_scan_def tenant_get_def split: sum.splits option.splits if_splits)
    ultimately show False using j(2) by simp
  qed
  moreover have "store_get ''j1'' (snd (tenant_update store_get (store_update True) ''j1'' (Some (TenantId ''acme'')) [(''status'', JStr ''failed'')] ''t'' globex_jobs)) = Some j"
    using all j by simp
  ultimately show ?thesis using j res by simp
qed

end
