(* ===== verification/Auth_Service.thy ===== *)
theory Auth_Service
  imports Py_Strings
begin

text \<open>
  The authentication service of the server (\<open>src/picosentry/serve/services/auth.py\<close>): the key ring that
  signs tokens, passwords and the lockout, time-based codes, token revocation, passkeys and API keys,
  over the tables of the two supported databases. The libraries it calls (PyJWT, cryptography, bcrypt,
  pyotp, webauthn) and SHA-256 are fields of a record of parameters; what a proof relies on is stated
  where it is used. The clock is read once per call and is an argument; so is every random value.
\<close>

section \<open>Tables and parameters\<close>

text \<open>
  A datetime read back from a TIMESTAMP column: SQLite stores the ISO text of the aware value and the
  registered converter parses it, psycopg2 returns a value without a zone. Python refuses to compare
  the two kinds.
\<close>

datatype db_backend = SQLite | Postgres

datatype pydatetime = Aware pyfloat | Naive pyfloat

definition read_timestamp :: "db_backend \<Rightarrow> pyfloat \<Rightarrow> pydatetime" where
  "read_timestamp b t = (case b of SQLite \<Rightarrow> Aware t | Postgres \<Rightarrow> Naive t)"

fun dt_gt :: "pydatetime \<Rightarrow> pydatetime \<Rightarrow> bool py_result" where
  "dt_gt (Aware a) (Aware b) = Inr (a > b)"
| "dt_gt (Naive a) (Naive b) = Inr (a > b)"
| "dt_gt _ _ = Inl TypeError"

record auth_user =
  u_id :: nat
  u_username :: string
  u_password_hash :: string
  u_email :: "string option"
  u_role :: string
  u_active :: bool
  u_last_login :: "pyfloat option"
  u_totp_secret :: "string option"
  u_failed :: "int option"
  u_locked_until :: "pyfloat option"
  u_totp_last :: "int option"

record api_key_row =
  k_id :: nat
  k_hash :: string
  k_user :: nat
  k_name :: "string option"
  k_permissions :: "string option"
  k_role :: "string option"
  k_org :: "int option"
  k_expires :: "pyfloat option"
  k_last_used :: "pyfloat option"
  k_active :: bool
  k_revoked_at :: "pyfloat option"

text \<open>\<open>revoked_at\<close> defaults to \<open>CURRENT_TIMESTAMP\<close>, which counts whole seconds.\<close>

record revoked_row =
  r_jti :: string
  r_user :: "nat option"
  r_at :: int

record passkey_row =
  w_user :: nat
  w_credential :: string
  w_public_key :: string
  w_sign_count :: int

record challenge_row =
  c_user :: nat
  c_challenge :: string
  c_purpose :: string

record auth_db =
  db_users :: "auth_user list"
  db_next_user :: nat
  db_keys :: "api_key_row list"
  db_next_key :: nat
  db_revoked :: "revoked_row list"
  db_passkeys :: "passkey_row list"
  db_challenges :: "challenge_row list"

text \<open>Keys of the JWT library: the shared secret or an RSA key; and what decoding a token gives.\<close>

datatype jwt_key = Hmac string | Rsa string

datatype jwt_outcome = Decoded "(string \<times> json) list" | ExpiredSignature | InvalidToken

datatype pem_key = NotPem | OtherKey | RsaKey string

record auth_env =
  e_backend :: db_backend
  e_allow_insecure :: bool
  e_has_jwt :: bool
  e_has_crypto :: bool
  e_has_bcrypt :: bool
  e_has_pyotp :: bool
  e_has_webauthn :: bool
  e_secret_key :: string
  e_algorithm :: string
  e_expiration_hours :: int
  e_private_key :: string
  e_kid :: string
  e_lockout_max :: int
  e_lockout_minutes :: int
  e_read_file :: "string \<Rightarrow> string option"
  e_load_pem :: "string \<Rightarrow> pem_key"
  e_to_jwk :: "string \<Rightarrow> (string \<times> json) list"
  e_bcrypt_hash :: "string \<Rightarrow> string \<Rightarrow> string"
  e_bcrypt_check :: "string \<Rightarrow> string \<Rightarrow> bool"
  e_pbkdf2 :: "string \<Rightarrow> string \<Rightarrow> string"
  e_sha256 :: "string \<Rightarrow> string"
  e_jwt_encode :: "jwt_key \<Rightarrow> string \<Rightarrow> string option \<Rightarrow> (string \<times> json) list \<Rightarrow> string"
  e_jwt_decode :: "jwt_key \<Rightarrow> string \<Rightarrow> pyfloat \<Rightarrow> string \<Rightarrow> jwt_outcome"
  e_jwt_kid :: "string \<Rightarrow> string option"
  e_totp_verify :: "string \<Rightarrow> pyfloat \<Rightarrow> string \<Rightarrow> bool"
  e_totp_interval :: int
  e_otp :: "string \<Rightarrow> int \<Rightarrow> string"
  e_otp_uri :: "string \<Rightarrow> string \<Rightarrow> string"
  e_user_orgs :: "nat \<Rightarrow> int list py_result"
  e_wa_options :: "string \<Rightarrow> string list \<Rightarrow> string"
  e_wa_register :: "(string \<times> json) list \<Rightarrow> string \<Rightarrow> (string \<times> string \<times> int) option"
  e_wa_assert :: "(string \<times> json) list \<Rightarrow> string \<Rightarrow> string \<Rightarrow> int \<Rightarrow> (string \<times> int) option"

section \<open>Construction and the key ring\<close>

type_synonym key_ring = "(string, string) pydict"

definition WEAK_SECRET_DENYLIST :: "string list" where
  "WEAK_SECRET_DENYLIST = ['''', ''change-me-in-production'', ''changeme'', ''default'', ''secret'', ''password'',
     ''please-change-me'', ''your-secret-key'', ''your-secret-key-here'']"

definition MIN_SECRET_KEY_LENGTH :: nat where
  "MIN_SECRET_KEY_LENGTH = 32"

definition load_configured_key :: "auth_env \<Rightarrow> key_ring py_result" where
  "load_configured_key e =
     (if e_private_key e = '''' then Inr []
      else if \<not> e_has_crypto e then Inl (RuntimeError ''cryptography is required for RS256 JWT signing'')
      else let pem = (case e_read_file e (e_private_key e) of Some c \<Rightarrow> c | None \<Rightarrow> e_private_key e)
           in case e_load_pem e pem of
                NotPem \<Rightarrow> Inl (ValueError ''PICOSHOGUN_JWT_PRIVATE_KEY is not a valid RSA private key'')
              | OtherKey \<Rightarrow> Inl (ValueError ''PICOSHOGUN_JWT_PRIVATE_KEY must be an RSA private key'')
              | RsaKey k \<Rightarrow> Inr (dset (e_kid e) k []))"

definition check_secret :: "auth_env \<Rightarrow> unit py_result" where
  "check_secret e =
     (if e_allow_insecure e then Inr ()
      else if e_secret_key e \<in> set WEAK_SECRET_DENYLIST then
        Inl (ValueError (''AuthService: secret key is empty or uses a well-known placeholder. '' @
          ''Set PICOSHOGUN_SECRET_KEY or ALLOW_INSECURE_SECRET=true for local dev only.''))
      else if length (e_secret_key e) < MIN_SECRET_KEY_LENGTH then
        Inl (ValueError (''AuthService: secret key is '' @ show_nat (length (e_secret_key e)) @
          '' bytes; minimum is '' @ show_nat MIN_SECRET_KEY_LENGTH @ ''.''))
      else Inr ())"

definition new_auth_service :: "auth_env \<Rightarrow> key_ring py_result" where
  "new_auth_service e = bindE (load_configured_key e) (\<lambda>ks. bindE (check_secret e) (\<lambda>_. Inr ks))"

definition register_key :: "auth_env \<Rightarrow> string \<Rightarrow> string \<Rightarrow> key_ring \<Rightarrow> key_ring py_result" where
  "register_key e kid pem ks =
     (if \<not> e_has_crypto e then Inl (RuntimeError ''cryptography is required for RS256 JWT signing'')
      else case e_load_pem e pem of
             NotPem \<Rightarrow> Inl (ValueError ''Could not deserialize key data'')
           | OtherKey \<Rightarrow> Inl (ValueError ''key must be an RSA private key'')
           | RsaKey k \<Rightarrow> Inr (dset kid k ks))"

definition retire_key :: "string \<Rightarrow> key_ring \<Rightarrow> bool \<times> key_ring" where
  "retire_key kid ks =
     (if dget ks kid = None then (False, ks)
      else if length ks = 1 then (False, ks)
      else (True, dpop kid ks))"

definition signing_key :: "key_ring \<Rightarrow> string option" where
  "signing_key ks = (if ks = [] then None else Some (last (dvals ks)))"

definition signing_kid :: "key_ring \<Rightarrow> string option" where
  "signing_kid ks = (if ks = [] then None else Some (last (dkeys ks)))"

definition jwks :: "auth_env \<Rightarrow> key_ring \<Rightarrow> json" where
  "jwks e ks = JObj [(''keys'', JList (map (\<lambda>(kid, key).
     JObj (dset ''alg'' (JStr ''RS256'') (dset ''use'' (JStr ''sig'') (dset ''kid'' (JStr kid) (e_to_jwk e key))))) ks))]"

section \<open>Passwords and users\<close>

definition hash_password :: "auth_env \<Rightarrow> string \<Rightarrow> string \<Rightarrow> string" where
  "hash_password e salt password =
     (if e_has_bcrypt e then e_bcrypt_hash e salt password
      else ''pbkdf2:'' @ salt @ '':'' @ e_pbkdf2 e password salt)"

definition verify_password :: "auth_env \<Rightarrow> string \<Rightarrow> string \<Rightarrow> bool py_result" where
  "verify_password e password hashed =
     (if e_has_bcrypt e \<and> \<not> starts_with ''pbkdf2:'' hashed then Inr (e_bcrypt_check e password hashed)
      else if starts_with ''pbkdf2:'' hashed then
        (case split_on (CHR '':'') hashed of
           [_, salt, hash_value] \<Rightarrow> Inr (e_pbkdf2 e password salt = hash_value)
         | _ \<Rightarrow> Inl (ValueError ''unpack''))
      else Inr False)"

definition normalize_username :: "string \<Rightarrow> string" where
  "normalize_username n = lower (strip n)"

definition active_user :: "auth_db \<Rightarrow> string \<Rightarrow> auth_user option" where
  "active_user db name = find (\<lambda>u. u_username u = name \<and> u_active u) (db_users db)"

definition user_by_id :: "auth_db \<Rightarrow> nat \<Rightarrow> auth_user option" where
  "user_by_id db i = find (\<lambda>u. u_id u = i) (db_users db)"

definition update_user :: "nat \<Rightarrow> (auth_user \<Rightarrow> auth_user) \<Rightarrow> auth_db \<Rightarrow> auth_db" where
  "update_user i f db = db\<lparr>db_users := map (\<lambda>u. if u_id u = i then f u else u) (db_users db)\<rparr>"

definition get_user_id_by_username :: "auth_db \<Rightarrow> string \<Rightarrow> nat option" where
  "get_user_id_by_username db n = map_option u_id (active_user db (normalize_username n))"

text \<open>
  \<open>username\<close> is UNIQUE: an existing row makes the insertion raise, and \<open>create_user\<close> answers None.
\<close>

definition create_user ::
  "auth_env \<Rightarrow> string \<Rightarrow> string \<Rightarrow> string \<Rightarrow> string option \<Rightarrow> string \<Rightarrow> auth_db \<Rightarrow> nat option \<times> auth_db" where
  "create_user e salt name password email role db =
     (let n = normalize_username name; h = hash_password e salt password in
      if \<exists>u \<in> set (db_users db). u_username u = n then (None, db)
      else (Some (db_next_user db),
            db\<lparr>db_users := db_users db @ [\<lparr>u_id = db_next_user db, u_username = n, u_password_hash = h, u_email = email,
                 u_role = role, u_active = True, u_last_login = None, u_totp_secret = None, u_failed = Some 0,
                 u_locked_until = None, u_totp_last = None\<rparr>],
               db_next_user := Suc (db_next_user db)\<rparr>))"

definition verify_user_password :: "auth_env \<Rightarrow> auth_db \<Rightarrow> nat \<Rightarrow> string \<Rightarrow> bool py_result" where
  "verify_user_password e db i password =
     (case user_by_id db i of None \<Rightarrow> Inr False | Some u \<Rightarrow> verify_password e password (u_password_hash u))"

section \<open>Time-based codes\<close>

definition truthy_str :: "string option \<Rightarrow> string option" where
  "truthy_str s = (case s of Some [] \<Rightarrow> None | _ \<Rightarrow> s)"

definition totp_match_timestep :: "auth_env \<Rightarrow> pyfloat \<Rightarrow> string \<Rightarrow> string \<Rightarrow> int option py_result" where
  "totp_match_timestep e now secret code =
     (if \<not> e_has_pyotp e then Inr None
      else if \<not> e_totp_verify e secret now code then Inr None
      else let counter = \<lfloor>now / of_int (e_totp_interval e)\<rfloor>;
               hits = filter (\<lambda>fc. e_otp e secret fc = code) [counter - 1, counter, counter + 1]
           in if hits = [] then Inl (ValueError ''max() arg is an empty sequence'') else Inr (Some (Max (set hits))))"

definition totp_last :: "auth_user \<Rightarrow> int" where
  "totp_last u = (case u_totp_last u of None \<Rightarrow> 0 | Some n \<Rightarrow> n)"

definition totp_replay_ok :: "auth_user \<Rightarrow> int \<Rightarrow> bool" where
  "totp_replay_ok u matched \<longleftrightarrow> matched > totp_last u"

definition set_timestep :: "nat \<Rightarrow> int \<Rightarrow> auth_db \<Rightarrow> auth_db" where
  "set_timestep i matched = update_user i (\<lambda>u. u\<lparr>u_totp_last := Some matched\<rparr>)"

definition verify_totp :: "auth_env \<Rightarrow> pyfloat \<Rightarrow> string \<Rightarrow> string \<Rightarrow> bool py_result" where
  "verify_totp e now secret code =
     (if \<not> e_has_pyotp e then Inr False
      else bindE (totp_match_timestep e now secret code) (\<lambda>m. Inr (m \<noteq> None)))"

definition verify_totp_replay ::
  "auth_env \<Rightarrow> pyfloat \<Rightarrow> auth_user \<Rightarrow> string \<Rightarrow> string \<Rightarrow> auth_db \<Rightarrow> bool py_result \<times> auth_db" where
  "verify_totp_replay e now u secret code db =
     (case totp_match_timestep e now secret code of
        Inl x \<Rightarrow> (Inl x, db)
      | Inr None \<Rightarrow> (Inr False, db)
      | Inr (Some m) \<Rightarrow> if \<not> totp_replay_ok u m then (Inr False, db) else (Inr True, set_timestep (u_id u) m db))"

definition verify_totp_for_user ::
  "auth_env \<Rightarrow> pyfloat \<Rightarrow> nat \<Rightarrow> string \<Rightarrow> auth_db \<Rightarrow> bool py_result \<times> auth_db" where
  "verify_totp_for_user e now i code db =
     (case user_by_id db i of
        None \<Rightarrow> (Inr False, db)
      | Some u \<Rightarrow> (case truthy_str (u_totp_secret u) of
          None \<Rightarrow> (Inr False, db)
        | Some secret \<Rightarrow> verify_totp_replay e now u secret code db))"

definition get_totp_secret :: "auth_db \<Rightarrow> nat \<Rightarrow> string option" where
  "get_totp_secret db i = (case user_by_id db i of None \<Rightarrow> None | Some u \<Rightarrow> u_totp_secret u)"

definition enroll_totp ::
  "auth_env \<Rightarrow> string \<Rightarrow> nat \<Rightarrow> string \<Rightarrow> auth_db \<Rightarrow> (string \<times> string) option \<times> auth_db" where
  "enroll_totp e secret i name db =
     (if \<not> e_has_pyotp e then (None, db)
      else (Some (secret, e_otp_uri e secret name), update_user i (\<lambda>u. u\<lparr>u_totp_secret := Some secret\<rparr>) db))"

section \<open>Tokens\<close>

definition token_payload ::
  "auth_env \<Rightarrow> pyfloat \<Rightarrow> string \<Rightarrow> nat \<Rightarrow> string \<Rightarrow> string \<Rightarrow> int option \<Rightarrow> (string \<times> json) list" where
  "token_payload e now jti i name role org =
     [(''user_id'', JInt (int i)), (''username'', JStr name), (''role'', JStr role), (''jti'', JStr jti),
      (''exp'', JFloat (now + 3600 * of_int (e_expiration_hours e))), (''iat'', JFloat now)]
     @ (case org of None \<Rightarrow> [] | Some g \<Rightarrow> [(''org_id'', JInt g)])"

definition generate_token ::
  "auth_env \<Rightarrow> key_ring \<Rightarrow> pyfloat \<Rightarrow> string \<Rightarrow> nat \<Rightarrow> string \<Rightarrow> string \<Rightarrow> int option \<Rightarrow> string py_result" where
  "generate_token e ks now jti i name role org =
     (if \<not> e_has_jwt e then
        Inl (RuntimeError ''PyJWT is required for token generation. Install with: pip install PyJWT'')
      else let payload = token_payload e now jti i name role org
           in case signing_key ks of
                Some k \<Rightarrow> Inr (e_jwt_encode e (Rsa k) ''RS256'' (signing_kid ks) payload)
              | None \<Rightarrow> Inr (e_jwt_encode e (Hmac (e_secret_key e)) (e_algorithm e) None payload))"

fun try_candidates ::
  "auth_env \<Rightarrow> key_ring \<Rightarrow> pyfloat \<Rightarrow> string \<Rightarrow> string list \<Rightarrow> (string \<times> json) list option" where
  "try_candidates e ks now tok [] =
     (case e_jwt_decode e (Hmac (e_secret_key e)) (e_algorithm e) now tok of Decoded p \<Rightarrow> Some p | _ \<Rightarrow> None)"
| "try_candidates e ks now tok (c # cs) =
     (case dget ks c of
        None \<Rightarrow> None
      | Some k \<Rightarrow> (case e_jwt_decode e (Rsa k) ''RS256'' now tok of
          Decoded p \<Rightarrow> Some p
        | ExpiredSignature \<Rightarrow> None
        | InvalidToken \<Rightarrow> try_candidates e ks now tok cs))"

definition token_candidates :: "auth_env \<Rightarrow> key_ring \<Rightarrow> string \<Rightarrow> string list" where
  "token_candidates e ks tok =
     (case e_jwt_kid e tok of
        Some kid \<Rightarrow> if dget ks kid \<noteq> None then [kid] else dkeys ks
      | None \<Rightarrow> dkeys ks)"

definition decode_token :: "auth_env \<Rightarrow> key_ring \<Rightarrow> pyfloat \<Rightarrow> string \<Rightarrow> (string \<times> json) list option" where
  "decode_token e ks now tok =
     try_candidates e ks now tok (if ks = [] then [] else token_candidates e ks tok)"

definition is_token_revoked :: "auth_db \<Rightarrow> string \<Rightarrow> bool" where
  "is_token_revoked db jti \<longleftrightarrow> (\<exists>r \<in> set (db_revoked db). r_jti r = jti)"

text \<open>A claim \<open>jti\<close> of another type than text or null is a \<open>TypeError\<close> by the convention of the library.\<close>

definition jti_revoked :: "auth_db \<Rightarrow> json \<Rightarrow> bool py_result" where
  "jti_revoked db v =
     (case v of JNull \<Rightarrow> Inr False
      | JStr s \<Rightarrow> Inr (s \<noteq> '''' \<and> is_token_revoked db s)
      | _ \<Rightarrow> Inl TypeError)"

definition validate_token ::
  "auth_env \<Rightarrow> key_ring \<Rightarrow> auth_db \<Rightarrow> pyfloat \<Rightarrow> string \<Rightarrow> (string \<times> json) list option py_result" where
  "validate_token e ks db now tok =
     (if starts_with ''simple:'' tok then Inr None
      else if \<not> e_has_jwt e then Inr None
      else case decode_token e ks now tok of
             None \<Rightarrow> Inr None
           | Some p \<Rightarrow> bindE (jti_revoked db (get_json ''jti'' p)) (\<lambda>revoked.
               if revoked then Inr None
               else bindE (need Inr ''user_id'' p) (\<lambda>i.
                    bindE (need Inr ''username'' p) (\<lambda>n.
                    bindE (need Inr ''role'' p) (\<lambda>r.
                      Inr (Some [(''id'', i), (''user_id'', i), (''username'', n), (''role'', r),
                                 (''jti'', get_json ''jti'' p), (''org_id'', get_json ''org_id'' p)]))))))"

definition revoke_token :: "pyfloat \<Rightarrow> string \<Rightarrow> nat option \<Rightarrow> auth_db \<Rightarrow> bool \<times> auth_db" where
  "revoke_token now jti i db =
     (if is_token_revoked db jti then (False, db)
      else (True, db\<lparr>db_revoked := db_revoked db @ [\<lparr>r_jti = jti, r_user = i, r_at = \<lfloor>now\<rfloor>\<rparr>]\<rparr>))"

text \<open>The cutoff is written with whole seconds, like the column it is compared with.\<close>

definition purge_expired_revocations :: "auth_env \<Rightarrow> pyfloat \<Rightarrow> auth_db \<Rightarrow> nat \<times> auth_db" where
  "purge_expired_revocations e now db =
     (let cutoff = \<lfloor>now - 3600 * of_int (e_expiration_hours e)\<rfloor> in
      (length (filter (\<lambda>r. r_at r < cutoff) (db_revoked db)),
       db\<lparr>db_revoked := filter (\<lambda>r. \<not> r_at r < cutoff) (db_revoked db)\<rparr>))"

section \<open>Login\<close>

datatype login_result = LoginInvalid | LoginLocked | MfaRequired "string list" | LoginOk string nat string

definition record_failed_login :: "auth_env \<Rightarrow> nat \<Rightarrow> pyfloat \<Rightarrow> auth_db \<Rightarrow> auth_db" where
  "record_failed_login e i now db =
     (case user_by_id db i of
        None \<Rightarrow> db
      | Some row \<Rightarrow>
          (let attempts = (case u_failed row of None \<Rightarrow> 0 | Some n \<Rightarrow> n) + 1 in
           if attempts \<ge> e_lockout_max e then
             update_user i (\<lambda>u. u\<lparr>u_failed := Some attempts,
               u_locked_until := Some (now + 60 * of_int (e_lockout_minutes e))\<rparr>) db
           else update_user i (\<lambda>u. u\<lparr>u_failed := Some attempts\<rparr>) db))"

definition locked_now :: "auth_env \<Rightarrow> pyfloat \<Rightarrow> auth_user \<Rightarrow> bool py_result" where
  "locked_now e now u =
     (case u_locked_until u of
        None \<Rightarrow> Inr False
      | Some t \<Rightarrow> dt_gt (read_timestamp (e_backend e) t) (Aware now))"

definition has_passkey :: "auth_db \<Rightarrow> nat \<Rightarrow> bool" where
  "has_passkey db i \<longleftrightarrow> (\<exists>w \<in> set (db_passkeys db). w_user w = i)"

text \<open>The second factor: \<open>Inr None\<close> lets the login go on.\<close>

definition second_factor ::
  "auth_env \<Rightarrow> pyfloat \<Rightarrow> auth_user \<Rightarrow> string option \<Rightarrow> auth_db \<Rightarrow> login_result option py_result \<times> auth_db" where
  "second_factor e now u code db =
     (let passkey = has_passkey db (u_id u);
          methods = [''totp''] @ (if passkey then [''webauthn''] else []) in
      case truthy_str (u_totp_secret u) of
        Some secret \<Rightarrow>
          (case truthy_str code of
             None \<Rightarrow> (Inr (Some (MfaRequired methods)), db)
           | Some c \<Rightarrow>
               (case totp_match_timestep e now secret c of
                  Inl x \<Rightarrow> (Inl x, db)
                | Inr matched \<Rightarrow>
                    (case matched of
                       Some m \<Rightarrow>
                         if totp_replay_ok u m then (Inr None, set_timestep (u_id u) m db)
                         else (Inr (Some (MfaRequired methods)), record_failed_login e (u_id u) now db)
                     | None \<Rightarrow> (Inr (Some (MfaRequired methods)), record_failed_login e (u_id u) now db))))
      | None \<Rightarrow> if passkey then (Inr (Some (MfaRequired [''webauthn''])), db) else (Inr None, db))"

definition complete_login ::
  "auth_env \<Rightarrow> key_ring \<Rightarrow> pyfloat \<Rightarrow> string \<Rightarrow> auth_user \<Rightarrow> auth_db \<Rightarrow> login_result py_result \<times> auth_db" where
  "complete_login e ks now jti u db =
     (let db' = update_user (u_id u) (\<lambda>r. r\<lparr>u_failed := Some 0, u_locked_until := None, u_last_login := Some now\<rparr>) db;
          org = (case e_user_orgs e (u_id u) of Inl _ \<Rightarrow> None | Inr [] \<Rightarrow> None | Inr (g # _) \<Rightarrow> Some g) in
      (bindE (generate_token e ks now jti (u_id u) (u_username u) (u_role u) org)
         (\<lambda>tok. Inr (LoginOk tok (u_id u) (u_role u))), db'))"

definition login ::
  "auth_env \<Rightarrow> key_ring \<Rightarrow> pyfloat \<Rightarrow> string \<Rightarrow> string \<Rightarrow> string \<Rightarrow> string option \<Rightarrow> bool \<Rightarrow> auth_db
   \<Rightarrow> login_result py_result \<times> auth_db" where
  "login e ks now jti name password code mfa_verified db =
     (case active_user db (normalize_username name) of
        None \<Rightarrow> (Inr LoginInvalid, db)
      | Some u \<Rightarrow>
          (case locked_now e now u of
             Inl x \<Rightarrow> (Inl x, db)
           | Inr True \<Rightarrow> (Inr LoginLocked, db)
           | Inr False \<Rightarrow>
               (case verify_password e password (u_password_hash u) of
                  Inl x \<Rightarrow> (Inl x, db)
                | Inr False \<Rightarrow> (Inr LoginInvalid, record_failed_login e (u_id u) now db)
                | Inr True \<Rightarrow>
                    if mfa_verified then complete_login e ks now jti u db
                    else (case second_factor e now u code db of
                            (Inl x, db') \<Rightarrow> (Inl x, db')
                          | (Inr (Some r), db') \<Rightarrow> (Inr r, db')
                          | (Inr None, db') \<Rightarrow> complete_login e ks now jti u db'))))"

definition authenticate ::
  "auth_env \<Rightarrow> key_ring \<Rightarrow> pyfloat \<Rightarrow> string \<Rightarrow> string \<Rightarrow> string \<Rightarrow> auth_db \<Rightarrow> string option py_result \<times> auth_db" where
  "authenticate e ks now jti name password db =
     (let (r, db') = login e ks now jti name password None False db
      in (bindE r (\<lambda>x. Inr (case x of LoginOk tok _ _ \<Rightarrow> Some tok | _ \<Rightarrow> None)), db'))"

section \<open>Passkeys\<close>

definition webauthn_credentials_for_user :: "auth_db \<Rightarrow> nat \<Rightarrow> passkey_row list" where
  "webauthn_credentials_for_user db i = filter (\<lambda>w. w_user w = i) (db_passkeys db)"

definition add_challenge :: "nat \<Rightarrow> string \<Rightarrow> string \<Rightarrow> auth_db \<Rightarrow> auth_db" where
  "add_challenge i challenge purpose db =
     db\<lparr>db_challenges := db_challenges db @ [\<lparr>c_user = i, c_challenge = challenge, c_purpose = purpose\<rparr>]\<rparr>"

definition challenge_stored :: "auth_db \<Rightarrow> nat \<Rightarrow> string \<Rightarrow> string \<Rightarrow> bool" where
  "challenge_stored db i challenge purpose \<longleftrightarrow>
     (\<exists>c \<in> set (db_challenges db). c_user c = i \<and> c_challenge c = challenge \<and> c_purpose c = purpose)"

definition drop_challenges :: "nat \<Rightarrow> string \<Rightarrow> auth_db \<Rightarrow> auth_db" where
  "drop_challenges i purpose db =
     db\<lparr>db_challenges := filter (\<lambda>c. \<not> (c_user c = i \<and> c_purpose c = purpose)) (db_challenges db)\<rparr>"

definition webauthn_register_challenge ::
  "auth_env \<Rightarrow> string \<Rightarrow> nat \<Rightarrow> string \<Rightarrow> auth_db \<Rightarrow> (string \<times> string) option \<times> auth_db" where
  "webauthn_register_challenge e challenge i name db =
     (if \<not> e_has_webauthn e then (None, db)
      else (Some (challenge, e_wa_options e challenge [name]), add_challenge i challenge ''register'' db))"

definition webauthn_register_verify ::
  "auth_env \<Rightarrow> nat \<Rightarrow> string \<Rightarrow> (string \<times> json) list \<Rightarrow> auth_db \<Rightarrow> bool py_result \<times> auth_db" where
  "webauthn_register_verify e i challenge credential db =
     (if \<not> e_has_webauthn e then (Inr False, db)
      else if \<not> challenge_stored db i challenge ''register'' then (Inr False, db)
      else let db' = drop_challenges i ''register'' db in
           case e_wa_register e credential challenge of
             None \<Rightarrow> (Inr False, db')
           | Some (cred, pub, cnt) \<Rightarrow>
               if \<exists>w \<in> set (db_passkeys db'). w_credential w = cred then (Inl DatabaseError, db')
               else (Inr True, db'\<lparr>db_passkeys := db_passkeys db' @
                       [\<lparr>w_user = i, w_credential = cred, w_public_key = pub, w_sign_count = cnt\<rparr>]\<rparr>))"

definition webauthn_dummy_challenge :: "auth_env \<Rightarrow> string \<Rightarrow> (string \<times> string) option" where
  "webauthn_dummy_challenge e challenge =
     (if \<not> e_has_webauthn e then None else Some (challenge, e_wa_options e challenge []))"

definition webauthn_auth_challenge ::
  "auth_env \<Rightarrow> string \<Rightarrow> nat \<Rightarrow> auth_db \<Rightarrow> (string \<times> string) option \<times> auth_db" where
  "webauthn_auth_challenge e challenge i db =
     (if \<not> e_has_webauthn e then (None, db)
      else (Some (challenge, e_wa_options e challenge (map w_credential (webauthn_credentials_for_user db i))),
            add_challenge i challenge ''authenticate'' db))"

definition set_sign_count :: "nat \<Rightarrow> string \<Rightarrow> int \<Rightarrow> auth_db \<Rightarrow> auth_db" where
  "set_sign_count i cred n db =
     db\<lparr>db_passkeys := map (\<lambda>w. if w_user w = i \<and> w_credential w = cred then w\<lparr>w_sign_count := n\<rparr> else w)
        (db_passkeys db)\<rparr>"

definition webauthn_auth_verify ::
  "auth_env \<Rightarrow> nat \<Rightarrow> string \<Rightarrow> (string \<times> json) list \<Rightarrow> auth_db \<Rightarrow> bool py_result \<times> auth_db" where
  "webauthn_auth_verify e i challenge credential db =
     (if \<not> e_has_webauthn e then (Inr False, db)
      else if \<not> challenge_stored db i challenge ''authenticate'' then (Inr False, db)
      else let db' = drop_challenges i ''authenticate'' db in
           case dget credential ''rawId'' of
             None \<Rightarrow> (Inr False, db')
           | Some (JStr cred) \<Rightarrow>
               (case find (\<lambda>w. w_user w = i \<and> w_credential w = cred) (db_passkeys db') of
                  None \<Rightarrow> (Inr False, db')
                | Some w \<Rightarrow>
                    (case e_wa_assert e credential challenge (w_public_key w) (w_sign_count w) of
                       None \<Rightarrow> (Inr False, db')
                     | Some (cred', n) \<Rightarrow> (Inr True, set_sign_count i cred' n db')))
           | Some _ \<Rightarrow> (Inl TypeError, db'))"

section \<open>API keys\<close>

definition API_KEY_PERMISSIONS :: "string list" where
  "API_KEY_PERMISSIONS = [''read'', ''write'', ''admin'']"

definition API_KEY_ROLES :: "string list" where
  "API_KEY_ROLES = [''viewer'', ''operator'', ''admin'']"

definition split_permissions :: "string \<Rightarrow> string list" where
  "split_permissions s = remdups (filter (\<lambda>p. p \<noteq> '''') (map strip (split_on (CHR '','') s)))"

definition key_role_for :: "string list \<Rightarrow> string option \<Rightarrow> string" where
  "key_role_for requested role =
     (case role of Some r \<Rightarrow> r
      | None \<Rightarrow> if ''admin'' \<in> set requested then ''admin''
                else if ''write'' \<in> set requested then ''operator'' else ''viewer'')"

definition API_KEY_LIFETIME :: pyfloat where
  "API_KEY_LIFETIME = 90 * 86400"

text \<open>\<open>key_hash\<close> is UNIQUE: a second row with the same hash raises.\<close>

definition insert_key ::
  "string \<Rightarrow> nat \<Rightarrow> string \<Rightarrow> string \<Rightarrow> string \<Rightarrow> int option \<Rightarrow> pyfloat \<Rightarrow> auth_db \<Rightarrow> auth_db py_result" where
  "insert_key h i name permissions role org expires db =
     (if \<exists>k \<in> set (db_keys db). k_hash k = h then Inl DatabaseError
      else Inr (db\<lparr>db_keys := db_keys db @ [\<lparr>k_id = db_next_key db, k_hash = h, k_user = i, k_name = Some name,
                  k_permissions = Some permissions, k_role = Some role, k_org = org, k_expires = Some expires,
                  k_last_used = None, k_active = True, k_revoked_at = None\<rparr>],
                 db_next_key := Suc (db_next_key db)\<rparr>))"

definition create_api_key ::
  "auth_env \<Rightarrow> pyfloat \<Rightarrow> string \<Rightarrow> nat \<Rightarrow> string \<Rightarrow> string \<Rightarrow> string option \<Rightarrow> int option \<Rightarrow> auth_db
   \<Rightarrow> string option py_result \<times> auth_db" where
  "create_api_key e now secret i name permissions role org db =
     (let requested = split_permissions permissions in
      if requested = [] \<or> \<not> set requested \<subseteq> set API_KEY_PERMISSIONS then (Inr None, db)
      else let r = key_role_for requested role in
           if r \<notin> set API_KEY_ROLES then (Inr None, db)
           else case insert_key (e_sha256 e secret) i name (join_with '','' (sort requested)) r org
                       (now + API_KEY_LIFETIME) db of
                  Inl x \<Rightarrow> (Inl x, db)
                | Inr db' \<Rightarrow> (Inr (Some secret), db'))"

text \<open>
  \<open>SELECT ak.*, u.username, u.role\<close> has two columns named \<open>role\<close>. \<open>dict(row)\<close> of a \<open>sqlite3.Row\<close> reads
  the first one, the key's; \<open>dict(zip(cols, row))\<close> on Postgres keeps the last one, the owner's.
\<close>

definition joined_role :: "db_backend \<Rightarrow> api_key_row \<Rightarrow> auth_user \<Rightarrow> string option" where
  "joined_role b k u = (case b of SQLite \<Rightarrow> k_role k | Postgres \<Rightarrow> Some (u_role u))"

definition find_key :: "auth_db \<Rightarrow> pyfloat \<Rightarrow> string \<Rightarrow> (api_key_row \<times> auth_user) option" where
  "find_key db now h =
     find (\<lambda>(k, u). k_user k = u_id u \<and> k_hash k = h \<and> k_active k \<and> u_active u \<and>
             (case k_expires k of None \<Rightarrow> True | Some t \<Rightarrow> t > now))
       (List.product (db_keys db) (db_users db))"

definition update_key :: "nat \<Rightarrow> (api_key_row \<Rightarrow> api_key_row) \<Rightarrow> auth_db \<Rightarrow> auth_db" where
  "update_key i f db = db\<lparr>db_keys := map (\<lambda>k. if k_id k = i then f k else k) (db_keys db)\<rparr>"

definition validate_api_key ::
  "auth_env \<Rightarrow> pyfloat \<Rightarrow> string \<Rightarrow> auth_db \<Rightarrow> (string \<times> json) list option py_result \<times> auth_db" where
  "validate_api_key e now secret db =
     (let h = e_sha256 e secret in
      case find_key db now h of
        None \<Rightarrow> (Inr None, db)
      | Some (k, u) \<Rightarrow>
          if k_hash k \<noteq> h then (Inr None, db)
          else (case k_permissions k of
             None \<Rightarrow> (Inl TypeError, db)
           | Some ps \<Rightarrow>
               if \<not> set (split_permissions ps) \<subseteq> set API_KEY_PERMISSIONS then (Inr None, db)
               else let role = (case truthy_str (joined_role (e_backend e) k u) of None \<Rightarrow> ''viewer'' | Some r \<Rightarrow> r) in
                    if role \<notin> set API_KEY_ROLES then (Inr None, db)
                    else (Inr (Some [(''id'', JInt (int (k_id k))), (''key_id'', JInt (int (k_id k))),
                            (''user_id'', JInt (int (k_user k))), (''username'', JStr (u_username u)),
                            (''role'', JStr role), (''org_id'', opt_json JInt (k_org k)), (''permissions'', JStr ps)]),
                          update_key (k_id k) (\<lambda>k. k\<lparr>k_last_used := Some now\<rparr>) db)))"

definition deactivate_key :: "pyfloat \<Rightarrow> nat \<Rightarrow> auth_db \<Rightarrow> auth_db" where
  "deactivate_key now i = update_key i (\<lambda>k. k\<lparr>k_active := False, k_revoked_at := Some now\<rparr>)"

definition owned_key :: "auth_db \<Rightarrow> nat \<Rightarrow> nat \<Rightarrow> api_key_row option" where
  "owned_key db i owner = find (\<lambda>k. k_id k = i \<and> k_user k = owner \<and> k_active k) (db_keys db)"

definition revoke_api_key :: "pyfloat \<Rightarrow> nat \<Rightarrow> nat option \<Rightarrow> auth_db \<Rightarrow> bool \<times> auth_db" where
  "revoke_api_key now i owner db =
     (if (case owner of Some o' \<Rightarrow> owned_key db i o' = None | None \<Rightarrow> False) then (False, db)
      else (True, deactivate_key now i db))"

definition rotate_api_key ::
  "auth_env \<Rightarrow> pyfloat \<Rightarrow> string \<Rightarrow> nat \<Rightarrow> nat \<Rightarrow> auth_db \<Rightarrow> string option py_result \<times> auth_db" where
  "rotate_api_key e now secret i owner db =
     (case owned_key db i owner of
        None \<Rightarrow> (Inr None, db)
      | Some k \<Rightarrow>
          (case insert_key (e_sha256 e secret) owner
                  (case truthy_str (k_name k) of None \<Rightarrow> ''rotated-key'' | Some n \<Rightarrow> n)
                  (case truthy_str (k_permissions k) of None \<Rightarrow> ''read'' | Some p \<Rightarrow> p)
                  (case truthy_str (k_role k) of None \<Rightarrow> ''viewer'' | Some r \<Rightarrow> r)
                  (k_org k) (now + API_KEY_LIFETIME) (deactivate_key now i db) of
             Inl x \<Rightarrow> (Inl x, db)
           | Inr db' \<Rightarrow> (Inr (Some secret), db')))"

definition cleanup_expired_keys :: "pyfloat \<Rightarrow> auth_db \<Rightarrow> nat \<times> auth_db" where
  "cleanup_expired_keys now db =
     (let expired = filter (\<lambda>k. k_active k \<and> (case k_expires k of None \<Rightarrow> False | Some t \<Rightarrow> t \<le> now)) (db_keys db)
      in (length expired, foldl (\<lambda>d k. deactivate_key now (k_id k) d) db expired))"

section \<open>The invariant of the tables\<close>

definition auth_ok :: "auth_db \<Rightarrow> bool" where
  "auth_ok db \<longleftrightarrow>
     distinct (map u_id (db_users db)) \<and> distinct (map u_username (db_users db)) \<and>
     list_all (\<lambda>u. u_id u < db_next_user db) (db_users db) \<and>
     distinct (map k_id (db_keys db)) \<and> distinct (map k_hash (db_keys db)) \<and>
     list_all (\<lambda>k. k_id k < db_next_key db) (db_keys db) \<and>
     distinct (map r_jti (db_revoked db)) \<and> distinct (map w_credential (db_passkeys db))"

lemma update_user_simps [simp]:
  "db_keys (update_user i f db) = db_keys db" "db_next_key (update_user i f db) = db_next_key db"
  "db_next_user (update_user i f db) = db_next_user db" "db_revoked (update_user i f db) = db_revoked db"
  "db_passkeys (update_user i f db) = db_passkeys db" "db_challenges (update_user i f db) = db_challenges db"
  by (simp_all add: update_user_def)

lemma update_key_simps [simp]:
  "db_users (update_key i g db) = db_users db" "db_next_key (update_key i g db) = db_next_key db"
  "db_next_user (update_key i g db) = db_next_user db" "db_revoked (update_key i g db) = db_revoked db"
  "db_passkeys (update_key i g db) = db_passkeys db" "db_challenges (update_key i g db) = db_challenges db"
  by (simp_all add: update_key_def)

lemma map_update_where: "(\<And>x. g (f x) = g x) \<Longrightarrow> map g (map (\<lambda>x. if P x then f x else x) xs) = map g xs"
  by (induction xs) auto

lemma ok_update_user:
  assumes "auth_ok db" and "\<And>u. u_id (f u) = u_id u" and "\<And>u. u_username (f u) = u_username u"
  shows "auth_ok (update_user i f db)"
  using assms map_update_where [of u_id f] map_update_where [of u_username f]
  by (auto simp: auth_ok_def update_user_def list_all_iff simp del: map_map)

lemma ok_update_key:
  assumes "auth_ok db" and "\<And>k. k_id (f k) = k_id k" and "\<And>k. k_hash (f k) = k_hash k"
  shows "auth_ok (update_key i f db)"
  using assms map_update_where [of k_id f] map_update_where [of k_hash f]
  by (auto simp: auth_ok_def update_key_def list_all_iff simp del: map_map)

lemma ok_create_user: "auth_ok db \<Longrightarrow> auth_ok (snd (create_user e salt name pw email role db))"
  by (auto simp: auth_ok_def create_user_def Let_def list_all_iff)

lemma ok_record_failed: "auth_ok db \<Longrightarrow> auth_ok (record_failed_login e i now db)"
  by (auto simp: record_failed_login_def Let_def split: option.splits intro!: ok_update_user)

lemma ok_set_timestep: "auth_ok db \<Longrightarrow> auth_ok (set_timestep i m db)"
  by (auto simp: set_timestep_def intro!: ok_update_user)

lemma ok_verify_totp: "auth_ok db \<Longrightarrow> auth_ok (snd (verify_totp_for_user e now i code db))"
  by (auto simp: verify_totp_for_user_def verify_totp_replay_def split: option.splits sum.splits intro: ok_set_timestep)

lemma ok_enroll: "auth_ok db \<Longrightarrow> auth_ok (snd (enroll_totp e secret i name db))"
  by (auto simp: enroll_totp_def intro!: ok_update_user)

lemma ok_second_factor: "auth_ok db \<Longrightarrow> auth_ok (snd (second_factor e now u code db))"
  by (auto simp: second_factor_def Let_def split: option.splits sum.splits intro: ok_set_timestep ok_record_failed)

lemma ok_complete_login: "auth_ok db \<Longrightarrow> auth_ok (snd (complete_login e ks now jti u db))"
  by (auto simp: complete_login_def Let_def intro!: ok_update_user)

lemma ok_login:
  assumes "auth_ok db"
  shows "auth_ok (snd (login e ks now jti name pw code mfa db))"
proof -
  have "auth_ok (snd (second_factor e now u code db))" for u
    using assms by (rule ok_second_factor)
  then have "second_factor e now u code db = (r, db') \<Longrightarrow> auth_ok db'" for u r db'
    by (metis snd_conv)
  then show ?thesis
    using assms
    by (auto simp: login_def split: option.splits sum.splits bool.splits prod.splits
        intro: ok_record_failed ok_complete_login)
qed

lemma ok_revoke_token: "auth_ok db \<Longrightarrow> auth_ok (snd (revoke_token now jti i db))"
  by (auto simp: auth_ok_def revoke_token_def is_token_revoked_def)

lemma ok_purge: "auth_ok db \<Longrightarrow> auth_ok (snd (purge_expired_revocations e now db))"
  by (auto simp: auth_ok_def purge_expired_revocations_def Let_def distinct_map intro: inj_on_subset)

lemma ok_challenges:
  "auth_ok (add_challenge i c p db) = auth_ok db" "auth_ok (drop_challenges i p db) = auth_ok db"
  by (simp_all add: auth_ok_def add_challenge_def drop_challenges_def)

lemma ok_register_verify: "auth_ok db \<Longrightarrow> auth_ok (snd (webauthn_register_verify e i challenge credential db))"
  by (auto simp: auth_ok_def webauthn_register_verify_def Let_def drop_challenges_def split: option.splits)

lemma ok_auth_verify: "auth_ok db \<Longrightarrow> auth_ok (snd (webauthn_auth_verify e i challenge credential db))"
proof -
  assume ok: "auth_ok db"
  have count: "auth_ok (set_sign_count i cred n (drop_challenges i p db))" for cred n p
    using ok by (simp add: auth_ok_def set_sign_count_def drop_challenges_def map_update_where del: map_map)
  show ?thesis
    using ok count by (auto simp: webauthn_auth_verify_def Let_def ok_challenges split: option.splits json.splits)
qed

lemma ok_insert_key: "auth_ok db \<Longrightarrow> insert_key h i name ps role org expires db = Inr db' \<Longrightarrow> auth_ok db'"
  by (fastforce simp: auth_ok_def insert_key_def list_all_iff split: if_splits)

lemma ok_deactivate: "auth_ok db \<Longrightarrow> auth_ok (deactivate_key now i db)"
  by (auto simp: deactivate_key_def intro!: ok_update_key)

lemma ok_create_key: "auth_ok db \<Longrightarrow> auth_ok (snd (create_api_key e now secret i name ps role org db))"
  by (auto simp: create_api_key_def Let_def split: sum.splits intro: ok_insert_key)

lemma ok_validate_key: "auth_ok db \<Longrightarrow> auth_ok (snd (validate_api_key e now secret db))"
  by (auto simp: validate_api_key_def Let_def split: option.splits intro!: ok_update_key)

lemma ok_revoke_key: "auth_ok db \<Longrightarrow> auth_ok (snd (revoke_api_key now i owner db))"
  by (auto simp: revoke_api_key_def intro: ok_deactivate)

lemma ok_rotate_key: "auth_ok db \<Longrightarrow> auth_ok (snd (rotate_api_key e now secret i owner db))"
  by (auto simp: rotate_api_key_def split: option.splits sum.splits intro: ok_insert_key ok_deactivate)

lemma ok_cleanup: "auth_ok db \<Longrightarrow> auth_ok (snd (cleanup_expired_keys now db))"
proof -
  have "auth_ok d \<Longrightarrow> auth_ok (foldl (\<lambda>d k. deactivate_key now (k_id k) d) d ks)" for d ks
    by (induction ks arbitrary: d) (auto intro: ok_deactivate)
  then show "auth_ok db \<Longrightarrow> ?thesis"
    by (simp add: cleanup_expired_keys_def Let_def)
qed

end
