(* ===== verification/Auth_Traces.thy ===== *)
theory Auth_Traces
  imports Auth_Service
begin

text \<open>
  Histories of the authentication service: every call that changes the tables is an event, a history is
  a list of events with the time of each, and the theorems speak of all histories: how many guesses an
  attacker has, that a code is spent once, that a revoked token stays refused, that a token outlives
  the rotation of the signing keys.
\<close>

section \<open>Events\<close>

datatype auth_event =
    EvLogin string string string "string option" bool
  | EvVerifyTotp nat string
  | EvEnroll string nat string
  | EvCreateUser string string string "string option" string
  | EvRevokeToken string "nat option"
  | EvPurge
  | EvRegisterChallenge string nat string
  | EvRegisterVerify nat string "(string \<times> json) list"
  | EvAuthChallenge string nat
  | EvAuthVerify nat string "(string \<times> json) list"
  | EvCreateKey string nat string string "string option" "int option"
  | EvUseKey string
  | EvRevokeKey nat "nat option"
  | EvRotateKey string nat nat
  | EvCleanup

datatype auth_answer = AnsLogin "login_result py_result" | AnsBool "bool py_result" | AnsOther

fun auth_step :: "auth_env \<Rightarrow> key_ring \<Rightarrow> auth_db \<Rightarrow> pyfloat \<times> auth_event \<Rightarrow> auth_answer \<times> auth_db" where
  "auth_step e ks db (t, EvLogin jti name pw code mfa) = map_prod AnsLogin id (login e ks t jti name pw code mfa db)"
| "auth_step e ks db (t, EvVerifyTotp i code) = map_prod AnsBool id (verify_totp_for_user e t i code db)"
| "auth_step e ks db (t, EvEnroll secret i name) = (AnsOther, snd (enroll_totp e secret i name db))"
| "auth_step e ks db (t, EvCreateUser salt name pw email role) =
     (AnsOther, snd (create_user e salt name pw email role db))"
| "auth_step e ks db (t, EvRevokeToken jti i) = (AnsOther, snd (revoke_token t jti i db))"
| "auth_step e ks db (t, EvPurge) = (AnsOther, snd (purge_expired_revocations e t db))"
| "auth_step e ks db (t, EvRegisterChallenge c i name) = (AnsOther, snd (webauthn_register_challenge e c i name db))"
| "auth_step e ks db (t, EvRegisterVerify i c cred) = map_prod AnsBool id (webauthn_register_verify e i c cred db)"
| "auth_step e ks db (t, EvAuthChallenge c i) = (AnsOther, snd (webauthn_auth_challenge e c i db))"
| "auth_step e ks db (t, EvAuthVerify i c cred) = map_prod AnsBool id (webauthn_auth_verify e i c cred db)"
| "auth_step e ks db (t, EvCreateKey secret i name ps role org) =
     (AnsOther, snd (create_api_key e t secret i name ps role org db))"
| "auth_step e ks db (t, EvUseKey secret) = (AnsOther, snd (validate_api_key e t secret db))"
| "auth_step e ks db (t, EvRevokeKey i owner) = (AnsOther, snd (revoke_api_key t i owner db))"
| "auth_step e ks db (t, EvRotateKey secret i owner) = (AnsOther, snd (rotate_api_key e t secret i owner db))"
| "auth_step e ks db (t, EvCleanup) = (AnsOther, snd (cleanup_expired_keys t db))"

fun auth_run :: "auth_env \<Rightarrow> key_ring \<Rightarrow> auth_db \<Rightarrow> (pyfloat \<times> auth_event) list \<Rightarrow> auth_answer list \<times> auth_db" where
  "auth_run e ks db [] = ([], db)"
| "auth_run e ks db (ev # evs) =
     (let (a, db') = auth_step e ks db ev; (as, db'') = auth_run e ks db' evs in (a # as, db''))"

lemma auth_run_Cons:
  "auth_run e ks db (ev # evs) =
     (fst (auth_step e ks db ev) # fst (auth_run e ks (snd (auth_step e ks db ev)) evs),
      snd (auth_run e ks (snd (auth_step e ks db ev)) evs))"
  by (simp add: split_beta Let_def)

lemma step_keeps_ok: "auth_ok db \<Longrightarrow> auth_ok (snd (auth_step e ks db ev))"
  by (cases "(e, ks, db, ev)" rule: auth_step.cases)
    (auto intro: ok_login ok_verify_totp ok_enroll ok_create_user ok_revoke_token ok_purge ok_register_verify
      ok_auth_verify ok_create_key ok_validate_key ok_revoke_key ok_rotate_key ok_cleanup
      simp: webauthn_register_challenge_def webauthn_auth_challenge_def ok_challenges)

lemma run_keeps_ok: "auth_ok db \<Longrightarrow> auth_ok (snd (auth_run e ks db evs))"
  by (induction evs arbitrary: db) (simp_all add: auth_run_Cons step_keeps_ok del: auth_run.simps(2))

section \<open>What an event does to one account\<close>



lemma find_Some: "find P xs = Some x \<Longrightarrow> P x \<and> x \<in> set xs"
  by (induction xs) (auto split: if_splits)

lemma find_key_distinct: "distinct (map g xs) \<Longrightarrow> x \<in> set xs \<Longrightarrow> find (\<lambda>y. g y = g x) xs = Some x"
  by (induction xs) (auto simp: image_iff)

lemma active_user_by_id:
  assumes "auth_ok db" and "active_user db n = Some u"
  shows "user_by_id db (u_id u) = Some u"
  using assms find_key_distinct [of u_id "db_users db" u] find_Some
  by (fastforce simp: active_user_def user_by_id_def auth_ok_def)




text \<open>The calls that leave the users alone.\<close>

lemma users_unchanged [simp]:
  "db_users (snd (revoke_token t jti o1 db)) = db_users db"
  "db_users (snd (purge_expired_revocations e t db)) = db_users db"
  "db_users (add_challenge i c p db) = db_users db"
  "db_users (drop_challenges i p db) = db_users db"
  "db_users (set_sign_count i c k db) = db_users db"
  "db_users (deactivate_key t i db) = db_users db"
  by (simp_all add: revoke_token_def purge_expired_revocations_def Let_def add_challenge_def drop_challenges_def
      set_sign_count_def deactivate_key_def)





















section \<open>How many guesses an attacker has\<close>






lemma end_time_ge: "timed_from f t evs \<Longrightarrow> t \<le> end_time f t evs"
  by (induction evs arbitrary: t) (auto intro: order_trans)


section \<open>A time step opens the account once\<close>




definition totp_step :: "int list \<Rightarrow> auth_user \<Rightarrow> auth_user \<Rightarrow> bool" where
  "totp_step ms u u' \<longleftrightarrow> totp_last u \<le> totp_last u' \<and>
     (ms = [] \<or> (\<exists>m. ms = [m] \<and> totp_last u < m \<and> m \<le> totp_last u'))"

lemma totp_step_refl [simp]: "totp_step [] u u"
  by (simp add: totp_step_def)

lemma totp_last_set [simp]: "totp_last (u\<lparr>u_totp_last := Some m\<rparr>) = m"
  by (simp add: totp_last_def)








lemma user_by_id_active:
  "auth_ok db \<Longrightarrow> active_user db n = Some u \<Longrightarrow> user_by_id db i = Some v \<Longrightarrow> i = u_id u \<Longrightarrow> v = u"
  by (simp add: active_user_by_id)




section \<open>A revoked token stays refused\<close>

lemma step_revoked_row:
  assumes "r \<in> set (db_revoked db)"
  shows "r \<in> set (db_revoked (snd (auth_step e ks db (t, ev)))) \<or>
    ev = EvPurge \<and> r_at r < \<lfloor>t - 3600 * of_int (e_expiration_hours e)\<rfloor>"
proof -
  have ins: "insert_key h i name ps role org expires d = Inr d' \<Longrightarrow> db_revoked d' = db_revoked d"
    for h i name ps role org expires d d' by (auto simp: insert_key_def split: if_splits)
  have failed: "db_revoked (record_failed_login e i t d) = db_revoked d" for i t d
    by (simp add: record_failed_login_def Let_def split: option.splits)
  have sf: "db_revoked (snd (second_factor e t u code d)) = db_revoked d" for u code d
    by (auto simp: second_factor_def Let_def failed set_timestep_def split: option.splits sum.splits)
  then have sf': "second_factor e t u code d = (q, d') \<Longrightarrow> db_revoked d' = db_revoked d" for u code d q d'
    by (metis snd_conv)
  have fin: "db_revoked (snd (complete_login e ks t jti u d)) = db_revoked d" for jti u d
    by (simp add: complete_login_def Let_def)
  have lg: "db_revoked (snd (login e ks t jti name pw code mfa db)) = db_revoked db" for jti name pw code mfa
    by (auto simp: login_def failed fin sf' split: option.splits sum.splits bool.splits prod.splits)
  have off: "db_revoked (deactivate_key t i d) = db_revoked d" for i d
    by (simp add: deactivate_key_def)
  have cl: "db_revoked (foldl (\<lambda>d k. deactivate_key t (k_id k) d) d ks) = db_revoked d" for d ks
    by (induction ks arbitrary: d) (auto simp: off)
  show ?thesis
    using assms
    by (cases ev) (auto simp: lg verify_totp_for_user_def verify_totp_replay_def set_timestep_def enroll_totp_def
        create_user_def revoke_token_def purge_expired_revocations_def webauthn_register_challenge_def
        webauthn_auth_challenge_def webauthn_register_verify_def webauthn_auth_verify_def add_challenge_def
        drop_challenges_def set_sign_count_def create_api_key_def validate_api_key_def revoke_api_key_def
        rotate_api_key_def cleanup_expired_keys_def cl off ins Let_def
        split: option.splits sum.splits json.splits)
qed

lemma run_revoked_row:
  assumes "timed_from fst t0 evs"
  shows "r \<in> set (db_revoked db) \<Longrightarrow> r \<in> set (db_revoked (snd (auth_run e ks db evs))) \<or>
    r_at r < \<lfloor>end_time fst t0 evs - 3600 * of_int (e_expiration_hours e)\<rfloor>"
  using assms
proof (induction evs arbitrary: db t0)
  case Nil
  then show ?case by simp
next
  case (Cons x evs)
  obtain t ev where x: "x = (t, ev)" by fastforce
  have tm: "timed_from fst t evs" "t \<le> end_time fst t evs"
    using Cons.prems(2) end_time_ge by (auto simp: x)
  then have "\<lfloor>t - 3600 * of_int (e_expiration_hours e)\<rfloor> \<le> \<lfloor>end_time fst t evs - 3600 * of_int (e_expiration_hours e)\<rfloor>"
    by (intro floor_mono) simp
  then show ?case
    using step_revoked_row [OF Cons.prems(1), of e ks t ev] Cons.IH [OF _ tm(1)]
    by (force simp: auth_run_Cons x simp del: auth_run.simps(2))
qed

section \<open>A dead key stays dead\<close>

definition dead_hash :: "auth_db \<Rightarrow> string \<Rightarrow> bool" where
  "dead_hash db h \<longleftrightarrow> (\<exists>k \<in> set (db_keys db). k_hash k = h) \<and> (\<forall>k \<in> set (db_keys db). k_hash k = h \<longrightarrow> \<not> k_active k)"

lemma dead_update_key:
  assumes "dead_hash db h" and "\<And>k. k_hash (f k) = k_hash k" and "\<And>k. k_active (f k) \<Longrightarrow> k_active k"
  shows "dead_hash (update_key i f db) h"
  using assms by (auto simp: dead_hash_def update_key_def)

lemma dead_deactivate: "dead_hash db h \<Longrightarrow> dead_hash (deactivate_key t i db) h"
  by (auto simp: deactivate_key_def intro!: dead_update_key)

lemma dead_insert: "dead_hash db h \<Longrightarrow> insert_key h' i name ps role org expires db = Inr db' \<Longrightarrow> dead_hash db' h"
  by (fastforce simp: dead_hash_def insert_key_def split: if_splits)

lemma dead_cong: "db_keys db' = db_keys db \<Longrightarrow> dead_hash db' h = dead_hash db h"
  by (simp add: dead_hash_def)

lemma keys_unchanged [simp]:
  "db_keys (snd (revoke_token t jti ow db)) = db_keys db" "db_keys (snd (purge_expired_revocations e t db)) = db_keys db"
  "db_keys (add_challenge i c p db) = db_keys db" "db_keys (drop_challenges i p db) = db_keys db"
  "db_keys (set_sign_count i c n db) = db_keys db" "db_keys (record_failed_login e i t db) = db_keys db"
  "db_keys (set_timestep i m db) = db_keys db" "db_keys (snd (complete_login e ks t jti u db)) = db_keys db"
  "db_keys (snd (create_user e salt name pw email role db)) = db_keys db"
  "db_keys (snd (enroll_totp e s i name db)) = db_keys db"
  by (auto simp: revoke_token_def purge_expired_revocations_def Let_def add_challenge_def drop_challenges_def
      set_sign_count_def record_failed_login_def set_timestep_def complete_login_def create_user_def enroll_totp_def
      split: option.splits)

lemma second_factor_keys: "second_factor e t u code db = (r, db') \<Longrightarrow> db_keys db' = db_keys db"
  by (auto simp: second_factor_def Let_def split: option.splits sum.splits if_splits)

lemma login_keys: "db_keys (snd (login e ks t jti name pw code mfa db)) = db_keys db"
  by (auto simp: login_def dest: second_factor_keys split: option.splits sum.splits bool.splits prod.splits)

lemma step_dead_key:
  assumes "dead_hash db h"
  shows "dead_hash (snd (auth_step e ks db (t, ev))) h"
proof (cases ev)
  case (EvCreateKey s i name ps role org)
  then show ?thesis
    using assms by (auto simp: create_api_key_def Let_def split: sum.splits intro: dead_insert)
next
  case (EvUseKey s)
  then show ?thesis
    using assms by (auto simp: validate_api_key_def Let_def split: option.splits intro!: dead_update_key)
next
  case (EvRevokeKey i owner)
  then show ?thesis
    using assms by (auto simp: revoke_api_key_def intro: dead_deactivate)
next
  case (EvRotateKey s i owner)
  then show ?thesis
    using assms by (auto simp: rotate_api_key_def split: option.splits sum.splits intro: dead_insert dead_deactivate)
next
  case EvCleanup
  have "dead_hash d h \<Longrightarrow> dead_hash (foldl (\<lambda>d k. deactivate_key t (k_id k) d) d xs) h" for d xs
    by (induction xs arbitrary: d) (auto intro: dead_deactivate)
  with EvCleanup assms show ?thesis
    by (simp add: cleanup_expired_keys_def Let_def)
qed (use assms in \<open>auto simp: dead_hash_def login_keys verify_totp_for_user_def verify_totp_replay_def
      webauthn_register_challenge_def webauthn_auth_challenge_def webauthn_register_verify_def webauthn_auth_verify_def
      Let_def split: option.splits sum.splits json.splits\<close>)

lemma run_dead_key: "dead_hash db h \<Longrightarrow> dead_hash (snd (auth_run e ks db evs)) h"
  by (induction evs arbitrary: db) (auto simp: auth_run_Cons step_dead_key simp del: auth_run.simps(2))

lemma dead_key_refused: "dead_hash db (e_sha256 e s) \<Longrightarrow> validate_api_key e t s db = (Inr None, db)"
proof -
  assume "dead_hash db (e_sha256 e s)"
  then have "find_key db t (e_sha256 e s) = None"
    by (auto simp: find_key_def find_None_iff dead_hash_def)
  then show ?thesis by (simp add: validate_api_key_def)
qed

lemma owned_key_dies:
  assumes ok: "auth_ok db" and k: "owned_key db i owner = Some k"
  shows "dead_hash (deactivate_key t i db) (k_hash k)"
proof -
  have k': "k_id k = i" "k \<in> set (db_keys db)"
    using k by (auto simp: owned_key_def dest!: find_Some)
  have only: "x = k" if "x \<in> set (db_keys db)" "k_hash x = k_hash k" for x
    using ok that k'(2) by (auto simp: auth_ok_def distinct_map inj_on_def)
  have keys: "db_keys (deactivate_key t i db) =
      map (\<lambda>x. if k_id x = i then x\<lparr>k_active := False, k_revoked_at := Some t\<rparr> else x) (db_keys db)"
    by (simp add: deactivate_key_def update_key_def)
  have "\<not> k_active x" if "x \<in> set (db_keys (deactivate_key t i db))" "k_hash x = k_hash k" for x
    using that only k'(1) by (auto simp: keys split: if_splits)
  moreover have "k\<lparr>k_active := False, k_revoked_at := Some t\<rparr> \<in> set (db_keys (deactivate_key t i db))"
    unfolding keys set_map by (rule image_eqI [where x = k]) (simp_all add: k')
  ultimately show ?thesis
    unfolding dead_hash_def by (intro conjI bexI ballI impI) auto
qed

lemma fresh_key_found:
  assumes ok: "auth_ok db" and ins: "insert_key h i name ps role org expires db = Inr db'"
    and u: "u \<in> set (db_users db)" "u_id u = i" "u_active u" and t: "t < expires"
  shows "find_key db' t h = Some (\<lparr>k_id = db_next_key db, k_hash = h, k_user = i, k_name = Some name,
           k_permissions = Some ps, k_role = Some role, k_org = org, k_expires = Some expires, k_last_used = None,
           k_active = True, k_revoked_at = None\<rparr>, u)" (is "_ = Some (?k, u)")
proof -
  let ?P = "\<lambda>(k, u). k_user k = u_id u \<and> k_hash k = h \<and> k_active k \<and> u_active u \<and>
     (case k_expires k of None \<Rightarrow> True | Some e \<Rightarrow> e > t)"
  have db': "db_keys db' = db_keys db @ [?k]" "db_users db' = db_users db" "\<forall>k \<in> set (db_keys db). k_hash k \<noteq> h"
    using ins by (auto simp: insert_key_def split: if_splits)
  have skip: "find P (xs @ ys) = find P ys" if "\<forall>x \<in> set xs. \<not> P x" for P :: "api_key_row \<times> auth_user \<Rightarrow> bool" and xs ys
    using that by (induction xs) auto
  have all: "find ?P (map (Pair ?k) us) = map_option (Pair ?k) (find (\<lambda>v. u_id v = i \<and> u_active v) us)" for us
    using t by (induction us) auto
  have one: "find (\<lambda>v. u_id v = i \<and> u_active v) us = Some u"
    if "distinct (map u_id us)" "u \<in> set us" for us
    using that u by (induction us) (auto simp: image_iff)
  have "find ?P (map (Pair ?k) (db_users db)) = Some (?k, u)"
    unfolding all using ok u(1) by (simp add: one auth_ok_def)
  moreover have "find ?P (List.product (db_keys db) (db_users db) @ map (Pair ?k) (db_users db)) =
      find ?P (map (Pair ?k) (db_users db))"
    by (rule skip) (use db'(3) in auto)
  ultimately show ?thesis
    by (simp add: find_key_def db'(1,2) product_concat_map)
qed

section \<open>Tokens and the rotation of the signing keys\<close>

datatype ring_op = RegisterKey string string | RetireKey string

fun ring_kid :: "ring_op \<Rightarrow> string" where
  "ring_kid (RegisterKey kid _) = kid"
| "ring_kid (RetireKey kid) = kid"

fun ring_step :: "auth_env \<Rightarrow> key_ring \<Rightarrow> ring_op \<Rightarrow> key_ring" where
  "ring_step e ks (RegisterKey kid pem) = (case register_key e kid pem ks of Inl _ \<Rightarrow> ks | Inr ks' \<Rightarrow> ks')"
| "ring_step e ks (RetireKey kid) = snd (retire_key kid ks)"

lemma ring_step_other: "ring_kid rop \<noteq> kid \<Longrightarrow> dget (ring_step e ks rop) kid = dget ks kid"
  by (cases rop) (auto simp: register_key_def retire_key_def split: sum.splits pem_key.splits if_splits)

lemma ring_other: "kid \<notin> ring_kid ` set rops \<Longrightarrow> dget (foldl (ring_step e) ks rops) kid = dget ks kid"
  by (induction rops arbitrary: ks) (auto simp: ring_step_other)

lemma signing_pair:
  "wf_dict ks \<Longrightarrow> signing_kid ks = Some kid \<Longrightarrow> signing_key ks = Some k \<Longrightarrow> dget ks kid = Some k"
  by (cases ks rule: rev_cases) (force simp: signing_kid_def signing_key_def map_add_Some_iff dom_map_of_conv_image_fst)+

text \<open>
  What PyJWT promises of a token it made: decoding with its key gives the claims back (the two times
  rounded to whole seconds).
\<close>

definition opens :: "auth_env \<Rightarrow> jwt_key \<Rightarrow> string \<Rightarrow> pyfloat \<Rightarrow> string \<Rightarrow> (string \<times> json) list \<Rightarrow> bool" where
  "opens e key alg t tok payload \<longleftrightarrow>
     (case e_jwt_decode e key alg t tok of
        Decoded p \<Rightarrow> (\<forall>c. c \<noteq> ''exp'' \<longrightarrow> c \<noteq> ''iat'' \<longrightarrow> dget p c = dget payload c)
      | _ \<Rightarrow> False)"

definition token_identity :: "string \<Rightarrow> nat \<Rightarrow> string \<Rightarrow> string \<Rightarrow> int option \<Rightarrow> (string \<times> json) list" where
  "token_identity jti i name role org =
     [(''id'', JInt (int i)), (''user_id'', JInt (int i)), (''username'', JStr name), (''role'', JStr role),
      (''jti'', JStr jti), (''org_id'', opt_json JInt org)]"

lemma payload_identity:
  assumes "\<forall>c. c \<noteq> ''exp'' \<longrightarrow> c \<noteq> ''iat'' \<longrightarrow> dget p c = dget (token_payload e t0 jti i name role org) c"
    and "\<not> is_token_revoked db jti" and "decode_token e ks t tok = Some p" and "e_has_jwt e"
    and "\<not> starts_with ''simple:'' tok"
  shows "validate_token e ks db t tok = Inr (Some (token_identity jti i name role org))"
  using assms
  by (simp add: validate_token_def get_json_def need_def jti_revoked_def token_payload_def token_identity_def opt_json_def
      split: option.splits)

lemma decode_by_kid:
  "e_jwt_kid e tok = Some kid \<Longrightarrow> dget ks kid = Some k \<Longrightarrow> e_jwt_decode e (Rsa k) ''RS256'' t tok = Decoded p \<Longrightarrow>
   decode_token e ks t tok = Some p"
  by (cases ks) (simp_all add: decode_token_def token_candidates_def)

lemma decode_from: "decode_token e ks t tok = Some p \<Longrightarrow> \<exists>key alg. e_jwt_decode e key alg t tok = Decoded p"
proof -
  have "try_candidates e ks t tok cs = Some p \<Longrightarrow> \<exists>key alg. e_jwt_decode e key alg t tok = Decoded p" for cs
    by (induction cs) (auto split: jwt_outcome.splits option.splits)
  then show "decode_token e ks t tok = Some p \<Longrightarrow> ?thesis"
    by (simp add: decode_token_def)
qed

text \<open>A token whose key left the ring opens nothing, when no other key verifies it.\<close>

lemma retired_key_refuses:
  assumes "\<forall>key alg. key \<noteq> Rsa k \<longrightarrow> e_jwt_decode e key alg t tok = InvalidToken" and "k \<notin> set (dvals ks)"
  shows "decode_token e ks t tok = None"
proof -
  have "dget ks c = Some k' \<Longrightarrow> k' \<noteq> k" for c k'
    using assms(2) dget_in_dvals by metis
  then have "try_candidates e ks t tok cs = None" for cs
    using assms(1) by (induction cs) (auto split: option.splits)
  then show ?thesis by (simp add: decode_token_def)
qed

text \<open>A stored lock cannot be compared on Postgres: the account answers with an exception for ever.\<close>

lemma postgres_lock_never_ends:
  assumes "e_backend e = Postgres" and "active_user db (normalize_username name) = Some u" and "u_locked_until u \<noteq> None"
  shows "login e ks t jti name pw code mfa db = (Inl TypeError, db)"
  using assms by (auto simp: login_def locked_now_def read_timestamp_def)

text \<open>A repeated registration keeps the position of its key: another key goes on signing.\<close>

lemma reregistered_key_does_not_sign:
  assumes "e_has_crypto e" and "e_load_pem e pem = RsaKey new"
  shows "register_key e ''a'' pem [(''a'', old), (''b'', other)] = Inr [(''a'', new), (''b'', other)]"
    and "signing_kid [(''a'', new), (''b'', other)] = Some ''b''"
  using assms by (simp_all add: register_key_def signing_kid_def)

section \<open>The guarantees\<close>

text \<open>A concrete library for the examples: one token, one secret with the step as its code, the identity as hash.\<close>

definition demo_env :: auth_env where
  "demo_env = \<lparr>e_backend = SQLite, e_allow_insecure = True, e_has_jwt = True, e_has_crypto = True, e_has_bcrypt = True,
     e_has_pyotp = True, e_has_webauthn = False, e_secret_key = ''s'', e_algorithm = ''HS256'', e_expiration_hours = 1,
     e_private_key = '''', e_kid = ''kid'', e_lockout_max = 2, e_lockout_minutes = 1,
     e_read_file = (\<lambda>_. None), e_load_pem = (\<lambda>s. RsaKey s), e_to_jwk = (\<lambda>_. []),
     e_bcrypt_hash = (\<lambda>_ p. p), e_bcrypt_check = (\<lambda>p h. p = h), e_pbkdf2 = (\<lambda>_ _. ''''), e_sha256 = (\<lambda>s. s),
     e_jwt_encode = (\<lambda>_ _ _ _. ''ey''),
     e_jwt_decode = (\<lambda>k _ t _. if k = Rsa ''K1'' \<and> t < 3600 then Decoded [(''user_id'', JInt 1),
        (''username'', JStr ''ann''), (''role'', JStr ''admin''), (''jti'', JStr ''j'')] else InvalidToken),
     e_jwt_kid = (\<lambda>_. Some ''k1''), e_totp_verify = (\<lambda>_ _ _. True), e_totp_interval = 30,
     e_otp = (\<lambda>_ n. if n = 5 then ''555555'' else ''000000''), e_otp_uri = (\<lambda>_ _. ''''), e_user_orgs = (\<lambda>_. Inr []),
     e_wa_options = (\<lambda>_ _. ''''), e_wa_register = (\<lambda>_ _. None), e_wa_assert = (\<lambda>_ _ _ _. None)\<rparr>"

definition demo_user :: auth_user where
  "demo_user = \<lparr>u_id = 1, u_username = ''ann'', u_password_hash = ''pw'', u_email = None, u_role = ''admin'',
     u_active = True, u_last_login = None, u_totp_secret = Some ''S'', u_failed = Some 0, u_locked_until = None,
     u_totp_last = None\<rparr>"

definition demo_key :: api_key_row where
  "demo_key = \<lparr>k_id = 1, k_hash = ''old'', k_user = 1, k_name = Some ''ci'', k_permissions = Some ''read'',
     k_role = Some ''viewer'', k_org = None, k_expires = Some 100, k_last_used = None, k_active = True,
     k_revoked_at = None\<rparr>"

definition demo_db :: auth_db where
  "demo_db = \<lparr>db_users = [demo_user], db_next_user = 2, db_keys = [demo_key], db_next_key = 2, db_revoked = [],
     db_passkeys = [], db_challenges = []\<rparr>"

lemmas demo_defs = demo_env_def demo_user_def demo_key_def demo_db_def





text \<open>
  C29. Revocation holds: a token that expires within the configured hours of its revocation is refused by
  \<open>validate_token\<close> at every later time, after any history of the service and with any key ring, although
  \<open>purge_expired_revocations\<close> deletes the row that records it.
\<close>

theorem revoked_token_refused:
  assumes "\<And>key alg s p. e_jwt_decode e key alg s tok = Decoded p \<Longrightarrow> get_json ''jti'' p = JStr j \<and> s < expiry"
    and "expiry \<le> t0 + 3600 * of_int (e_expiration_hours e)" and "j \<noteq> ''''"
    and "\<not> is_token_revoked db j" and "revoke_token t0 j i db = (True, db1)"
    and "timed_from fst t0 evs" and "auth_run e ks db1 evs = (as, db2)" and "end_time fst t0 evs \<le> t"
  shows "validate_token e ks' db2 t tok = Inr None"
proof -
  define r where "r = \<lparr>r_jti = j, r_user = i, r_at = \<lfloor>t0\<rfloor>\<rparr>"
  have r1: "r \<in> set (db_revoked db1)"
    using assms(4,5) by (auto simp: revoke_token_def r_def)
  have "is_token_revoked db2 j" if "t < expiry"
  proof -
    have "of_int \<lfloor>end_time fst t0 evs - 3600 * of_int (e_expiration_hours e)\<rfloor> \<le> t0"
      using that assms(2,8) floor_correct [of "end_time fst t0 evs - 3600 * of_int (e_expiration_hours e)"] by linarith
    then have "\<not> r_at r < \<lfloor>end_time fst t0 evs - 3600 * of_int (e_expiration_hours e)\<rfloor>"
      by (simp add: r_def le_floor_iff not_less)
    then have "r \<in> set (db_revoked db2)"
      using run_revoked_row [OF assms(6) r1, of e ks] assms(7) by auto
    then show ?thesis
      unfolding is_token_revoked_def by (rule bexI [rotated]) (simp add: r_def)
  qed
  then show ?thesis
    using assms(1,3) decode_from [of e ks' t tok]
    by (fastforce simp: validate_token_def jti_revoked_def split: option.splits)
qed

theorem revoked_token_refused_witness:
  "validate_token demo_env [(''k1'', ''K1'')] demo_db 5 ''ey'' = Inr (Some (token_identity ''j'' 1 ''ann'' ''admin'' None)) \<and>
   validate_token demo_env [(''k1'', ''K1'')]
     (snd (auth_run demo_env [] (snd (revoke_token 7 ''j'' None demo_db)) [(3000, EvPurge)])) 3500 ''ey'' = Inr None"
proof
  show "validate_token demo_env [(''k1'', ''K1'')] demo_db 5 ''ey'' = Inr (Some (token_identity ''j'' 1 ''ann'' ''admin'' None))"
    by code_simp
  show "validate_token demo_env [(''k1'', ''K1'')]
     (snd (auth_run demo_env [] (snd (revoke_token 7 ''j'' None demo_db)) [(3000, EvPurge)])) 3500 ''ey'' = Inr None"
    by (rule revoked_token_refused [of demo_env "''ey''" "''j''" 3600 7 demo_db None _ "[(3000, EvPurge)]" "[]" "[AnsOther]"])
      (auto simp: demo_defs get_json_def is_token_revoked_def revoke_token_def split: if_splits)
qed

text \<open>
  C30. Rotating the signing keys does not log anyone out: a token signed by the current key is accepted,
  with the identity it was made for, after any registrations and retirements of other keys, until it
  expires or is revoked.
\<close>

theorem token_survives_rotation:
  assumes "wf_dict ks" and "signing_kid ks = Some kid" and "signing_key ks = Some k"
    and "generate_token e ks t0 jti i name role org = Inr tok"
    and "e_jwt_kid e tok = Some kid" and "opens e (Rsa k) ''RS256'' t tok (token_payload e t0 jti i name role org)"
    and "\<not> starts_with ''simple:'' tok"
    and "kid \<notin> ring_kid ` set rops" and "\<not> is_token_revoked db jti"
  shows "validate_token e (foldl (ring_step e) ks rops) db t tok = Inr (Some (token_identity jti i name role org))"
proof -
  obtain p where p: "e_jwt_decode e (Rsa k) ''RS256'' t tok = Decoded p"
      "\<forall>c. c \<noteq> ''exp'' \<longrightarrow> c \<noteq> ''iat'' \<longrightarrow> dget p c = dget (token_payload e t0 jti i name role org) c"
    using assms(6) by (auto simp: opens_def split: jwt_outcome.splits)
  have "dget (foldl (ring_step e) ks rops) kid = Some k"
    using ring_other [OF assms(8)] signing_pair [OF assms(1-3)] by simp
  then have "decode_token e (foldl (ring_step e) ks rops) t tok = Some p"
    using assms(5) p(1) by (intro decode_by_kid)
  moreover have "e_has_jwt e"
    using assms(4) by (auto simp: generate_token_def split: if_splits)
  ultimately show ?thesis
    using p(2) assms(7,9) by (intro payload_identity)
qed

theorem token_survives_rotation_witness:
  "validate_token demo_env (foldl (ring_step demo_env) [(''k0'', ''K0''), (''k1'', ''K1'')]
     [RegisterKey ''k2'' ''K2'', RetireKey ''k0'']) demo_db 99 ''ey'' =
   Inr (Some (token_identity ''j'' 1 ''ann'' ''admin'' None))"
  by (rule token_survives_rotation [where kid = "''k1''" and k = "''K1''" and ?t0.0 = 0])
    (simp_all add: signing_kid_def signing_key_def generate_token_def opens_def token_payload_def demo_defs
      is_token_revoked_def)

text \<open>
  C31. Rotating an API key replaces it: the old secret is refused from then on, after any history of the
  service, and until it expires the new secret opens exactly the scope of the old one (role,
  organisation, permissions) for the same owner. This is the behaviour on SQLite.
\<close>

theorem rotated_key_is_replaced:
  assumes "auth_ok db" and "e_backend e = SQLite" and "owned_key db i owner = Some k"
    and "rotate_api_key e t0 s i owner db = (Inr (Some s), db1)"
    and "auth_run e ks db1 evs = (as, db2)" and "e_sha256 e old = k_hash k"
    and "u \<in> set (db_users db)" and "u_id u = owner" and "u_active u"
    and "k_permissions k = Some ps" and "ps \<noteq> ''''" and "set (split_permissions ps) \<subseteq> set API_KEY_PERMISSIONS"
    and "k_role k = Some role" and "role \<in> set API_KEY_ROLES" and "t < t0 + API_KEY_LIFETIME"
  shows "fst (validate_api_key e t' old db2) = Inr None \<and>
    fst (validate_api_key e t s db1) = Inr (Some
      [(''id'', JInt (int (db_next_key db))), (''key_id'', JInt (int (db_next_key db))), (''user_id'', JInt (int owner)),
       (''username'', JStr (u_username u)), (''role'', JStr role), (''org_id'', opt_json JInt (k_org k)),
       (''permissions'', JStr ps)])"
proof
  have role: "truthy_str (Some role) = Some role" "truthy_str (Some ps) = Some ps"
    using assms(11,14) by (auto simp: truthy_str_def API_KEY_ROLES_def split: list.splits)
  obtain name where ins: "insert_key (e_sha256 e s) owner name ps role (k_org k) (t0 + API_KEY_LIFETIME)
      (deactivate_key t0 i db) = Inr db1"
    using assms(3,4,10,13) role by (auto simp: rotate_api_key_def split: sum.splits)
  have "dead_hash db1 (e_sha256 e old)"
    using owned_key_dies [OF assms(1,3), of t0] dead_insert [OF _ ins] assms(6) by simp
  then show "fst (validate_api_key e t' old db2) = Inr None"
    using run_dead_key [of db1 "e_sha256 e old" e ks evs] assms(5) by (simp add: dead_key_refused)
  have ok: "auth_ok (deactivate_key t0 i db)"
    using assms(1) by (rule ok_deactivate)
  have next_key: "db_next_key (deactivate_key t0 i db) = db_next_key db"
    by (simp add: deactivate_key_def)
  show "fst (validate_api_key e t s db1) = Inr (Some
      [(''id'', JInt (int (db_next_key db))), (''key_id'', JInt (int (db_next_key db))), (''user_id'', JInt (int owner)),
       (''username'', JStr (u_username u)), (''role'', JStr role), (''org_id'', opt_json JInt (k_org k)),
       (''permissions'', JStr ps)])"
    using fresh_key_found [OF ok ins _ assms(8,9,15)] assms(7,12,14) assms(2) role
    by (simp add: validate_api_key_def Let_def joined_role_def next_key)
qed

theorem rotated_key_is_replaced_witness:
  "fst (validate_api_key demo_env 9 ''old'' demo_db) \<noteq> Inr None \<and>
   fst (validate_api_key demo_env 9 ''old'' (snd (rotate_api_key demo_env 5 ''new'' 1 1 demo_db))) = Inr None \<and>
   fst (validate_api_key demo_env 9 ''new'' (snd (rotate_api_key demo_env 5 ''new'' 1 1 demo_db))) = Inr (Some
      [(''id'', JInt 2), (''key_id'', JInt 2), (''user_id'', JInt 1), (''username'', JStr ''ann''), (''role'', JStr ''viewer''),
       (''org_id'', JNull), (''permissions'', JStr ''read'')])"
proof
  show "fst (validate_api_key demo_env 9 ''old'' demo_db) \<noteq> Inr None"
    by code_simp
  have rot: "rotate_api_key demo_env 5 ''new'' 1 1 demo_db = (Inr (Some ''new''), snd (rotate_api_key demo_env 5 ''new'' 1 1 demo_db))"
    by (simp add: rotate_api_key_def owned_key_def insert_key_def deactivate_key_def update_key_def demo_defs)
  show "fst (validate_api_key demo_env 9 ''old'' (snd (rotate_api_key demo_env 5 ''new'' 1 1 demo_db))) = Inr None \<and>
   fst (validate_api_key demo_env 9 ''new'' (snd (rotate_api_key demo_env 5 ''new'' 1 1 demo_db))) = Inr (Some
      [(''id'', JInt 2), (''key_id'', JInt 2), (''user_id'', JInt 1), (''username'', JStr ''ann''), (''role'', JStr ''viewer''),
       (''org_id'', JNull), (''permissions'', JStr ''read'')])"
    using rotated_key_is_replaced [OF _ _ _ rot, of demo_key "[]" "[]" "[]" _ "''old''" demo_user "''read''" "''viewer''" 9 9]
    by (simp add: demo_defs auth_ok_def owned_key_def split_permissions_def API_KEY_PERMISSIONS_def API_KEY_ROLES_def
        strip_def lstrip_by_def rstrip_by_def is_space_def API_KEY_LIFETIME_def opt_json_def)
qed

text \<open>On Postgres the role of the owner wins over the scope of the key.\<close>

lemma postgres_key_has_owner_role:
  "fst (validate_api_key (demo_env\<lparr>e_backend := Postgres\<rparr>) 9 ''old'' demo_db) = Inr (Some
     [(''id'', JInt 1), (''key_id'', JInt 1), (''user_id'', JInt 1), (''username'', JStr ''ann''), (''role'', JStr ''admin''),
      (''org_id'', JNull), (''permissions'', JStr ''read'')])"
  by code_simp

end
