(* ===== verification/Orgs.thy ===== *)
theory Orgs
  imports Py_Strings
begin

text \<open>
  Organisations of the server (\<open>src/picosentry/serve/services/orgs.py\<close>): the tables of organisations,
  memberships, invitations, projects and runs, every operation of \<open>Organization\<close>, and the invariant
  that every organisation keeps its owner as an administrator while its tables hold no duplicates.
\<close>

section \<open>Tables\<close>

record org_limits =
  lim_users :: nat
  lim_projects :: nat
  lim_runs_per_day :: nat
  lim_storage_mb :: nat

definition TIERS :: "(string, org_limits) pydict" where
  "TIERS =
    [(''free'', \<lparr>lim_users = 1, lim_projects = 3, lim_runs_per_day = 50, lim_storage_mb = 100\<rparr>),
     (''starter'', \<lparr>lim_users = 5, lim_projects = 25, lim_runs_per_day = 500, lim_storage_mb = 1000\<rparr>),
     (''pro'', \<lparr>lim_users = 25, lim_projects = 100, lim_runs_per_day = 5000, lim_storage_mb = 10000\<rparr>),
     (''enterprise'', \<lparr>lim_users = 999, lim_projects = 999, lim_runs_per_day = 99999, lim_storage_mb = 999999\<rparr>)]"

record org_row =
  o_id :: nat
  o_name :: string
  o_slug :: string
  o_owner :: nat
  o_tier :: string
  o_key_hash :: string
  o_active :: bool
  o_created :: pyfloat
  o_updated :: "pyfloat option"

record member_row =
  m_org :: nat
  m_user :: nat
  m_role :: string
  m_joined :: pyfloat

record invite_row =
  i_org :: nat
  i_user :: nat
  i_role :: string
  i_token_hash :: string
  i_created :: pyfloat

text \<open>
  The users and the runs are tables of other services: the identifiers that exist, and for each run its
  organisation and day.
\<close>

record org_db =
  t_orgs :: "org_row list"
  t_next_org :: nat
  t_members :: "member_row list"
  t_invites :: "invite_row list"
  t_projects :: "(nat \<times> string) list"
  t_runs :: "(nat \<times> int) list"
  t_user_ids :: "nat list"

datatype org_error =
    UnknownRole string
  | OrgLookup nat
  | UserNotFound nat
  | AlreadyMember nat
  | OwnerProtected
  | QuotaExceeded string nat nat

definition MEMBER_ROLES :: "string list" where
  "MEMBER_ROLES = [''viewer'', ''operator'', ''admin'']"

section \<open>Operations\<close>

definition find_org :: "org_db \<Rightarrow> nat \<Rightarrow> org_row option" where
  "find_org d i = find (\<lambda>o'. o_id o' = i) (t_orgs d)"

definition is_member :: "org_db \<Rightarrow> nat \<Rightarrow> nat \<Rightarrow> bool" where
  "is_member d i u \<longleftrightarrow> (\<exists>m \<in> set (t_members d). m_org m = i \<and> m_user m = u)"

text \<open>
  \<open>create\<close>: \<open>Inr None\<close> is the empty dictionary of a slug that exists; \<open>Inl\<close> the None of a failed
  transaction, which the UNIQUE hash of the new key causes.
\<close>

definition org_create ::
  "(string \<Rightarrow> string) \<Rightarrow> pyfloat \<Rightarrow> string \<Rightarrow> string \<Rightarrow> string \<Rightarrow> nat \<Rightarrow> string \<Rightarrow> org_db
   \<Rightarrow> (unit + (nat \<times> string) option) \<times> org_db" where
  "org_create sha now rnd name slug owner tier d =
     (if \<exists>o' \<in> set (t_orgs d). o_slug o' = slug then (Inr None, d)
      else let api_key = ''sk_live_'' @ rnd; h = sha api_key in
           if \<exists>o' \<in> set (t_orgs d). o_key_hash o' = h then (Inl (), d)
           else (Inr (Some (t_next_org d, api_key)),
                 d\<lparr>t_orgs := t_orgs d @ [\<lparr>o_id = t_next_org d, o_name = name, o_slug = slug, o_owner = owner,
                     o_tier = tier, o_key_hash = h, o_active = True, o_created = now, o_updated = None\<rparr>],
                   t_next_org := Suc (t_next_org d),
                   t_members := t_members d @
                     [\<lparr>m_org = t_next_org d, m_user = owner, m_role = ''admin'', m_joined = now\<rparr>]\<rparr>))"

definition get_by_api_key :: "(string \<Rightarrow> string) \<Rightarrow> org_db \<Rightarrow> string \<Rightarrow> org_row option" where
  "get_by_api_key sha d key =
     (case find (\<lambda>o'. o_key_hash o' = sha key \<and> o_active o') (t_orgs d) of
        None \<Rightarrow> None
      | Some row \<Rightarrow> if o_key_hash row \<noteq> sha key then None else Some row)"

text \<open>\<open>get_members\<close> joins the users and sorts by the date of joining, the newest first.\<close>

definition get_members :: "org_db \<Rightarrow> nat \<Rightarrow> member_row list" where
  "get_members d i =
     sort_key (\<lambda>m. - m_joined m) (filter (\<lambda>m. m_org m = i \<and> m_user m \<in> set (t_user_ids d)) (t_members d))"

definition limits_for :: "org_db \<Rightarrow> nat \<Rightarrow> org_error + (org_row \<times> org_limits)" where
  "limits_for d i =
     (case find_org d i of
        None \<Rightarrow> Inl (OrgLookup i)
      | Some row \<Rightarrow> Inr (row, case dget TIERS (o_tier row) of Some l \<Rightarrow> l | None \<Rightarrow> the (dget TIERS ''free'')))"

definition member_count :: "org_db \<Rightarrow> nat \<Rightarrow> nat" where
  "member_count d i = length (filter (\<lambda>m. m_org m = i) (t_members d))"

definition project_count :: "org_db \<Rightarrow> nat \<Rightarrow> nat" where
  "project_count d i = length (filter (\<lambda>(g, p). g = i) (t_projects d))"

definition runs_today_count :: "int \<Rightarrow> org_db \<Rightarrow> nat \<Rightarrow> nat" where
  "runs_today_count today d i = length (filter (\<lambda>(g, day). g = i \<and> day = today) (t_runs d))"

definition check_member_quota :: "org_db \<Rightarrow> nat \<Rightarrow> org_error + unit" where
  "check_member_quota d i =
     (case limits_for d i of
        Inl x \<Rightarrow> Inl x
      | Inr (row, limits) \<Rightarrow>
          (let used = member_count d i in
           if used \<ge> lim_users limits then Inl (QuotaExceeded (o_tier row) (lim_users limits) used) else Inr ()))"

definition check_run_quota :: "int \<Rightarrow> org_db \<Rightarrow> nat \<Rightarrow> org_error + unit" where
  "check_run_quota today d i =
     (case limits_for d i of
        Inl x \<Rightarrow> Inl x
      | Inr (row, limits) \<Rightarrow>
          (let used = runs_today_count today d i in
           if used \<ge> lim_runs_per_day limits then Inl (QuotaExceeded (o_tier row) (lim_runs_per_day limits) used)
           else Inr ()))"

definition has_project :: "org_db \<Rightarrow> nat \<Rightarrow> string \<Rightarrow> bool" where
  "has_project d i p \<longleftrightarrow> (i, p) \<in> set (t_projects d)"

definition check_project_quota :: "org_db \<Rightarrow> nat \<Rightarrow> string \<Rightarrow> org_error + unit" where
  "check_project_quota d i p =
     (if has_project d i p then Inr ()
      else case limits_for d i of
             Inl x \<Rightarrow> Inl x
           | Inr (row, limits) \<Rightarrow>
               (let used = project_count d i in
                if used \<ge> lim_projects limits then Inl (QuotaExceeded (o_tier row) (lim_projects limits) used)
                else Inr ()))"

definition add_member ::
  "(string \<Rightarrow> string) \<Rightarrow> pyfloat \<Rightarrow> string \<Rightarrow> nat \<Rightarrow> nat \<Rightarrow> string \<Rightarrow> org_db \<Rightarrow> (org_error + (string \<times> string)) \<times> org_db" where
  "add_member sha now rnd i u role d =
     (if role \<notin> set MEMBER_ROLES then (Inl (UnknownRole role), d)
      else case limits_for d i of
             Inl x \<Rightarrow> (Inl x, d)
           | Inr (row, _) \<Rightarrow>
               if u \<notin> set (t_user_ids d) then (Inl (UserNotFound u), d)
               else if is_member d i u then (Inl (AlreadyMember u), d)
               else case check_member_quota d i of
                      Inl x \<Rightarrow> (Inl x, d)
                    | Inr _ \<Rightarrow>
                        (let token = ''inv_'' @ rnd in
                         (Inr (token, o_slug row),
                          d\<lparr>t_members := t_members d @ [\<lparr>m_org = i, m_user = u, m_role = role, m_joined = now\<rparr>],
                            t_invites := t_invites d @
                              [\<lparr>i_org = i, i_user = u, i_role = role, i_token_hash = sha token, i_created = now\<rparr>]\<rparr>)))"

definition update_member_role :: "nat \<Rightarrow> nat \<Rightarrow> string \<Rightarrow> org_db \<Rightarrow> (org_error + bool) \<times> org_db" where
  "update_member_role i u role d =
     (if role \<notin> set MEMBER_ROLES then (Inr False, d)
      else case limits_for d i of
             Inl x \<Rightarrow> (Inl x, d)
           | Inr (row, _) \<Rightarrow>
               if u = o_owner row then (Inl OwnerProtected, d)
               else if \<not> is_member d i u then (Inr False, d)
               else (Inr True, d\<lparr>t_members := map (\<lambda>m. if m_org m = i \<and> m_user m = u then m\<lparr>m_role := role\<rparr> else m)
                       (t_members d)\<rparr>))"

definition remove_member :: "nat \<Rightarrow> nat \<Rightarrow> org_db \<Rightarrow> (org_error + bool) \<times> org_db" where
  "remove_member i u d =
     (case limits_for d i of
        Inl x \<Rightarrow> (Inl x, d)
      | Inr (row, _) \<Rightarrow>
          if u = o_owner row then (Inl OwnerProtected, d)
          else if \<not> is_member d i u then (Inr False, d)
          else (Inr True, d\<lparr>t_members := filter (\<lambda>m. \<not> (m_org m = i \<and> m_user m = u)) (t_members d)\<rparr>))"

definition usage_pct :: "nat \<Rightarrow> nat \<Rightarrow> pyfloat" where
  "usage_pct used limit = (if limit > 0 then of_nat used / of_nat limit * 100 else 0)"

definition usage_entry :: "nat \<Rightarrow> nat \<Rightarrow> json" where
  "usage_entry used limit =
     JObj [(''used'', JInt (int used)), (''limit'', JInt (int limit)), (''pct'', JFloat (usage_pct used limit))]"

definition get_usage :: "int \<Rightarrow> org_db \<Rightarrow> nat \<Rightarrow> (string \<times> json) list" where
  "get_usage today d i =
     (case limits_for d i of
        Inl _ \<Rightarrow> []
      | Inr (row, limits) \<Rightarrow>
          [(''tier'', JStr (o_tier row)),
           (''users'', usage_entry (member_count d i) (lim_users limits)),
           (''projects'', usage_entry (project_count d i) (lim_projects limits)),
           (''runs_today'', usage_entry (runs_today_count today d i) (lim_runs_per_day limits)),
           (''storage_mb'', JInt (int (lim_storage_mb limits)))])"

definition add_project :: "nat \<Rightarrow> string \<Rightarrow> org_db \<Rightarrow> org_db" where
  "add_project i p d = (if has_project d i p then d else d\<lparr>t_projects := t_projects d @ [(i, p)]\<rparr>)"

definition list_project_ids :: "org_db \<Rightarrow> nat \<Rightarrow> string set" where
  "list_project_ids d i = set (map snd (filter (\<lambda>(g, p). g = i) (t_projects d)))"

definition update_tier :: "pyfloat \<Rightarrow> nat \<Rightarrow> string \<Rightarrow> org_db \<Rightarrow> bool \<times> org_db" where
  "update_tier now i tier d =
     (if dget TIERS tier = None then (False, d)
      else (True, d\<lparr>t_orgs := map (\<lambda>o'. if o_id o' = i then o'\<lparr>o_tier := tier, o_updated := Some now\<rparr> else o') (t_orgs d)\<rparr>))"

text \<open>The organisations of a user with the user's role in each, the newest organisation first.\<close>

definition list_orgs_for_user :: "org_db \<Rightarrow> nat \<Rightarrow> (org_row \<times> string) list" where
  "list_orgs_for_user d u =
     sort_key (\<lambda>(o', _). - o_created o')
       (map (\<lambda>(m, o'). (o', m_role m))
         (filter (\<lambda>(m, o'). m_org m = o_id o' \<and> m_user m = u \<and> o_active o') (List.product (t_members d) (t_orgs d))))"

text \<open>
  The part of \<open>ProjectOrchestrator.run_project\<close> that concerns the organisation: both quotas before any
  side effect, the row of the run, and the association that every outcome of the run makes.
\<close>

definition run_project_for_org :: "int \<Rightarrow> nat \<Rightarrow> string \<Rightarrow> org_db \<Rightarrow> (org_error + unit) \<times> org_db" where
  "run_project_for_org today i p d =
     (case check_run_quota today d i of
        Inl x \<Rightarrow> (Inl x, d)
      | Inr _ \<Rightarrow>
          (case check_project_quota d i p of
             Inl x \<Rightarrow> (Inl x, d)
           | Inr _ \<Rightarrow> (Inr (), add_project i p (d\<lparr>t_runs := t_runs d @ [(i, today)]\<rparr>))))"

section \<open>Quotas\<close>






section \<open>The owner keeps the organisation\<close>

definition org_ok :: "org_db \<Rightarrow> bool" where
  "org_ok d \<longleftrightarrow>
     distinct (map o_id (t_orgs d)) \<and> distinct (map o_slug (t_orgs d)) \<and> distinct (map o_key_hash (t_orgs d)) \<and>
     list_all (\<lambda>r. o_id r < t_next_org d) (t_orgs d) \<and>
     distinct (map (\<lambda>m. (m_org m, m_user m)) (t_members d)) \<and>
     list_all (\<lambda>m. m_org m < t_next_org d) (t_members d) \<and>
     distinct (t_projects d) \<and>
     list_all (\<lambda>r. list_ex (\<lambda>m. m_org m = o_id r \<and> m_user m = o_owner r \<and> m_role m = ''admin'') (t_members d)) (t_orgs d)"

datatype org_event =
    OrgCreate pyfloat string string string nat string
  | AddMember pyfloat string nat nat string
  | UpdateRole nat nat string
  | RemoveMember nat nat
  | RunProject int nat string
  | UpdateTier pyfloat nat string
  | UserCreated nat

fun org_step :: "(string \<Rightarrow> string) \<Rightarrow> org_db \<Rightarrow> org_event \<Rightarrow> org_db" where
  "org_step sha d (OrgCreate now rnd name slug owner tier) = snd (org_create sha now rnd name slug owner tier d)"
| "org_step sha d (AddMember now rnd i u role) = snd (add_member sha now rnd i u role d)"
| "org_step sha d (UpdateRole i u role) = snd (update_member_role i u role d)"
| "org_step sha d (RemoveMember i u) = snd (remove_member i u d)"
| "org_step sha d (RunProject today i p) = snd (run_project_for_org today i p d)"
| "org_step sha d (UpdateTier now i tier) = snd (update_tier now i tier d)"
| "org_step sha d (UserCreated u) = d\<lparr>t_user_ids := u # t_user_ids d\<rparr>"

lemma limits_for_row: "limits_for d i = Inr (row, l) \<Longrightarrow> row \<in> set (t_orgs d) \<and> o_id row = i"
  by (auto simp: limits_for_def find_org_def find_Some_iff split: option.splits)

lemma same_org: "org_ok d \<Longrightarrow> r \<in> set (t_orgs d) \<Longrightarrow> r' \<in> set (t_orgs d) \<Longrightarrow> o_id r = o_id r' \<Longrightarrow> r = r'"
  by (auto simp: org_ok_def distinct_map inj_on_def)

lemma ok_org_create: "org_ok d \<Longrightarrow> org_ok (snd (org_create sha now rnd name slug owner tier d))"
  by (fastforce simp: org_ok_def org_create_def Let_def list_all_iff list_ex_iff)

lemma ok_add_member: "org_ok d \<Longrightarrow> org_ok (snd (add_member sha now rnd i u role d))"
  by (auto simp: org_ok_def add_member_def is_member_def list_all_iff list_ex_iff Let_def split: sum.splits
      dest!: limits_for_row)

lemma ok_run_project: "org_ok d \<Longrightarrow> org_ok (snd (run_project_for_org today i p d))"
  by (auto simp: org_ok_def run_project_for_org_def add_project_def has_project_def split: sum.splits)

lemma ok_update_role: "org_ok d \<Longrightarrow> org_ok (snd (update_member_role i u role d))"
proof (cases "limits_for d i")
  case (Inr p)
  obtain row l where p: "p = (row, l)" by fastforce
  assume ok: "org_ok d"
  let ?f = "\<lambda>m. if m_org m = i \<and> m_user m = u then m\<lparr>m_role := role\<rparr> else m"
  have keys: "map (\<lambda>m. (m_org m, m_user m)) (map ?f ms) = map (\<lambda>m. (m_org m, m_user m)) ms" for ms
    by (induction ms) auto
  have "list_ex (\<lambda>m. m_org m = o_id r \<and> m_user m = o_owner r \<and> m_role m = ''admin'') (map ?f (t_members d))"
    if r: "r \<in> set (t_orgs d)" and safe: "u \<noteq> o_owner row" for r
  proof -
    obtain m where m: "m \<in> set (t_members d)" "m_org m = o_id r" "m_user m = o_owner r" "m_role m = ''admin''"
      using ok r by (auto simp: org_ok_def list_all_iff list_ex_iff)
    have "?f m = m"
      using m same_org [OF ok r] limits_for_row [of d i row l] Inr p safe by auto
    then have "m \<in> set (map ?f (t_members d))"
      using m(1) unfolding set_map by (rule image_eqI [OF sym])
    with m(2-) show ?thesis unfolding list_ex_iff by blast
  qed
  then show ?thesis
    using ok Inr p
    by (auto simp: update_member_role_def org_ok_def list_all_iff keys simp del: map_map)
qed (simp add: update_member_role_def)

lemma ok_remove_member: "org_ok d \<Longrightarrow> org_ok (snd (remove_member i u d))"
proof (cases "limits_for d i")
  case (Inr p)
  obtain row l where p: "p = (row, l)" by fastforce
  assume ok: "org_ok d"
  have "list_ex (\<lambda>m. m_org m = o_id r \<and> m_user m = o_owner r \<and> m_role m = ''admin'')
      (filter (\<lambda>m. \<not> (m_org m = i \<and> m_user m = u)) (t_members d))"
    if r: "r \<in> set (t_orgs d)" and safe: "u \<noteq> o_owner row" for r
  proof -
    obtain m where m: "m \<in> set (t_members d)" "m_org m = o_id r" "m_user m = o_owner r" "m_role m = ''admin''"
      using ok r by (auto simp: org_ok_def list_all_iff list_ex_iff)
    moreover have "\<not> (m_org m = i \<and> m_user m = u)"
      using m same_org [OF ok r] limits_for_row [of d i row l] Inr p safe by auto
    ultimately show ?thesis by (auto simp: list_ex_iff)
  qed
  then show ?thesis
    using ok Inr p
    by (auto simp: remove_member_def org_ok_def list_all_iff distinct_map_filter)
qed (simp add: remove_member_def)

lemma ok_update_tier:
  assumes "org_ok d"
  shows "org_ok (snd (update_tier now i tier d))"
proof -
  let ?f = "\<lambda>r. if o_id r = i then r\<lparr>o_tier := tier, o_updated := Some now\<rparr> else r"
  have keep: "map o_id (map ?f rs) = map o_id rs" "map o_slug (map ?f rs) = map o_slug rs"
    "map o_key_hash (map ?f rs) = map o_key_hash rs" for rs
    by (induction rs) auto
  show ?thesis
    using assms by (auto simp: update_tier_def org_ok_def keep list_all_iff simp del: map_map)
qed

lemma ok_users: "org_ok (d\<lparr>t_user_ids := us\<rparr>) = org_ok d"
  by (simp add: org_ok_def)

lemma step_keeps_org_ok: "org_ok d \<Longrightarrow> org_ok (org_step sha d ev)"
  by (cases ev) (auto intro: ok_org_create ok_add_member ok_run_project ok_update_role ok_remove_member ok_update_tier
      simp: ok_users)

text \<open>
  C35. An organisation never loses its owner: after any sequence of operations on the tables, starting
  from empty ones, every organisation still has its owner as a member with the role admin, no user is
  twice a member of one organisation and no two organisations share an identifier, a slug or a key.
\<close>

theorem owner_stays_admin:
  "org_ok (foldl (org_step sha) \<lparr>t_orgs = [], t_next_org = 1, t_members = [], t_invites = [], t_projects = [],
     t_runs = [], t_user_ids = us\<rparr> evs)"
proof -
  have "org_ok d \<Longrightarrow> org_ok (foldl (org_step sha) d evs)" for d
    by (induction evs arbitrary: d) (auto intro: step_keeps_org_ok)
  then show ?thesis by (simp add: org_ok_def)
qed



end
