(* ===== verification/Serve_Routes.thy ===== *)
theory Serve_Routes
  imports Auth_Traces Orgs Rbac
begin

text \<open>
  The authentication and organisation endpoints of the server: the credentials of a request
  (\<open>src/picosentry/serve/api/deps.py\<close>), the handlers of \<open>api/routers/auth.py\<close> and \<open>api/routers/orgs.py\<close>
  with the checks of their request models, over the services of \<open>Auth_Service\<close>, \<open>Orgs\<close> and \<open>Rbac\<close>.
  A response is a value, an HTTP error or an exception the handler does not catch.
\<close>

section \<open>Responses\<close>

datatype 'a http = Ok 'a | Http nat string | Raised py_error

definition http_bind :: "'a http \<Rightarrow> ('a \<Rightarrow> 'b http) \<Rightarrow> 'b http" where
  "http_bind r f = (case r of Ok x \<Rightarrow> f x | Http n s \<Rightarrow> Http n s | Raised x \<Rightarrow> Raised x)"

lemma http_bind_simps [simp]:
  "http_bind (Ok x) f = f x" "http_bind (Http n s) f = Http n s" "http_bind (Raised e) f = Raised e"
  by (simp_all add: http_bind_def)

lemma http_bind_Ok: "http_bind r f = Ok y \<longleftrightarrow> (\<exists>x. r = Ok x \<and> f x = Ok y)"
  by (cases r) auto

definition of_py :: "'a py_result \<Rightarrow> 'a http" where
  "of_py r = (case r of Inl x \<Rightarrow> Raised x | Inr y \<Rightarrow> Ok y)"

text \<open>The application's handler of service errors; \<open>ValueError\<close> and \<open>LookupError\<close> fall to the last one.\<close>

fun serve_error_status :: "org_error \<Rightarrow> nat" where
  "serve_error_status (UserNotFound _) = 404"
| "serve_error_status (AlreadyMember _) = 409"
| "serve_error_status OwnerProtected = 409"
| "serve_error_status (QuotaExceeded _ _ _) = 402"
| "serve_error_status (UnknownRole _) = 500"
| "serve_error_status (OrgLookup _) = 500"

definition of_org :: "org_error + 'a \<Rightarrow> 'a http" where
  "of_org r = (case r of Inl x \<Rightarrow> Http (serve_error_status x) '''' | Inr y \<Rightarrow> Ok y)"

record serve_state =
  sv_auth :: auth_db
  sv_orgs :: org_db
  sv_rate :: "(string, pyfloat list) pydict"

type_synonym identity = "(string \<times> json) list"

text \<open>\<open>user["id"]\<close>, as the handlers pass it to the services.\<close>

definition user_id :: "identity \<Rightarrow> nat http" where
  "user_id user =
     (case dget user ''id'' of
        None \<Rightarrow> Raised (KeyError ''id'')
      | Some (JInt i) \<Rightarrow> if i \<ge> 0 then Ok (nat i) else Raised TypeError
      | Some _ \<Rightarrow> Raised TypeError)"

definition user_role :: "identity \<Rightarrow> string" where
  "user_role user = (case dget user ''role'' of Some (JStr r) \<Rightarrow> r | None \<Rightarrow> ''viewer'' | Some _ \<Rightarrow> '''')"

section \<open>Credentials\<close>


definition role_levels :: "(string, nat) pydict" where
  "role_levels = [(''viewer'', 0), (''operator'', 1), (''admin'', 2)]"

definition role_level :: "string \<Rightarrow> nat" where
  "role_level r = (case dget role_levels r of None \<Rightarrow> 0 | Some n \<Rightarrow> n)"

definition require_role :: "string \<Rightarrow> identity \<Rightarrow> unit http" where
  "require_role required user =
     (if role_level (user_role user) < role_level required
      then Http 403 (''Requires role: '' @ required @ '' (have: '' @ user_role user @ '')'') else Ok ())"

definition require_permission :: "permission \<Rightarrow> identity \<Rightarrow> unit http" where
  "require_permission p user =
     (case has_permission user p of
        Inl x \<Rightarrow> Raised x
      | Inr False \<Rightarrow> Http 403 (''Requires permission: '' @ permission_value p @ '' (role: '' @ user_role user @ '')'')
      | Inr True \<Rightarrow> Ok ())"



definition require_org_membership :: "org_db \<Rightarrow> nat \<Rightarrow> identity \<Rightarrow> (org_row \<times> string) http" where
  "require_org_membership d i user =
     http_bind (user_id user) (\<lambda>uid.
       case find (\<lambda>(o', _). o_id o' = i) (list_orgs_for_user d uid) of
         None \<Rightarrow> Http 403 ''Not a member of this organization''
       | Some p \<Rightarrow> Ok p)"

section \<open>The limit on authentication attempts\<close>

definition AUTH_RATE_MAX :: nat where "AUTH_RATE_MAX = 5"

definition AUTH_RATE_WINDOW :: pyfloat where "AUTH_RATE_WINDOW = 60"

definition AUTH_RATE_MAX_ENTRIES :: nat where "AUTH_RATE_MAX_ENTRIES = 10000"

text \<open>The addresses to drop: the quarter with the oldest first attempt; an empty history counts as infinity.\<close>

definition oldest_ips :: "(string, pyfloat list) pydict \<Rightarrow> string list" where
  "oldest_ips m =
     take (length m div 4)
       (map fst (sort_key (\<lambda>p. hd (snd p)) (filter (\<lambda>p. snd p \<noteq> []) m) @ filter (\<lambda>p. snd p = []) m))"

definition check_auth_rate_limit ::
  "pyfloat \<Rightarrow> string \<Rightarrow> (string, pyfloat list) pydict \<Rightarrow> bool \<times> (string, pyfloat list) pydict" where
  "check_auth_rate_limit now ip m =
     (let hist = filter (\<lambda>t. now - t < AUTH_RATE_WINDOW) (case dget m ip of None \<Rightarrow> [] | Some h \<Rightarrow> h) in
      if length hist \<ge> AUTH_RATE_MAX then (False, dset ip hist m)
      else let m' = dset ip (hist @ [now]) m in
           (True, if length m' > AUTH_RATE_MAX_ENTRIES then foldl (\<lambda>m i. dpop i m) m' (oldest_ips m') else m'))"

definition rate_limited :: "pyfloat \<Rightarrow> string \<Rightarrow> (serve_state \<Rightarrow> 'a http \<times> serve_state) \<Rightarrow> serve_state \<Rightarrow> 'a http \<times> serve_state" where
  "rate_limited now ip handler st =
     (let (ok, m) = check_auth_rate_limit now ip (sv_rate st) in
      if ok then handler (st\<lparr>sv_rate := m\<rparr>) else (Http 429 ''Too many authentication attempts'', st\<lparr>sv_rate := m\<rparr>))"

section \<open>Accounts and second factors\<close>

definition register_route ::
  "auth_env \<Rightarrow> bool \<Rightarrow> pyfloat \<Rightarrow> string \<Rightarrow> string \<Rightarrow> string \<Rightarrow> string \<Rightarrow> string option \<Rightarrow> serve_state \<Rightarrow> (nat \<times> string) http \<times> serve_state" where
  "register_route e allow_registration now ip salt name password email st =
     (if \<not> (3 \<le> length name \<and> length name \<le> 50 \<and> 8 \<le> length password \<and> length password \<le> 72)
      then (Http 422 '''', st)
      else rate_limited now ip (\<lambda>st.
        if \<not> allow_registration then (Http 403 ''Registration is disabled'', st)
        else let (r, db) = create_user e salt name password email ''viewer'' (sv_auth st); st' = st\<lparr>sv_auth := db\<rparr> in
             case r of
               None \<Rightarrow> (Http 409 ''Username already exists'', st')
             | Some i \<Rightarrow> (Ok (i, ''viewer''), st'\<lparr>sv_orgs := (sv_orgs st')\<lparr>t_user_ids := i # t_user_ids (sv_orgs st')\<rparr>\<rparr>)) st)"

definition login_response :: "login_result \<Rightarrow> (string \<times> nat \<times> string) http" where
  "login_response r =
     (case r of
        LoginLocked \<Rightarrow> Http 423 ''Account locked due to too many failed attempts''
      | MfaRequired ms \<Rightarrow> Http 401 ''MFA code required''
      | LoginInvalid \<Rightarrow> Http 401 ''Invalid credentials''
      | LoginOk tok i role \<Rightarrow> Ok (tok, i, role))"

definition login_route ::
  "auth_env \<Rightarrow> key_ring \<Rightarrow> pyfloat \<Rightarrow> string \<Rightarrow> string \<Rightarrow> string \<Rightarrow> string \<Rightarrow> string option \<Rightarrow> serve_state
   \<Rightarrow> (string \<times> nat \<times> string) http \<times> serve_state" where
  "login_route e ks now ip jti name password code st =
     (if \<not> (8 \<le> length password \<and> length password \<le> 72 \<and> (case code of None \<Rightarrow> True | Some c \<Rightarrow> length c = 6))
      then (Http 422 '''', st)
      else rate_limited now ip (\<lambda>st.
        let (r, db) = login e ks now jti name password code False (sv_auth st) in
        (http_bind (of_py r) login_response, st\<lparr>sv_auth := db\<rparr>)) st)"

text \<open>Enrolment of a second factor asks for the account's password again.\<close>

definition password_checked ::
  "auth_env \<Rightarrow> identity \<Rightarrow> string \<Rightarrow> (nat \<Rightarrow> serve_state \<Rightarrow> 'a http \<times> serve_state) \<Rightarrow> serve_state \<Rightarrow> 'a http \<times> serve_state" where
  "password_checked e user password handler st =
     (if password = '''' \<or> length password > 72 then (Http 422 '''', st)
      else case user_id user of
        Http n s \<Rightarrow> (Http n s, st)
      | Raised x \<Rightarrow> (Raised x, st)
      | Ok i \<Rightarrow>
          (case verify_user_password e (sv_auth st) i password of
             Inl x \<Rightarrow> (Raised x, st)
           | Inr False \<Rightarrow> (Http 401 ''Invalid credentials'', st)
           | Inr True \<Rightarrow> handler i st))"

definition mfa_enroll ::
  "auth_env \<Rightarrow> string \<Rightarrow> identity \<Rightarrow> string \<Rightarrow> bool \<Rightarrow> serve_state \<Rightarrow> (string \<times> string) http \<times> serve_state" where
  "mfa_enroll e secret user password confirm_replace =
     password_checked e user password (\<lambda>i st.
       if truthy_str (get_totp_secret (sv_auth st) i) \<noteq> None \<and> \<not> confirm_replace
       then (Http 409 ''TOTP already enrolled; pass confirm_replace=true to replace it'', st)
       else case dget user ''username'' of
              Some (JStr n) \<Rightarrow>
                (let (r, db) = enroll_totp e secret i n (sv_auth st) in
                 (case r of None \<Rightarrow> Http 500 ''TOTP enrollment unavailable'' | Some x \<Rightarrow> Ok x, st\<lparr>sv_auth := db\<rparr>))
            | None \<Rightarrow> (Raised (KeyError ''username''), st)
            | Some _ \<Rightarrow> (Raised TypeError, st))"

definition mfa_verify :: "auth_env \<Rightarrow> pyfloat \<Rightarrow> identity \<Rightarrow> string \<Rightarrow> serve_state \<Rightarrow> bool http \<times> serve_state" where
  "mfa_verify e now user code st =
     (if length code \<noteq> 6 then (Http 422 '''', st)
      else case user_id user of
        Http n s \<Rightarrow> (Http n s, st)
      | Raised x \<Rightarrow> (Raised x, st)
      | Ok i \<Rightarrow>
          (let (r, db) = verify_totp_for_user e now i code (sv_auth st) in
           (case r of Inl x \<Rightarrow> Raised x | Inr False \<Rightarrow> Http 400 ''Invalid TOTP code'' | Inr True \<Rightarrow> Ok True,
            st\<lparr>sv_auth := db\<rparr>)))"

definition webauthn_authenticate_verify ::
  "auth_env \<Rightarrow> key_ring \<Rightarrow> pyfloat \<Rightarrow> string \<Rightarrow> string \<Rightarrow> string \<Rightarrow> string \<Rightarrow> string \<Rightarrow> (string \<times> json) list \<Rightarrow> serve_state
   \<Rightarrow> (string \<times> nat \<times> string) http \<times> serve_state" where
  "webauthn_authenticate_verify e ks now ip jti name password challenge credential st =
     rate_limited now ip (\<lambda>st.
       case get_user_id_by_username (sv_auth st) name of
         None \<Rightarrow> (Http 401 ''Invalid credentials'', st)
       | Some i \<Rightarrow>
           (case webauthn_auth_verify e i challenge credential (sv_auth st) of
              (Inl x, db) \<Rightarrow> (Raised x, st\<lparr>sv_auth := db\<rparr>)
            | (Inr False, db) \<Rightarrow> (Http 401 ''WebAuthn assertion failed'', st\<lparr>sv_auth := db\<rparr>)
            | (Inr True, db) \<Rightarrow>
                (case login e ks now jti name password None True db of
                   (Inl x, db') \<Rightarrow> (Raised x, st\<lparr>sv_auth := db'\<rparr>)
                 | (Inr (LoginOk tok u role), db') \<Rightarrow> (Ok (tok, u, role), st\<lparr>sv_auth := db'\<rparr>)
                 | (Inr _, db') \<Rightarrow> (Http 401 ''Invalid credentials'', st\<lparr>sv_auth := db'\<rparr>)))) st"

definition webauthn_authenticate_challenge ::
  "auth_env \<Rightarrow> pyfloat \<Rightarrow> string \<Rightarrow> string \<Rightarrow> string \<Rightarrow> serve_state \<Rightarrow> (string \<times> string) http \<times> serve_state" where
  "webauthn_authenticate_challenge e now ip challenge name st =
     rate_limited now ip (\<lambda>st.
       let (r, db) = (case get_user_id_by_username (sv_auth st) name of
                        None \<Rightarrow> (webauthn_dummy_challenge e challenge, sv_auth st)
                      | Some i \<Rightarrow> webauthn_auth_challenge e challenge i (sv_auth st)) in
       (case r of None \<Rightarrow> Http 401 ''Invalid credentials'' | Some x \<Rightarrow> Ok x, st\<lparr>sv_auth := db\<rparr>)) st"

definition webauthn_register_challenge_route ::
  "auth_env \<Rightarrow> string \<Rightarrow> identity \<Rightarrow> string \<Rightarrow> serve_state \<Rightarrow> (string \<times> string) http \<times> serve_state" where
  "webauthn_register_challenge_route e challenge user password =
     password_checked e user password (\<lambda>i st.
       case dget user ''username'' of
         Some (JStr n) \<Rightarrow>
           (let (r, db) = webauthn_register_challenge e challenge i n (sv_auth st) in
            (case r of None \<Rightarrow> Http 500 ''WebAuthn enrollment unavailable'' | Some x \<Rightarrow> Ok x, st\<lparr>sv_auth := db\<rparr>))
       | None \<Rightarrow> (Raised (KeyError ''username''), st)
       | Some _ \<Rightarrow> (Raised TypeError, st))"

definition webauthn_register_verify_route ::
  "auth_env \<Rightarrow> identity \<Rightarrow> string \<Rightarrow> string \<Rightarrow> (string \<times> json) list \<Rightarrow> bool \<Rightarrow> serve_state \<Rightarrow> bool http \<times> serve_state" where
  "webauthn_register_verify_route e user password challenge credential confirm_replace =
     password_checked e user password (\<lambda>i st.
       if webauthn_credentials_for_user (sv_auth st) i \<noteq> [] \<and> \<not> confirm_replace
       then (Http 409 ''Passkey already registered; pass confirm_replace=true to add or replace it'', st)
       else let (r, db) = webauthn_register_verify e i challenge credential (sv_auth st) in
            (case r of Inl x \<Rightarrow> Raised x | Inr False \<Rightarrow> Http 400 ''WebAuthn registration failed'' | Inr True \<Rightarrow> Ok True,
             st\<lparr>sv_auth := db\<rparr>))"

definition revoke_route :: "pyfloat \<Rightarrow> identity \<Rightarrow> string \<Rightarrow> serve_state \<Rightarrow> bool http \<times> serve_state" where
  "revoke_route now user jti st =
     (if jti = '''' \<or> length jti > 128 then (Http 422 '''', st)
      else if get_json ''jti'' user \<noteq> JStr jti
      then (Http 403 ''You may only revoke the token presented with this request'', st)
      else case user_id user of
             Http n s \<Rightarrow> (Http n s, st)
           | Raised x \<Rightarrow> (Raised x, st)
           | Ok i \<Rightarrow> (Ok True, st\<lparr>sv_auth := snd (revoke_token now jti (Some i) (sv_auth st))\<rparr>))"

section \<open>API keys\<close>



definition revoke_api_key_route :: "pyfloat \<Rightarrow> identity \<Rightarrow> nat \<Rightarrow> serve_state \<Rightarrow> unit http \<times> serve_state" where
  "revoke_api_key_route now user key_id st =
     (case user_id user of
        Http n s \<Rightarrow> (Http n s, st)
      | Raised x \<Rightarrow> (Raised x, st)
      | Ok i \<Rightarrow>
          (let (ok, db) = revoke_api_key now key_id (Some i) (sv_auth st) in
           (if ok then Ok () else Http 404 ''API key not found'', st\<lparr>sv_auth := db\<rparr>)))"

section \<open>Organisations\<close>

definition list_orgs :: "identity \<Rightarrow> serve_state \<Rightarrow> (org_row \<times> string) list http" where
  "list_orgs user st = http_bind (user_id user) (\<lambda>i. Ok (list_orgs_for_user (sv_orgs st) i))"

definition get_org :: "int \<Rightarrow> nat \<Rightarrow> identity \<Rightarrow> serve_state \<Rightarrow> (org_row \<times> (string \<times> json) list) http" where
  "get_org today i user st =
     http_bind (require_org_membership (sv_orgs st) i user) (\<lambda>(org, _). Ok (org, get_usage today (sv_orgs st) i))"

definition slug_ok :: "string \<Rightarrow> bool" where
  "slug_ok s \<longleftrightarrow> 2 \<le> length s \<and> length s \<le> 50 \<and> list_all (\<lambda>c. c \<in> set ''abcdefghijklmnopqrstuvwxyz0123456789-'') s"

definition create_org ::
  "(string \<Rightarrow> string) \<Rightarrow> pyfloat \<Rightarrow> string \<Rightarrow> identity \<Rightarrow> string \<Rightarrow> string \<Rightarrow> string \<Rightarrow> serve_state
   \<Rightarrow> (nat \<times> string \<times> string) http \<times> serve_state" where
  "create_org sha now rnd user name slug tier st =
     (if \<not> (2 \<le> length name \<and> length name \<le> 100 \<and> slug_ok slug \<and> dget TIERS tier \<noteq> None) then (Http 422 '''', st)
      else let tier' = (if tier \<noteq> ''free'' \<and> get_json ''role'' user \<noteq> JStr ''admin'' then ''free'' else tier) in
           case user_id user of
             Http n s \<Rightarrow> (Http n s, st)
           | Raised x \<Rightarrow> (Raised x, st)
           | Ok i \<Rightarrow>
               (let (r, d) = org_create sha now rnd name slug i tier' (sv_orgs st) in
                (case r of
                   Inl _ \<Rightarrow> Http 500 ''Organization creation failed''
                 | Inr None \<Rightarrow> Http 409 ''Organization slug already exists''
                 | Inr (Some (oid, key)) \<Rightarrow> Ok (oid, tier', key), st\<lparr>sv_orgs := d\<rparr>)))"

definition list_org_members :: "nat \<Rightarrow> identity \<Rightarrow> serve_state \<Rightarrow> member_row list http" where
  "list_org_members i user st =
     http_bind (require_org_membership (sv_orgs st) i user) (\<lambda>_. Ok (get_members (sv_orgs st) i))"

definition require_org_admin :: "org_row \<times> string \<Rightarrow> unit http" where
  "require_org_admin p =
     (if snd p \<noteq> ''admin'' then Http 403 ''Only organization admins can manage members'' else Ok ())"

text \<open>The gate of every change of members: membership, the permission of the global role, the role in the organisation.\<close>

definition member_gate :: "nat \<Rightarrow> identity \<Rightarrow> serve_state \<Rightarrow> unit http" where
  "member_gate i user st =
     http_bind (require_org_membership (sv_orgs st) i user) (\<lambda>org.
     http_bind (require_permission ADMIN_USERS user) (\<lambda>_. require_org_admin org))"

definition gated :: "unit http \<Rightarrow> ('a http \<times> serve_state) \<Rightarrow> serve_state \<Rightarrow> 'a http \<times> serve_state" where
  "gated g r st = (case g of Ok _ \<Rightarrow> r | Http n s \<Rightarrow> (Http n s, st) | Raised x \<Rightarrow> (Raised x, st))"

definition invite_org_member ::
  "(string \<Rightarrow> string) \<Rightarrow> pyfloat \<Rightarrow> string \<Rightarrow> identity \<Rightarrow> nat \<Rightarrow> nat \<Rightarrow> string \<Rightarrow> serve_state
   \<Rightarrow> (string \<times> string) http \<times> serve_state" where
  "invite_org_member sha now rnd user i u role st =
     gated (member_gate i user st)
       (let (r, d) = add_member sha now rnd i u role (sv_orgs st) in (of_org r, st\<lparr>sv_orgs := d\<rparr>)) st"

definition not_a_member :: "nat \<Rightarrow> string" where
  "not_a_member u = ''User '' @ show_nat u @ '' is not a member of this organization''"

definition change_org_member_role ::
  "identity \<Rightarrow> nat \<Rightarrow> nat \<Rightarrow> string \<Rightarrow> serve_state \<Rightarrow> (nat \<times> string) http \<times> serve_state" where
  "change_org_member_role user i u role st =
     gated (member_gate i user st)
       (let (r, d) = update_member_role i u role (sv_orgs st) in
        (http_bind (of_org r) (\<lambda>changed. if changed then Ok (u, role) else Http 404 (not_a_member u)), st\<lparr>sv_orgs := d\<rparr>)) st"

definition remove_org_member :: "identity \<Rightarrow> nat \<Rightarrow> nat \<Rightarrow> serve_state \<Rightarrow> nat http \<times> serve_state" where
  "remove_org_member user i u st =
     gated (member_gate i user st)
       (let (r, d) = remove_member i u (sv_orgs st) in
        (http_bind (of_org r) (\<lambda>removed. if removed then Ok u else Http 404 (not_a_member u)), st\<lparr>sv_orgs := d\<rparr>)) st"

definition get_org_usage :: "int \<Rightarrow> nat \<Rightarrow> identity \<Rightarrow> serve_state \<Rightarrow> (string \<times> json) list http" where
  "get_org_usage today i user st =
     http_bind (require_org_membership (sv_orgs st) i user) (\<lambda>_. Ok (get_usage today (sv_orgs st) i))"

definition upgrade_org_tier :: "pyfloat \<Rightarrow> identity \<Rightarrow> nat \<Rightarrow> string \<Rightarrow> serve_state \<Rightarrow> string http \<times> serve_state" where
  "upgrade_org_tier now user i tier st =
     gated (http_bind (require_org_membership (sv_orgs st) i user) (\<lambda>org.
            http_bind (require_role ''admin'' user) (\<lambda>_.
            if snd org \<noteq> ''admin'' then Http 403 ''Only admins can upgrade tier'' else Ok ())))
       (let (ok, d) = update_tier now i tier (sv_orgs st) in
        (if ok then Ok tier else Http 400 ''Invalid tier'', st\<lparr>sv_orgs := d\<rparr>)) st"

section \<open>Whose organisation a request acts in\<close>











end
