(* ===== verification/Policy_Signing.thy ===== *)
theory Policy_Signing
  imports Py_Strings
begin

text \<open>
  Signatures of policy files (\<open>src/picosentry/sandbox/policy_versioned/signing.py\<close>): the block appended to
  a policy text, the companion file beside it, and the verified loads. HMAC-SHA256 and JSON text are
  parameters; a file system is a dictionary from paths (lists of components) to texts.
\<close>

section \<open>Data\<close>

type_synonym fpath = "string list"

type_synonym fs = "(fpath, string) pydict"

record policy_codec =
  pc_hmac :: "string \<Rightarrow> string \<Rightarrow> string"
  pc_sha256 :: "string \<Rightarrow> string"
  pc_dumps :: "json \<Rightarrow> string"
  pc_loads :: "string \<Rightarrow> json option"

definition SIGNATURE_MARKER :: string where
  "SIGNATURE_MARKER = ''# --- PICODOME SIGNATURE ---''"

definition SUPPORTED_ALGORITHMS :: "string list" where
  "SUPPORTED_ALGORITHMS = [''hmac-sha256'']"

record policy_signature =
  ps_algorithm :: string
  ps_signature :: string
  ps_timestamp :: string
  ps_key_id :: string

record verify_result =
  vr_valid :: bool
  vr_algorithm :: string
  vr_key_id :: string
  vr_timestamp :: string
  vr_error :: string

definition refused :: "string \<Rightarrow> verify_result" where
  "refused err = \<lparr>vr_valid = False, vr_algorithm = '''', vr_key_id = '''', vr_timestamp = '''', vr_error = err\<rparr>"

abbreviation newline :: char where "newline \<equiv> CHR 0x0A"

section \<open>Keys\<close>

text \<open>\<open>bytes.fromhex\<close>: pairs of digits, blanks allowed between them.\<close>

fun bytes_fromhex :: "string \<Rightarrow> string option" where
  "bytes_fromhex [] = Some []"
| "bytes_fromhex (c # s) =
     (if is_space c then bytes_fromhex s
      else case s of
             [] \<Rightarrow> None
           | d # t \<Rightarrow> (case (hex_value c, hex_value d, bytes_fromhex t) of
               (Some h, Some l, Some bs) \<Rightarrow> Some (char_of (16 * h + l) # bs)
             | _ \<Rightarrow> None))"

text \<open>The two variables of the environment; a key file is read through the file system.\<close>

definition load_key :: "string option \<Rightarrow> fpath option \<Rightarrow> fs \<Rightarrow> string option" where
  "load_key hex_key key_file files =
     (case hex_key of
        Some (c # h) \<Rightarrow> bytes_fromhex (c # h)
      | _ \<Rightarrow> (case key_file of
          None \<Rightarrow> None
        | Some p \<Rightarrow> (case dget files p of None \<Rightarrow> None | Some content \<Rightarrow> bytes_fromhex (strip content))))"

section \<open>A signature inside the text\<close>

definition signature_block :: "string \<Rightarrow> string \<Rightarrow> string \<Rightarrow> string" where
  "signature_block sig timestamp key_id =
     newline # SIGNATURE_MARKER @ newline # ''# algorithm: hmac-sha256'' @ newline # ''# signature: '' @ sig @
     newline # ''# timestamp: '' @ timestamp @ newline # ''# key_id: '' @ key_id @ [newline]"

definition sign_policy :: "policy_codec \<Rightarrow> string \<Rightarrow> string \<Rightarrow> string \<Rightarrow> string \<Rightarrow> string" where
  "sign_policy cd timestamp content key key_id =
     content @ signature_block (pc_hmac cd key content) timestamp key_id"

definition is_marker :: "string \<Rightarrow> bool" where
  "is_marker line \<longleftrightarrow> strip line = strip SIGNATURE_MARKER"

fun marker_idx :: "string list \<Rightarrow> nat option" where
  "marker_idx [] = None"
| "marker_idx (l # ls) = (if is_marker l then Some 0 else map_option Suc (marker_idx ls))"

definition field_value :: "string \<Rightarrow> string" where
  "field_value s = (case snd (split_first (CHR '':'') s) of None \<Rightarrow> '''' | Some v \<Rightarrow> strip v)"

fun parse_fields :: "policy_signature \<Rightarrow> string list \<Rightarrow> policy_signature" where
  "parse_fields ps [] = ps"
| "parse_fields ps (line # ls) =
     (let stripped = strip line in
      if stripped = '''' \<or> \<not> starts_with ''#'' stripped then ps
      else let s = strip (lstrip_by (\<lambda>c. c \<in> {CHR ''#'', CHR '' ''}) stripped) in
           parse_fields
             (if starts_with ''algorithm:'' s then ps\<lparr>ps_algorithm := field_value s\<rparr>
              else if starts_with ''signature:'' s then ps\<lparr>ps_signature := field_value s\<rparr>
              else if starts_with ''timestamp:'' s then ps\<lparr>ps_timestamp := field_value s\<rparr>
              else if starts_with ''key_id:'' s then ps\<lparr>ps_key_id := field_value s\<rparr>
              else ps) ls)"

definition parse_signature :: "string \<Rightarrow> policy_signature option" where
  "parse_signature content =
     (let lines = split_on newline content in
      case marker_idx lines of
        None \<Rightarrow> None
      | Some i \<Rightarrow>
          (let ps = parse_fields \<lparr>ps_algorithm = '''', ps_signature = '''', ps_timestamp = '''', ps_key_id = ''default''\<rparr>
                      (drop (i + 1) lines) in
           if ps_algorithm ps = '''' \<or> ps_signature ps = '''' then None else Some ps))"

definition drop_blank_tail :: "string list \<Rightarrow> string list" where
  "drop_blank_tail ls = rev (dropWhile (\<lambda>l. strip l = '''') (rev ls))"

definition strip_signature :: "string \<Rightarrow> string" where
  "strip_signature content =
     (let lines = split_on newline content in
      case marker_idx lines of
        None \<Rightarrow> content
      | Some i \<Rightarrow> join_with [newline] (drop_blank_tail (take i lines)) @ [newline])"

definition sign_policy_file :: "policy_codec \<Rightarrow> string \<Rightarrow> fpath \<Rightarrow> string \<Rightarrow> string \<Rightarrow> fs \<Rightarrow> fs py_result" where
  "sign_policy_file cd timestamp path key key_id files =
     (case dget files path of
        None \<Rightarrow> Inl OSError
      | Some content \<Rightarrow> Inr (dset path (sign_policy cd timestamp (strip_signature content) key key_id) files))"

definition verify_policy :: "policy_codec \<Rightarrow> string \<Rightarrow> string \<Rightarrow> string \<Rightarrow> verify_result" where
  "verify_policy cd content key key_id =
     (case parse_signature content of
        None \<Rightarrow> refused ''no signature found''
      | Some ps \<Rightarrow>
          if ps_algorithm ps \<notin> set SUPPORTED_ALGORITHMS then
            (refused (''unsupported algorithm: '' @ ps_algorithm ps))\<lparr>vr_algorithm := ps_algorithm ps\<rparr>
          else if ps_key_id ps \<noteq> key_id then
            (refused (''key_id mismatch: expected '' @ quoted key_id @ '', got '' @ quoted (ps_key_id ps)))
              \<lparr>vr_algorithm := ps_algorithm ps, vr_key_id := ps_key_id ps\<rparr>
          else if pc_hmac cd key (strip_signature content) = ps_signature ps then
            \<lparr>vr_valid = True, vr_algorithm = ps_algorithm ps, vr_key_id = ps_key_id ps, vr_timestamp = ps_timestamp ps,
              vr_error = ''''\<rparr>
          else (refused (''signature mismatch '' @ em_dash @ '' policy may have been tampered with''))
                 \<lparr>vr_algorithm := ps_algorithm ps, vr_key_id := ps_key_id ps\<rparr>)"

definition verify_policy_file :: "policy_codec \<Rightarrow> fs \<Rightarrow> fpath \<Rightarrow> string \<Rightarrow> string \<Rightarrow> verify_result" where
  "verify_policy_file cd files path key key_id =
     (case dget files path of
        None \<Rightarrow> refused ''cannot read file''
      | Some content \<Rightarrow> verify_policy cd content key key_id)"

definition load_policy_with_verification ::
  "policy_codec \<Rightarrow> fs \<Rightarrow> fpath \<Rightarrow> string option \<Rightarrow> string \<Rightarrow> string \<times> verify_result option" where
  "load_policy_with_verification cd files path effective_key key_id =
     (case dget files path of
        None \<Rightarrow> ('''', Some (refused ''cannot read file''))
      | Some content \<Rightarrow>
          (case parse_signature content of
             None \<Rightarrow>
               (case effective_key of
                  Some _ \<Rightarrow> ('''', Some (refused ''policy is unsigned but key is configured''))
                | None \<Rightarrow> (content, None))
           | Some _ \<Rightarrow>
               (case effective_key of
                  None \<Rightarrow> ('''', Some (refused ''no verification key configured for signed policy''))
                | Some key \<Rightarrow>
                    (let r = verify_policy cd content key key_id in
                     if \<not> vr_valid r then ('''', Some r) else (strip_signature content, Some r)))))"

section \<open>A signature beside the text\<close>

text \<open>\<open>path.with_suffix(path.suffix + ".sig")\<close> appends to the name of a file that has a suffix.\<close>

definition sig_path :: "fpath \<Rightarrow> fpath" where
  "sig_path p = butlast p @ [last p @ ''.sig'']"

definition sign_policy_companion :: "policy_codec \<Rightarrow> string \<Rightarrow> fpath \<Rightarrow> string \<Rightarrow> string \<Rightarrow> fs \<Rightarrow> fs py_result" where
  "sign_policy_companion cd timestamp path key key_id files =
     (case dget files path of
        None \<Rightarrow> Inl OSError
      | Some content \<Rightarrow>
          Inr (dset (sig_path path)
            (pc_dumps cd (JObj [(''algorithm'', JStr ''hmac-sha256''), (''signature'', JStr (pc_hmac cd key content)),
               (''timestamp'', JStr timestamp), (''key_id'', JStr key_id), (''policy_file'', JStr (last path))])
             @ [newline]) files))"

text \<open>A companion file whose JSON is no object of texts is outside the model (\<open>TypeError\<close>).\<close>

definition verify_policy_companion ::
  "policy_codec \<Rightarrow> fs \<Rightarrow> fpath \<Rightarrow> string \<Rightarrow> string \<Rightarrow> verify_result py_result" where
  "verify_policy_companion cd files path key key_id =
     (case dget files (sig_path path) of
        None \<Rightarrow> Inr (refused ''companion signature file not found'')
      | Some text \<Rightarrow>
          (case pc_loads cd text of
             None \<Rightarrow> Inr (refused ''cannot read signature file'')
           | Some j \<Rightarrow>
               bindE (as_obj j) (\<lambda>d.
               bindE (get_or as_str ''algorithm'' '''' d) (\<lambda>algo.
               bindE (get_or as_str ''signature'' '''' d) (\<lambda>stored_sig.
               bindE (get_or as_str ''key_id'' ''default'' d) (\<lambda>stored_key_id.
               bindE (get_or as_str ''timestamp'' '''' d) (\<lambda>timestamp. Inr (
                 if algo \<notin> set SUPPORTED_ALGORITHMS then
                   (refused (''unsupported algorithm: '' @ algo))\<lparr>vr_algorithm := algo\<rparr>
                 else if stored_key_id \<noteq> key_id then
                   (refused (''key_id mismatch: expected '' @ quoted key_id @ '', got '' @ quoted stored_key_id))
                     \<lparr>vr_algorithm := algo, vr_key_id := stored_key_id\<rparr>
                 else case dget files path of
                        None \<Rightarrow> refused ''cannot read policy file''
                      | Some content \<Rightarrow>
                          if pc_hmac cd key content = stored_sig then
                            \<lparr>vr_valid = True, vr_algorithm = algo, vr_key_id = stored_key_id, vr_timestamp = timestamp,
                              vr_error = ''''\<rparr>
                          else (refused (''signature mismatch '' @ em_dash @ '' policy may have been tampered with''))
                                 \<lparr>vr_algorithm := algo, vr_key_id := stored_key_id\<rparr>))))))))"

definition load_policy_with_companion_verification ::
  "policy_codec \<Rightarrow> fs \<Rightarrow> fpath \<Rightarrow> string option \<Rightarrow> string \<Rightarrow> (string \<times> verify_result option) py_result" where
  "load_policy_with_companion_verification cd files path effective_key key_id =
     (case (dget files (sig_path path), effective_key) of
        (None, None) \<Rightarrow> (case dget files path of None \<Rightarrow> Inl OSError | Some content \<Rightarrow> Inr (content, None))
      | (None, Some _) \<Rightarrow> Inr ('''', Some (refused ''policy is unsigned but key is configured''))
      | (Some _, None) \<Rightarrow> Inr ('''', Some (refused ''no verification key configured for signed policy''))
      | (Some _, Some key) \<Rightarrow>
          bindE (verify_policy_companion cd files path key key_id) (\<lambda>r.
            if \<not> vr_valid r then Inr ('''', Some r)
            else case dget files path of None \<Rightarrow> Inl OSError | Some content \<Rightarrow> Inr (content, Some r)))"

section \<open>Stripping\<close>

lemma rstrip_keep: "p \<noteq> [] \<Longrightarrow> \<not> f (last p) \<Longrightarrow> rstrip_by f (p @ q) = p @ rstrip_by f q"
proof -
  assume "p \<noteq> []" "\<not> f (last p)"
  then obtain c p' where p: "rev p = c # p'" "\<not> f c"
    by (metis last_rev list.exhaust list.sel(1) rev_is_Nil_conv rev_rev_ident)
  show "rstrip_by f (p @ q) = p @ rstrip_by f q"
  proof (cases "\<forall>x \<in> set q. f x")
    case True
    then have "dropWhile f (rev q @ rev p) = rev p" "dropWhile f (rev q) = []"
      using p dropWhile_append2 [of "rev q" f "rev p"] by simp_all
    then show ?thesis by (simp add: rstrip_by_def)
  next
    case False
    then obtain x where "x \<in> set (rev q)" "\<not> f x" by auto
    then show ?thesis by (simp add: rstrip_by_def dropWhile_append1)
  qed
qed

lemma rstrip_idem [simp]: "rstrip_by f (rstrip_by f s) = rstrip_by f s"
proof -
  have "dropWhile f (dropWhile f xs) = dropWhile f xs" for xs by (induction xs) auto
  then show ?thesis by (simp add: rstrip_by_def)
qed

lemma strip_keep: "\<not> is_space c \<Longrightarrow> \<not> is_space (last (c # p)) \<Longrightarrow> strip (c # p @ q) = c # p @ rstrip_by is_space q"
  using rstrip_keep [of "c # p" is_space q] by (simp add: strip_def lstrip_by_def)

lemma strip_blank_prefix: "is_space c \<Longrightarrow> strip (c # s) = strip s"
  by (simp add: strip_def lstrip_by_def)

lemma rstrip_all: "\<forall>x \<in> set s. f x \<Longrightarrow> rstrip_by f s = []"
  by (simp add: rstrip_by_def)

lemma strip_rstrip: "strip (rstrip_by is_space s) = strip s"
proof (cases "\<forall>x \<in> set s. is_space x")
  case True
  then have "\<forall>x \<in> set (dropWhile is_space s). is_space x" by (meson set_dropWhileD)
  then have "rstrip_by is_space (dropWhile is_space s) = []" by (rule rstrip_all)
  then have "strip s = []" by (simp add: strip_def lstrip_by_def)
  moreover have "rstrip_by is_space s = []" using True by (rule rstrip_all)
  moreover have "strip [] = []" by (simp add: strip_def lstrip_by_def rstrip_by_def)
  ultimately show ?thesis by metis
next
  case False
  then obtain a c b where s: "s = a @ c # b" and a: "\<forall>x \<in> set a. is_space x" and c: "\<not> is_space c"
    using split_list_first_prop [of s "\<lambda>x. \<not> is_space x"] by auto
  have skip: "dropWhile is_space (a @ c # r) = c # r" for r
    using a c dropWhile_append2 [of a is_space "c # r"] by simp
  have keep: "rstrip_by is_space (c # r) = c # rstrip_by is_space r" for r
    using rstrip_keep [of "[c]" is_space r] c by simp
  have "rstrip_by is_space s = a @ c # rstrip_by is_space b"
    using rstrip_keep [of "a @ [c]" is_space b] c by (simp add: s)
  then show ?thesis
    by (simp add: strip_def lstrip_by_def skip keep) (simp add: s skip keep)
qed

section \<open>What a signature inside the text protects\<close>

lemma parse_line:
  assumes w: "w = h # t" "\<forall>c \<in> set w. \<not> is_space c \<and> c \<noteq> CHR ''#'' \<and> c \<noteq> CHR '':''"
  shows "strip (''# '' @ w @ '':'' @ q) = ''# '' @ w @ '':'' @ rstrip_by is_space q"
    and "strip (lstrip_by (\<lambda>c. c \<in> {CHR ''#'', CHR '' ''}) (''# '' @ w @ '':'' @ rstrip_by is_space q)) = w @ '':'' @ rstrip_by is_space q"
    and "field_value (w @ '':'' @ rstrip_by is_space q) = strip q"
proof -
  have colon: "\<not> is_space (CHR '':'')" "\<not> is_space (CHR ''#'')" "is_space (CHR '' '')"
    by (simp_all add: is_space_def Let_def)
  have nocolon: "CHR '':'' \<notin> set w" using w(2) by blast
  show "strip (''# '' @ w @ '':'' @ q) = ''# '' @ w @ '':'' @ rstrip_by is_space q"
    using strip_keep [of "CHR ''#''" "'' '' @ w @ '':''" q] colon by simp
  have h: "\<not> is_space h" "h \<noteq> CHR ''#''" "h \<noteq> CHR '' ''" using w colon(3) by auto
  have "dropWhile (\<lambda>c. c \<in> {CHR ''#'', CHR '' ''}) (''# '' @ w @ '':'' @ rstrip_by is_space q) = w @ '':'' @ rstrip_by is_space q"
    using h(2,3) by (simp add: w(1))
  moreover have "strip (h # (t @ '':'') @ rstrip_by is_space q) = h # (t @ '':'') @ rstrip_by is_space q"
    using strip_keep [of h "t @ '':''" "rstrip_by is_space q"] h(1) colon(1) by simp
  ultimately show "strip (lstrip_by (\<lambda>c. c \<in> {CHR ''#'', CHR '' ''}) (''# '' @ w @ '':'' @ rstrip_by is_space q)) = w @ '':'' @ rstrip_by is_space q"
    by (simp add: lstrip_by_def w(1))
  show "field_value (w @ '':'' @ rstrip_by is_space q) = strip q"
    unfolding field_value_def using split_first_at [OF nocolon, of "rstrip_by is_space q"] by (simp add: strip_rstrip)
qed

lemma field_lines:
  "parse_fields ps ((''# algorithm:'' @ q) # ls) = parse_fields (ps\<lparr>ps_algorithm := strip q\<rparr>) ls"
  "parse_fields ps ((''# signature:'' @ q) # ls) = parse_fields (ps\<lparr>ps_signature := strip q\<rparr>) ls"
  "parse_fields ps ((''# timestamp:'' @ q) # ls) = parse_fields (ps\<lparr>ps_timestamp := strip q\<rparr>) ls"
  "parse_fields ps ((''# key_id:'' @ q) # ls) = parse_fields (ps\<lparr>ps_key_id := strip q\<rparr>) ls"
  using parse_line [of "''algorithm''" _ _ q] parse_line [of "''signature''" _ _ q]
    parse_line [of "''timestamp''" _ _ q] parse_line [of "''key_id''" _ _ q]
  by (simp_all add: Let_def is_space_def)

lemma marker_first: "\<forall>l \<in> set ls. \<not> is_marker l \<Longrightarrow> is_marker m \<Longrightarrow> marker_idx (ls @ m # rest) = Some (length ls)"
  by (induction ls) auto

lemma marker_none: "marker_idx ls = None \<longleftrightarrow> (\<forall>l \<in> set ls. \<not> is_marker l)"
  by (induction ls) auto

text \<open>A text that carries no signature of its own, and what HMAC's hexadecimal digest looks like.\<close>

definition unsigned_text :: "string \<Rightarrow> bool" where
  "unsigned_text content \<longleftrightarrow> list_all (\<lambda>l. \<not> is_marker l) (split_on newline content)"

definition hexdigest :: "string \<Rightarrow> bool" where
  "hexdigest s \<longleftrightarrow> s \<noteq> '''' \<and> list_all (\<lambda>c. c \<in> set ''0123456789abcdef'') s"

text \<open>One line: no line break, no blank at its ends.\<close>

definition one_line :: "string \<Rightarrow> bool" where
  "one_line s \<longleftrightarrow> newline \<notin> set s \<and> strip s = s"

lemma hexdigest_one_line:
  assumes "hexdigest s"
  shows "one_line s"
proof -
  have hex: "\<forall>c \<in> set s. \<not> is_space c \<and> c \<noteq> newline"
  proof -
    have "list_all (\<lambda>c. \<not> is_space c \<and> c \<noteq> newline) ''0123456789abcdef''" by code_simp
    then show ?thesis using assms unfolding hexdigest_def list_all_iff by blast
  qed
  obtain c p where s: "s = c # p" using assms by (cases s) (auto simp: hexdigest_def)
  have "\<not> is_space (last s)" using hex s by (metis last_in_set list.discI)
  then have "strip s = s"
    using strip_keep [of c p "[]"] hex s by (simp add: rstrip_by_def)
  with hex show ?thesis by (auto simp: one_line_def)
qed

lemma signed_lines:
  assumes "newline \<notin> set sig" and "newline \<notin> set ts" and "newline \<notin> set kid"
  shows "split_on newline (content @ signature_block sig ts kid) =
    split_on newline content @ [SIGNATURE_MARKER, ''# algorithm: hmac-sha256'', ''# signature: '' @ sig, ''# timestamp: '' @ ts,
      ''# key_id: '' @ kid, '''']"
proof -
  have block: "signature_block sig ts kid = newline # (SIGNATURE_MARKER @ newline # (''# algorithm: hmac-sha256'' @ newline #
     ((''# signature: '' @ sig) @ newline # ((''# timestamp: '' @ ts) @ newline # ((''# key_id: '' @ kid) @ newline # [])))))"
    by (simp add: signature_block_def)
  have one: "split_on newline SIGNATURE_MARKER = [SIGNATURE_MARKER]"
    "split_on newline ''# algorithm: hmac-sha256'' = [''# algorithm: hmac-sha256'']"
    "split_on newline (''# signature: '' @ sig) = [''# signature: '' @ sig]"
    "split_on newline (''# timestamp: '' @ ts) = [''# timestamp: '' @ ts]"
    "split_on newline (''# key_id: '' @ kid) = [''# key_id: '' @ kid]"
    "split_on newline [] = ['''']"
    by (rule split_on_none, use assms in \<open>simp add: SIGNATURE_MARKER_def\<close>)+
  show ?thesis
    unfolding block split_on_append_any one by (simp only: append.simps)
qed

lemma block_fields:
  assumes "one_line sig" and "one_line ts" and "one_line kid"
  shows "parse_fields ps [''# algorithm:'' @ '' hmac-sha256'', ''# signature:'' @ '' '' @ sig, ''# timestamp:'' @ '' '' @ ts,
      ''# key_id:'' @ '' '' @ kid, ''''] =
      ps\<lparr>ps_algorithm := ''hmac-sha256'', ps_signature := sig, ps_timestamp := ts, ps_key_id := kid\<rparr>"
proof -
  have alg: "strip '' hmac-sha256'' = ''hmac-sha256''" by code_simp
  have rest: "parse_fields p [''''] = p" for p
    by (simp add: strip_def lstrip_by_def rstrip_by_def)
  have val: "strip ('' '' @ x) = x" if "one_line x" for x
    using that strip_blank_prefix [of "CHR '' ''" x] by (simp add: one_line_def is_space_def)
  show ?thesis
    unfolding field_lines alg rest val [OF assms(1)] val [OF assms(2)] val [OF assms(3)] ..
qed

lemma parse_signed:
  assumes "unsigned_text content" and "hexdigest sig" and "one_line ts" and "one_line kid"
  shows "parse_signature (content @ signature_block sig ts kid) =
      Some \<lparr>ps_algorithm = ''hmac-sha256'', ps_signature = sig, ps_timestamp = ts, ps_key_id = kid\<rparr>"
    and "strip_signature (content @ signature_block sig ts kid) =
      join_with [newline] (drop_blank_tail (split_on newline content)) @ [newline]"
proof -
  have sig: "one_line sig" using assms(2) by (rule hexdigest_one_line)
  define tail where "tail = [''# algorithm:'' @ '' hmac-sha256'', ''# signature:'' @ '' '' @ sig, ''# timestamp:'' @ '' '' @ ts,
      ''# key_id:'' @ '' '' @ kid, '''']"
  have lines: "split_on newline (content @ signature_block sig ts kid) = split_on newline content @ SIGNATURE_MARKER # tail"
    using signed_lines assms(3,4) sig by (simp add: one_line_def tail_def)
  have idx: "marker_idx (split_on newline content @ SIGNATURE_MARKER # tail) = Some (length (split_on newline content))"
  proof (rule marker_first)
    show "\<forall>l \<in> set (split_on newline content). \<not> is_marker l"
      using assms(1) by (simp add: unsigned_text_def list_all_iff)
  qed (simp add: is_marker_def)
  have fields: "parse_fields ps tail =
      ps\<lparr>ps_algorithm := ''hmac-sha256'', ps_signature := sig, ps_timestamp := ts, ps_key_id := kid\<rparr>" for ps
    unfolding tail_def using sig assms(3,4) by (rule block_fields)
  show "parse_signature (content @ signature_block sig ts kid) =
      Some \<lparr>ps_algorithm = ''hmac-sha256'', ps_signature = sig, ps_timestamp = ts, ps_key_id = kid\<rparr>"
    using assms(2) by (simp add: parse_signature_def lines idx fields hexdigest_def)
  show "strip_signature (content @ signature_block sig ts kid) =
      join_with [newline] (drop_blank_tail (split_on newline content)) @ [newline]"
    by (simp add: strip_signature_def lines idx)
qed

text \<open>
  C40. A signature inside the text verifies exactly when the text it covers survives the removal of the
  block: \<open>verify_policy\<close> accepts what \<open>sign_policy\<close> made with the same key if and only if the digest of
  the text equals the digest of the text without its blank tail and with one line break at its end.
\<close>

theorem sign_then_verify:
  assumes "\<And>k c. hexdigest (pc_hmac cd k c)" and "unsigned_text content" and "one_line ts" and "one_line kid"
  shows "vr_valid (verify_policy cd (sign_policy cd ts content key kid) key kid) \<longleftrightarrow>
    pc_hmac cd key (join_with [newline] (drop_blank_tail (split_on newline content)) @ [newline]) = pc_hmac cd key content"
  using parse_signed [OF assms(2,1,3,4), of key content]
  by (auto simp: verify_policy_def sign_policy_def SUPPORTED_ALGORITHMS_def refused_def)

text \<open>A digest for examples that tells any two texts of different length apart.\<close>

definition length_hmac :: policy_codec where
  "length_hmac = \<lparr>pc_hmac = (\<lambda>k c. replicate (Suc (length c)) (CHR ''a'')), pc_sha256 = id, pc_dumps = (\<lambda>_. ''''),
     pc_loads = (\<lambda>_. None)\<rparr>"

theorem sign_then_verify_witness:
  "vr_valid (verify_policy length_hmac (sign_policy length_hmac ''t'' [CHR ''a'', newline] ''k'' ''default'') ''k'' ''default'') \<and>
   \<not> vr_valid (verify_policy length_hmac (sign_policy length_hmac ''t'' ''a'' ''k'' ''default'') ''k'' ''default'')"
proof -
  have hex: "hexdigest (pc_hmac length_hmac k c)" for k c
    by (simp add: length_hmac_def hexdigest_def list_all_iff)
  have one: "one_line ''t''" "one_line ''default''" by code_simp+
  have un: "unsigned_text [CHR ''a'', newline]" "unsigned_text ''a''" by code_simp+
  show ?thesis
    unfolding sign_then_verify [OF hex un(1) one] sign_then_verify [OF hex un(2) one] by code_simp
qed

section \<open>What a companion file protects\<close>

text \<open>JSON text is read back with the line break \<open>write_text\<close> appends.\<close>

definition json_text :: "policy_codec \<Rightarrow> bool" where
  "json_text cd \<longleftrightarrow> (\<forall>j. pc_loads cd (pc_dumps cd j) = Some j \<and> pc_loads cd (pc_dumps cd j @ [newline]) = Some j)"

lemma sig_path_neq: "p \<noteq> [] \<Longrightarrow> sig_path p \<noteq> p"
  by (cases p rule: rev_cases) (auto simp: sig_path_def)

lemma companion_loads:
  assumes "json_text cd" and "p \<noteq> []" and "dget files p = Some content"
    and "sign_policy_companion cd ts p key kid files = Inr files'"
  shows "\<exists>r. load_policy_with_companion_verification cd files' p (Some key) kid = Inr (content, Some r) \<and> vr_valid r"
proof -
  have files': "files' = dset (sig_path p) (pc_dumps cd (JObj [(''algorithm'', JStr ''hmac-sha256''),
      (''signature'', JStr (pc_hmac cd key content)), (''timestamp'', JStr ts), (''key_id'', JStr kid),
      (''policy_file'', JStr (last p))]) @ [newline]) files"
    using assms(3,4) by (simp add: sign_policy_companion_def)
  have "dget files' p = Some content"
    using assms(2,3) sig_path_neq [of p] by (simp add: files')
  then show ?thesis
    using assms(1)
    by (simp add: load_policy_with_companion_verification_def verify_policy_companion_def files' json_text_def
        get_or_def SUPPORTED_ALGORITHMS_def)
qed

text \<open>
  The companion names its policy file and nothing reads it: a text and its signature verify under any
  other name, so an old version or another policy can take the place of the current one.
\<close>

lemma companion_not_bound_to_name:
  assumes "dget files' q = dget files p" and "dget files' (sig_path q) = dget files (sig_path p)"
  shows "load_policy_with_companion_verification cd files' q key kid = load_policy_with_companion_verification cd files p key kid"
  unfolding load_policy_with_companion_verification_def verify_policy_companion_def assms ..

text \<open>With a key, a load returns the text of the file or refuses it.\<close>

lemma companion_load_verified:
  assumes "load_policy_with_companion_verification cd files p (Some key) kid = Inr (content, r)"
  shows "(\<exists>v. r = Some v \<and> \<not> vr_valid v) \<or> dget files p = Some content \<and> (\<exists>v. r = Some v \<and> vr_valid v)"
  using assms
  by (auto simp: load_policy_with_companion_verification_def refused_def bindE_eq_Inr split: option.splits if_splits)

end
