(* ===== verification/L3_Policy.thy ===== *)
theory L3_Policy
  imports Policy_Signing
begin

text \<open>
  Sandbox policies (\<open>src/picosentry/sandbox/l3/models.py\<close>, \<open>policy.py\<close>, \<open>policy_hash.py\<close>): rules and policies with
  their dictionaries, the built-in rule tables, loading by name or path, validation, import and export,
  and the hash of a policy.
\<close>

section \<open>Models\<close>

datatype syscall_action = ALLOW | DENY | KILL | TRACE

fun action_value :: "syscall_action \<Rightarrow> string" where
  "action_value ALLOW = ''allow''"
| "action_value DENY = ''deny''"
| "action_value KILL = ''kill''"
| "action_value TRACE = ''trace''"

datatype rule_target =
    FILE_READ | FILE_WRITE | FILE_EXEC | NETWORK_OUT | NETWORK_IN | NETWORK_BIND | PROCESS_SPAWN | PROCESS_KILL
  | DNS_QUERY | SIGNAL_SEND | SYSCALL_GENERIC

fun target_value :: "rule_target \<Rightarrow> string" where
  "target_value FILE_READ = ''file_read''"
| "target_value FILE_WRITE = ''file_write''"
| "target_value FILE_EXEC = ''file_exec''"
| "target_value NETWORK_OUT = ''network_out''"
| "target_value NETWORK_IN = ''network_in''"
| "target_value NETWORK_BIND = ''network_bind''"
| "target_value PROCESS_SPAWN = ''process_spawn''"
| "target_value PROCESS_KILL = ''process_kill''"
| "target_value DNS_QUERY = ''dns_query''"
| "target_value SIGNAL_SEND = ''signal_send''"
| "target_value SYSCALL_GENERIC = ''syscall_generic''"

definition all_actions :: "syscall_action list" where
  "all_actions = [ALLOW, DENY, KILL, TRACE]"

definition all_targets :: "rule_target list" where
  "all_targets = [FILE_READ, FILE_WRITE, FILE_EXEC, NETWORK_OUT, NETWORK_IN, NETWORK_BIND, PROCESS_SPAWN, PROCESS_KILL,
     DNS_QUERY, SIGNAL_SEND, SYSCALL_GENERIC]"

text \<open>\<open>SyscallAction(x)\<close> and \<open>RuleTarget(x)\<close>: a value no member has raises \<open>ValueError\<close>.\<close>

definition action_of :: "json \<Rightarrow> syscall_action py_result" where
  "action_of v =
     (case find (\<lambda>a. JStr (action_value a) = v) all_actions of None \<Rightarrow> Inl (ValueError ''SyscallAction'') | Some a \<Rightarrow> Inr a)"

definition target_of :: "json \<Rightarrow> rule_target py_result" where
  "target_of v =
     (case find (\<lambda>t. JStr (target_value t) = v) all_targets of None \<Rightarrow> Inl (ValueError ''RuleTarget'') | Some t \<Rightarrow> Inr t)"

record policy_rule =
  pr_id :: string
  pr_target :: rule_target
  pr_action :: syscall_action
  pr_paths :: "string list"
  pr_addresses :: "string list"
  pr_syscalls :: "string list"
  pr_description :: string

definition strings :: "string list \<Rightarrow> json" where
  "strings xs = JList (map JStr xs)"

definition rule_to_dict :: "policy_rule \<Rightarrow> json" where
  "rule_to_dict r = JObj
     [(''action'', JStr (action_value (pr_action r))), (''addresses'', strings (pr_addresses r)),
      (''description'', JStr (pr_description r)), (''paths'', strings (pr_paths r)), (''rule_id'', JStr (pr_id r)),
      (''syscalls'', strings (pr_syscalls r)), (''target'', JStr (target_value (pr_target r)))]"

record l3_policy =
  po_name :: string
  po_version :: string
  po_default_action :: syscall_action
  po_rules :: "policy_rule list"
  po_fail_closed :: bool

definition l3_policy_to_dict :: "l3_policy \<Rightarrow> (string \<times> json) list" where
  "l3_policy_to_dict p =
     [(''default_action'', JStr (action_value (po_default_action p))), (''fail_closed'', JBool (po_fail_closed p)),
      (''name'', JStr (po_name p)), (''rules'', JList (map rule_to_dict (po_rules p))), (''version'', JStr (po_version p))]"

datatype sandbox_verdict = V_ALLOW | V_DENY | V_KILL

fun sandbox_verdict_value :: "sandbox_verdict \<Rightarrow> string" where
  "sandbox_verdict_value V_ALLOW = ''ALLOW''"
| "sandbox_verdict_value V_DENY = ''DENY''"
| "sandbox_verdict_value V_KILL = ''KILL''"

record sandbox_event =
  se_rule_id :: string
  se_verdict :: sandbox_verdict
  se_operation :: string
  se_detail :: string
  se_path :: string
  se_address :: string
  se_timestamp_ms :: int

definition event_to_dict :: "bool \<Rightarrow> sandbox_event \<Rightarrow> (string \<times> json) list" where
  "event_to_dict deterministic e =
     sort_key fst
       ([(''detail'', JStr (se_detail e)), (''operation'', JStr (se_operation e)), (''path'', JStr (se_path e)),
         (''rule_id'', JStr (se_rule_id e)), (''verdict'', JStr (sandbox_verdict_value (se_verdict e)))]
        @ (if se_address e \<noteq> '''' then [(''address'', JStr (se_address e))] else [])
        @ (if \<not> deterministic \<and> se_timestamp_ms e \<noteq> 0 then [(''timestamp_ms'', JInt (se_timestamp_ms e))] else []))"

record sandbox_result =
  sr_run_id :: string
  sr_timestamp :: string
  sr_policy_hash :: string
  sr_policy_version :: string
  sr_command :: "string list"
  sr_verdict :: sandbox_verdict
  sr_exit_code :: int
  sr_duration_ms :: int
  sr_events :: "sandbox_event list"
  sr_policy_name :: string
  sr_backend_name :: string
  sr_isolation_level :: string
  sr_enforcement :: string
  sr_degraded :: bool

definition sandbox_result_to_dict :: "bool \<Rightarrow> sandbox_result \<Rightarrow> (string \<times> json) list" where
  "sandbox_result_to_dict deterministic r =
     sort_key fst
       ([(''backend'', JStr (sr_backend_name r)), (''command'', strings (sr_command r)), (''degraded'', JBool (sr_degraded r)),
         (''enforcement_guarantee'', JStr (sr_enforcement r)),
         (''events'', JList (map (\<lambda>e. JObj (event_to_dict deterministic e)) (sr_events r))),
         (''exit_code'', JInt (sr_exit_code r)), (''isolation_level'', JStr (sr_isolation_level r)),
         (''overall_verdict'', JStr (sandbox_verdict_value (sr_verdict r))), (''policy_name'', JStr (sr_policy_name r)),
         (''policy_version'', JStr (sr_policy_version r)), (''policy_hash'', JStr (sr_policy_hash r))]
        @ (if deterministic then []
           else [(''duration_ms'', JInt (sr_duration_ms r))]
             @ (if sr_run_id r \<noteq> '''' then [(''run_id'', JStr (sr_run_id r))] else [])
             @ (if sr_timestamp r \<noteq> '''' then [(''timestamp'', JStr (sr_timestamp r))] else [])))"

section \<open>The built-in rules\<close>

definition DEFAULT_RULES :: "json list" where
  "DEFAULT_RULES = [
    JObj [(''rule_id'', JStr ''L3-FILE-R-001''),
      (''target'', JStr ''file_read''),
      (''action'', JStr ''allow''),
      (''paths'', JList (map JStr [''/usr/lib/**'', ''/lib/**'', ''/usr/share/**'', ''/etc/ld.so.cache'',
         ''/etc/localtime'', ''/proc/self/**''])),
      (''description'', JStr ''Read system libraries and locale info'')],
    JObj [(''rule_id'', JStr ''L3-FILE-R-002''),
      (''target'', JStr ''file_read''),
      (''action'', JStr ''allow''),
      (''paths'', JList (map JStr [''/usr/lib/python3*/**'', ''**/site-packages/**''])),
      (''description'', JStr ''Read Python packages'')],
    JObj [(''rule_id'', JStr ''L3-FILE-R-003''),
      (''target'', JStr ''file_read''),
      (''action'', JStr ''allow''),
      (''paths'', JList (map JStr [''./**'', ''/tmp/**''])),
      (''description'', JStr ''Read project and temp files only'')],
    JObj [(''rule_id'', JStr ''L3-FILE-R-004''),
      (''target'', JStr ''file_read''),
      (''action'', JStr ''allow''),
      (''paths'', JList (map JStr [''**/package.json'', ''**/package-lock.json'', ''**/requirements.txt'',
         ''**/pyproject.toml'', ''**/setup.cfg'', ''**/setup.py'', ''**/Cargo.toml'', ''**/go.mod'', ''**/go.sum'',
         ''**/.npmrc'', ''**/Makefile'', ''**/CMakeLists.txt''])),
      (''description'', JStr ''Read project configuration files'')],
    JObj [(''rule_id'', JStr ''L3-FILE-W-001''),
      (''target'', JStr ''file_write''),
      (''action'', JStr ''allow''),
      (''paths'', JList (map JStr [''/tmp/**'', ''/dev/null'', ''/dev/stdout'', ''/dev/stderr''])),
      (''description'', JStr ''Write grants: landlock scopes to the workspace + listed paths (a /tmp glob tightens to the workspace); seccomp-bpf cannot scope by path'')],
    JObj [(''rule_id'', JStr ''L3-NET-OUT-001''),
      (''target'', JStr ''network_out''),
      (''action'', JStr ''deny''),
      (''description'', JStr ''Block all outbound network'')],
    JObj [(''rule_id'', JStr ''L3-DNS-001''),
      (''target'', JStr ''dns_query''),
      (''action'', JStr ''allow''),
      (''description'', JStr ''Allow DNS resolution'')],
    JObj [(''rule_id'', JStr ''L3-PROC-001''),
      (''target'', JStr ''process_spawn''),
      (''action'', JStr ''deny''),
      (''description'', JStr ''Block process spawning'')],
    JObj [(''rule_id'', JStr ''L3-NET-BIND-001''),
      (''target'', JStr ''network_bind''),
      (''action'', JStr ''deny''),
      (''description'', JStr ''Block network bind/listen'')]]"

definition STRICT_RULES :: "json list" where
  "STRICT_RULES = [
    JObj [(''rule_id'', JStr ''L3-STRICT-001''),
      (''target'', JStr ''file_read''),
      (''action'', JStr ''deny''),
      (''description'', JStr ''Deny all file reads'')],
    JObj [(''rule_id'', JStr ''L3-STRICT-002''),
      (''target'', JStr ''file_write''),
      (''action'', JStr ''deny''),
      (''description'', JStr ''Deny all file writes'')],
    JObj [(''rule_id'', JStr ''L3-STRICT-003''),
      (''target'', JStr ''network_out''),
      (''action'', JStr ''deny''),
      (''description'', JStr ''Deny all outbound network'')],
    JObj [(''rule_id'', JStr ''L3-STRICT-004''),
      (''target'', JStr ''network_in''),
      (''action'', JStr ''deny''),
      (''description'', JStr ''Deny all inbound network'')],
    JObj [(''rule_id'', JStr ''L3-STRICT-005''),
      (''target'', JStr ''network_bind''),
      (''action'', JStr ''deny''),
      (''description'', JStr ''Deny all network binding'')],
    JObj [(''rule_id'', JStr ''L3-STRICT-006''),
      (''target'', JStr ''process_spawn''),
      (''action'', JStr ''deny''),
      (''description'', JStr ''Deny all process spawning'')],
    JObj [(''rule_id'', JStr ''L3-STRICT-007''),
      (''target'', JStr ''dns_query''),
      (''action'', JStr ''deny''),
      (''description'', JStr ''Deny all DNS queries'')],
    JObj [(''rule_id'', JStr ''L3-STRICT-008''),
      (''target'', JStr ''file_exec''),
      (''action'', JStr ''deny''),
      (''description'', JStr ''Deny all file execution'')],
    JObj [(''rule_id'', JStr ''L3-STRICT-009''),
      (''target'', JStr ''signal_send''),
      (''action'', JStr ''deny''),
      (''description'', JStr ''Deny all signal sending'')]]"

definition NODE_RULES :: "json list" where
  "NODE_RULES = [
    JObj [(''rule_id'', JStr ''L3-NODE-R-001''),
      (''target'', JStr ''file_read''),
      (''action'', JStr ''allow''),
      (''paths'', JList (map JStr [''/usr/lib/**'', ''/lib/**'', ''/usr/share/**'', ''/etc/localtime'',
         ''/proc/self/**'', ''**/node_modules/**'', ''**/package.json'', ''**/package-lock.json'', ''**/.npm/**''])),
      (''description'', JStr ''Read Node.js system and project files'')],
    JObj [(''rule_id'', JStr ''L3-NODE-R-002''),
      (''target'', JStr ''file_write''),
      (''action'', JStr ''allow''),
      (''paths'', JList (map JStr [''/tmp/**'', ''/dev/null'', ''/dev/stdout'', ''/dev/stderr'',
         ''**/node_modules/**'', ''**/package-lock.json'', ''**/.npm/**''])),
      (''description'', JStr ''Write to node_modules and npm cache'')],
    JObj [(''rule_id'', JStr ''L3-NODE-NET-001''),
      (''target'', JStr ''network_out''),
      (''action'', JStr ''allow''),
      (''description'', JStr ''Allow outbound network (npm registry)'')],
    JObj [(''rule_id'', JStr ''L3-NODE-DNS-001''),
      (''target'', JStr ''dns_query''),
      (''action'', JStr ''allow''),
      (''description'', JStr ''Allow DNS resolution'')],
    JObj [(''rule_id'', JStr ''L3-NODE-PROC-001''),
      (''target'', JStr ''process_spawn''),
      (''action'', JStr ''allow''),
      (''description'', JStr ''Allow process spawning (node, npm)'')],
    JObj [(''rule_id'', JStr ''L3-NODE-BIND-001''),
      (''target'', JStr ''network_bind''),
      (''action'', JStr ''allow''),
      (''description'', JStr ''Allow network binding (npm needs NETLINK bind for DNS)'')],
    JObj [(''rule_id'', JStr ''L3-NODE-EXEC-001''),
      (''target'', JStr ''file_exec''),
      (''action'', JStr ''allow''),
      (''paths'', JList (map JStr [''/usr/bin/node'', ''/usr/local/bin/node'', ''/usr/bin/npm'',
         ''/usr/local/bin/npm'', ''/usr/bin/npx'', ''/usr/local/bin/npx''])),
      (''description'', JStr ''Allow node/npm execution'')]]"

definition PYTHON_RULES :: "json list" where
  "PYTHON_RULES = [
    JObj [(''rule_id'', JStr ''L3-PY-R-001''),
      (''target'', JStr ''file_read''),
      (''action'', JStr ''allow''),
      (''paths'', JList (map JStr [''/usr/lib/**'', ''/lib/**'', ''/usr/share/**'', ''/etc/localtime'',
         ''/proc/self/**'', ''**/site-packages/**'', ''**/*.py'', ''**/pyproject.toml'', ''**/setup.py'',
         ''**/requirements.txt'', ''**/pip.conf'', ''**/.pip/**''])),
      (''description'', JStr ''Read Python system and project files'')],
    JObj [(''rule_id'', JStr ''L3-PY-R-002''),
      (''target'', JStr ''file_write''),
      (''action'', JStr ''allow''),
      (''paths'', JList (map JStr [''/tmp/**'', ''/dev/null'', ''/dev/stdout'', ''/dev/stderr'',
         ''**/site-packages/**'', ''**/__pycache__/**'', ''**/*.pyc''])),
      (''description'', JStr ''Write to site-packages and cache'')],
    JObj [(''rule_id'', JStr ''L3-PY-NET-001''),
      (''target'', JStr ''network_out''),
      (''action'', JStr ''allow''),
      (''description'', JStr ''Allow outbound network (PyPI)'')],
    JObj [(''rule_id'', JStr ''L3-PY-DNS-001''),
      (''target'', JStr ''dns_query''),
      (''action'', JStr ''allow''),
      (''description'', JStr ''Allow DNS resolution'')],
    JObj [(''rule_id'', JStr ''L3-PY-PROC-001''),
      (''target'', JStr ''process_spawn''),
      (''action'', JStr ''allow''),
      (''description'', JStr ''Allow process spawning (python, pip)'')],
    JObj [(''rule_id'', JStr ''L3-PY-BIND-001''),
      (''target'', JStr ''network_bind''),
      (''action'', JStr ''allow''),
      (''description'', JStr ''Allow network binding (pip needs NETLINK bind for DNS)'')],
    JObj [(''rule_id'', JStr ''L3-PY-EXEC-001''),
      (''target'', JStr ''file_exec''),
      (''action'', JStr ''allow''),
      (''paths'', JList (map JStr [''/usr/bin/python*'', ''/usr/local/bin/python*'', ''/usr/bin/pip*'',
         ''/usr/local/bin/pip*''])),
      (''description'', JStr ''Allow python/pip execution'')]]"

definition NAMED_POLICIES :: "(string, json list) pydict" where
  "NAMED_POLICIES =
     [(''default'', DEFAULT_RULES), (''strict'', STRICT_RULES), (''node'', NODE_RULES), (''python'', PYTHON_RULES)]"

section \<open>Decoding\<close>

definition as_strings :: "json \<Rightarrow> string list py_result" where
  "as_strings v = bindE (as_list v) (mapE as_str)"

definition rule_from_dict :: "json \<Rightarrow> policy_rule py_result" where
  "rule_from_dict j =
     bindE (as_obj j) (\<lambda>r.
     bindE (need as_str ''rule_id'' r) (\<lambda>rule_id.
     bindE (need target_of ''target'' r) (\<lambda>target.
     bindE (need action_of ''action'' r) (\<lambda>action.
     bindE (get_or as_strings ''paths'' [] r) (\<lambda>paths.
     bindE (get_or as_strings ''addresses'' [] r) (\<lambda>addresses.
     bindE (get_or as_strings ''syscalls'' [] r) (\<lambda>syscalls.
     bindE (get_or as_str ''description'' '''' r) (\<lambda>description.
       Inr \<lparr>pr_id = rule_id, pr_target = target, pr_action = action, pr_paths = paths, pr_addresses = addresses,
            pr_syscalls = syscalls, pr_description = description\<rparr>))))))))"

definition rules_from_list :: "json list \<Rightarrow> policy_rule list py_result" where
  "rules_from_list = mapE rule_from_dict"

definition l3_policy_from_dict :: "(string \<times> json) list \<Rightarrow> l3_policy py_result" where
  "l3_policy_from_dict d =
     bindE (bindE (get_or as_list ''rules'' [] d) rules_from_list) (\<lambda>rules.
     bindE (get_or as_str ''name'' ''custom'' d) (\<lambda>name.
     bindE (get_or as_str ''version'' ''1.0'' d) (\<lambda>version.
     bindE (get_or action_of ''default_action'' DENY d) (\<lambda>default_action.
     bindE (get_or as_bool ''fail_closed'' True d) (\<lambda>fail_closed.
       Inr \<lparr>po_name = name, po_version = version, po_default_action = default_action, po_rules = rules,
            po_fail_closed = fail_closed\<rparr>)))))"

definition named_policy :: "string \<Rightarrow> json list \<Rightarrow> l3_policy py_result" where
  "named_policy name rules_data =
     bindE (rules_from_list rules_data) (\<lambda>rules.
       Inr \<lparr>po_name = ''picodome-'' @ name, po_version = ''1.0'', po_default_action = DENY, po_rules = rules,
            po_fail_closed = True\<rparr>)"

definition l3_default_policy :: "l3_policy py_result" where
  "l3_default_policy = named_policy ''default'' DEFAULT_RULES"

definition strict_policy :: "l3_policy py_result" where
  "strict_policy = named_policy ''strict'' STRICT_RULES"

definition node_policy :: "l3_policy py_result" where
  "node_policy = named_policy ''node'' NODE_RULES"

definition python_policy :: "l3_policy py_result" where
  "python_policy = named_policy ''python'' PYTHON_RULES"

section \<open>Loading, validation, import and export\<close>

definition bad_policy_name :: "string \<Rightarrow> bool" where
  "bad_policy_name name \<longleftrightarrow>
     CHR ''/'' \<in> set name \<or> CHR 0x5C \<in> set name \<or> sublist ''..'' name \<or>
     rstrip_by (\<lambda>c. c = CHR ''.'') (lstrip_by (\<lambda>c. c = CHR ''.'') name) = ''''"

text \<open>The versioned store wraps the policy in the key \<open>policy\<close>.\<close>

definition unwrap_policy :: "json \<Rightarrow> json" where
  "unwrap_policy j =
     (case j of JObj d \<Rightarrow> (case dget d ''policy'' of Some (JObj p) \<Rightarrow> JObj p | _ \<Rightarrow> j) | _ \<Rightarrow> j)"

definition parse_policy_text :: "policy_codec \<Rightarrow> string \<Rightarrow> l3_policy py_result" where
  "parse_policy_text cd text =
     (case pc_loads cd text of
        None \<Rightarrow> Inl (ValueError ''json'')
      | Some j \<Rightarrow> bindE (as_obj (unwrap_policy j)) l3_policy_from_dict)"

definition load_policy_file ::
  "policy_codec \<Rightarrow> string option \<Rightarrow> fs \<Rightarrow> fpath \<Rightarrow> bool \<Rightarrow> l3_policy py_result" where
  "load_policy_file cd key files path verify_signature =
     (if verify_signature then
        bindE (load_policy_with_companion_verification cd files path key ''default'') (\<lambda>(content, result).
          case result of
            Some r \<Rightarrow>
              if \<not> vr_valid r then Inl (ValueError (''Policy signature verification failed: '' @ vr_error r))
              else parse_policy_text cd content
          | None \<Rightarrow> parse_policy_text cd content)
      else case dget files path of None \<Rightarrow> Inl OSError | Some content \<Rightarrow> parse_policy_text cd content)"

definition load_policy ::
  "policy_codec \<Rightarrow> string option \<Rightarrow> fpath \<Rightarrow> fs \<Rightarrow> fpath option \<Rightarrow> string option \<Rightarrow> bool \<Rightarrow> l3_policy py_result" where
  "load_policy cd key store_dir files path name verify_signature =
     (case name of
        Some n \<Rightarrow>
          if bad_policy_name n then Inl (ValueError (''Invalid policy name: '' @ n))
          else (case dget NAMED_POLICIES n of
                  Some rules_data \<Rightarrow> named_policy n rules_data
                | None \<Rightarrow>
                    if dget files (store_dir @ [n, ''latest.json'']) = None then Inl OSError
                    else load_policy_file cd key files (store_dir @ [n, ''latest.json'']) verify_signature)
      | None \<Rightarrow>
          (case path of
             Some p \<Rightarrow> load_policy_file cd key files p verify_signature
           | None \<Rightarrow> l3_default_policy))"

fun duplicate_ids :: "string list \<Rightarrow> string list \<Rightarrow> string list" where
  "duplicate_ids seen [] = []"
| "duplicate_ids seen (i # is) =
     (if i \<in> set seen then [''Duplicate rule ID: '' @ i] else []) @ duplicate_ids (i # seen) is"

definition validate_policy :: "l3_policy \<Rightarrow> string list" where
  "validate_policy p =
     (if po_rules p = [] then [''Policy has no rules''] else [])
     @ duplicate_ids [] (map pr_id (po_rules p))
     @ map (\<lambda>r. ''Invalid target '' @ quoted (target_value (pr_target r)) @ '' in rule '' @ pr_id r)
         (filter (\<lambda>r. target_value (pr_target r) \<notin> set (map target_value all_targets)) (po_rules p))
     @ map (\<lambda>r. ''Invalid action '' @ quoted (action_value (pr_action r)) @ '' in rule '' @ pr_id r)
         (filter (\<lambda>r. action_value (pr_action r) \<notin> set (map action_value all_actions)) (po_rules p))
     @ (if action_value (po_default_action p) \<notin> set (map action_value all_actions)
        then [''Invalid default_action: '' @ action_value (po_default_action p)] else [])"

definition export_policy :: "policy_codec \<Rightarrow> l3_policy \<Rightarrow> fpath \<Rightarrow> fs \<Rightarrow> fs" where
  "export_policy cd p path files = dset path (pc_dumps cd (JObj (l3_policy_to_dict p))) files"

definition import_policy :: "policy_codec \<Rightarrow> fs \<Rightarrow> fpath \<Rightarrow> l3_policy py_result" where
  "import_policy cd files path =
     (case dget files path of
        None \<Rightarrow> Inl OSError
      | Some text \<Rightarrow>
          (case pc_loads cd text of
             None \<Rightarrow> Inl (ValueError ''json'')
           | Some j \<Rightarrow>
               bindE (bindE (as_obj j) l3_policy_from_dict) (\<lambda>p.
                 if validate_policy p \<noteq> [] then
                   Inl (ValueError (''Policy validation failed with '' @ show_nat (length (validate_policy p)) @ '' error(s)''))
                 else Inr p)))"

section \<open>The hash\<close>

definition norm_rule :: "policy_rule \<Rightarrow> json" where
  "norm_rule r = JObj
     [(''rule_id'', JStr (pr_id r)), (''target'', JStr (target_value (pr_target r))),
      (''action'', JStr (action_value (pr_action r))), (''paths'', strings (sort (pr_paths r))),
      (''addresses'', strings (sort (pr_addresses r))), (''syscalls'', strings (sort (pr_syscalls r))),
      (''description'', JStr (pr_description r))]"

definition canonical_policy_dict :: "l3_policy \<Rightarrow> (string \<times> json) list" where
  "canonical_policy_dict p =
     [(''name'', JStr (po_name p)), (''version'', JStr (po_version p)),
      (''default_action'', JStr (action_value (po_default_action p))),
      (''rules'', JList (map norm_rule (sort_key pr_id (po_rules p))))]"

definition policy_hash :: "policy_codec \<Rightarrow> l3_policy \<Rightarrow> string" where
  "policy_hash cd p = pc_sha256 cd (pc_dumps cd (JObj (canonical_policy_dict p)))"

section \<open>Round trips\<close>

lemma value_inverse [simp]: "action_of (JStr (action_value a)) = Inr a" "target_of (JStr (target_value t)) = Inr t"
  by (cases a; simp add: action_of_def all_actions_def) (cases t; simp add: target_of_def all_targets_def)

lemma strings_inverse [simp]: "as_strings (strings xs) = Inr xs"
proof -
  have "mapE as_str (map JStr xs) = Inr xs" by (induction xs) auto
  then show ?thesis by (simp add: as_strings_def strings_def)
qed

lemma rule_round_trip [simp]: "rule_from_dict (rule_to_dict r) = Inr r"
  by (simp add: rule_from_dict_def rule_to_dict_def need_def get_or_def)

lemma policy_round_trip [simp]: "l3_policy_from_dict (l3_policy_to_dict p) = Inr p"
proof -
  have "mapE rule_from_dict (map rule_to_dict rs) = Inr rs" for rs by (induction rs) auto
  then show ?thesis
    by (simp add: l3_policy_from_dict_def l3_policy_to_dict_def get_or_def rules_from_list_def)
qed

lemma duplicate_ids_none: "duplicate_ids seen is = [] \<longleftrightarrow> distinct is \<and> set is \<inter> set seen = {}"
  by (induction "is" arbitrary: seen) auto

text \<open>The checks of targets and actions cannot fail: decoding refuses other values before.\<close>

lemma validate_policy_iff: "validate_policy p = [] \<longleftrightarrow> po_rules p \<noteq> [] \<and> distinct (map pr_id (po_rules p))"
proof -
  have "target_value t \<in> set (map target_value all_targets)" for t by (cases t) (simp_all add: all_targets_def)
  moreover have "action_value a \<in> set (map action_value all_actions)" for a by (cases a) (simp_all add: all_actions_def)
  ultimately show ?thesis
    by (simp add: validate_policy_def duplicate_ids_none)
qed

lemma named_policies_valid:
  "list_all (\<lambda>(n, rules). case named_policy n rules of Inr p \<Rightarrow> validate_policy p = [] | Inl _ \<Rightarrow> False) NAMED_POLICIES"
  by code_simp

text \<open>
  C39. Export and import are inverse on valid policies and nothing else is imported: reading an exported
  policy gives the policy back when it has rules with distinct identifiers, and \<open>ValueError\<close> with the
  number of violations otherwise.
\<close>

theorem import_after_export:
  assumes "json_text cd"
  shows "import_policy cd (export_policy cd p path files) path =
    (if po_rules p \<noteq> [] \<and> distinct (map pr_id (po_rules p)) then Inr p
     else Inl (ValueError (''Policy validation failed with '' @ show_nat (length (validate_policy p)) @ '' error(s)'')))"
  using assms validate_policy_iff [of p] by (auto simp: import_policy_def export_policy_def json_text_def)

text \<open>A rendering of JSON for the examples, invertible because JSON values are countable.\<close>

definition unary_json :: policy_codec where
  "unary_json = \<lparr>pc_hmac = (\<lambda>k c. ''a''), pc_sha256 = id,
     pc_dumps = (\<lambda>j. replicate (2 * to_nat j) (CHR ''x'')), pc_loads = (\<lambda>s. Some (from_nat (length s div 2)))\<rparr>"

lemma unary_json_text: "json_text unary_json"
  by (simp add: json_text_def unary_json_def)

theorem import_after_export_witness:
  "import_policy unary_json (export_policy unary_json \<lparr>po_name = ''p'', po_version = ''1'', po_default_action = DENY,
     po_rules = [], po_fail_closed = True\<rparr> [''f''] []) [''f''] =
   Inl (ValueError (''Policy validation failed with '' @ show_nat 1 @ '' error(s)''))"
  unfolding import_after_export [OF unary_json_text] by (simp add: validate_policy_def all_actions_def)

section \<open>What the hash identifies\<close>

text \<open>A rule up to the order of its lists.\<close>

definition rule_key ::
  "policy_rule \<Rightarrow> string \<times> rule_target \<times> syscall_action \<times> string multiset \<times> string multiset \<times> string multiset \<times> string" where
  "rule_key r = (pr_id r, pr_target r, pr_action r, mset (pr_paths r), mset (pr_addresses r), mset (pr_syscalls r), pr_description r)"

definition same_policy :: "l3_policy \<Rightarrow> l3_policy \<Rightarrow> bool" where
  "same_policy p q \<longleftrightarrow> po_name p = po_name q \<and> po_version p = po_version q \<and>
     po_default_action p = po_default_action q \<and> image_mset rule_key (mset (po_rules p)) = image_mset rule_key (mset (po_rules q))"

lemma value_inj: "action_value a = action_value b \<longleftrightarrow> a = b" "target_value t = target_value u \<longleftrightarrow> t = u"
  using value_inverse by (metis sum.inject(2))+

lemma strings_sort: "strings (sort xs) = strings (sort ys) \<longleftrightarrow> mset xs = mset ys"
proof -
  have "map JStr xs = map JStr ys \<longleftrightarrow> xs = ys" for xs ys
    by (rule inj_map_eq_map) (simp add: inj_def)
  then show ?thesis
    unfolding strings_def by (metis json.inject(5) mset_sort properties_for_sort sorted_sort)
qed

lemma norm_rule_key: "norm_rule r = norm_rule s \<longleftrightarrow> rule_key r = rule_key s"
  by (auto simp: norm_rule_def rule_key_def strings_sort value_inj)

lemma norm_rules_eq: "map norm_rule rs = map norm_rule ss \<longleftrightarrow> map rule_key rs = map rule_key ss"
  by (auto simp: list_eq_iff_nth_eq norm_rule_key)

lemma sorted_keys_eq:
  assumes "distinct (map pr_id rs)" and "image_mset rule_key (mset rs) = image_mset rule_key (mset ss)"
  shows "map rule_key (sort_key pr_id rs) = map rule_key (sort_key pr_id ss)"
proof -
  let ?A = "map rule_key (sort_key pr_id rs)" and ?B = "map rule_key (sort_key pr_id ss)"
  have fst_key: "map fst (map rule_key xs) = map pr_id xs" for xs
    by (simp add: rule_key_def)
  have srt: "sorted (map fst ?A)" "sorted (map fst ?B)"
    unfolding fst_key by simp_all
  have "distinct (map fst ?A)"
    unfolding fst_key using assms(1) distinct_sort_key_filter [of pr_id rs pr_id "\<lambda>_. True"] by simp
  then have inj: "inj_on fst (set ?A)"
    by (simp only: distinct_map)
  have "mset ?A = mset ?B"
    using assms(2) by simp
  then have "sort_key fst ?A = ?B"
    using inj srt(2) by (rule sort_key_inj_key_eq)
  moreover have "sort_key fst ?A = ?A"
    using refl inj srt(1) by (rule sort_key_inj_key_eq)
  ultimately show ?thesis by simp
qed

lemma canonical_iff:
  assumes "distinct (map pr_id (po_rules p))"
  shows "canonical_policy_dict p = canonical_policy_dict q \<longleftrightarrow> same_policy p q"
proof
  assume "canonical_policy_dict p = canonical_policy_dict q"
  then have "map rule_key (sort_key pr_id (po_rules p)) = map rule_key (sort_key pr_id (po_rules q))"
    and rest: "po_name p = po_name q" "po_version p = po_version q" "po_default_action p = po_default_action q"
    by (simp_all add: canonical_policy_dict_def norm_rules_eq value_inj)
  then have "mset (map rule_key (sort_key pr_id (po_rules p))) = mset (map rule_key (sort_key pr_id (po_rules q)))"
    by simp
  with rest show "same_policy p q" by (simp add: same_policy_def)
next
  assume "same_policy p q"
  then show "canonical_policy_dict p = canonical_policy_dict q"
    using sorted_keys_eq [OF assms] by (simp add: same_policy_def canonical_policy_dict_def norm_rules_eq)
qed

text \<open>
  C38. The hash of a policy identifies its content up to order: with a digest that does not collide, two
  policies (the first with distinct rule identifiers) have the same hash exactly when they agree on the
  name, the version, the default action and the rules, whatever the order of the rules and of the lists
  in them. The flag \<open>fail_closed\<close> is not covered.
\<close>

theorem policy_hash_identifies:
  assumes "inj (\<lambda>j. pc_sha256 cd (pc_dumps cd j))" and "distinct (map pr_id (po_rules p))"
  shows "policy_hash cd p = policy_hash cd q \<longleftrightarrow> same_policy p q"
proof -
  have "policy_hash cd p = policy_hash cd q \<longleftrightarrow> JObj (canonical_policy_dict p) = JObj (canonical_policy_dict q)"
    unfolding policy_hash_def by (rule inj_eq [OF assms(1)])
  then show ?thesis
    using canonical_iff [OF assms(2)] by simp
qed

definition demo_rule :: "string \<Rightarrow> string list \<Rightarrow> policy_rule" where
  "demo_rule i ps = \<lparr>pr_id = i, pr_target = FILE_READ, pr_action = ALLOW, pr_paths = ps, pr_addresses = [], pr_syscalls = [],
     pr_description = ''''\<rparr>"

definition demo_policy :: "policy_rule list \<Rightarrow> l3_policy" where
  "demo_policy rs = \<lparr>po_name = ''p'', po_version = ''1'', po_default_action = DENY, po_rules = rs, po_fail_closed = True\<rparr>"

theorem policy_hash_identifies_witness:
  "policy_hash unary_json (demo_policy [demo_rule ''a'' [''/x'', ''/y''], demo_rule ''b'' []]) =
     policy_hash unary_json (demo_policy [demo_rule ''b'' [], demo_rule ''a'' [''/y'', ''/x'']]) \<and>
   policy_hash unary_json (demo_policy [demo_rule ''a'' []]) \<noteq> policy_hash unary_json (demo_policy [demo_rule ''b'' []])"
proof -
  have inj: "inj (\<lambda>j. pc_sha256 unary_json (pc_dumps unary_json j))"
    by (simp add: inj_def unary_json_def)
  have "distinct (map pr_id (po_rules (demo_policy [demo_rule ''a'' [''/x'', ''/y''], demo_rule ''b'' []])))"
      "distinct (map pr_id (po_rules (demo_policy [demo_rule ''a'' []])))"
    by (simp_all add: demo_policy_def demo_rule_def)
  then show ?thesis
    by (simp add: policy_hash_identifies [OF inj] same_policy_def demo_policy_def demo_rule_def rule_key_def)
qed

lemma hash_ignores_fail_closed: "policy_hash cd (p\<lparr>po_fail_closed := b\<rparr>) = policy_hash cd p"
  by (simp add: policy_hash_def canonical_policy_dict_def)

text \<open>An accepted name is one component of a path inside the store.\<close>

lemma good_name_is_component:
  "\<not> bad_policy_name n \<Longrightarrow> n \<noteq> '''' \<and> n \<noteq> ''.'' \<and> n \<noteq> ''..'' \<and> CHR ''/'' \<notin> set n"
  by (auto simp: bad_policy_name_def rstrip_by_def lstrip_by_def)

end
