(* ===== verification/Policy_Store.thy ===== *)
theory Policy_Store
  imports L3_Policy
begin

text \<open>
  The versioned policy store (\<open>src/picosentry/sandbox/policy_versioned/store.py\<close>): a directory per policy
  with one file per version, a copy of the newest one and, when a key is configured, a signature beside
  each. An operation that holds the lock is one step; an atomic write is one write. Names of the
  directory are components of a path, so a name cannot contain a separator.
\<close>

section \<open>Versions\<close>

definition validate_policy_name :: "string \<Rightarrow> unit py_result" where
  "validate_policy_name name =
     (if bad_policy_name name then Inl (ValueError (''Invalid policy name: '' @ name))
      else if dget NAMED_POLICIES name \<noteq> None then
        Inl (ValueError (''Policy name '' @ name @ '' is reserved (builtin named policy)''))
      else Inr ())"

record policy_version =
  pv_policy :: l3_policy
  pv_version :: int
  pv_author :: string
  pv_timestamp :: string
  pv_change :: string
  pv_hash :: string

definition version_to_dict :: "policy_version \<Rightarrow> (string \<times> json) list" where
  "version_to_dict v =
     [(''author'', JStr (pv_author v)), (''change_description'', JStr (pv_change v)), (''content_hash'', JStr (pv_hash v)),
      (''policy'', JObj (l3_policy_to_dict (pv_policy v))), (''timestamp'', JStr (pv_timestamp v)), (''version'', JInt (pv_version v))]"

definition version_from_dict :: "(string \<times> json) list \<Rightarrow> policy_version py_result" where
  "version_from_dict d =
     bindE (bindE (get_or as_obj ''policy'' [] d) l3_policy_from_dict) (\<lambda>policy.
     bindE (get_or as_int ''version'' 1 d) (\<lambda>version.
     bindE (get_or as_str ''author'' ''unknown'' d) (\<lambda>author.
     bindE (get_or as_str ''timestamp'' '''' d) (\<lambda>timestamp.
     bindE (get_or as_str ''change_description'' '''' d) (\<lambda>change.
     bindE (get_or as_str ''content_hash'' '''' d) (\<lambda>hash.
       Inr \<lparr>pv_policy = policy, pv_version = version, pv_author = author, pv_timestamp = timestamp, pv_change = change,
            pv_hash = hash\<rparr>))))))"

definition version_text :: "policy_codec \<Rightarrow> policy_version \<Rightarrow> string" where
  "version_text cd v = pc_dumps cd (JObj (version_to_dict v))"

definition hash_policy :: "policy_codec \<Rightarrow> l3_policy \<Rightarrow> string" where
  "hash_policy cd p = pc_sha256 cd (pc_dumps cd (JObj (l3_policy_to_dict p)))"

section \<open>Reading\<close>

definition read_version_file :: "policy_codec \<Rightarrow> fs \<Rightarrow> fpath \<Rightarrow> policy_version option py_result" where
  "read_version_file cd files path =
     (case dget files path of
        None \<Rightarrow> Inr None
      | Some text \<Rightarrow>
          (case pc_loads cd text of
             None \<Rightarrow> Inr None
           | Some j \<Rightarrow>
               (case bindE (as_obj j) version_from_dict of
                  Inl (KeyError k) \<Rightarrow> Inr None
                | Inl x \<Rightarrow> Inl x
                | Inr v \<Rightarrow> Inr (Some v))))"

definition is_version_file :: "string \<Rightarrow> bool" where
  "is_version_file f \<longleftrightarrow>
     starts_with ''v'' f \<and> starts_with (rev ''.json'') (rev f) \<and> f \<noteq> ''latest.json''"

definition dir_names :: "fs \<Rightarrow> fpath \<Rightarrow> string list" where
  "dir_names files d = map last (filter (\<lambda>p. p \<noteq> [] \<and> butlast p = d) (dkeys files))"

definition list_versions_of :: "policy_codec \<Rightarrow> fpath \<Rightarrow> fs \<Rightarrow> string \<Rightarrow> policy_version list py_result" where
  "list_versions_of cd dir files name =
     bindE (mapE (\<lambda>f. read_version_file cd files (dir @ [name, f]))
              (filter is_version_file (sort (dir_names files (dir @ [name])))))
       (\<lambda>vs. Inr (List.map_filter id vs))"

definition verify_companion :: "policy_codec \<Rightarrow> string option \<Rightarrow> fs \<Rightarrow> fpath \<Rightarrow> bool py_result" where
  "verify_companion cd key files path =
     bindE (load_policy_with_companion_verification cd files path key ''default'') (\<lambda>(_, r).
       Inr (case r of None \<Rightarrow> True | Some v \<Rightarrow> vr_valid v))"

fun newest_version :: "policy_version \<Rightarrow> policy_version list \<Rightarrow> policy_version" where
  "newest_version v [] = v"
| "newest_version v (w # ws) = newest_version (if pv_version w > pv_version v then w else v) ws"

definition version_file :: "int \<Rightarrow> string" where
  "version_file n = ''v'' @ show_int n @ ''.json''"

definition checked_read ::
  "policy_codec \<Rightarrow> string option \<Rightarrow> fs \<Rightarrow> fpath \<Rightarrow> bool \<Rightarrow> policy_version option py_result" where
  "checked_read cd key files path verify_signature =
     bindE (if verify_signature then verify_companion cd key files path else Inr True) (\<lambda>ok.
       if ok then read_version_file cd files path else Inr None)"

definition store_load ::
  "policy_codec \<Rightarrow> string option \<Rightarrow> fpath \<Rightarrow> fs \<Rightarrow> string \<Rightarrow> int option \<Rightarrow> bool \<Rightarrow> policy_version option py_result" where
  "store_load cd key dir files name version verify_signature =
     bindE (validate_policy_name name) (\<lambda>_.
       case version of
         None \<Rightarrow>
           if dget files (dir @ [name, ''latest.json'']) \<noteq> None
           then checked_read cd key files (dir @ [name, ''latest.json'']) verify_signature
           else bindE (list_versions_of cd dir files name) (\<lambda>vs.
                  Inr (case vs of [] \<Rightarrow> None | v # ws \<Rightarrow> Some (newest_version v ws)))
       | Some n \<Rightarrow>
           if dget files (dir @ [name, version_file n]) = None then Inr None
           else checked_read cd key files (dir @ [name, version_file n]) verify_signature)"

definition list_versions :: "policy_codec \<Rightarrow> fpath \<Rightarrow> fs \<Rightarrow> string \<Rightarrow> policy_version list py_result" where
  "list_versions cd dir files name = bindE (validate_policy_name name) (\<lambda>_. list_versions_of cd dir files name)"

definition list_policies :: "fpath \<Rightarrow> fs \<Rightarrow> string list" where
  "list_policies dir files =
     sort (remdups (map (\<lambda>p. p ! length dir)
       (filter (\<lambda>p. length p = length dir + 2 \<and> take (length dir) p = dir \<and> starts_with (rev ''.json'') (rev (last p)))
         (dkeys files))))"

definition verify_integrity :: "policy_codec \<Rightarrow> fpath \<Rightarrow> fs \<Rightarrow> string \<Rightarrow> string list py_result" where
  "verify_integrity cd dir files name =
     bindE (list_versions_of cd dir files name) (\<lambda>vs.
       Inr (List.map_filter (\<lambda>v.
         let expected = hash_policy cd (pv_policy v) in
         if pv_hash v \<noteq> '''' \<and> pv_hash v \<noteq> expected then
           Some (''v'' @ show_int (pv_version v) @ '': content_hash mismatch '' @ em_dash @ '' stored='' @ take 16 (pv_hash v) @
             ''... computed='' @ take 16 expected @ ''...'')
         else None) vs))"

section \<open>Writing\<close>

definition next_store_version :: "policy_version list \<Rightarrow> int" where
  "next_store_version vs = (if vs = [] then 1 else Max (set (map pv_version vs)) + 1)"

definition sign_both ::
  "policy_codec \<Rightarrow> string option \<Rightarrow> string \<Rightarrow> fpath \<Rightarrow> fpath \<Rightarrow> fs \<Rightarrow> fs py_result" where
  "sign_both cd key ts p q files =
     (case key of
        None \<Rightarrow> Inr files
      | Some k \<Rightarrow> bindE (sign_policy_companion cd ts p k ''default'' files) (sign_policy_companion cd ts q k ''default''))"

definition store_save ::
  "policy_codec \<Rightarrow> string option \<Rightarrow> fpath \<Rightarrow> string \<Rightarrow> l3_policy \<Rightarrow> string \<Rightarrow> string \<Rightarrow> fs \<Rightarrow> policy_version py_result \<times> fs" where
  "store_save cd key dir ts policy author change files =
     (let name = po_name policy in
      case bindE (validate_policy_name name) (\<lambda>_. list_versions_of cd dir files name) of
        Inl x \<Rightarrow> (Inl x, files)
      | Inr existing \<Rightarrow>
          (let n = next_store_version existing;
               pv = \<lparr>pv_policy = policy, pv_version = n, pv_author = author, pv_timestamp = ts, pv_change = change,
                     pv_hash = hash_policy cd policy\<rparr>;
               v_path = dir @ [name, version_file n]; latest_path = dir @ [name, ''latest.json''];
               files1 = dset latest_path (version_text cd pv) (dset v_path (version_text cd pv) files) in
           case sign_both cd key ts v_path latest_path files1 of
             Inl x \<Rightarrow> (Inl x, files1)
           | Inr files2 \<Rightarrow> (Inr pv, files2)))"

definition store_rollback ::
  "policy_codec \<Rightarrow> string option \<Rightarrow> fpath \<Rightarrow> string \<Rightarrow> string \<Rightarrow> int \<Rightarrow> string \<Rightarrow> fs \<Rightarrow> policy_version option py_result \<times> fs" where
  "store_rollback cd key dir ts name version author files =
     (case store_load cd key dir files name (Some version) True of
        Inl x \<Rightarrow> (Inl x, files)
      | Inr None \<Rightarrow> (Inr None, files)
      | Inr (Some target) \<Rightarrow>
          (let (r, files') = store_save cd key dir ts (pv_policy target) author (''Rollback to v'' @ show_int version) files
           in (bindE r (\<lambda>pv. Inr (Some pv)), files')))"

text \<open>\<open>{r.rule_id: r for r in rules}\<close>: the last rule of an identifier, at the position of the first.\<close>

definition rules_by_id :: "l3_policy \<Rightarrow> (string, policy_rule) pydict" where
  "rules_by_id p = foldl (\<lambda>m r. dset (pr_id r) r m) [] (po_rules p)"

definition store_diff ::
  "policy_codec \<Rightarrow> string option \<Rightarrow> fpath \<Rightarrow> fs \<Rightarrow> string \<Rightarrow> int \<Rightarrow> int \<Rightarrow> (string \<times> json) list py_result" where
  "store_diff cd key dir files name a b =
     bindE (store_load cd key dir files name (Some a) True) (\<lambda>pa.
     bindE (store_load cd key dir files name (Some b) True) (\<lambda>pb. Inr (
       case (pa, pb) of
         (Some va, Some vb) \<Rightarrow>
           (let ra = rules_by_id (pv_policy va); rb = rules_by_id (pv_policy vb) in
            [(''policy_name'', JStr name), (''version_a'', JInt a), (''version_b'', JInt b),
             (''default_action_changed'', JBool (po_default_action (pv_policy va) \<noteq> po_default_action (pv_policy vb))),
             (''added_rules'', strings (filter (\<lambda>i. dget ra i = None) (dkeys rb))),
             (''removed_rules'', strings (filter (\<lambda>i. dget rb i = None) (dkeys ra))),
             (''changed_rules'', strings (filter (\<lambda>i. case (dget ra i, dget rb i) of
                (Some x, Some y) \<Rightarrow> rule_to_dict x \<noteq> rule_to_dict y | _ \<Rightarrow> False) (dkeys ra)))])
       | _ \<Rightarrow> [(''error'', JStr (''One or both versions not found: v'' @ show_int a @ '', v'' @ show_int b))])))"

section \<open>The store as a history\<close>

text \<open>
  The abstract store: for each name the list of the policies saved under it. A save appends, a
  rollback appends an old one again, a name the store refuses changes nothing.
\<close>

datatype store_op = SavePolicy string l3_policy string string | RollbackPolicy string string int string

definition good_name :: "string \<Rightarrow> bool" where
  "good_name n \<longleftrightarrow> validate_policy_name n = Inr ()"

fun history_step :: "(string \<Rightarrow> l3_policy list) \<Rightarrow> store_op \<Rightarrow> string \<Rightarrow> l3_policy list" where
  "history_step h (SavePolicy ts p author change) =
     (if good_name (po_name p) then h(po_name p := h (po_name p) @ [p]) else h)"
| "history_step h (RollbackPolicy ts n v author) =
     (if good_name n \<and> 1 \<le> v \<and> v \<le> int (length (h n)) then h(n := h n @ [h n ! nat (v - 1)]) else h)"

fun store_step :: "policy_codec \<Rightarrow> string option \<Rightarrow> fpath \<Rightarrow> fs \<Rightarrow> store_op \<Rightarrow> fs" where
  "store_step cd key dir files (SavePolicy ts p author change) = snd (store_save cd key dir ts p author change files)"
| "store_step cd key dir files (RollbackPolicy ts n v author) = snd (store_rollback cd key dir ts n v author files)"

text \<open>Versions and their texts.\<close>

lemma version_round_trip: "version_from_dict (version_to_dict v) = Inr v"
  by (simp add: version_from_dict_def version_to_dict_def get_or_def)

text \<open>The file of the version with index \<open>i\<close> in the history.\<close>

definition vfile :: "nat \<Rightarrow> string" where
  "vfile i = version_file (int (Suc i))"

lemma vfile_inj [simp]: "vfile i = vfile j \<longleftrightarrow> i = j"
  by (simp add: vfile_def version_file_def show_int_def nat_add_distrib)

lemma vfile_names:
  "is_version_file (vfile i)" "vfile i \<noteq> ''latest.json''" "vfile i @ ''.sig'' \<noteq> ''latest.json''"
  "\<not> is_version_file ''latest.json''" "\<not> is_version_file (f @ ''.sig'')" "vfile i \<noteq> ''latest.json.sig''"
  by (simp_all add: is_version_file_def vfile_def version_file_def)

lemma sig_path_append [simp]: "sig_path (d @ [n, f]) = d @ [n, f @ ''.sig'']"
  by (simp add: sig_path_def butlast_append)

lemma read_text:
  assumes "json_text cd" and "dget files p = Some (version_text cd v)"
  shows "read_version_file cd files p = Inr (Some v)"
  using assms by (simp add: read_version_file_def version_text_def json_text_def version_round_trip)

lemma verify_companion_cong:
  "dget files' p = dget files p \<Longrightarrow> dget files' (sig_path p) = dget files (sig_path p) \<Longrightarrow>
   verify_companion cd key files' p = verify_companion cd key files p"
  unfolding verify_companion_def by (simp add: companion_not_bound_to_name [of files' p files p])

text \<open>
  The files that represent a history: version files numbered from one, the newest copied, each verified
  by the configured key, nothing else that looks like a version, and no signature without a key.
\<close>

definition stored :: "policy_codec \<Rightarrow> string option \<Rightarrow> fs \<Rightarrow> fpath \<Rightarrow> policy_version \<Rightarrow> bool" where
  "stored cd key files p v \<longleftrightarrow> dget files p = Some (version_text cd v) \<and> verify_companion cd key files p = Inr True"

definition name_repr ::
  "policy_codec \<Rightarrow> string option \<Rightarrow> fpath \<Rightarrow> fs \<Rightarrow> string \<Rightarrow> policy_version list \<Rightarrow> bool" where
  "name_repr cd key dir files n vs \<longleftrightarrow>
     (\<forall>i < length vs. pv_version (vs ! i) = int (Suc i) \<and> po_name (pv_policy (vs ! i)) = n \<and>
        stored cd key files (dir @ [n, vfile i]) (vs ! i)) \<and>
     (\<forall>f. is_version_file f \<longrightarrow> dget files (dir @ [n, f]) \<noteq> None \<longrightarrow> (\<exists>i < length vs. f = vfile i)) \<and>
     (if vs = [] then dget files (dir @ [n, ''latest.json'']) = None
      else stored cd key files (dir @ [n, ''latest.json'']) (last vs)) \<and>
     (key = None \<longrightarrow> (\<forall>f. dget files (dir @ [n, f @ ''.sig'']) = None))"

lemma name_repr_cong:
  assumes "\<And>f. dget files' (dir @ [n, f]) = dget files (dir @ [n, f])"
  shows "name_repr cd key dir files' n vs = name_repr cd key dir files n vs"
proof -
  have "stored cd key files' (dir @ [n, f]) v = stored cd key files (dir @ [n, f]) v" for f v
    using assms verify_companion_cong [of files' "dir @ [n, f]" files cd key] by (simp add: stored_def)
  then show ?thesis by (simp add: name_repr_def assms)
qed

lemma dir_names_set: "f \<in> set (dir_names files d) \<longleftrightarrow> dget files (d @ [f]) \<noteq> None"
proof -
  have "f \<in> set (dir_names files d) \<longleftrightarrow> d @ [f] \<in> fst ` set files"
    by (auto simp: dir_names_def) (metis append_butlast_last_id fst_conv image_eqI, force)
  then show ?thesis using dget_None_iff [of files "d @ [f]"] by simp
qed

lemma name_repr_file:
  assumes "name_repr cd key dir files n vs" and "i < length vs"
  shows "dget files (dir @ [n, vfile i]) = Some (version_text cd (vs ! i))"
    and "verify_companion cd key files (dir @ [n, vfile i]) = Inr True"
    and "pv_version (vs ! i) = int (Suc i)" and "po_name (pv_policy (vs ! i)) = n"
  using assms unfolding name_repr_def stored_def by blast+

lemma name_repr_only:
  assumes "name_repr cd key dir files n vs" and "is_version_file f" and "dget files (dir @ [n, f]) \<noteq> None"
  shows "\<exists>i < length vs. f = vfile i"
  using assms unfolding name_repr_def by blast

lemma listed_versions:
  assumes cd: "json_text cd" and repr: "name_repr cd key dir files n vs"
  shows "\<exists>ws. list_versions_of cd dir files n = Inr ws \<and> set ws = set vs"
proof -
  define fs where "fs = filter is_version_file (sort (dir_names files (dir @ [n])))"
  define g where "g = (\<lambda>f. case read_version_file cd files (dir @ [n, f]) of Inr (Some v) \<Rightarrow> v | _ \<Rightarrow> undefined)"
  have read: "read_version_file cd files (dir @ [n, vfile i]) = Inr (Some (vs ! i))" if "i < length vs" for i
    using cd name_repr_file(1) [OF repr that] by (rule read_text)
  have names: "f \<in> set fs \<longleftrightarrow> (\<exists>i < length vs. f = vfile i)" for f
  proof
    assume "f \<in> set fs"
    then have "is_version_file f" "dget files (dir @ [n, f]) \<noteq> None"
      using dir_names_set [of f files "dir @ [n]"] by (simp_all add: fs_def)
    then show "\<exists>i < length vs. f = vfile i" by (rule name_repr_only [OF repr])
  next
    assume "\<exists>i < length vs. f = vfile i"
    then obtain i where i: "i < length vs" "f = vfile i" by blast
    then have "f \<in> set (dir_names files (dir @ [n]))"
      using dir_names_set [of f files "dir @ [n]"] name_repr_file(1) [OF repr i(1)] by simp
    then show "f \<in> set fs" using i(2) vfile_names(1) by (simp add: fs_def)
  qed
  have total: "mapE (\<lambda>f. read_version_file cd files (dir @ [n, f])) fs = Inr (map (\<lambda>f. Some (g f)) fs)"
  proof (rule mapE_total)
    fix f assume "f \<in> set fs"
    then obtain i where "i < length vs" "f = vfile i" using names by blast
    then show "read_version_file cd files (dir @ [n, f]) = Inr (Some (g f))"
      using read by (simp add: g_def)
  qed
  have gv: "g (vfile i) = vs ! i" if "i < length vs" for i
    using read [OF that] by (simp add: g_def)
  have "set fs = vfile ` {..<length vs}"
    using names by auto
  then have "g ` set fs = (\<lambda>i. vs ! i) ` {..<length vs}"
    using gv by (simp add: image_image)
  then have "g ` set fs = set vs"
    by (auto simp: set_conv_nth)
  moreover have "list_versions_of cd dir files n = Inr (map g fs)"
    unfolding list_versions_of_def fs_def [symmetric] total by (simp add: map_filter_def comp_def)
  ultimately show ?thesis by simp
qed

lemma next_version_repr:
  assumes "name_repr cd key dir files n vs" and "set ws = set vs"
  shows "next_store_version ws = int (Suc (length vs))"
proof (cases "vs = []")
  case True
  then show ?thesis using assms(2) by (simp add: next_store_version_def)
next
  case False
  have "pv_version ` set vs = (\<lambda>i. pv_version (vs ! i)) ` {..<length vs}"
    by (auto simp: set_conv_nth)
  also have "\<dots> = (\<lambda>i. int (Suc i)) ` {..<length vs}"
    using name_repr_file(3) [OF assms(1)] by (intro image_cong) simp_all
  finally have "Max (pv_version ` set vs) = Max ((\<lambda>i. int (Suc i)) ` {..<length vs})"
    by (rule arg_cong)
  moreover have "Max ((\<lambda>i. int (Suc i)) ` {..<length vs}) = int (length vs)"
  proof (rule Max_eqI)
    show "int (length vs) \<in> (\<lambda>i. int (Suc i)) ` {..<length vs}"
      using False by (intro image_eqI [of _ _ "length vs - 1"]) auto
  qed auto
  ultimately show ?thesis
    using False assms(2) by (auto simp: next_store_version_def)
qed

lemma show_int_eq: "show_int v = show_nat n \<longleftrightarrow> v = int n"
proof -
  have "\<not> digit (CHR ''-'')" by (simp add: digit_def)
  then have "CHR ''-'' # x \<noteq> show_nat n" for x
    using show_nat_digits [of n] by (cases "show_nat n") auto
  then show ?thesis by (auto simp: show_int_def)
qed

lemma version_file_eq: "version_file v = vfile i \<longleftrightarrow> v = int (Suc i)"
  using show_int_eq [of v "Suc i"] by (simp add: vfile_def version_file_def show_int_def nat_add_distrib)

lemma sig_names: "vfile i \<noteq> f @ ''.sig''" "f @ ''.sig'' \<noteq> ''latest.json''" "vfile i @ ''.sig'' \<noteq> ''latest.json.sig''"
proof -
  show "vfile i \<noteq> f @ ''.sig''" using vfile_names(1,5) by metis
  show "f @ ''.sig'' \<noteq> ''latest.json''"
  proof
    assume "f @ ''.sig'' = ''latest.json''"
    then have "last (f @ ''.sig'') = last ''latest.json''" by (rule arg_cong)
    then show False by simp
  qed
  show "vfile i @ ''.sig'' \<noteq> ''latest.json.sig''" by (simp add: vfile_def version_file_def)
qed

lemma checked_read_stored:
  assumes "json_text cd" and "stored cd key files p v"
  shows "checked_read cd key files p True = Inr (Some v)"
  using assms read_text by (simp add: checked_read_def stored_def)

lemma load_version:
  assumes cd: "json_text cd" and repr: "name_repr cd key dir files n vs" and good: "good_name n"
  shows "store_load cd key dir files n (Some v) True =
    Inr (if 1 \<le> v \<and> v \<le> int (length vs) then Some (vs ! nat (v - 1)) else None)"
proof (cases "1 \<le> v \<and> v \<le> int (length vs)")
  case True
  then have i: "nat (v - 1) < length vs" and f: "version_file v = vfile (nat (v - 1))"
    by (auto simp: version_file_eq nat_less_iff)
  have "stored cd key files (dir @ [n, version_file v]) (vs ! nat (v - 1))"
    using name_repr_file(1,2) [OF repr i] by (simp add: stored_def f)
  then show ?thesis
    using True good checked_read_stored [OF cd] by (simp add: store_load_def good_name_def stored_def)
next
  case False
  have "dget files (dir @ [n, version_file v]) = None"
  proof (rule ccontr)
    assume "dget files (dir @ [n, version_file v]) \<noteq> None"
    moreover have "is_version_file (version_file v)"
      by (simp add: is_version_file_def version_file_def)
    ultimately obtain i where "i < length vs" "version_file v = vfile i"
      using name_repr_only [OF repr] by blast
    with False show False by (simp add: version_file_eq)
  qed
  with False good show ?thesis by (simp add: store_load_def good_name_def)
qed

lemma load_latest:
  assumes cd: "json_text cd" and repr: "name_repr cd key dir files n vs" and good: "good_name n"
  shows "store_load cd key dir files n None True = Inr (if vs = [] then None else Some (last vs))"
proof (cases "vs = []")
  case True
  then have "dget files (dir @ [n, ''latest.json'']) = None"
    using repr unfolding name_repr_def by auto
  moreover have "list_versions_of cd dir files n = Inr []"
    using listed_versions [OF cd repr] True by auto
  ultimately show ?thesis using True good by (simp add: store_load_def good_name_def)
next
  case False
  then have "stored cd key files (dir @ [n, ''latest.json'']) (last vs)"
    using repr unfolding name_repr_def by auto
  then show ?thesis
    using False good checked_read_stored [OF cd] by (simp add: store_load_def good_name_def stored_def)
qed

text \<open>The policy the sandbox loads by this name is the newest one.\<close>

lemma sandbox_loads_latest:
  assumes cd: "json_text cd" and repr: "name_repr cd key dir files n vs" and good: "good_name n" and ne: "vs \<noteq> []"
  shows "load_policy cd key dir files path (Some n) True = Inr (pv_policy (last vs))"
proof -
  let ?p = "dir @ [n, ''latest.json'']" and ?t = "version_text cd (last vs)"
  have st: "dget files ?p = Some ?t" "verify_companion cd key files ?p = Inr True"
    using repr ne unfolding name_repr_def stored_def by auto
  have name: "\<not> bad_policy_name n" "dget NAMED_POLICIES n = None"
    using good by (auto simp: good_name_def validate_policy_name_def split: if_splits)
  obtain c r where cr: "load_policy_with_companion_verification cd files ?p key ''default'' = Inr (c, r)"
      "case r of None \<Rightarrow> True | Some v \<Rightarrow> vr_valid v"
    using st(2) by (auto simp: verify_companion_def bindE_eq_Inr)
  have c: "c = ?t"
  proof (cases key)
    case None
    then show ?thesis
      using cr st(1) by (auto simp: load_policy_with_companion_verification_def refused_def split: option.splits)
  next
    case (Some k)
    then show ?thesis using companion_load_verified [of cd files ?p k "''default''" c r] cr st(1) by auto
  qed
  have "parse_policy_text cd ?t = Inr (pv_policy (last vs))"
    using cd by (simp add: parse_policy_text_def version_text_def json_text_def unwrap_policy_def version_to_dict_def)
  then show ?thesis
    using cr name st(1) c by (auto simp: load_policy_def load_policy_file_def split: option.splits)
qed

text \<open>Writing one version: both files hold the text and verify, every other name of the directory is as before.\<close>

lemma companion_signed:
  assumes "json_text cd" and "p \<noteq> []" and "dget files p = Some c" and "sign_policy_companion cd ts p k ''default'' files = Inr files'"
  shows "verify_companion cd (Some k) files' p = Inr True"
  using companion_loads [OF assms] by (auto simp: verify_companion_def)

lemma sign_companion_other:
  "sign_policy_companion cd ts p k kid files = Inr files' \<Longrightarrow> q \<noteq> sig_path p \<Longrightarrow> dget files' q = dget files q"
  by (auto simp: sign_policy_companion_def split: option.splits)

lemma write_version:
  assumes cd: "json_text cd" and nosig: "key = None \<longrightarrow> (\<forall>f. dget files (dir @ [n, f @ ''.sig'']) = None)"
    and files1: "files1 = dset (dir @ [n, ''latest.json'']) t (dset (dir @ [n, vfile i]) t files)"
  obtains files2 where "sign_both cd key ts (dir @ [n, vfile i]) (dir @ [n, ''latest.json'']) files1 = Inr files2"
    and "\<And>f. f = vfile i \<or> f = ''latest.json'' \<Longrightarrow> dget files2 (dir @ [n, f]) = Some t \<and>
           verify_companion cd key files2 (dir @ [n, f]) = Inr True"
    and "\<And>m f. m \<noteq> n \<or> f \<notin> {vfile i, ''latest.json'', vfile i @ ''.sig'', ''latest.json.sig''} \<Longrightarrow>
           dget files2 (dir @ [m, f]) = dget files (dir @ [m, f])"
    and "key = None \<longrightarrow> (\<forall>f. dget files2 (dir @ [n, f @ ''.sig'']) = None)"
proof -
  note names = vfile_names(2,3,6) sig_names
  have t: "dget files1 (dir @ [n, vfile i]) = Some t" "dget files1 (dir @ [n, ''latest.json'']) = Some t"
    unfolding files1 using names by simp_all
  have other: "dget files1 (dir @ [m, f]) = dget files (dir @ [m, f])" if "m \<noteq> n \<or> f \<notin> {vfile i, ''latest.json''}" for m f
    unfolding files1 using that by auto
  show thesis
  proof (cases key)
    case None
    have sig: "dget files1 (dir @ [n, f @ ''.sig'']) = None" for f
      using nosig None other [of n "f @ ''.sig''"] names by (metis insertE singletonD)
    then have "verify_companion cd key files1 (dir @ [n, f]) = Inr True" if "f = vfile i \<or> f = ''latest.json''" for f
      using t that None by (auto simp: verify_companion_def load_policy_with_companion_verification_def)
    then show thesis
      using that [of files1] t other sig None by (auto simp: sign_both_def)
  next
    case (Some k)
    obtain f1 where f1: "sign_policy_companion cd ts (dir @ [n, vfile i]) k ''default'' files1 = Inr f1"
      using t by (simp add: sign_policy_companion_def)
    have keep1: "dget f1 (dir @ [m, f]) = dget files1 (dir @ [m, f])" if "m \<noteq> n \<or> f \<noteq> vfile i @ ''.sig''" for m f
      using sign_companion_other [OF f1, of "dir @ [m, f]"] that by auto
    have latest1: "dget f1 (dir @ [n, ''latest.json'']) = Some t" and v1: "dget f1 (dir @ [n, vfile i]) = Some t"
      using keep1 [of n "''latest.json''"] keep1 [of n "vfile i"] t names by auto
    obtain f2 where f2: "sign_policy_companion cd ts (dir @ [n, ''latest.json'']) k ''default'' f1 = Inr f2"
      using latest1 by (simp add: sign_policy_companion_def)
    have keep2: "dget f2 (dir @ [m, f]) = dget f1 (dir @ [m, f])" if "m \<noteq> n \<or> f \<noteq> ''latest.json.sig''" for m f
      using sign_companion_other [OF f2, of "dir @ [m, f]"] that by auto
    have "verify_companion cd key f1 (dir @ [n, vfile i]) = Inr True"
      using companion_signed [OF cd _ t(1) f1] Some by simp
    then have "verify_companion cd key f2 (dir @ [n, vfile i]) = Inr True"
      using verify_companion_cong [of f2 "dir @ [n, vfile i]" f1 cd key] keep2 [of n "vfile i"]
        keep2 [of n "vfile i @ ''.sig''"] names by auto
    moreover have "verify_companion cd key f2 (dir @ [n, ''latest.json'']) = Inr True"
      using companion_signed [OF cd _ latest1 f2] Some by simp
    moreover have "dget f2 (dir @ [n, vfile i]) = Some t" "dget f2 (dir @ [n, ''latest.json'']) = Some t"
      using keep2 [of n "vfile i"] keep2 [of n "''latest.json''"] v1 latest1 names by auto
    moreover have "dget f2 (dir @ [m, f]) = dget files (dir @ [m, f])"
      if "m \<noteq> n \<or> f \<notin> {vfile i, ''latest.json'', vfile i @ ''.sig'', ''latest.json.sig''}" for m f
      using keep2 [of m f] keep1 [of m f] other [of m f] that by auto
    moreover have "sign_both cd key ts (dir @ [n, vfile i]) (dir @ [n, ''latest.json'']) files1 = Inr f2"
      using f1 f2 Some by (simp add: sign_both_def)
    ultimately show thesis using that [of f2] Some by blast
  qed
qed

lemma save_repr:
  assumes cd: "json_text cd" and good: "good_name n" and n: "po_name policy = n"
    and repr: "name_repr cd key dir files n vs"
  obtains pv files' where "store_save cd key dir ts policy author change files = (Inr pv, files')"
    and "pv_policy pv = policy" and "name_repr cd key dir files' n (vs @ [pv])"
    and "\<And>m f. m \<noteq> n \<Longrightarrow> dget files' (dir @ [m, f]) = dget files (dir @ [m, f])"
proof -
  obtain ws where ws: "list_versions_of cd dir files n = Inr ws" "set ws = set vs"
    using listed_versions [OF cd repr] by blast
  define pv where "pv = \<lparr>pv_policy = policy, pv_version = int (Suc (length vs)), pv_author = author, pv_timestamp = ts,
    pv_change = change, pv_hash = hash_policy cd policy\<rparr>"
  define files1 where "files1 = dset (dir @ [n, ''latest.json'']) (version_text cd pv)
    (dset (dir @ [n, vfile (length vs)]) (version_text cd pv) files)"
  have nosig: "key = None \<longrightarrow> (\<forall>f. dget files (dir @ [n, f @ ''.sig'']) = None)"
    using repr unfolding name_repr_def by blast
  obtain files2 where sign: "sign_both cd key ts (dir @ [n, vfile (length vs)]) (dir @ [n, ''latest.json'']) files1 = Inr files2"
    and newf: "\<And>f. f = vfile (length vs) \<or> f = ''latest.json'' \<Longrightarrow> dget files2 (dir @ [n, f]) = Some (version_text cd pv) \<and>
           verify_companion cd key files2 (dir @ [n, f]) = Inr True"
    and old: "\<And>m f. m \<noteq> n \<or> f \<notin> {vfile (length vs), ''latest.json'', vfile (length vs) @ ''.sig'', ''latest.json.sig''} \<Longrightarrow>
           dget files2 (dir @ [m, f]) = dget files (dir @ [m, f])"
    and sig: "key = None \<longrightarrow> (\<forall>f. dget files2 (dir @ [n, f @ ''.sig'']) = None)"
    using write_version [OF cd nosig files1_def] by blast
  have save: "store_save cd key dir ts policy author change files = (Inr pv, files2)"
    using good n ws sign next_version_repr [OF repr ws(2)]
    by (simp add: store_save_def Let_def good_name_def pv_def files1_def vfile_def)
  have vold: "dget files2 (dir @ [n, vfile i]) = dget files (dir @ [n, vfile i])"
      "dget files2 (dir @ [n, vfile i @ ''.sig'']) = dget files (dir @ [n, vfile i @ ''.sig''])" if i: "i < length vs" for i
  proof -
    have "vfile i \<noteq> vfile (length vs)" "vfile i @ ''.sig'' \<noteq> vfile (length vs) @ ''.sig''"
      using i vfile_inj [of i "length vs"] append_same_eq [of "vfile i" "''.sig''" "vfile (length vs)"] by blast+
    then have "vfile i \<notin> {vfile (length vs), ''latest.json'', vfile (length vs) @ ''.sig'', ''latest.json.sig''}"
        "vfile i @ ''.sig'' \<notin> {vfile (length vs), ''latest.json'', vfile (length vs) @ ''.sig'', ''latest.json.sig''}"
      using vfile_names(2,3,6) [of i] sig_names(1) [of i "vfile (length vs)"] sig_names(1) [of "length vs" "vfile i"]
        sig_names(3) [of i] by (metis empty_iff insert_iff)+
    then show "dget files2 (dir @ [n, vfile i]) = dget files (dir @ [n, vfile i])"
        "dget files2 (dir @ [n, vfile i @ ''.sig'']) = dget files (dir @ [n, vfile i @ ''.sig''])"
      using old [of n "vfile i"] old [of n "vfile i @ ''.sig''"] by blast+
  qed
  have stored_old: "stored cd key files2 (dir @ [n, vfile i]) (vs ! i)" if "i < length vs" for i
    using vold [OF that] name_repr_file(1,2) [OF repr that]
      verify_companion_cong [of files2 "dir @ [n, vfile i]" files cd key] by (simp add: stored_def)
  have "name_repr cd key dir files2 n (vs @ [pv])"
    unfolding name_repr_def
  proof (intro conjI allI impI)
    fix i assume i: "i < length (vs @ [pv])"
    then consider (old) "i < length vs" | (new) "i = length vs" by fastforce
    then have "pv_version ((vs @ [pv]) ! i) = int (Suc i) \<and> po_name (pv_policy ((vs @ [pv]) ! i)) = n \<and>
        stored cd key files2 (dir @ [n, vfile i]) ((vs @ [pv]) ! i)"
    proof cases
      case old
      then have "(vs @ [pv]) ! i = vs ! i" by (simp add: nth_append)
      then show ?thesis using name_repr_file(3,4) [OF repr old] stored_old [OF old] by simp
    next
      case new
      then have "(vs @ [pv]) ! i = pv" by simp
      moreover have "stored cd key files2 (dir @ [n, vfile i]) pv"
        using newf [of "vfile (length vs)"] new unfolding stored_def by blast
      ultimately show ?thesis using new n by (simp add: pv_def)
    qed
    then show "pv_version ((vs @ [pv]) ! i) = int (Suc i)"
      and "po_name (pv_policy ((vs @ [pv]) ! i)) = n"
      and "stored cd key files2 (dir @ [n, vfile i]) ((vs @ [pv]) ! i)"
      by blast+
  next
    fix f assume f: "is_version_file f" "dget files2 (dir @ [n, f]) \<noteq> None"
    show "\<exists>i < length (vs @ [pv]). f = vfile i"
    proof (cases "f = vfile (length vs)")
      case False
      have "f \<notin> {''latest.json'', vfile (length vs) @ ''.sig'', ''latest.json.sig''}"
        using f(1) vfile_names(4) vfile_names(5) [of "vfile (length vs)"] vfile_names(5) [of "''latest.json''"]
        by (metis append_Cons append_Nil empty_iff insertE)
      then have "dget files (dir @ [n, f]) \<noteq> None" using old [of n f] f(2) False by auto
      then show ?thesis using name_repr_only [OF repr f(1)] by (auto intro: less_SucI)
    qed auto
  next
    show "if vs @ [pv] = [] then dget files2 (dir @ [n, ''latest.json'']) = None
      else stored cd key files2 (dir @ [n, ''latest.json'']) (last (vs @ [pv]))"
      using newf [of "''latest.json''"] by (simp add: stored_def)
  next
    fix f assume "key = None"
    then show "dget files2 (dir @ [n, f @ ''.sig'']) = None" using sig by blast
  qed
  then show thesis
    using that [of pv files2] save old by (simp add: pv_def)
qed

definition store_inv :: "policy_codec \<Rightarrow> string option \<Rightarrow> fpath \<Rightarrow> fs \<Rightarrow> (string \<Rightarrow> l3_policy list) \<Rightarrow> bool" where
  "store_inv cd key dir files h \<longleftrightarrow>
     (\<forall>n. good_name n \<longrightarrow> (\<exists>vs. name_repr cd key dir files n vs \<and> map pv_policy vs = h n))"

lemma store_inv_save:
  assumes cd: "json_text cd" and inv: "store_inv cd key dir files h" and good: "good_name (po_name p)"
  shows "store_inv cd key dir (snd (store_save cd key dir ts p author change files)) (h(po_name p := h (po_name p) @ [p]))"
proof -
  obtain vs where vs: "name_repr cd key dir files (po_name p) vs" "map pv_policy vs = h (po_name p)"
    using inv good by (auto simp: store_inv_def)
  obtain pv files' where save: "store_save cd key dir ts p author change files = (Inr pv, files')" "pv_policy pv = p"
      "name_repr cd key dir files' (po_name p) (vs @ [pv])"
    and old: "\<And>m f. m \<noteq> po_name p \<Longrightarrow> dget files' (dir @ [m, f]) = dget files (dir @ [m, f])"
    using save_repr [OF cd good refl vs(1)] by blast
  have "\<exists>ws. name_repr cd key dir files' m ws \<and> map pv_policy ws = (h(po_name p := h (po_name p) @ [p])) m"
    if "good_name m" for m
  proof (cases "m = po_name p")
    case True
    then show ?thesis using save(2,3) vs(2) by (intro exI [of _ "vs @ [pv]"]) simp
  next
    case False
    then show ?thesis using inv that name_repr_cong [of files' dir m files cd key] old by (simp add: store_inv_def)
  qed
  then show ?thesis using save(1) by (simp add: store_inv_def)
qed

lemma save_refused: "\<not> good_name (po_name p) \<Longrightarrow> snd (store_save cd key dir ts p author change files) = files"
  by (cases "validate_policy_name (po_name p)") (auto simp: store_save_def Let_def good_name_def)

lemma store_inv_step:
  assumes cd: "json_text cd" and inv: "store_inv cd key dir files h"
  shows "store_inv cd key dir (store_step cd key dir files sop) (history_step h sop)"
proof (cases sop)
  case (SavePolicy ts p author change)
  then show ?thesis using store_inv_save [OF cd inv] save_refused inv by simp
next
  case (RollbackPolicy ts n v author)
  show ?thesis
  proof (cases "good_name n")
    case False
    then have "store_rollback cd key dir ts n v author files = (Inl (projl (validate_policy_name n)), files)"
      by (cases "validate_policy_name n") (auto simp: store_rollback_def store_load_def good_name_def)
    then show ?thesis using RollbackPolicy False inv by simp
  next
    case True
    obtain vs where vs: "name_repr cd key dir files n vs" "map pv_policy vs = h n"
      using inv True by (auto simp: store_inv_def)
    have len: "length (h n) = length vs" using vs(2) by (metis length_map)
    show ?thesis
    proof (cases "1 \<le> v \<and> v \<le> int (length vs)")
      case False
      then show ?thesis
        using RollbackPolicy inv load_version [OF cd vs(1) True, of v] len by (auto simp: store_rollback_def)
    next
      case range: True
      then have i: "nat (v - 1) < length vs" by auto
      let ?p = "pv_policy (vs ! nat (v - 1))"
      have p: "po_name ?p = n" "?p = h n ! nat (v - 1)"
        using name_repr_file(4) [OF vs(1) i] i vs(2) by (metis, metis nth_map)
      have "snd (store_rollback cd key dir ts n v author files) =
          snd (store_save cd key dir ts ?p author (''Rollback to v'' @ show_int v) files)"
        using range load_version [OF cd vs(1) True, of v] by (simp add: store_rollback_def split_beta)
      moreover have "history_step h sop = h(po_name ?p := h (po_name ?p) @ [?p])"
        using RollbackPolicy True range len p by simp
      ultimately show ?thesis
        using store_inv_save [OF cd inv, of ?p] p(1) True RollbackPolicy by simp
    qed
  qed
qed

lemma store_inv_run:
  assumes "json_text cd"
  shows "store_inv cd key dir files h \<Longrightarrow>
    store_inv cd key dir (foldl (store_step cd key dir) files sops) (foldl history_step h sops)"
  by (induction sops arbitrary: files h) (auto intro: store_inv_step [OF assms])

lemma store_inv_empty: "store_inv cd key dir [] (\<lambda>_. [])"
  by (simp add: store_inv_def name_repr_def)

text \<open>
  C37. The store is a history: after any sequence of saves and rollbacks on an empty directory, with or
  without a signing key, loading version \<open>v\<close> of a name gives exactly the \<open>v\<close>-th policy saved under it, loading
  without a number the last one, and the sandbox loads that same policy by its name with its signature
  verified.
\<close>

theorem store_refines_history:
  assumes "json_text cd" and "good_name n"
    and "files = foldl (store_step cd key dir) [] sops" and "h = foldl history_step (\<lambda>_. []) sops n"
  shows "map_sum id (map_option pv_policy) (store_load cd key dir files n (Some v) True) =
      Inr (if 1 \<le> v \<and> v \<le> int (length h) then Some (h ! nat (v - 1)) else None) \<and>
    map_sum id (map_option pv_policy) (store_load cd key dir files n None True) = Inr (if h = [] then None else Some (last h)) \<and>
    load_policy cd key dir files path (Some n) True = (if h = [] then Inl OSError else Inr (last h))"
proof -
  obtain vs where vs: "name_repr cd key dir files n vs" "map pv_policy vs = h"
    using store_inv_run [OF assms(1) store_inv_empty, of key dir sops] assms(2-4) by (auto simp: store_inv_def)
  have h: "length h = length vs" "h = [] \<longleftrightarrow> vs = []" "vs \<noteq> [] \<Longrightarrow> last h = pv_policy (last vs)"
    using vs(2) by (auto simp: last_map)
  have missing: "load_policy cd key dir files path (Some n) True = Inl OSError" if "vs = []"
  proof -
    have "dget files (dir @ [n, ''latest.json'']) = None" using vs(1) that unfolding name_repr_def by simp
    moreover have "\<not> bad_policy_name n" "dget NAMED_POLICIES n = None"
      using assms(2) by (auto simp: good_name_def validate_policy_name_def split: if_splits)
    ultimately show ?thesis by (simp add: load_policy_def)
  qed
  have "h ! nat (v - 1) = pv_policy (vs ! nat (v - 1))" if "1 \<le> v \<and> v \<le> int (length vs)"
    using that vs(2) by auto
  then show ?thesis
    using load_version [OF assms(1) vs(1) assms(2), of v] load_latest [OF assms(1) vs(1) assms(2)]
      sandbox_loads_latest [OF assms(1) vs(1) assms(2), of path] missing h by auto
qed

theorem store_refines_history_witness:
  "map_sum id (map_option pv_policy) (store_load unary_json (Some ''k'') [''d'']
     (foldl (store_step unary_json (Some ''k'') [''d'']) []
       [SavePolicy ''t'' (demo_policy []) ''ann'' '''', SavePolicy ''t'' (demo_policy [demo_rule ''a'' []]) ''ann'' '''',
        RollbackPolicy ''t'' ''p'' 1 ''bob'']) ''p'' None True) = Inr (Some (demo_policy []))"
proof -
  have good: "good_name ''p''" by code_simp
  have hist: "foldl history_step (\<lambda>_. []) [SavePolicy ''t'' (demo_policy []) ''ann'' '''',
      SavePolicy ''t'' (demo_policy [demo_rule ''a'' []]) ''ann'' '''', RollbackPolicy ''t'' ''p'' 1 ''bob''] ''p'' =
      [demo_policy [], demo_policy [demo_rule ''a'' []], demo_policy []]"
    using good by (simp add: demo_policy_def)
  show ?thesis
    using store_refines_history [OF unary_json_text good refl hist [symmetric], of "Some ''k''" "[''d'']"] by simp
qed

text \<open>
  With the copy of the newest version deleted, a load falls back to the version files without looking at
  their signatures: a file the key does not verify is returned.
\<close>

lemma missing_latest_skips_verification:
  assumes "good_name n" and "dget files (dir @ [n, ''latest.json'']) = None"
  shows "store_load cd key dir files n None True = store_load cd key dir files n None False"
  using assms by (simp add: store_load_def good_name_def)

text \<open>A version file with an unknown target makes every save of the policy fail.\<close>

lemma bad_version_blocks_saves:
  assumes "good_name (po_name p)" and "list_versions_of cd dir files (po_name p) = Inl x"
  shows "store_save cd key dir ts p author change files = (Inl x, files)"
  using assms by (simp add: store_save_def good_name_def Let_def)

end
