(* ===== verification/Spec2Isabelle.thy ===== *)
theory Spec2Isabelle
  imports Token_Bucket Sliding_Window Ddos_Shield Job_Queue Cluster_Manager Audit_Chain
    Scan_Policy Firewall Rbac Typosquat L4_Engine Scheduler Advisory Tenant_Jobs Serve_Routes Policy_Store
begin

text \<open>
  Verification of PicoSentry, a supply-chain security tool with four parts: \<open>scan\<close> finds suspicious
  packages in a source tree, \<open>sandbox\<close> runs commands under a policy and judges what they did, \<open>serve\<close> is
  a dashboard server, and \<open>firewall\<close> and \<open>watch\<close> are proxies in front of package registries and
  language models. This development models the components of \<open>src/picosentry/\<close> that keep state or
  decide something, and states what makes each of them correct.

  \<^bold>\<open>Theories and sources.\<close>
  \<^item> \<open>Prelude\<close>, \<open>Py_Strings\<close>, \<open>Py_Stdlib\<close>, \<open>Py_Regex\<close>, \<open>Heapq\<close>: the parts of Python and its library the code
    rests on (insertion-ordered dictionaries, exceptions, decoded JSON, string methods, \<open>urlsplit\<close>,
    \<open>fnmatch\<close>, regular expressions, \<open>heapq\<close>), with the locales \<open>keyed_table\<close>, \<open>metered_resource\<close> and
    \<open>weak_order\<close> that several components interpret.
  \<^item> \<open>Token_Bucket\<close> (\<open>sandbox/ratelimit/limiter.py\<close>), \<open>Sliding_Window\<close> (\<open>watch/ratelimit.py\<close>), \<open>Ddos_Shield\<close>
    (\<open>serve/middleware/ddos_shield.py\<close>): three rate limiters. Over every workload no client is granted
    more than its limit, whatever evictions happen in between.
  \<^item> \<open>Job_Queue\<close> (\<open>sandbox/ratelimit/queue.py\<close>): the bounded priority queue over an explicit object
    store. Reachable states respect the capacity and the heap order, a dequeue returns a most urgent
    job, a purge never raises.
  \<^item> \<open>Cluster_Models\<close>, \<open>Token_Store\<close>, \<open>Cluster_State\<close>, \<open>Cluster_Manager\<close> (\<open>sandbox/cluster/\<close>): nodes, scans,
    shared tokens and gossip. Rotations keep trust, a merge needs a shared token, one exchange makes
    two states agree, failover and health checks touch exactly the nodes they should.
  \<^item> \<open>Tenant\<close>, \<open>Scan_Job_Store\<close>, \<open>Tenant_Jobs\<close> (\<open>sandbox/tenant/\<close>, \<open>sandbox/daemon/store.py\<close>, \<open>job_store.py\<close> and
    the handlers that read jobs): tenants, the bounded store of scan jobs mirrored in a file, and the
    wrapper that keeps tenants apart (locales \<open>partitioned_keys\<close> and \<open>job_backend\<close>). Requests stay within
    their tenant, a restart restores the jobs, the file stays within twice the size of the store.
  \<^item> \<open>Audit_Chain\<close> (\<open>serve/services/audit_chain.py\<close>, \<open>audit_cleanup.py\<close>): the hash-chained audit log and its
    retention. Honest logs verify, deletions are detected; two ways in which purging breaks this.
  \<^item> \<open>Scan_Models\<close>, \<open>Scan_Policy\<close> (\<open>scan/models.py\<close>, \<open>scan/policy_pkg/\<close>): findings, results, baselines and
    policies. Serialisation is deterministic; the exact condition under which a scan passes.
  \<^item> \<open>Edit_Distance\<close>, \<open>Corpus_Index\<close>, \<open>Typosquat\<close> (\<open>scan/rules/typosquat_utils.py\<close>, \<open>corpus_index.py\<close>,
    \<open>typosquat.py\<close>): the distances, the indexed search and the rule built on it. The dynamic programs
    compute least edit costs (locale \<open>edit_cost\<close>), the banded trie walk and the delete index return
    exactly the brute-force matches in every state of the incremental build, and the rule reports
    exactly the dependencies with a close popular name.
  \<^item> \<open>Advisory\<close> (\<open>scan/advisory.py\<close>): versions, OSV records and the lookup of a package. Versions survive
    writing and reading, a lookup returns exactly the matching advisories, ranges of one interval agree
    with the OSV specification; the ranges and versions that hide an advisory.
  \<^item> \<open>Verdict_Cache\<close>, \<open>Firewall\<close> (\<open>firewall/\<close>): verdicts agree with findings, dangerous packages are
    refused; the requests that pass unscanned.
  \<^item> \<open>Rbac\<close> (\<open>serve/services/rbac.py\<close>): roles and permissions.
  \<^item> \<open>Auth_Service\<close>, \<open>Auth_Traces\<close> (\<open>serve/services/auth.py\<close>): signing keys, passwords and lockout, time-based
    codes, revocation, passkeys and API keys on both databases, and the histories of all their calls.
    The lockout bounds guessing, a code is spent once, revoked tokens and rotated keys stay refused, a
    token outlives the rotation of the signing keys; what differs on Postgres.
  \<^item> \<open>Orgs\<close> (\<open>serve/services/orgs.py\<close>): organisations, memberships and tiers. The owner stays an
    administrator, the quotas hold (locale \<open>quota_guard\<close> for members, projects and runs).
  \<^item> \<open>Serve_Routes\<close> (\<open>serve/api/deps.py\<close>, \<open>routers/auth.py\<close>, \<open>routers/orgs.py\<close>): credentials and the handlers over
    these services. Bearer tokens act in their user's organisations; API keys do not, and a viewer can
    obtain an administrator key.
  \<^item> \<open>Scheduler\<close> (\<open>serve/services/scheduler.py\<close>): recurring jobs over the shared tables and the leader's
    lease. One leader at a time, no job queued twice, a run of the queue returns; what a refresh does
    to jobs changed through other workers.
  \<^item> \<open>L4_Models\<close>, \<open>L4_Rules\<close>, \<open>L4_Engine\<close> (\<open>sandbox/l4/\<close>): profiles of a run, baselines, the fifteen detectors
    and the engine. A failing detector is contained, the verdict is a function of the findings, known
    attacks are MALICIOUS; the severities of the drift and container rules as the code computes them.
  \<^item> \<open>Policy_Signing\<close>, \<open>L3_Policy\<close>, \<open>Policy_Store\<close> (\<open>sandbox/policy_versioned/\<close>, \<open>sandbox/l3/policy.py\<close>,
    \<open>models.py\<close>, \<open>policy_hash.py\<close>): sandbox policies, their signatures and the versioned store over a
    dictionary of files. The store refines a list of policies per name, export and import are inverse on
    valid policies, the hash identifies a policy up to order, and which texts verify after signing.

  \<^bold>\<open>How the code is modelled.\<close> A class is a record, its methods are functions from the state to the result
  and the new state; an exception is the left injection of \<open>py_result\<close>. Floats are rationals. An
  operation that holds a lock is one step and reads the clock once; operations of several threads are
  interleavings of such steps. Objects are values, except in \<open>Job_Queue\<close>, where the heap and the registry
  share them and a store of objects is explicit. Strings are lists of 8-bit characters with ASCII case;
  a Python set is a list without duplicates whose order no statement depends on. Logging, metrics and
  audit side effects are left out.

  \<^bold>\<open>Parameters.\<close> HMAC and SHA-256, JSON text, date parsing, random identifiers, \<open>urlopen\<close>, the scan
  engine behind the firewall, manifest parsers, \<open>math.log2\<close> and the rendering of floats are arguments
  of the definitions that use them; what a theorem needs of them is a hypothesis with a witness.

  \<^bold>\<open>Termination.\<close> Every loop is a structural recursion, a fold, or a \<open>function\<close> with a measure (the trie
  walk, the sifts of \<open>heapq\<close>, \<open>fnmatch\<close>); no definition uses fuel.

  \<^bold>\<open>Not modelled.\<close> Command lines, output formats, HTTP and gRPC servers, SQL schemas and web sockets are
  input and output around the components; the kernel backends of the sandbox are the behaviour of
  system calls; the detectors over file contents and the manifest parsers are mostly regular
  expressions over files; the corpus tables are data; classifiers of the prompt guard need Unicode
  normalisation. The manifest lists every file with its reason.
\<close>

end
